(* ===== verification/Prelude.thy ===== *)
theory Prelude
  imports Main "HOL-Library.Word" "HOL-Library.Signed_Division" "HOL-Library.Char_ord"
    "HOL-Library.List_Lexorder"
begin

text \<open>
  Shared vocabulary of the development: the machine types of the Rust sources, the
  \<^verbatim>\<open>Result\<close> and \<^verbatim>\<open>Option\<close> plumbing (with \<^verbatim>\<open>Inl\<close> for an error), a state-and-error
  monad for code that mutates \<^verbatim>\<open>&mut self\<close> and uses the question-mark operator, the checked,
  wrapping and saturating integer operations of the standard library, slices, little-endian
  bytes, and the UTF-8 check of \<^verbatim>\<open>core::str::from_utf8\<close>.

  Conventions. Fixed-width unsigned integers are words; \<^verbatim>\<open>i64\<close> is a 64-bit word read with
  \<^verbatim>\<open>sint\<close>; \<^verbatim>\<open>i128\<close> is an \<^verbatim>\<open>int\<close> whose every arithmetic operation is range-checked, as the
  sources do with \<^verbatim>\<open>checked_*\<close>; \<^verbatim>\<open>usize\<close> values are lengths and indices of in-memory slices and
  are naturals.  A Rust \<^verbatim>\<open>String\<close> is its UTF-8 byte sequence, written as an Isabelle
  \<^verbatim>\<open>string\<close>, one \<^verbatim>\<open>char\<close> per byte.
\<close>

unbundle bit_operations_syntax

named_theorems result_simps
named_theorems arith_ops

type_synonym u8 = "8 word"
type_synonym u16 = "16 word"
type_synonym u32 = "32 word"
type_synonym u64 = "64 word"
type_synonym i64 = "64 word"

section \<open>Results and options\<close>

definition and_then :: "'e + 'a \<Rightarrow> ('a \<Rightarrow> 'e + 'b) \<Rightarrow> 'e + 'b" where
  "and_then r k = (case r of Inl e \<Rightarrow> Inl e | Inr x \<Rightarrow> k x)"

definition ok_or :: "'a option \<Rightarrow> 'e \<Rightarrow> 'e + 'a" where
  "ok_or m e = (case m of None \<Rightarrow> Inl e | Some x \<Rightarrow> Inr x)"

definition map_err :: "('e \<Rightarrow> 'f) \<Rightarrow> 'e + 'a \<Rightarrow> 'f + 'a" where
  "map_err g r = (case r of Inl e \<Rightarrow> Inl (g e) | Inr x \<Rightarrow> Inr x)"

definition is_ok :: "'e + 'a \<Rightarrow> bool" where
  "is_ok r = (case r of Inl _ \<Rightarrow> False | Inr _ \<Rightarrow> True)"

lemma and_then_simps [simp]:
  "and_then (Inl e) k = Inl e"
  "and_then (Inr x) k = k x"
  by (simp_all add: and_then_def)

lemma and_then_if [result_simps]:
  "and_then (if b then r else s) k = (if b then and_then r k else and_then s k)"
  by simp

lemma and_then_Inr_iff [result_simps]:
  "and_then r k = Inr y \<longleftrightarrow> (\<exists>x. r = Inr x \<and> k x = Inr y)"
  by (cases r) simp_all

lemma and_then_InrE [elim!]:
  assumes "and_then r k = Inr y"
  obtains x where "r = Inr x" "k x = Inr y"
  using assms by (auto simp: and_then_Inr_iff)

lemma and_then_assoc: "and_then (and_then r k) l = and_then r (\<lambda>x. and_then (k x) l)"
  by (cases r) simp_all

lemma ok_or_simps [simp]: "ok_or None e = Inl e" "ok_or (Some x) e = Inr x"
  by (simp_all add: ok_or_def)

lemma ok_or_Inr_iff [result_simps]: "ok_or m e = Inr x \<longleftrightarrow> m = Some x"
  by (cases m) simp_all

lemma map_err_simps [simp]: "map_err g (Inl e) = Inl (g e)" "map_err g (Inr x) = Inr x"
  by (simp_all add: map_err_def)

lemma map_err_Inr_iff [result_simps]: "map_err g r = Inr x \<longleftrightarrow> r = Inr x"
  by (cases r) simp_all

lemma is_ok_simps [simp]: "\<not> is_ok (Inl e)" "is_ok (Inr x)"
  by (simp_all add: is_ok_def)

lemma is_ok_iff: "is_ok r \<longleftrightarrow> (\<exists>x. r = Inr x)"
  by (cases r) simp_all

section \<open>State and error\<close>

text \<open>
  A method on \<^verbatim>\<open>&mut self\<close> that returns a \<^verbatim>\<open>Result\<close> maps a state to a result and the state left
  behind, on error as well.  \<^verbatim>\<open>st_do\<close> runs a list of unit steps as the statements
  \<^verbatim>\<open>step?;\<close> of a Rust block.
\<close>

type_synonym ('s, 'e, 'a) st = "'s \<Rightarrow> ('e + 'a) \<times> 's"

definition st_ok :: "'a \<Rightarrow> ('s, 'e, 'a) st" where
  "st_ok x s = (Inr x, s)"

definition st_err :: "'e \<Rightarrow> ('s, 'e, 'a) st" where
  "st_err e s = (Inl e, s)"

definition st_bind :: "('s, 'e, 'a) st \<Rightarrow> ('a \<Rightarrow> ('s, 'e, 'b) st) \<Rightarrow> ('s, 'e, 'b) st" where
  "st_bind m k s = (case m s of (Inl e, s') \<Rightarrow> (Inl e, s') | (Inr x, s') \<Rightarrow> k x s')"

primrec st_do :: "('s, 'e, unit) st list \<Rightarrow> ('s, 'e, unit) st" where
  "st_do [] = st_ok ()"
| "st_do (m # ms) = st_bind m (\<lambda>_. st_do ms)"

lemma st_simps [simp]:
  "st_ok x s = (Inr x, s)"
  "st_err e s = (Inl e, s)"
  by (simp_all add: st_ok_def st_err_def)

lemma st_bind_ok [simp]: "m s = (Inr x, s') \<Longrightarrow> st_bind m k s = k x s'"
  by (simp add: st_bind_def)

lemma st_bind_err [simp]: "m s = (Inl e, s') \<Longrightarrow> st_bind m k s = (Inl e, s')"
  by (simp add: st_bind_def)

lemma st_bind_InrE:
  assumes "st_bind m k s = (Inr y, s'')"
  obtains x s' where "m s = (Inr x, s')" "k x s' = (Inr y, s'')"
  using assms by (auto simp: st_bind_def split: prod.splits sum.splits)

lemma st_do_append: "st_do (ms @ ns) = st_bind (st_do ms) (\<lambda>_. st_do ns)"
proof (induction ms)
  case Nil
  show ?case by (rule ext) (simp add: st_bind_def)
next
  case (Cons m ms)
  show ?case
    by (rule ext) (simp add: Cons.IH st_bind_def split: prod.splits sum.splits)
qed

section \<open>Integer operations of the standard library\<close>

definition checked_add :: "'a::len word \<Rightarrow> 'a word \<Rightarrow> 'a word option" where
  "checked_add a b = (if unat a + unat b < 2 ^ LENGTH('a) then Some (a + b) else None)"

definition checked_sub :: "'a::len word \<Rightarrow> 'a word \<Rightarrow> 'a word option" where
  "checked_sub a b = (if b \<le> a then Some (a - b) else None)"

definition saturating_add :: "'a::len word \<Rightarrow> 'a word \<Rightarrow> 'a word" where
  "saturating_add a b = (if unat a + unat b < 2 ^ LENGTH('a) then a + b else - 1)"

definition saturating_sub :: "'a::len word \<Rightarrow> 'a word \<Rightarrow> 'a word" where
  "saturating_sub a b = (if b \<le> a then a - b else 0)"

lemma uint_sub_le [arith_ops]: "b \<le> a \<Longrightarrow> uint (a - b) = uint a - uint b"
  by (simp add: uint_sub_if' word_le_def)

lemma unat_sum_fits_iff:
  "unat a + unat b < 2 ^ LENGTH('a) \<longleftrightarrow> uint a + uint b < 2 ^ LENGTH('a)"
  for a b :: "'a::len word"
proof -
  have "unat a + unat b < 2 ^ LENGTH('a) \<longleftrightarrow> int (unat a + unat b) < int (2 ^ LENGTH('a))"
    by (simp only: of_nat_less_iff)
  then show ?thesis by simp
qed

lemma uint_add_fits [arith_ops]:
  "uint a + uint b < 2 ^ LENGTH('a) \<Longrightarrow> uint (a + b) = uint a + uint b"
  for a b :: "'a::len word"
  by (simp add: uint_add_lem)

lemma checked_add_Some_iff [arith_ops]:
  "checked_add a b = Some c \<longleftrightarrow> uint a + uint b < 2 ^ LENGTH('a) \<and> c = a + b"
  for a b c :: "'a::len word"
  by (auto simp: checked_add_def unat_sum_fits_iff)

text \<open>Executed without leaving the word type.\<close>

lemma checked_add_code [code]: "checked_add a b = (if a \<le> a + b then Some (a + b) else None)"
  by (simp add: checked_add_def unat_sum_fits_iff no_olen_add)

lemma saturating_add_code [code]: "saturating_add a b = (if a \<le> a + b then a + b else - 1)"
  by (simp add: saturating_add_def unat_sum_fits_iff no_olen_add)

lemma checked_add_uint:
  "checked_add a b = Some c \<Longrightarrow> uint c = uint a + uint b"
  by (auto simp: checked_add_Some_iff uint_add_lem)

lemma checked_sub_Some_iff [arith_ops]:
  "checked_sub a b = Some c \<longleftrightarrow> uint b \<le> uint a \<and> c = a - b"
  by (auto simp: checked_sub_def word_le_def)

lemma checked_sub_uint:
  "checked_sub a b = Some c \<Longrightarrow> uint c = uint a - uint b"
  by (auto simp: checked_sub_def uint_sub_le split: if_splits)

lemma uint_saturating_sub: "uint (saturating_sub a b) = max 0 (uint a - uint b)"
  by (auto simp: saturating_sub_def uint_sub_le word_le_def max_def)

lemma uint_saturating_add:
  "uint (saturating_add a b) = min (2 ^ LENGTH('a) - 1) (uint a + uint b)"
  for a b :: "'a::len word"
proof (cases "uint a + uint b < 2 ^ LENGTH('a)")
  case True
  then show ?thesis
    using uint_add_fits [OF True] by (simp add: saturating_add_def unat_sum_fits_iff min_def)
next
  case False
  moreover have "uint (- 1 :: 'a word) = 2 ^ LENGTH('a) - 1"
    by (simp add: unsigned_minus_1_eq_mask mask_eq_exp_minus_1)
  ultimately show ?thesis
    by (simp add: saturating_add_def unat_sum_fits_iff min_def)
qed

text \<open>Signed 64-bit operations, on words read as two's complement.\<close>

definition i64_min :: int where [simp]: "i64_min = - (2 ^ 63)"

definition i64_max :: int where [simp]: "i64_max = 2 ^ 63 - 1"

definition i64_saturating_add :: "i64 \<Rightarrow> i64 \<Rightarrow> i64" where
  "i64_saturating_add a b = word_of_int (max i64_min (min i64_max (sint a + sint b)))"

text \<open>An unchecked operation that would leave the range panics in a checked build.\<close>

definition i64_fit :: "int \<Rightarrow> int option" where
  "i64_fit k = (if i64_min \<le> k \<and> k \<le> i64_max then Some k else None)"

lemma sint_word_of_int_64:
  "i64_min \<le> k \<Longrightarrow> k \<le> i64_max \<Longrightarrow> sint (word_of_int k :: 64 word) = k"
  by (simp add: signed_of_int signed_take_bit_int_eq_self_iff)

lemma sint_i64_saturating_add:
  "sint (i64_saturating_add a b) = max i64_min (min i64_max (sint a + sint b))"
  unfolding i64_saturating_add_def by (rule sint_word_of_int_64) auto

text \<open>
  Signed 128-bit operations: an \<^verbatim>\<open>i128\<close> is an \<^verbatim>\<open>int\<close> in range, each operation of the sources is
  one of the checked ones and gives \<^verbatim>\<open>None\<close> where the exact result is out of range.
\<close>

type_synonym i128 = int

definition in_i128 :: "int \<Rightarrow> bool" where
  "in_i128 k \<longleftrightarrow> - (2 ^ 127) \<le> k \<and> k < 2 ^ 127"

definition i128_fit :: "int \<Rightarrow> i128 option" where
  "i128_fit k = (if in_i128 k then Some k else None)"

definition i128_checked_add :: "i128 \<Rightarrow> i128 \<Rightarrow> i128 option" where
  "i128_checked_add a b = i128_fit (a + b)"

definition i128_checked_sub :: "i128 \<Rightarrow> i128 \<Rightarrow> i128 option" where
  "i128_checked_sub a b = i128_fit (a - b)"

definition i128_checked_mul :: "i128 \<Rightarrow> i128 \<Rightarrow> i128 option" where
  "i128_checked_mul a b = i128_fit (a * b)"

definition i128_checked_neg :: "i128 \<Rightarrow> i128 option" where
  "i128_checked_neg a = i128_fit (- a)"

definition i128_checked_abs :: "i128 \<Rightarrow> i128 option" where
  "i128_checked_abs a = i128_fit \<bar>a\<bar>"

definition i128_checked_div :: "i128 \<Rightarrow> i128 \<Rightarrow> i128 option" where
  "i128_checked_div a b = (if b = 0 then None else i128_fit (a sdiv b))"

text \<open>\<^verbatim>\<open>checked_rem\<close> fails on a zero divisor and where the division itself overflows.\<close>

definition i128_checked_rem :: "i128 \<Rightarrow> i128 \<Rightarrow> i128 option" where
  "i128_checked_rem a b =
     (if b = 0 \<or> \<not> in_i128 (a sdiv b) then None else Some (a smod b))"

lemma i128_fit_Some [arith_ops]: "i128_fit k = Some r \<longleftrightarrow> in_i128 k \<and> r = k"
  by (auto simp: i128_fit_def)

lemma i128_checked_Some [arith_ops]:
  "i128_checked_add a b = Some r \<longleftrightarrow> in_i128 (a + b) \<and> r = a + b"
  "i128_checked_sub a b = Some r \<longleftrightarrow> in_i128 (a - b) \<and> r = a - b"
  "i128_checked_mul a b = Some r \<longleftrightarrow> in_i128 (a * b) \<and> r = a * b"
  "i128_checked_neg a = Some r \<longleftrightarrow> in_i128 (- a) \<and> r = - a"
  "i128_checked_abs a = Some r \<longleftrightarrow> in_i128 \<bar>a\<bar> \<and> r = \<bar>a\<bar>"
  by (auto simp: i128_checked_add_def i128_checked_sub_def i128_checked_mul_def
      i128_checked_neg_def i128_checked_abs_def i128_fit_Some)

lemma i128_checked_eval:
  "in_i128 (a + b) \<Longrightarrow> i128_checked_add a b = Some (a + b)"
  "in_i128 (a - b) \<Longrightarrow> i128_checked_sub a b = Some (a - b)"
  "in_i128 (a * b) \<Longrightarrow> i128_checked_mul a b = Some (a * b)"
  by (simp_all add: arith_ops)

section \<open>Slices\<close>

text \<open>\<^verbatim>\<open>slice.get(a..b)\<close>: \<^verbatim>\<open>None\<close> unless the range is ordered and in bounds.\<close>

definition get_range :: "'a list \<Rightarrow> nat \<Rightarrow> nat \<Rightarrow> 'a list option" where
  "get_range xs a b = (if a \<le> b \<and> b \<le> length xs then Some (take (b - a) (drop a xs)) else None)"

lemma get_range_Some_iff [result_simps]:
  "get_range xs a b = Some ys \<longleftrightarrow>
     a \<le> b \<and> b \<le> length xs \<and> ys = take (b - a) (drop a xs)"
  by (auto simp: get_range_def)

lemma get_range_append_middle [simp]:
  "get_range (xs @ ys @ zs) (length xs) (length xs + length ys) = Some ys"
  by (simp add: get_range_def)

lemma list_update_split:
  assumes "i < length xs"
  obtains ys zs where "xs = ys @ xs ! i # zs" "length ys = i" "xs[i := x] = ys @ x # zs"
  using assms
  by (metis id_take_nth_drop length_take less_or_eq_imp_le min.absorb2 upd_conv_take_nth_drop)

section \<open>Little-endian bytes\<close>

definition le_bytes :: "nat \<Rightarrow> 'a::len word \<Rightarrow> u8 list" where
  "le_bytes n w = map (\<lambda>i. ucast (drop_bit (8 * i) w)) [0..<n]"

fun of_le_bytes :: "u8 list \<Rightarrow> 'a::len word" where
  "of_le_bytes [] = 0"
| "of_le_bytes (b # bs) = ucast b OR push_bit 8 (of_le_bytes bs)"

lemma length_le_bytes [simp]: "length (le_bytes n w) = n"
  by (simp add: le_bytes_def)

lemma le_bytes_0 [simp]: "le_bytes 0 w = []"
  by (simp add: le_bytes_def)

lemma le_bytes_Suc: "le_bytes (Suc n) w = ucast w # le_bytes n (drop_bit 8 w)"
proof -
  have "le_bytes (Suc n) w = ucast w # map (\<lambda>i. ucast (drop_bit (8 * i) w)) (map Suc [0..<n])"
    by (simp add: le_bytes_def upt_conv_Cons map_Suc_upt del: upt_Suc)
  then show ?thesis
    by (simp add: le_bytes_def comp_def add.commute del: upt_Suc)
qed

lemma bit_of_le_bytes:
  "bit (of_le_bytes bs :: 'a::len word) k \<longleftrightarrow>
     k < LENGTH('a) \<and> k div 8 < length bs \<and> bit (bs ! (k div 8)) (k mod 8)"
proof (induction bs arbitrary: k)
  case Nil
  show ?case by simp
next
  case (Cons b bs)
  show ?case
  proof (cases "k < 8")
    case True
    then show ?thesis
      by (auto simp: bit_simps)
  next
    case False
    then obtain j where k: "k = j + 8" by (metis add.commute le_add_diff_inverse not_less)
    have "\<not> bit b k" using False by (auto dest: bit_imp_le_length)
    moreover have "k div 8 = Suc (j div 8)" "k mod 8 = j mod 8" using k by simp_all
    ultimately show ?thesis
      using k by (auto simp: bit_simps Cons.IH)
  qed
qed

lemma nth_le_bytes [simp]:
  "i < n \<Longrightarrow> le_bytes n w ! i = ucast (drop_bit (8 * i) w)"
  by (simp add: le_bytes_def)

lemma of_le_bytes_le_bytes:
  "LENGTH('a::len) \<le> 8 * n \<Longrightarrow> of_le_bytes (le_bytes n w) = (w :: 'a word)"
  by (rule bit_word_eqI)
    (auto simp: bit_of_le_bytes bit_simps less_mult_imp_div_less mult.commute)

lemma le_bytes_of_le_bytes:
  "8 * length bs \<le> LENGTH('a::len) \<Longrightarrow> le_bytes (length bs) (of_le_bytes bs :: 'a word) = bs"
proof (rule nth_equalityI)
  fix i
  assume len: "8 * length bs \<le> LENGTH('a)"
    and "i < length (le_bytes (length bs) (of_le_bytes bs :: 'a word))"
  then have i: "i < length bs" by simp
  show "le_bytes (length bs) (of_le_bytes bs :: 'a word) ! i = bs ! i"
  proof (rule bit_word_eqI)
    fix k assume "k < LENGTH(8)"
    then have k: "k < 8" by simp
    have *: "8 * i + k < LENGTH('a)" "(8 * i + k) div 8 = i" "(8 * i + k) mod 8 = k"
      using i k len by auto
    show "bit (le_bytes (length bs) (of_le_bytes bs :: 'a word) ! i) k = bit (bs ! i) k"
      using i k * by (simp add: bit_simps bit_of_le_bytes)
  qed
qed simp

text \<open>The instances the wire format uses.\<close>

lemma le_bytes_expand:
  "le_bytes 2 w = [ucast w, ucast (drop_bit 8 w)]"
  "le_bytes 4 w = [ucast w, ucast (drop_bit 8 w), ucast (drop_bit 16 w), ucast (drop_bit 24 w)]"
  by (simp_all add: le_bytes_def numeral_eq_Suc)

lemma le_roundtrip [simp]:
  "of_le_bytes (le_bytes 2 w) = (w :: u16)"
  "of_le_bytes (le_bytes 4 x) = (x :: u32)"
  "of_le_bytes (le_bytes 8 y) = (y :: u64)"
  by (simp_all add: of_le_bytes_le_bytes)

lemma le_roundtrip_bytes:
  "length bs = 2 \<Longrightarrow> le_bytes 2 (of_le_bytes bs :: u16) = bs"
  "length bs = 4 \<Longrightarrow> le_bytes 4 (of_le_bytes bs :: u32) = bs"
  "length bs = 8 \<Longrightarrow> le_bytes 8 (of_le_bytes bs :: u64) = bs"
  using le_bytes_of_le_bytes [of bs, where 'a = 16] le_bytes_of_le_bytes [of bs, where 'a = 32]
    le_bytes_of_le_bytes [of bs, where 'a = 64] by simp_all

section \<open>Strings\<close>

definition as_bytes :: "string \<Rightarrow> u8 list" where
  "as_bytes s = map of_char s"

definition utf8_cont :: "u8 \<Rightarrow> bool" where
  "utf8_cont b \<longleftrightarrow> 0x80 \<le> b \<and> b \<le> 0xBF"

text \<open>
  The well-formedness table of UTF-8 (Unicode, table 3-7), which \<^verbatim>\<open>core::str::from_utf8\<close> checks:
  no overlong forms, no surrogates, nothing above U+10FFFF.
\<close>

fun utf8_valid :: "u8 list \<Rightarrow> bool" where
  "utf8_valid [] = True"
| "utf8_valid (a # bs) =
     (if a < 0x80 then utf8_valid bs
      else if 0xC2 \<le> a \<and> a \<le> 0xDF then
        (case bs of b # cs \<Rightarrow> utf8_cont b \<and> utf8_valid cs | _ \<Rightarrow> False)
      else if 0xE0 \<le> a \<and> a \<le> 0xEF then
        (case bs of b # c # ds \<Rightarrow>
            utf8_cont b \<and> (a = 0xE0 \<longrightarrow> 0xA0 \<le> b) \<and> (a = 0xED \<longrightarrow> b \<le> 0x9F) \<and>
            utf8_cont c \<and> utf8_valid ds
         | _ \<Rightarrow> False)
      else if 0xF0 \<le> a \<and> a \<le> 0xF4 then
        (case bs of b # c # d # es \<Rightarrow>
            utf8_cont b \<and> (a = 0xF0 \<longrightarrow> 0x90 \<le> b) \<and> (a = 0xF4 \<longrightarrow> b \<le> 0x8F) \<and>
            utf8_cont c \<and> utf8_cont d \<and> utf8_valid es
         | _ \<Rightarrow> False)
      else False)"

definition from_utf8 :: "u8 list \<Rightarrow> string option" where
  "from_utf8 bs = (if utf8_valid bs then Some (map (\<lambda>b. char_of (unat b)) bs) else None)"

text \<open>The type invariant of a Rust string.\<close>

definition rust_string :: "string \<Rightarrow> bool" where
  "rust_string s \<longleftrightarrow> utf8_valid (as_bytes s)"

lemma length_as_bytes [simp]: "length (as_bytes s) = length s"
  by (simp add: as_bytes_def)

lemma of_char_of_u8 [simp]: "of_char (char_of (unat b) :: char) = (b :: u8)"
proof -
  have "unat b < 256" using unsigned_less [of b] by simp
  then have "of_nat (of_char (char_of (unat b) :: char)) = (b :: u8)" by simp
  then show ?thesis by (metis of_nat_of_char)
qed

lemma char_of_of_char_u8 [simp]: "char_of (unat (of_char c :: u8)) = c"
proof -
  have "(of_char c :: u8) = of_nat (of_char c)" by (rule of_nat_of_char [symmetric])
  then have "unat (of_char c :: u8) = of_char c"
    using nat_of_char_less_256 [of c] by (simp only: unat_of_nat) simp
  then show ?thesis by simp
qed

lemma from_utf8_Some_iff [result_simps]:
  "from_utf8 bs = Some s \<longleftrightarrow> bs = as_bytes s \<and> rust_string s"
proof -
  have "as_bytes (map (\<lambda>b. char_of (unat b)) bs) = bs"
    by (simp add: as_bytes_def comp_def)
  moreover have "map (\<lambda>b. char_of (unat b)) (as_bytes s) = s"
    by (simp add: as_bytes_def comp_def)
  ultimately show ?thesis
    by (auto simp: from_utf8_def rust_string_def)
qed

lemma from_utf8_as_bytes [simp]: "rust_string s \<Longrightarrow> from_utf8 (as_bytes s) = Some s"
  by (simp add: from_utf8_Some_iff)

section \<open>Numbers in texts\<close>

text \<open>What \<^verbatim>\<open>format!\<close> prints for an unsigned and for a signed integer.\<close>

fun dec_nat :: "nat \<Rightarrow> string" where
  "dec_nat n = (if n < 10 then [char_of (48 + n)] else dec_nat (n div 10) @ [char_of (48 + n mod 10)])"

declare dec_nat.simps [simp del]

definition dec_int :: "int \<Rightarrow> string" where
  "dec_int k = (if k < 0 then ''-'' @ dec_nat (nat (- k)) else dec_nat (nat k))"

end
