(* ===== verification/Checksum.thy ===== *)
theory Checksum
  imports Prelude
begin

text \<open>
  The CRC-32C of \<^verbatim>\<open>control-protocol\<close> (\<^verbatim>\<open>crc32c\<close>), bit by bit as the source computes it, and
  what it detects.  \<^verbatim>\<open>crc_bit\<close> is one round of the inner loop, \<^verbatim>\<open>crc_byte\<close> one round of the outer
  one.  The register update is linear over XOR and invertible, so processing four bytes is one
  invertible function of the register XOR the four bytes: two messages that differ in a window of
  at most four bytes never share a checksum, and a message followed by its own checksum always
  leaves the same residue in the register.
\<close>

section \<open>The computation\<close>

definition crc_poly :: u32 where
  "crc_poly = 0x82f63b78"

definition crc_bit :: "u32 \<Rightarrow> u32" where
  "crc_bit crc = (let mask = 0 - (crc AND 1) in drop_bit 1 crc XOR (crc_poly AND mask))"

definition crc_byte :: "u32 \<Rightarrow> u8 \<Rightarrow> u32" where
  "crc_byte crc byte = (crc_bit ^^ 8) (crc XOR ucast byte)"

definition crc_run :: "u32 \<Rightarrow> u8 list \<Rightarrow> u32" where
  "crc_run crc bytes = foldl crc_byte crc bytes"

definition crc32c :: "u8 list \<Rightarrow> u32" where
  "crc32c bytes = NOT (crc_run (NOT 0) bytes)"

lemma crc_run_simps [simp]:
  "crc_run c [] = c"
  "crc_run c (b # bs) = crc_run (crc_byte c b) bs"
  "crc_run c (bs @ cs) = crc_run (crc_run c bs) cs"
  by (simp_all add: crc_run_def)

section \<open>The register update is linear and invertible\<close>

lemma crc_mask: "0 - (c AND 1 :: u32) = (if bit c 0 then - 1 else 0)"
  by (simp add: and_one_eq mod_2_eq_odd bit_0)

lemma crc_bit_alt: "crc_bit c = drop_bit 1 c XOR (if bit c 0 then crc_poly else 0)"
  by (simp add: crc_bit_def crc_mask Let_def del: diff_0)

lemma bit_crc_bit:
  "bit (crc_bit c) n \<longleftrightarrow> (bit c (Suc n) \<noteq> (bit c 0 \<and> bit crc_poly n))"
  by (auto simp: crc_bit_alt bit_simps)

lemma crc_bit_xor: "crc_bit (a XOR b) = crc_bit a XOR crc_bit b"
  by (rule bit_word_eqI) (auto simp: bit_crc_bit bit_simps)

lemma bit_crc_poly_top: "bit crc_poly 31"
  by (simp add: crc_poly_def)

lemma bit_top_crc_bit: "bit (crc_bit c) 31 = bit c 0"
  using bit_imp_le_length [of c 32] by (auto simp: bit_crc_bit bit_crc_poly_top)

lemma inj_crc_bit: "inj crc_bit"
proof (rule injI)
  fix a b :: u32
  assume eq: "crc_bit a = crc_bit b"
  then have zero: "bit a 0 = bit b 0" by (metis bit_top_crc_bit)
  show "a = b"
  proof (rule bit_word_eqI)
    fix n assume "n < LENGTH(32)"
    show "bit a n = bit b n"
    proof (cases n)
      case (Suc m)
      have "bit (crc_bit a) m = bit (crc_bit b) m" by (simp add: eq)
      then show ?thesis using zero Suc by (auto simp: bit_crc_bit)
    qed (simp add: zero)
  qed
qed

lemma inj_crc_bits: "inj (crc_bit ^^ n)"
proof (induction n)
  case (Suc n)
  then show ?case using inj_compose [OF inj_crc_bit] by (simp del: comp_apply)
qed simp

lemma crc_bits_xor: "(crc_bit ^^ n) (a XOR b) = (crc_bit ^^ n) a XOR (crc_bit ^^ n) b"
  by (induction n) (simp_all add: crc_bit_xor)

lemma crc_bit_push: "\<not> bit c 31 \<Longrightarrow> crc_bit (push_bit 1 c) = c"
proof (rule bit_word_eqI)
  fix n assume top: "\<not> bit c 31" and n: "n < LENGTH(32)"
  show "bit (crc_bit (push_bit 1 c)) n = bit c n"
  proof (cases "n = 31")
    case True
    then show ?thesis using top by (simp only: bit_top_crc_bit bit_push_bit_iff) simp
  next
    case False
    then show ?thesis using n by (simp only: bit_crc_bit bit_push_bit_iff) simp
  qed
qed

lemma crc_bits_push:
  "(\<And>k. 32 - n \<le> k \<Longrightarrow> \<not> bit c k) \<Longrightarrow> n \<le> 32 \<Longrightarrow> (crc_bit ^^ n) (push_bit n c) = c"
proof (induction n arbitrary: c)
  case 0
  show ?case by simp
next
  case (Suc n)
  have push: "push_bit (Suc n) c = push_bit 1 (push_bit n c)" by simp
  have "\<not> bit c (31 - n)" using Suc.prems by auto
  then have "\<not> bit (push_bit n c) 31" using Suc.prems(2) by (simp add: bit_simps)
  then have "crc_bit (push_bit (Suc n) c) = push_bit n c"
    unfolding push by (rule crc_bit_push)
  moreover have "(crc_bit ^^ n) (push_bit n c) = c"
    using Suc.prems by (intro Suc.IH) auto
  ultimately show ?case by (simp add: funpow_Suc_right del: funpow.simps)
qed

section \<open>A run of bytes as one word\<close>

lemma bit_of_le_bytes_high:
  "8 * length bs \<le> k \<Longrightarrow> \<not> bit (of_le_bytes bs :: 'a::len word) k"
  by (auto simp: bit_of_le_bytes)

lemma crc_run_word:
  "length bs \<le> 4 \<Longrightarrow> crc_run c bs = (crc_bit ^^ (8 * length bs)) (c XOR of_le_bytes bs)"
proof (induction bs arbitrary: c)
  case Nil
  show ?case by simp
next
  case (Cons b bs)
  let ?w = "of_le_bytes bs :: u32"
  have fits: "\<not> bit ?w k" if "24 \<le> k" for k
    using that Cons.prems by (intro bit_of_le_bytes_high) simp
  have shift: "(crc_bit ^^ 8) (push_bit 8 ?w) = ?w"
    by (rule crc_bits_push) (simp_all add: fits)
  have split: "of_le_bytes (b # bs) = (ucast b :: u32) XOR push_bit 8 ?w"
    by (rule bit_word_eqI) (auto simp: bit_simps dest: bit_imp_le_length)
  have "(crc_bit ^^ (8 * length (b # bs))) (c XOR of_le_bytes (b # bs)) =
      (crc_bit ^^ (8 * length bs)) ((crc_bit ^^ 8) ((c XOR ucast b) XOR push_bit 8 ?w))"
    by (simp only: split xor.assoc length_Cons mult_Suc_right add.commute [of 8] funpow_add comp_apply)
  also have "\<dots> = (crc_bit ^^ (8 * length bs)) (crc_byte c b XOR ?w)"
    by (simp only: crc_bits_xor [of 8] shift crc_byte_def)
  also have "\<dots> = crc_run (crc_byte c b) bs"
    using Cons.IH [of "crc_byte c b"] Cons.prems by simp
  finally show ?case by simp
qed

lemma xor_left_cancel: "(a :: 'a::len word) XOR b = a XOR c \<longleftrightarrow> b = c"
proof
  assume "a XOR b = a XOR c"
  then have "a XOR (a XOR b) = a XOR (a XOR c)" by simp
  then show "b = c" by (simp flip: xor.assoc)
qed simp

lemma xor_right_cancel: "b XOR (a :: 'a::len word) = c XOR a \<longleftrightarrow> b = c"
  by (metis xor.commute xor_left_cancel)

lemma crc_bits_eq [simp]: "(crc_bit ^^ n) a = (crc_bit ^^ n) b \<longleftrightarrow> a = b"
  by (rule inj_eq [OF inj_crc_bits])

lemma inj_crc_byte: "crc_byte c b = crc_byte d b \<Longrightarrow> c = d"
  unfolding crc_byte_def crc_bits_eq by (rule xor_right_cancel [THEN iffD1])

lemma crc_run_inj: "crc_run c bs = crc_run d bs \<Longrightarrow> c = d"
proof (induction bs arbitrary: c d)
  case (Cons b bs)
  have "crc_byte c b = crc_byte d b"
    by (rule Cons.IH) (use Cons.prems in simp)
  then show ?case by (rule inj_crc_byte)
qed simp

lemma of_le_bytes_inj:
  assumes "length xs = length ys" "8 * length xs \<le> LENGTH('a)"
    "of_le_bytes xs = (of_le_bytes ys :: 'a::len word)"
  shows "xs = ys"
  using assms by (metis le_bytes_of_le_bytes)

lemma crc_run_window:
  assumes "length xs = length ys" "length xs \<le> 4" "xs \<noteq> ys"
  shows "crc_run c xs \<noteq> crc_run c ys"
proof
  assume eq: "crc_run c xs = crc_run c ys"
  then have "c XOR of_le_bytes xs = c XOR of_le_bytes ys"
    using assms(1,2) by (simp add: crc_run_word)
  then have "of_le_bytes xs = (of_le_bytes ys :: u32)"
    by (simp add: xor_left_cancel)
  then have "xs = ys" using assms(1,2) by (intro of_le_bytes_inj [where 'a = 32]) simp_all
  with assms(3) show False by contradiction
qed

text \<open>Any change confined to four consecutive bytes changes the register, hence the checksum.\<close>

lemma crc_run_burst:
  assumes "length xs = length ys" "length xs \<le> 4" "xs \<noteq> ys"
  shows "crc_run c (p @ xs @ s) \<noteq> crc_run c (p @ ys @ s)"
  using crc_run_window [OF assms] by (auto dest: crc_run_inj)

section \<open>The residue of a message that carries its checksum\<close>

definition crc_residue :: u32 where
  "crc_residue = (crc_bit ^^ 32) (NOT 0)"

lemma xor_eq_ones_iff: "(s :: 'a::len word) XOR w = NOT 0 \<longleftrightarrow> w = NOT s"
  by (auto simp: bit_eq_iff bit_simps)

lemma crc_matches_iff_residue:
  assumes "length chk = 4"
  shows "of_le_bytes chk = crc32c body \<longleftrightarrow> crc_run (NOT 0) (body @ chk) = crc_residue"
proof -
  let ?s = "crc_run (NOT 0) body"
  have "crc_run (NOT 0) (body @ chk) = (crc_bit ^^ 32) (?s XOR of_le_bytes chk)"
    using crc_run_word [of chk ?s] assms by simp
  then have "crc_run (NOT 0) (body @ chk) = crc_residue \<longleftrightarrow> ?s XOR of_le_bytes chk = NOT 0"
    unfolding crc_residue_def by (simp only: crc_bits_eq)
  also have "\<dots> \<longleftrightarrow> of_le_bytes chk = crc32c body"
    unfolding crc32c_def by (rule xor_eq_ones_iff)
  finally show ?thesis by blast
qed

lemma crc_bits_8: "(crc_bit ^^ 8) c =
    crc_bit (crc_bit (crc_bit (crc_bit (crc_bit (crc_bit (crc_bit (crc_bit c)))))))"
  by (simp add: numeral_eq_Suc)

lemma crc32c_check: "crc32c (as_bytes ''123456789'') = 0xe3069283"
  by (simp add: crc32c_def as_bytes_def crc_byte_def crc_bits_8 crc_bit_def crc_poly_def)

end
