(* ===== verification/Wire.thy ===== *)
theory Wire
  imports Checksum
begin

text \<open>
  The wire format of \<^verbatim>\<open>crates/control-protocol/src/lib.rs\<close>: command, queue-status and clock
  frames, their encoders into a caller's buffer and their decoders.  Encoders run on a
  \<^verbatim>\<open>Writer\<close> (the output slice and a position), decoders on a \<^verbatim>\<open>Reader\<close>; both are states of the
  state-and-error monad of the prelude, so a partially written buffer would be visible.
  \<^verbatim>\<open>frame_bytes\<close> and the \<^verbatim>\<open>*_layout\<close> functions are the abstract format; the locale
  \<^verbatim>\<open>frame_format\<close> states the contract of one frame type and is interpreted on the four of them
  in the theory \<^verbatim>\<open>Wire_Contract\<close>.
\<close>

section \<open>Constants and data\<close>

type_synonym Tick = u64

definition MAGIC :: "u8 list" where [simp]: "MAGIC = [0x44, 0x52]"
definition PROTOCOL_VERSION :: u8 where [simp]: "PROTOCOL_VERSION = 1"
definition COMMAND_MESSAGE_TYPE :: u8 where [simp]: "COMMAND_MESSAGE_TYPE = 1"
definition QUEUE_STATUS_MESSAGE_TYPE :: u8 where [simp]: "QUEUE_STATUS_MESSAGE_TYPE = 2"
definition CLOCK_REQUEST_MESSAGE_TYPE :: u8 where [simp]: "CLOCK_REQUEST_MESSAGE_TYPE = 3"
definition CLOCK_RESPONSE_MESSAGE_TYPE :: u8 where [simp]: "CLOCK_RESPONSE_MESSAGE_TYPE = 4"
definition HEADER_LEN :: nat where [simp]: "HEADER_LEN = 10"
definition CHECKSUM_LEN :: nat where [simp]: "CHECKSUM_LEN = 4"
definition MAX_STRING_LEN :: nat where [simp]: "MAX_STRING_LEN = 63"
definition MAX_PAYLOAD_LEN :: nat where [simp]: "MAX_PAYLOAD_LEN = 128"
definition MAX_FRAME_LEN :: nat where
  [simp]: "MAX_FRAME_LEN = HEADER_LEN + MAX_PAYLOAD_LEN + CHECKSUM_LEN"
definition QUEUE_STATUS_PAYLOAD_LEN :: nat where [simp]: "QUEUE_STATUS_PAYLOAD_LEN = 22"
definition QUEUE_STATUS_FRAME_LEN :: nat where
  [simp]: "QUEUE_STATUS_FRAME_LEN = HEADER_LEN + QUEUE_STATUS_PAYLOAD_LEN + CHECKSUM_LEN"
definition CLOCK_REQUEST_PAYLOAD_LEN :: nat where [simp]: "CLOCK_REQUEST_PAYLOAD_LEN = 1"
definition CLOCK_RESPONSE_PAYLOAD_LEN :: nat where [simp]: "CLOCK_RESPONSE_PAYLOAD_LEN = 17"
definition CLOCK_REQUEST_FRAME_LEN :: nat where
  [simp]: "CLOCK_REQUEST_FRAME_LEN = HEADER_LEN + CLOCK_REQUEST_PAYLOAD_LEN + CHECKSUM_LEN"
definition CLOCK_RESPONSE_FRAME_LEN :: nat where
  [simp]: "CLOCK_RESPONSE_FRAME_LEN = HEADER_LEN + CLOCK_RESPONSE_PAYLOAD_LEN + CHECKSUM_LEN"

definition FLAG_EXECUTE_AT :: u8 where [simp]: "FLAG_EXECUTE_AT = 1"
definition KNOWN_FLAGS :: u8 where [simp]: "KNOWN_FLAGS = FLAG_EXECUTE_AT"
definition QUEUE_STATUS_FLAG_UNDERRUN :: u8 where [simp]: "QUEUE_STATUS_FLAG_UNDERRUN = 1"
definition TAG_HEARTBEAT :: u8 where [simp]: "TAG_HEARTBEAT = 0"
definition TAG_SET_HEATER_TARGET :: u8 where [simp]: "TAG_SET_HEATER_TARGET = 1"
definition TAG_HOME :: u8 where [simp]: "TAG_HOME = 2"
definition TAG_MOVE :: u8 where [simp]: "TAG_MOVE = 3"

datatype Command =
    Heartbeat
  | SetHeaterTarget string i64 \<comment> \<open>heater, target in milli-degrees\<close>
  | Home string u64 \<comment> \<open>axis, rate in um/s\<close>
  | Move string i64 u64 \<comment> \<open>axis, distance in um, rate in um/s\<close>

record CommandEnvelope =
  ce_execute_at :: "Tick option"
  ce_command :: Command

record CommandFrame =
  cf_sequence :: u32
  cf_envelope :: CommandEnvelope

record QueueStatus =
  qs_capacity :: u16
  qs_fill :: u16
  qs_earliest_accepted :: Tick
  qs_latest_accepted :: Tick
  qs_underrun :: bool

record QueueStatusFrame =
  qf_sequence :: u32
  qf_status :: QueueStatus

record ClockRequestFrame =
  rq_sequence :: u32

record ClockResponse =
  cr_controller_receive :: Tick
  cr_controller_send :: Tick

record ClockResponseFrame =
  rf_sequence :: u32
  rf_response :: ClockResponse

datatype EncodeError =
    EncStringTooLong nat nat
  | EncPayloadTooLong nat nat
  | BufferTooSmall nat nat \<comment> \<open>needed, available\<close>

datatype DecodeError =
    Truncated nat nat \<comment> \<open>needed, available\<close>
  | InvalidMagic "u8 list"
  | UnsupportedVersion u8
  | UnsupportedMessageType u8
  | PayloadTooLong nat nat
  | TrailingFrameBytes nat
  | ChecksumMismatch u32 u32 \<comment> \<open>encoded, computed\<close>
  | InvalidPayloadLength nat nat
  | InvalidFlags u8
  | InvalidStateFlags u8
  | UnknownCommandTag u8
  | StringTooLong nat nat
  | InvalidUtf8
  | TrailingPayloadBytes nat

section \<open>Writer\<close>

record Writer =
  w_output :: "u8 list"
  w_position :: nat

definition writer_new :: "u8 list \<Rightarrow> Writer" where
  "writer_new output = \<lparr>w_output = output, w_position = 0\<rparr>"

definition writer_write :: "u8 list \<Rightarrow> (Writer, EncodeError, unit) st" where
  "writer_write bytes w =
     (let end_pos = w_position w + length bytes in
      if w_position w \<le> end_pos \<and> end_pos \<le> length (w_output w)
      then (Inr (), w\<lparr>w_output := take (w_position w) (w_output w) @ bytes @
                                  drop end_pos (w_output w),
                      w_position := end_pos\<rparr>)
      else (Inl (BufferTooSmall end_pos (length (w_output w))), w))"

definition writer_write_u8 :: "u8 \<Rightarrow> (Writer, EncodeError, unit) st" where
  "writer_write_u8 b = writer_write [b]"

definition writer_write_string :: "string \<Rightarrow> (Writer, EncodeError, unit) st" where
  "writer_write_string s =
     st_do [writer_write_u8 (of_nat (length s)), writer_write (as_bytes s)]"

text \<open>
  The tail every encoder shares: the checksum of the bytes from index 2 to the position, then
  \<^verbatim>\<open>Ok(writer.position())\<close>.
\<close>

definition write_checksum :: "nat \<Rightarrow> nat \<Rightarrow> (Writer, EncodeError, nat) st" where
  "write_checksum needed available w =
     (case get_range (w_output w) 2 (w_position w) of
        None \<Rightarrow> (Inl (BufferTooSmall needed available), w)
      | Some checksum_input \<Rightarrow>
          st_bind (writer_write (le_bytes 4 (crc32c checksum_input)))
            (\<lambda>_ w'. (Inr (w_position w'), w')) w)"

definition run_writer :: "(Writer, EncodeError, nat) st \<Rightarrow> u8 list \<Rightarrow> (EncodeError + nat) \<times> u8 list"
where
  "run_writer m output = (case m (writer_new output) of (r, w) \<Rightarrow> (r, w_output w))"

section \<open>Encoders\<close>

definition encoded_string_len :: "string \<Rightarrow> EncodeError + nat" where
  "encoded_string_len s =
     (if length s > MAX_STRING_LEN then Inl (EncStringTooLong (length s) MAX_STRING_LEN)
      else Inr (1 + length s))"

definition encoded_payload_len :: "CommandEnvelope \<Rightarrow> EncodeError + nat" where
  "encoded_payload_len envelope =
     (let schedule_len = (if ce_execute_at envelope \<noteq> None then 8 else 0) in
      and_then
        (case ce_command envelope of
           Heartbeat \<Rightarrow> Inr 1
         | SetHeaterTarget heater _ \<Rightarrow> and_then (encoded_string_len heater) (\<lambda>n. Inr (1 + n + 8))
         | Home axis _ \<Rightarrow> and_then (encoded_string_len axis) (\<lambda>n. Inr (1 + n + 8))
         | Move axis _ _ \<Rightarrow> and_then (encoded_string_len axis) (\<lambda>n. Inr (1 + n + 8 + 8)))
        (\<lambda>command_len. Inr (1 + schedule_len + command_len)))"

definition encode_payload :: "CommandEnvelope \<Rightarrow> (Writer, EncodeError, unit) st" where
  "encode_payload envelope =
     st_do
       ([writer_write_u8 (if ce_execute_at envelope \<noteq> None then FLAG_EXECUTE_AT else 0)] @
        (case ce_execute_at envelope of
           Some execute_at \<Rightarrow> [writer_write (le_bytes 8 execute_at)] | None \<Rightarrow> []) @
        (case ce_command envelope of
           Heartbeat \<Rightarrow> [writer_write_u8 TAG_HEARTBEAT]
         | SetHeaterTarget heater target_milli_c \<Rightarrow>
             [writer_write_u8 TAG_SET_HEATER_TARGET, writer_write_string heater,
              writer_write (le_bytes 8 target_milli_c)]
         | Home axis rate_um_s \<Rightarrow>
             [writer_write_u8 TAG_HOME, writer_write_string axis,
              writer_write (le_bytes 8 rate_um_s)]
         | Move axis distance_um rate_um_s \<Rightarrow>
             [writer_write_u8 TAG_MOVE, writer_write_string axis,
              writer_write (le_bytes 8 distance_um), writer_write (le_bytes 8 rate_um_s)]))"

definition encode_command :: "CommandFrame \<Rightarrow> u8 list \<Rightarrow> (EncodeError + nat) \<times> u8 list" where
  "encode_command frame output =
     (case encoded_payload_len (cf_envelope frame) of
        Inl e \<Rightarrow> (Inl e, output)
      | Inr payload_len \<Rightarrow>
          if payload_len > MAX_PAYLOAD_LEN
          then (Inl (EncPayloadTooLong payload_len MAX_PAYLOAD_LEN), output)
          else
            let frame_len = HEADER_LEN + payload_len + CHECKSUM_LEN in
            if length output < frame_len
            then (Inl (BufferTooSmall frame_len (length output)), output)
            else
              run_writer
                (st_bind
                  (st_do
                    [writer_write MAGIC,
                     writer_write_u8 PROTOCOL_VERSION,
                     writer_write_u8 COMMAND_MESSAGE_TYPE,
                     writer_write (le_bytes 4 (cf_sequence frame)),
                     writer_write (le_bytes 2 (of_nat payload_len :: u16)),
                     encode_payload (cf_envelope frame)])
                  (\<lambda>_. write_checksum frame_len frame_len))
                output)"

definition encode_queue_status ::
  "QueueStatusFrame \<Rightarrow> u8 list \<Rightarrow> (EncodeError + nat) \<times> u8 list" where
  "encode_queue_status frame output =
     (if length output < QUEUE_STATUS_FRAME_LEN
      then (Inl (BufferTooSmall QUEUE_STATUS_FRAME_LEN (length output)), output)
      else
        run_writer
          (st_bind
            (st_do
              [writer_write MAGIC,
               writer_write_u8 PROTOCOL_VERSION,
               writer_write_u8 QUEUE_STATUS_MESSAGE_TYPE,
               writer_write (le_bytes 4 (qf_sequence frame)),
               writer_write (le_bytes 2 (of_nat QUEUE_STATUS_PAYLOAD_LEN :: u16)),
               writer_write_u8 0,
               writer_write (le_bytes 2 (qs_capacity (qf_status frame))),
               writer_write (le_bytes 2 (qs_fill (qf_status frame))),
               writer_write (le_bytes 8 (qs_earliest_accepted (qf_status frame))),
               writer_write (le_bytes 8 (qs_latest_accepted (qf_status frame))),
               writer_write_u8
                 (if qs_underrun (qf_status frame) then QUEUE_STATUS_FLAG_UNDERRUN else 0)])
            (\<lambda>_. write_checksum QUEUE_STATUS_FRAME_LEN QUEUE_STATUS_FRAME_LEN))
          output)"

definition encode_clock_request ::
  "ClockRequestFrame \<Rightarrow> u8 list \<Rightarrow> (EncodeError + nat) \<times> u8 list" where
  "encode_clock_request frame output =
     (if length output < CLOCK_REQUEST_FRAME_LEN
      then (Inl (BufferTooSmall CLOCK_REQUEST_FRAME_LEN (length output)), output)
      else
        run_writer
          (st_bind
            (st_do
              [writer_write MAGIC,
               writer_write_u8 PROTOCOL_VERSION,
               writer_write_u8 CLOCK_REQUEST_MESSAGE_TYPE,
               writer_write (le_bytes 4 (rq_sequence frame)),
               writer_write (le_bytes 2 (of_nat CLOCK_REQUEST_PAYLOAD_LEN :: u16)),
               writer_write_u8 0])
            (\<lambda>_. write_checksum CLOCK_REQUEST_FRAME_LEN (length output)))
          output)"

definition encode_clock_response ::
  "ClockResponseFrame \<Rightarrow> u8 list \<Rightarrow> (EncodeError + nat) \<times> u8 list" where
  "encode_clock_response frame output =
     (if length output < CLOCK_RESPONSE_FRAME_LEN
      then (Inl (BufferTooSmall CLOCK_RESPONSE_FRAME_LEN (length output)), output)
      else
        run_writer
          (st_bind
            (st_do
              [writer_write MAGIC,
               writer_write_u8 PROTOCOL_VERSION,
               writer_write_u8 CLOCK_RESPONSE_MESSAGE_TYPE,
               writer_write (le_bytes 4 (rf_sequence frame)),
               writer_write (le_bytes 2 (of_nat CLOCK_RESPONSE_PAYLOAD_LEN :: u16)),
               writer_write_u8 0,
               writer_write (le_bytes 8 (cr_controller_receive (rf_response frame))),
               writer_write (le_bytes 8 (cr_controller_send (rf_response frame)))])
            (\<lambda>_. write_checksum CLOCK_RESPONSE_FRAME_LEN (length output)))
          output)"

section \<open>Reader\<close>

record Reader =
  r_input :: "u8 list"
  r_position :: nat

definition reader_new :: "u8 list \<Rightarrow> Reader" where
  "reader_new input = \<lparr>r_input = input, r_position = 0\<rparr>"

definition reader_remaining :: "Reader \<Rightarrow> nat" where
  "reader_remaining r = length (r_input r) - r_position r"

definition reader_read :: "nat \<Rightarrow> (Reader, DecodeError, u8 list) st" where
  "reader_read len r =
     (let end_pos = r_position r + len in
      case get_range (r_input r) (r_position r) end_pos of
        None \<Rightarrow> (Inl (Truncated end_pos (length (r_input r))), r)
      | Some bytes \<Rightarrow> (Inr bytes, r\<lparr>r_position := end_pos\<rparr>))"

definition read_u8 :: "(Reader, DecodeError, u8) st" where
  "read_u8 = st_bind (reader_read 1) (\<lambda>bytes. st_ok (bytes ! 0))"

definition read_u16 :: "(Reader, DecodeError, u16) st" where
  "read_u16 = st_bind (reader_read 2) (\<lambda>bytes. st_ok (of_le_bytes bytes))"

definition read_u64 :: "(Reader, DecodeError, u64) st" where
  "read_u64 = st_bind (reader_read 8) (\<lambda>bytes. st_ok (of_le_bytes bytes))"

definition read_i64 :: "(Reader, DecodeError, i64) st" where
  "read_i64 = st_bind (reader_read 8) (\<lambda>bytes. st_ok (of_le_bytes bytes))"

definition read_string :: "(Reader, DecodeError, string) st" where
  "read_string =
     st_bind read_u8 (\<lambda>n.
       let len = unat n in
       if len > MAX_STRING_LEN then st_err (StringTooLong len MAX_STRING_LEN)
       else st_bind (reader_read len) (\<lambda>bytes.
         case from_utf8 bytes of None \<Rightarrow> st_err InvalidUtf8 | Some s \<Rightarrow> st_ok s))"

section \<open>Decoders\<close>

definition require_len :: "u8 list \<Rightarrow> nat \<Rightarrow> DecodeError + unit" where
  "require_len input needed =
     (if length input < needed then Inl (Truncated needed (length input)) else Inr ())"

definition read_u32_at :: "u8 list \<Rightarrow> nat \<Rightarrow> DecodeError + u32" where
  "read_u32_at input offset =
     (let end_pos = offset + 4 in
      and_then (ok_or (get_range input offset end_pos) (Truncated end_pos (length input)))
        (\<lambda>bytes. Inr (of_le_bytes [bytes ! 0, bytes ! 1, bytes ! 2, bytes ! 3])))"

definition decode_payload :: "u8 list \<Rightarrow> DecodeError + CommandEnvelope" where
  "decode_payload payload = fst
     (st_bind read_u8 (\<lambda>flags.
        if flags AND NOT KNOWN_FLAGS \<noteq> 0 then st_err (InvalidFlags flags)
        else
          st_bind
            (if flags AND FLAG_EXECUTE_AT \<noteq> 0 then st_bind read_u64 (\<lambda>t. st_ok (Some t))
             else st_ok None) (\<lambda>execute_at.
          st_bind read_u8 (\<lambda>tag.
          st_bind
            (if tag = TAG_HEARTBEAT then st_ok Heartbeat
             else if tag = TAG_SET_HEATER_TARGET then
               st_bind read_string (\<lambda>heater.
               st_bind read_i64 (\<lambda>target_milli_c.
               st_ok (SetHeaterTarget heater target_milli_c)))
             else if tag = TAG_HOME then
               st_bind read_string (\<lambda>axis.
               st_bind read_u64 (\<lambda>rate_um_s.
               st_ok (Home axis rate_um_s)))
             else if tag = TAG_MOVE then
               st_bind read_string (\<lambda>axis.
               st_bind read_i64 (\<lambda>distance_um.
               st_bind read_u64 (\<lambda>rate_um_s.
               st_ok (Move axis distance_um rate_um_s))))
             else st_err (UnknownCommandTag tag)) (\<lambda>command r.
          if reader_remaining r \<noteq> 0 then (Inl (TrailingPayloadBytes (reader_remaining r)), r)
          else (Inr \<lparr>ce_execute_at = execute_at, ce_command = command\<rparr>, r)))))
      (reader_new payload))"

definition decode_command :: "u8 list \<Rightarrow> DecodeError + CommandFrame" where
  "decode_command input =
     and_then (require_len input 2) (\<lambda>_.
     let found = [input ! 0, input ! 1] in
     if found \<noteq> MAGIC then Inl (InvalidMagic found) else
     and_then (require_len input HEADER_LEN) (\<lambda>_.
     let version = input ! 2 in
     if version \<noteq> PROTOCOL_VERSION then Inl (UnsupportedVersion version) else
     let message_type = input ! 3 in
     if message_type \<noteq> COMMAND_MESSAGE_TYPE then Inl (UnsupportedMessageType message_type) else
     let sequence = of_le_bytes [input ! 4, input ! 5, input ! 6, input ! 7];
         payload_len = unat (of_le_bytes [input ! 8, input ! 9] :: u16) in
     if payload_len > MAX_PAYLOAD_LEN then Inl (PayloadTooLong payload_len MAX_PAYLOAD_LEN) else
     let frame_len = HEADER_LEN + payload_len + CHECKSUM_LEN in
     and_then (require_len input frame_len) (\<lambda>_.
     if length input > frame_len then Inl (TrailingFrameBytes (length input - frame_len)) else
     let payload_end = HEADER_LEN + payload_len in
     and_then (read_u32_at input payload_end) (\<lambda>encoded_checksum.
     and_then (ok_or (get_range input 2 payload_end) (Truncated payload_end (length input)))
       (\<lambda>checksum_input.
     let computed_checksum = crc32c checksum_input in
     if encoded_checksum \<noteq> computed_checksum
     then Inl (ChecksumMismatch encoded_checksum computed_checksum) else
     and_then (ok_or (get_range input HEADER_LEN payload_end) (Truncated payload_end (length input)))
       (\<lambda>payload.
     and_then (decode_payload payload) (\<lambda>envelope.
     Inr \<lparr>cf_sequence = sequence, cf_envelope = envelope\<rparr>)))))))"

definition decode_queue_status :: "u8 list \<Rightarrow> DecodeError + QueueStatusFrame" where
  "decode_queue_status input =
     and_then (require_len input 2) (\<lambda>_.
     let found = [input ! 0, input ! 1] in
     if found \<noteq> MAGIC then Inl (InvalidMagic found) else
     and_then (require_len input HEADER_LEN) (\<lambda>_.
     let version = input ! 2 in
     if version \<noteq> PROTOCOL_VERSION then Inl (UnsupportedVersion version) else
     let message_type = input ! 3 in
     if message_type \<noteq> QUEUE_STATUS_MESSAGE_TYPE
     then Inl (UnsupportedMessageType message_type) else
     let sequence = of_le_bytes [input ! 4, input ! 5, input ! 6, input ! 7];
         payload_len = unat (of_le_bytes [input ! 8, input ! 9] :: u16) in
     if payload_len > MAX_PAYLOAD_LEN then Inl (PayloadTooLong payload_len MAX_PAYLOAD_LEN) else
     let frame_len = HEADER_LEN + payload_len + CHECKSUM_LEN in
     and_then (require_len input frame_len) (\<lambda>_.
     if length input > frame_len then Inl (TrailingFrameBytes (length input - frame_len)) else
     let payload_end = HEADER_LEN + payload_len in
     and_then (read_u32_at input payload_end) (\<lambda>encoded_checksum.
     and_then (ok_or (get_range input 2 payload_end) (Truncated payload_end (length input)))
       (\<lambda>checksum_input.
     let computed_checksum = crc32c checksum_input in
     if encoded_checksum \<noteq> computed_checksum
     then Inl (ChecksumMismatch encoded_checksum computed_checksum) else
     if payload_len \<noteq> QUEUE_STATUS_PAYLOAD_LEN
     then Inl (InvalidPayloadLength QUEUE_STATUS_PAYLOAD_LEN payload_len) else
     and_then (ok_or (get_range input HEADER_LEN payload_end) (Truncated payload_end (length input)))
       (\<lambda>payload. fst
     (st_bind read_u8 (\<lambda>flags.
      if flags \<noteq> 0 then st_err (InvalidFlags flags) else
      st_bind read_u16 (\<lambda>capacity.
      st_bind read_u16 (\<lambda>fill.
      st_bind read_u64 (\<lambda>earliest_accepted.
      st_bind read_u64 (\<lambda>latest_accepted.
      st_bind read_u8 (\<lambda>state_flags.
      if state_flags AND NOT QUEUE_STATUS_FLAG_UNDERRUN \<noteq> 0
      then st_err (InvalidStateFlags state_flags)
      else st_ok
        \<lparr>qf_sequence = sequence,
         qf_status = \<lparr>qs_capacity = capacity, qs_fill = fill,
                      qs_earliest_accepted = earliest_accepted,
                      qs_latest_accepted = latest_accepted,
                      qs_underrun = (state_flags AND QUEUE_STATUS_FLAG_UNDERRUN \<noteq> 0)\<rparr>\<rparr>))))))
      (reader_new payload))))))))"

definition decode_fixed_header :: "u8 list \<Rightarrow> u8 \<Rightarrow> nat \<Rightarrow> DecodeError + (u32 \<times> u8 list)" where
  "decode_fixed_header input expected_type expected_payload =
     and_then (require_len input 2) (\<lambda>_.
     let found = [input ! 0, input ! 1] in
     if found \<noteq> MAGIC then Inl (InvalidMagic found) else
     and_then (require_len input HEADER_LEN) (\<lambda>_.
     let version = input ! 2 in
     if version \<noteq> PROTOCOL_VERSION then Inl (UnsupportedVersion version) else
     let message_type = input ! 3 in
     if message_type \<noteq> expected_type then Inl (UnsupportedMessageType message_type) else
     let sequence = of_le_bytes [input ! 4, input ! 5, input ! 6, input ! 7];
         payload_len = unat (of_le_bytes [input ! 8, input ! 9] :: u16) in
     if payload_len > MAX_PAYLOAD_LEN then Inl (PayloadTooLong payload_len MAX_PAYLOAD_LEN) else
     let frame_len = HEADER_LEN + payload_len + CHECKSUM_LEN in
     and_then (require_len input frame_len) (\<lambda>_.
     if length input > frame_len then Inl (TrailingFrameBytes (length input - frame_len)) else
     let payload_end = HEADER_LEN + payload_len in
     and_then (read_u32_at input payload_end) (\<lambda>encoded_checksum.
     and_then (ok_or (get_range input 2 payload_end) (Truncated payload_end (length input)))
       (\<lambda>checksum_input.
     let computed_checksum = crc32c checksum_input in
     if encoded_checksum \<noteq> computed_checksum
     then Inl (ChecksumMismatch encoded_checksum computed_checksum) else
     if payload_len \<noteq> expected_payload
     then Inl (InvalidPayloadLength expected_payload payload_len) else
     and_then (ok_or (get_range input HEADER_LEN payload_end) (Truncated payload_end (length input)))
       (\<lambda>payload. Inr (sequence, payload)))))))"

definition decode_clock_request :: "u8 list \<Rightarrow> DecodeError + ClockRequestFrame" where
  "decode_clock_request input =
     and_then
       (decode_fixed_header input CLOCK_REQUEST_MESSAGE_TYPE CLOCK_REQUEST_PAYLOAD_LEN)
       (\<lambda>(sequence, payload). fst
     (st_bind read_u8 (\<lambda>flags.
      if flags \<noteq> 0 then st_err (InvalidFlags flags)
      else st_ok \<lparr>rq_sequence = sequence\<rparr>)
      (reader_new payload)))"

definition decode_clock_response :: "u8 list \<Rightarrow> DecodeError + ClockResponseFrame" where
  "decode_clock_response input =
     and_then
       (decode_fixed_header input CLOCK_RESPONSE_MESSAGE_TYPE CLOCK_RESPONSE_PAYLOAD_LEN)
       (\<lambda>(sequence, payload). fst
     (st_bind read_u8 (\<lambda>flags.
      if flags \<noteq> 0 then st_err (InvalidFlags flags) else
      st_bind read_u64 (\<lambda>controller_receive.
      st_bind read_u64 (\<lambda>controller_send.
      st_ok \<lparr>rf_sequence = sequence,
             rf_response = \<lparr>cr_controller_receive = controller_receive,
                            cr_controller_send = controller_send\<rparr>\<rparr>)))
      (reader_new payload)))"

end
