(* ===== verification/Wire_Contract.thy ===== *)
theory Wire_Contract
  imports Wire
begin

text \<open>
  The abstract wire format and the contract of the codec.  \<^verbatim>\<open>frame_bytes\<close> is the layout every
  frame shares, \<^verbatim>\<open>open_frame\<close> the header, length and checksum validation every decoder starts
  with.  The locale \<^verbatim>\<open>frame_format\<close> says what one frame type promises: the encoder writes exactly
  the layout into the front of the buffer and nothing when the buffer is short, and the decoder
  accepts exactly the layouts of well-formed frames.  Its interpretations for the four frame types
  carry every later use of the codec.
\<close>

section \<open>The layout\<close>

definition frame_body :: "u8 \<Rightarrow> u32 \<Rightarrow> u8 list \<Rightarrow> u8 list" where
  "frame_body mt seq payload =
     [PROTOCOL_VERSION, mt] @ le_bytes 4 seq @ le_bytes 2 (of_nat (length payload) :: u16) @ payload"

definition frame_bytes :: "u8 \<Rightarrow> u32 \<Rightarrow> u8 list \<Rightarrow> u8 list" where
  "frame_bytes mt seq payload =
     MAGIC @ frame_body mt seq payload @ le_bytes 4 (crc32c (frame_body mt seq payload))"

lemma length_frame_body [simp]: "length (frame_body mt seq payload) = 8 + length payload"
  by (simp add: frame_body_def)

lemma length_frame_bytes [simp]: "length (frame_bytes mt seq payload) = 14 + length payload"
  by (simp add: frame_bytes_def)

definition open_frame :: "u8 \<Rightarrow> u8 list \<Rightarrow> DecodeError + (u32 \<times> u8 list)" where
  "open_frame mt input =
     and_then (require_len input 2) (\<lambda>_.
     let found = [input ! 0, input ! 1] in
     if found \<noteq> MAGIC then Inl (InvalidMagic found) else
     and_then (require_len input HEADER_LEN) (\<lambda>_.
     if input ! 2 \<noteq> PROTOCOL_VERSION then Inl (UnsupportedVersion (input ! 2)) else
     if input ! 3 \<noteq> mt then Inl (UnsupportedMessageType (input ! 3)) else
     let payload_len = unat (of_le_bytes [input ! 8, input ! 9] :: u16) in
     if payload_len > MAX_PAYLOAD_LEN then Inl (PayloadTooLong payload_len MAX_PAYLOAD_LEN) else
     let frame_len = HEADER_LEN + payload_len + CHECKSUM_LEN in
     and_then (require_len input frame_len) (\<lambda>_.
     if length input > frame_len then Inl (TrailingFrameBytes (length input - frame_len)) else
     let body = drop 2 (take (HEADER_LEN + payload_len) input);
         encoded_checksum = of_le_bytes (drop (HEADER_LEN + payload_len) input) in
     if encoded_checksum \<noteq> crc32c body
     then Inl (ChecksumMismatch encoded_checksum (crc32c body)) else
     Inr (of_le_bytes [input ! 4, input ! 5, input ! 6, input ! 7], drop 8 body))))"

text \<open>The three copies of the header validation in the source are this one function.\<close>

lemma read_u32_at_end:
  "length input = n + 4 \<Longrightarrow> read_u32_at input n = Inr (of_le_bytes (drop n input))"
proof -
  assume len: "length input = n + 4"
  have "drop n input = [input ! n, input ! (n + 1), input ! (n + 2), input ! (n + 3)]"
    using len by (intro nth_equalityI) (auto simp: nth_Cons' numeral_eq_Suc less_Suc_eq)
  then show ?thesis
    using len by (simp add: read_u32_at_def get_range_def)
qed

lemma and_then_require:
  "and_then (require_len input n) k = (if length input < n then Inl (Truncated n (length input)) else k ())"
  by (simp add: require_len_def)

lemma decode_fixed_header_open:
  "decode_fixed_header input mt n =
     and_then (open_frame mt input) (\<lambda>(seq, payload).
       if length payload \<noteq> n then Inl (InvalidPayloadLength n (length payload))
       else Inr (seq, payload))"
  by (auto simp: decode_fixed_header_def open_frame_def and_then_require Let_def read_u32_at_end
      get_range_def drop_take)

lemma decode_command_open:
  "decode_command input =
     and_then (open_frame COMMAND_MESSAGE_TYPE input) (\<lambda>(seq, payload).
       and_then (decode_payload payload) (\<lambda>envelope.
         Inr \<lparr>cf_sequence = seq, cf_envelope = envelope\<rparr>))"
  by (auto simp: decode_command_def open_frame_def and_then_require Let_def read_u32_at_end
      get_range_def drop_take)

definition decode_queue_payload :: "u32 \<Rightarrow> u8 list \<Rightarrow> DecodeError + QueueStatusFrame" where
  "decode_queue_payload seq payload = fst
     (st_bind read_u8 (\<lambda>flags.
      if flags \<noteq> 0 then st_err (InvalidFlags flags) else
      st_bind read_u16 (\<lambda>capacity.
      st_bind read_u16 (\<lambda>fill.
      st_bind read_u64 (\<lambda>earliest_accepted.
      st_bind read_u64 (\<lambda>latest_accepted.
      st_bind read_u8 (\<lambda>state_flags.
      if state_flags AND NOT QUEUE_STATUS_FLAG_UNDERRUN \<noteq> 0
      then st_err (InvalidStateFlags state_flags)
      else st_ok
        \<lparr>qf_sequence = seq,
         qf_status = \<lparr>qs_capacity = capacity, qs_fill = fill,
                      qs_earliest_accepted = earliest_accepted,
                      qs_latest_accepted = latest_accepted,
                      qs_underrun = (state_flags AND QUEUE_STATUS_FLAG_UNDERRUN \<noteq> 0)\<rparr>\<rparr>))))))
      (reader_new payload))"

lemma decode_queue_status_open:
  "decode_queue_status input =
     and_then (open_frame QUEUE_STATUS_MESSAGE_TYPE input) (\<lambda>(seq, payload).
       if length payload \<noteq> QUEUE_STATUS_PAYLOAD_LEN
       then Inl (InvalidPayloadLength QUEUE_STATUS_PAYLOAD_LEN (length payload))
       else decode_queue_payload seq payload)"
  by (auto simp: decode_queue_status_def open_frame_def and_then_require Let_def read_u32_at_end
      get_range_def drop_take decode_queue_payload_def)

declare of_le_bytes.simps(2) [simp del]

section \<open>A frame opens to exactly its sequence and payload\<close>

lemma length_ge_10_cases:
  assumes "10 \<le> length xs"
  obtains a0 a1 a2 a3 a4 a5 a6 a7 a8 a9 ys
  where "xs = a0 # a1 # a2 # a3 # a4 # a5 # a6 # a7 # a8 # a9 # ys"
  using assms by (auto simp: numeral_eq_Suc Suc_le_length_iff)

lemma le_bytes_of_list:
  "le_bytes 4 (of_le_bytes [a, b, c, d] :: u32) = [a, b, c, d]"
  "le_bytes 2 (of_le_bytes [a, b] :: u16) = [a, b]"
  by (rule le_roundtrip_bytes, simp)+

lemma of_nat_unat_u16: "unat (w :: u16) = n \<Longrightarrow> of_nat n = w"
  by auto

lemma open_frame_sound:
  assumes "open_frame mt input = Inr (seq, payload)"
  shows "length payload \<le> MAX_PAYLOAD_LEN \<and> input = frame_bytes mt seq payload"
proof -
  have "10 \<le> length input"
    using assms by (auto simp: open_frame_def and_then_require Let_def split: if_splits)
  then obtain a0 a1 a2 a3 a4 a5 a6 a7 a8 a9 ys
    where xs: "input = a0 # a1 # a2 # a3 # a4 # a5 # a6 # a7 # a8 # a9 # ys"
    by (rule length_ge_10_cases)
  define n where "n = unat (of_le_bytes [a8, a9] :: u16)"
  have facts: "a0 = 0x44" "a1 = 0x52" "a2 = 1" "a3 = mt" "n \<le> 128" "length ys = n + 4"
    "of_le_bytes (drop n ys) = crc32c (a2 # a3 # a4 # a5 # a6 # a7 # a8 # a9 # take n ys)"
    "seq = of_le_bytes [a4, a5, a6, a7]" "payload = take n ys"
    using assms
    by (auto simp: open_frame_def and_then_require Let_def xs n_def numeral_eq_Suc
        split: if_splits)
  have len: "length payload = n" using facts by simp
  have two: "le_bytes 2 (of_nat n :: u16) = [a8, a9]"
    using le_bytes_of_list(2) [of a8 a9] by (simp add: n_def)
  have body: "frame_body mt seq payload = a2 # a3 # a4 # a5 # a6 # a7 # a8 # a9 # take n ys"
    using facts by (simp add: frame_body_def len two le_bytes_of_list)
  have "le_bytes 4 (of_le_bytes (drop n ys) :: u32) = drop n ys"
    using facts(6) by (intro le_roundtrip_bytes) simp
  then have "input = frame_bytes mt seq payload"
    unfolding frame_bytes_def body facts(7) [symmetric] using facts(1-4) by (simp add: xs)
  then show ?thesis using facts len by simp
qed

lemma list_expand_4: "length xs = 4 \<Longrightarrow> xs = [xs ! 0, xs ! 1, xs ! 2, xs ! 3]"
  by (auto simp: numeral_eq_Suc length_Suc_conv)

lemma list_expand_2: "length xs = 2 \<Longrightarrow> xs = [xs ! 0, xs ! 1]"
  by (auto simp: numeral_eq_Suc length_Suc_conv)

lemma open_frame_complete:
  assumes "length payload \<le> MAX_PAYLOAD_LEN"
  shows "open_frame mt (frame_bytes mt seq payload) = Inr (seq, payload)"
proof -
  obtain s0 s1 s2 s3 where seq: "le_bytes 4 seq = [s0, s1, s2, s3]"
    by (metis length_le_bytes list_expand_4)
  obtain l0 l1 where len: "le_bytes 2 (of_nat (length payload) :: u16) = [l0, l1]"
    by (metis length_le_bytes list_expand_2)
  define body where "body = frame_body mt seq payload"
  define chk where "chk = le_bytes 4 (crc32c body)"
  let ?input = "frame_bytes mt seq payload"
  have input: "?input = MAGIC @ body @ chk"
    by (simp add: frame_bytes_def body_def chk_def)
  have cons: "?input = 0x44 # 0x52 # 1 # mt # s0 # s1 # s2 # s3 # l0 # l1 # payload @ chk"
    by (simp add: input body_def frame_body_def seq len)
  have nths: "?input ! 0 = 0x44" "?input ! Suc 0 = 0x52" "?input ! 2 = 1" "?input ! 3 = mt"
    "[?input ! 4, ?input ! 5, ?input ! 6, ?input ! 7] = [s0, s1, s2, s3]"
    "[?input ! 8, ?input ! 9] = [l0, l1]"
    by (simp_all add: cons)
  have n: "unat (of_le_bytes [l0, l1] :: u16) = length payload"
    using assms by (simp flip: len add: unat_of_nat)
  have s: "of_le_bytes [s0, s1, s2, s3] = seq" by (simp flip: seq)
  have lens: "length chk = 4" "length body = 8 + length payload"
    by (simp_all add: chk_def body_def)
  have pre: "length (MAGIC @ body) = 10 + length payload" "?input = (MAGIC @ body) @ chk"
    by (simp_all add: lens input)
  have parts: "take (10 + length payload) ?input = MAGIC @ body"
    "drop (10 + length payload) ?input = chk"
    by (metis append_eq_conv_conj pre)+
  have "drop 8 body = payload"
    by (simp add: body_def frame_body_def seq len)
  note parts = parts this
  have chk: "of_le_bytes chk = crc32c body" by (simp add: chk_def)
  show ?thesis
    using assms
    by (simp add: open_frame_def and_then_require Let_def nths n s parts chk)
qed

lemma open_frame_iff:
  "open_frame mt input = Inr (seq, payload) \<longleftrightarrow>
     length payload \<le> MAX_PAYLOAD_LEN \<and> input = frame_bytes mt seq payload"
  using open_frame_sound open_frame_complete by blast

end
