(* ===== verification/Codec.thy ===== *)
theory Codec
  imports Wire_Contract
begin

text \<open>
  Correctness of the encoders and decoders of \<^verbatim>\<open>control-protocol\<close>.  A reader standing between
  what it consumed and what is left (\<^verbatim>\<open>reader_at\<close>) turns each typed read into an equation on the
  remaining bytes; a writer likewise (\<^verbatim>\<open>writer_at\<close>, \<^verbatim>\<open>writes\<close>).  The payload decoders are then
  exact inverses of the payload layouts, and the four frame types are interpretations of one
  contract.
\<close>

section \<open>Layouts of the payloads\<close>

definition string_layout :: "string \<Rightarrow> u8 list" where
  "string_layout s = of_nat (length s) # as_bytes s"

fun command_layout :: "Command \<Rightarrow> u8 list" where
  "command_layout Heartbeat = [TAG_HEARTBEAT]"
| "command_layout (SetHeaterTarget heater t) =
     TAG_SET_HEATER_TARGET # string_layout heater @ le_bytes 8 t"
| "command_layout (Home axis rate) = TAG_HOME # string_layout axis @ le_bytes 8 rate"
| "command_layout (Move axis d rate) =
     TAG_MOVE # string_layout axis @ le_bytes 8 d @ le_bytes 8 rate"

definition envelope_layout :: "CommandEnvelope \<Rightarrow> u8 list" where
  "envelope_layout env =
     (case ce_execute_at env of None \<Rightarrow> [0] | Some t \<Rightarrow> FLAG_EXECUTE_AT # le_bytes 8 t) @
     command_layout (ce_command env)"

definition status_layout :: "QueueStatus \<Rightarrow> u8 list" where
  "status_layout st =
     [0] @ le_bytes 2 (qs_capacity st) @ le_bytes 2 (qs_fill st) @
     le_bytes 8 (qs_earliest_accepted st) @ le_bytes 8 (qs_latest_accepted st) @
     [if qs_underrun st then QUEUE_STATUS_FLAG_UNDERRUN else 0]"

definition response_layout :: "ClockResponse \<Rightarrow> u8 list" where
  "response_layout r =
     [0] @ le_bytes 8 (cr_controller_receive r) @ le_bytes 8 (cr_controller_send r)"

text \<open>Well-formed commands: names are Rust strings of at most 63 bytes.\<close>

definition name_ok :: "string \<Rightarrow> bool" where
  "name_ok s \<longleftrightarrow> rust_string s \<and> length s \<le> MAX_STRING_LEN"

fun command_names :: "Command \<Rightarrow> string list" where
  "command_names Heartbeat = []"
| "command_names (SetHeaterTarget heater _) = [heater]"
| "command_names (Home axis _) = [axis]"
| "command_names (Move axis _ _) = [axis]"

definition command_ok :: "Command \<Rightarrow> bool" where
  "command_ok c \<longleftrightarrow> list_all name_ok (command_names c)"

definition frame_ok :: "CommandFrame \<Rightarrow> bool" where
  "frame_ok f \<longleftrightarrow> command_ok (ce_command (cf_envelope f))"

section \<open>Reading\<close>

definition reader_at :: "u8 list \<Rightarrow> u8 list \<Rightarrow> Reader" where
  "reader_at pre post = \<lparr>r_input = pre @ post, r_position = length pre\<rparr>"

lemma reader_new_at: "reader_new input = reader_at [] input"
  by (simp add: reader_new_def reader_at_def)

lemma reader_remaining_at [simp]: "reader_remaining (reader_at pre post) = length post"
  by (simp add: reader_remaining_def reader_at_def)

lemma reader_read_at_iff:
  "reader_read n (reader_at pre post) = (Inr bs, r') \<longleftrightarrow>
     length bs = n \<and> (\<exists>rest. post = bs @ rest \<and> r' = reader_at (pre @ bs) rest)"
proof
  assume "reader_read n (reader_at pre post) = (Inr bs, r')"
  then have "n \<le> length post" "bs = take n post"
    "r' = reader_at (pre @ take n post) (drop n post)"
    by (auto simp: reader_read_def reader_at_def get_range_def Let_def split: if_splits)
  then show "length bs = n \<and> (\<exists>rest. post = bs @ rest \<and> r' = reader_at (pre @ bs) rest)"
    by (auto intro: exI [of _ "drop n post"])
qed (auto simp: reader_read_def reader_at_def get_range_def Let_def)

lemma reader_read_at:
  "length bs = n \<Longrightarrow> reader_read n (reader_at pre (bs @ rest)) = (Inr bs, reader_at (pre @ bs) rest)"
  by (simp add: reader_read_at_iff)

lemma st_bind_Inr_iff:
  "st_bind m k s = (Inr y, s'') \<longleftrightarrow> (\<exists>x s'. m s = (Inr x, s') \<and> k x s' = (Inr y, s''))"
  by (auto simp: st_bind_def split: prod.splits sum.splits)

lemma fst_Inr_iff: "fst p = Inr y \<longleftrightarrow> (\<exists>s. p = (Inr y, s))"
  by (cases p) auto

lemma read_u8_iff:
  "read_u8 (reader_at pre post) = (Inr b, r') \<longleftrightarrow>
     (\<exists>rest. post = b # rest \<and> r' = reader_at (pre @ [b]) rest)"
  by (fastforce simp: read_u8_def st_bind_Inr_iff reader_read_at_iff length_Suc_conv)

lemma read_u8_at:
  "read_u8 (reader_at pre (b # rest)) = (Inr b, reader_at (pre @ [b]) rest)"
  by (simp add: read_u8_iff)

text \<open>A fixed-width read: the bytes taken are the little-endian bytes of the value read.\<close>

lemma read_word_iff:
  assumes width: "8 * n = LENGTH('a::len)"
  shows "st_bind (reader_read n) (\<lambda>bs. st_ok (of_le_bytes bs)) (reader_at pre post) =
      (Inr (x :: 'a word), r') \<longleftrightarrow>
    (\<exists>rest. post = le_bytes n x @ rest \<and> r' = reader_at (pre @ le_bytes n x) rest)"
proof
  assume "\<exists>rest. post = le_bytes n x @ rest \<and> r' = reader_at (pre @ le_bytes n x) rest"
  then show "st_bind (reader_read n) (\<lambda>bs. st_ok (of_le_bytes bs)) (reader_at pre post) = (Inr x, r')"
    using width by (auto simp: st_bind_def reader_read_at of_le_bytes_le_bytes)
qed (use width in \<open>auto simp: st_bind_Inr_iff reader_read_at_iff le_bytes_of_le_bytes\<close>)

lemma read_u16_iff:
  "read_u16 (reader_at pre post) = (Inr x, r') \<longleftrightarrow>
     (\<exists>rest. post = le_bytes 2 x @ rest \<and> r' = reader_at (pre @ le_bytes 2 x) rest)"
  unfolding read_u16_def by (rule read_word_iff) simp

lemma read_u64_iff:
  "read_u64 (reader_at pre post) = (Inr x, r') \<longleftrightarrow>
     (\<exists>rest. post = le_bytes 8 x @ rest \<and> r' = reader_at (pre @ le_bytes 8 x) rest)"
  unfolding read_u64_def by (rule read_word_iff) simp

lemma read_i64_u64: "read_i64 = read_u64"
  by (simp add: read_i64_def read_u64_def)

lemma unat_of_nat_u8: "n < 256 \<Longrightarrow> unat (of_nat n :: u8) = n"
  by (simp add: unat_of_nat)

lemma read_string_iff:
  "read_string (reader_at pre post) = (Inr s, r') \<longleftrightarrow>
     name_ok s \<and>
     (\<exists>rest. post = string_layout s @ rest \<and> r' = reader_at (pre @ string_layout s) rest)"
proof
  assume "read_string (reader_at pre post) = (Inr s, r')"
  then obtain n rest bs where *: "post = n # bs @ rest" "unat n = length bs" "unat n \<le> 63"
    "from_utf8 bs = Some s" "r' = reader_at (pre @ n # bs) rest"
    by (auto simp: read_string_def st_bind_Inr_iff read_u8_iff Let_def reader_read_at_iff
        split: if_splits option.splits)
  then have "post = n # as_bytes s @ rest" "unat n = length s" "name_ok s"
    "r' = reader_at (pre @ n # as_bytes s) rest"
    by (auto simp: from_utf8_Some_iff name_ok_def)
  moreover have "n = of_nat (length s)"
    using \<open>unat n = length s\<close> [symmetric] by simp
  ultimately show "name_ok s \<and>
     (\<exists>rest. post = string_layout s @ rest \<and> r' = reader_at (pre @ string_layout s) rest)"
    by (auto simp: string_layout_def)
next
  assume "name_ok s \<and>
     (\<exists>rest. post = string_layout s @ rest \<and> r' = reader_at (pre @ string_layout s) rest)"
  then show "read_string (reader_at pre post) = (Inr s, r')"
    by (auto simp: read_string_def st_bind_def read_u8_at Let_def reader_read_at
        name_ok_def string_layout_def unat_of_nat_u8)
qed

lemma read_at:
  "read_u16 (reader_at pre (le_bytes 2 v @ rest)) = (Inr v, reader_at (pre @ le_bytes 2 v) rest)"
  "read_u64 (reader_at pre (le_bytes 8 x @ rest)) = (Inr x, reader_at (pre @ le_bytes 8 x) rest)"
  "read_u64 (reader_at pre (le_bytes 8 x)) = (Inr x, reader_at (pre @ le_bytes 8 x) [])"
  "name_ok s \<Longrightarrow> read_string (reader_at pre (string_layout s @ rest)) =
     (Inr s, reader_at (pre @ string_layout s) rest)"
  by (simp_all add: read_u16_iff read_u64_iff read_string_iff)

lemmas reader_evals = read_u8_at read_at read_i64_u64 st_bind_def reader_new_at

lemmas read_iffs = read_u8_iff read_u16_iff read_u64_iff read_i64_u64 read_string_iff
  st_bind_Inr_iff fst_Inr_iff reader_new_at

section \<open>Payload decoders invert the layouts\<close>

lemma flags_known: "(flags :: u8) AND - 2 = 0 \<longleftrightarrow> flags = 0 \<or> flags = 1"
proof
  assume "flags AND - 2 = 0"
  then have high: "\<not> bit flags n" if "0 < n" "n < 8" for n
  proof -
    have "\<not> bit (flags AND - 2) n" using \<open>flags AND - 2 = 0\<close> by simp
    then show ?thesis using that by (simp only: bit_and_iff bit_minus_2_iff) simp
  qed
  have "flags = of_bool (bit flags 0)"
  proof (rule bit_word_eqI)
    fix n assume "n < LENGTH(8)"
    then show "bit flags n = bit (of_bool (bit flags 0) :: u8) n"
      using high [of n] by (cases "n = 0") (auto simp: bit_simps)
  qed
  then show "flags = 0 \<or> flags = 1" by (cases "bit flags 0") auto
qed auto

lemma decode_payload_iff:
  "decode_payload payload = Inr env \<longleftrightarrow> command_ok (ce_command env) \<and> payload = envelope_layout env"
proof
  assume "decode_payload payload = Inr env"
  then show "command_ok (ce_command env) \<and> payload = envelope_layout env"
    by (auto simp: decode_payload_def read_iffs flags_known envelope_layout_def command_ok_def
        split: if_splits)
next
  assume ok: "command_ok (ce_command env) \<and> payload = envelope_layout env"
  show "decode_payload payload = Inr env"
  proof (cases env)
    case (fields t c)
    then show ?thesis
      using ok by (cases c; cases t)
        (simp_all add: decode_payload_def reader_evals envelope_layout_def command_ok_def)
  qed
qed

lemma status_flags:
  "(if b then QUEUE_STATUS_FLAG_UNDERRUN else 0) AND NOT QUEUE_STATUS_FLAG_UNDERRUN = (0 :: u8)"
  "(if b then QUEUE_STATUS_FLAG_UNDERRUN else 0) AND QUEUE_STATUS_FLAG_UNDERRUN \<noteq> (0 :: u8) \<longleftrightarrow> b"
  by simp_all

lemma decode_queue_payload_iff:
  assumes "length payload = QUEUE_STATUS_PAYLOAD_LEN"
  shows "decode_queue_payload seq payload = Inr f \<longleftrightarrow>
    qf_sequence f = seq \<and> payload = status_layout (qf_status f)"
proof
  assume "decode_queue_payload seq payload = Inr f"
  then show "qf_sequence f = seq \<and> payload = status_layout (qf_status f)"
    using assms
    by (auto simp: decode_queue_payload_def read_iffs flags_known status_layout_def
        split: if_splits)
next
  assume f: "qf_sequence f = seq \<and> payload = status_layout (qf_status f)"
  have "decode_queue_payload (qf_sequence f) (status_layout (qf_status f)) = Inr f"
    by (simp add: decode_queue_payload_def reader_evals status_layout_def)
  then show "decode_queue_payload seq payload = Inr f" using f by simp
qed

lemma length_status_layout [simp]: "length (status_layout st) = QUEUE_STATUS_PAYLOAD_LEN"
  by (simp add: status_layout_def)

lemma length_response_layout [simp]: "length (response_layout r) = CLOCK_RESPONSE_PAYLOAD_LEN"
  by (simp add: response_layout_def)

lemma length_command_layout:
  "command_ok c \<Longrightarrow> length (command_layout c) \<le> 81"
  by (cases c) (auto simp: command_ok_def name_ok_def string_layout_def)

lemma length_envelope_layout:
  "command_ok (ce_command env) \<Longrightarrow> length (envelope_layout env) \<le> MAX_PAYLOAD_LEN"
  using length_command_layout [of "ce_command env"]
  by (auto simp: envelope_layout_def split: option.splits)

section \<open>Writing\<close>

definition writer_at :: "u8 list \<Rightarrow> u8 list \<Rightarrow> Writer" where
  "writer_at done_bytes rest = \<lparr>w_output = done_bytes @ rest, w_position = length done_bytes\<rparr>"

text \<open>\<^verbatim>\<open>m\<close> writes exactly \<^verbatim>\<open>bs\<close> wherever they fit.\<close>

definition writes :: "(Writer, EncodeError, unit) st \<Rightarrow> u8 list \<Rightarrow> bool" where
  "writes m bs \<longleftrightarrow> (\<forall>d rest. length bs \<le> length rest \<longrightarrow>
     m (writer_at d rest) = (Inr (), writer_at (d @ bs) (drop (length bs) rest)))"

lemma writer_new_at: "writer_new output = writer_at [] output"
  by (simp add: writer_new_def writer_at_def)

lemma writes_write: "writes (writer_write bs) bs"
  by (simp add: writes_def writer_write_def writer_at_def Let_def)

lemma writes_u8: "writes (writer_write_u8 b) [b]"
  unfolding writer_write_u8_def by (rule writes_write)

lemma writes_Nil: "writes (st_do []) []"
  by (simp add: writes_def)

lemma writes_Cons: "writes m bs \<Longrightarrow> writes (st_do ms) cs \<Longrightarrow> writes (st_do (m # ms)) (bs @ cs)"
  by (simp add: writes_def st_bind_def add.commute)

lemmas writes_intros = writes_Cons writes_Nil writes_u8 writes_write

lemma writes_string: "writes (writer_write_string s) (string_layout s)"
proof -
  have "writes (writer_write_string s) ([of_nat (length s)] @ as_bytes s @ [])"
    unfolding writer_write_string_def by (intro writes_intros)
  then show ?thesis by (simp add: string_layout_def)
qed

lemma writes_do:
  "list_all2 writes ms bss \<Longrightarrow> writes (st_do ms) (concat bss)"
  by (induction rule: list_all2_induct) (auto intro: writes_intros simp del: st_do.simps)

lemma writes_payload: "writes (encode_payload env) (envelope_layout env)"
proof -
  let ?t = "ce_execute_at env" and ?c = "ce_command env"
  let ?time = "case ?t of None \<Rightarrow> [] | Some t \<Rightarrow> [le_bytes 8 t]"
  let ?cmd = "case ?c of Heartbeat \<Rightarrow> [[TAG_HEARTBEAT]]
    | SetHeaterTarget h t \<Rightarrow> [[TAG_SET_HEATER_TARGET], string_layout h, le_bytes 8 t]
    | Home a r \<Rightarrow> [[TAG_HOME], string_layout a, le_bytes 8 r]
    | Move a d r \<Rightarrow> [[TAG_MOVE], string_layout a, le_bytes 8 d, le_bytes 8 r]"
  let ?flag = "if ?t \<noteq> None then FLAG_EXECUTE_AT else 0"
  have "writes (encode_payload env) (concat ([[?flag]] @ ?time @ ?cmd))"
    unfolding encode_payload_def
    by (intro writes_do list_all2_appendI)
      (auto split: option.split Command.split
        simp: writes_u8 writes_write writes_string)
  also have "concat ([[?flag]] @ ?time @ ?cmd) = envelope_layout env"
    by (auto simp: envelope_layout_def split: option.split Command.split)
  finally show ?thesis .
qed

text \<open>The common shape of the encoders: a body after the magic bytes, then the checksum.\<close>

lemma run_encoder:
  assumes writes: "writes (st_do ms) (MAGIC @ body)"
    and fits: "length body + 6 \<le> length output"
  shows "run_writer (st_bind (st_do ms) (\<lambda>_. write_checksum a b)) output =
    (Inr (length body + 6),
     MAGIC @ body @ le_bytes 4 (crc32c body) @ drop (length body + 6) output)"
proof -
  let ?d = "MAGIC @ body"
  have "length ?d \<le> length output" using fits by simp
  then have "st_do ms (writer_at [] output) = (Inr (), writer_at ?d (drop (length ?d) output))"
    using writes unfolding writes_def by (metis append_Nil)
  moreover have "get_range (w_output (writer_at ?d rest)) 2 (w_position (writer_at ?d rest)) =
      Some body" for rest
    by (simp add: writer_at_def get_range_def)
  moreover have "writer_write (le_bytes 4 c) (writer_at ?d (drop (length ?d) output)) =
      (Inr (), writer_at (?d @ le_bytes 4 c) (drop 4 (drop (length ?d) output)))" for c :: u32
    using writes_write [of "le_bytes 4 c"] fits by (auto simp: writes_def)
  ultimately show ?thesis
    by (simp add: run_writer_def writer_new_at st_bind_def write_checksum_def writer_at_def
        add.commute)
qed

end
