(* ===== verification/Frames.thy ===== *)
theory Frames
  imports Codec
begin

text \<open>
  The contract of the codec as a locale, its interpretation on the four frame types of
  \<^verbatim>\<open>control-protocol\<close>, and the properties of the wire format: what every encoder writes on every
  branch, which byte strings every decoder accepts, round trips, and detection of corrupted bytes.
\<close>

section \<open>The contract of a frame type\<close>

locale frame_format =
  fixes mt :: u8
    and encode :: "'f \<Rightarrow> u8 list \<Rightarrow> (EncodeError + nat) \<times> u8 list"
    and decode :: "u8 list \<Rightarrow> DecodeError + 'f"
    and wf :: "'f \<Rightarrow> bool"
    and seq_of :: "'f \<Rightarrow> u32"
    and payload :: "'f \<Rightarrow> u8 list"
  assumes payload_le: "wf f \<Longrightarrow> length (payload f) \<le> MAX_PAYLOAD_LEN"
    and encode_fits: "wf f \<Longrightarrow> length (payload f) + 14 \<le> length out \<Longrightarrow>
      encode f out = (Inr (length (payload f) + 14),
        frame_bytes mt (seq_of f) (payload f) @ drop (length (payload f) + 14) out)"
    and encode_short: "wf f \<Longrightarrow> length out < length (payload f) + 14 \<Longrightarrow>
      encode f out = (Inl (BufferTooSmall (length (payload f) + 14) (length out)), out)"
    and decode_iff: "decode input = Inr f \<longleftrightarrow>
      wf f \<and> input = frame_bytes mt (seq_of f) (payload f)"
begin

lemma decode_layout: "wf f \<Longrightarrow> decode (frame_bytes mt (seq_of f) (payload f)) = Inr f"
  by (simp add: decode_iff)

lemma roundtrip:
  assumes "wf f" "encode f out = (Inr n, out')"
  shows "decode (take n out') = Inr f \<and> n = length (payload f) + 14 \<and> drop n out' = drop n out"
proof -
  have "length (payload f) + 14 \<le> length out"
    using assms encode_short [OF assms(1), of out] by (cases "length out < length (payload f) + 14") auto
  with assms have "n = length (payload f) + 14"
    "out' = frame_bytes mt (seq_of f) (payload f) @ drop n out"
    using encode_fits by auto
  then show ?thesis using decode_layout [OF assms(1)] by simp
qed

lemma error_untouched: "wf f \<Longrightarrow> encode f out = (Inl e, out') \<Longrightarrow> out' = out"
  using encode_fits [of f out] encode_short [of f out]
  by (cases "length out < length (payload f) + 14") auto

lemma roundtrip_case:
  assumes "wf f"
  shows "case encode f out of
      (Inr n, out') \<Rightarrow> decode (take n out') = Inr f \<and> drop n out' = drop n out
    | (Inl e, out') \<Rightarrow> out' = out \<and> length out < length (payload f) + 14"
proof (cases "length out < length (payload f) + 14")
  case True
  then show ?thesis using encode_short [OF assms] by simp
next
  case False
  then show ?thesis using encode_fits [OF assms, of out] decode_layout [OF assms] by simp
qed

lemma decode_unique: "decode a = Inr f \<Longrightarrow> decode b = Inr f \<Longrightarrow> a = b"
  by (simp add: decode_iff)

lemma decode_length:
  "decode input = Inr f \<Longrightarrow> length input = length (payload f) + 14 \<and> length input \<le> MAX_FRAME_LEN"
  using payload_le by (auto simp: decode_iff)

lemma decode_is_ok_iff:
  "is_ok (decode input) \<longleftrightarrow> (\<exists>f. wf f \<and> input = frame_bytes mt (seq_of f) (payload f))"
  by (auto simp: is_ok_iff decode_iff)

end

section \<open>The four frame types meet it\<close>

text \<open>The encoder itself only checks the length of a name; that it is UTF-8 is the type's promise.\<close>

definition names_fit :: "Command \<Rightarrow> bool" where
  "names_fit c \<longleftrightarrow> list_all (\<lambda>s. length s \<le> MAX_STRING_LEN) (command_names c)"

lemma command_ok_fits: "command_ok c \<Longrightarrow> names_fit c"
  by (auto simp: command_ok_def names_fit_def name_ok_def list_all_iff)

lemma encoded_payload_len_ok:
  "names_fit (ce_command env) \<Longrightarrow> encoded_payload_len env = Inr (length (envelope_layout env))"
  by (cases "ce_command env")
    (auto simp: encoded_payload_len_def encoded_string_len_def names_fit_def
      envelope_layout_def string_layout_def Let_def split: option.splits)

lemma names_fit_length:
  "names_fit (ce_command env) \<Longrightarrow> length (envelope_layout env) \<le> MAX_PAYLOAD_LEN"
  by (cases "ce_command env")
    (auto simp: names_fit_def envelope_layout_def string_layout_def split: option.splits)

lemma encoded_payload_len_long:
  "\<not> names_fit c \<Longrightarrow> ce_command env = c \<Longrightarrow>
     encoded_payload_len env = Inl (EncStringTooLong (length (hd (command_names c))) MAX_STRING_LEN)"
  by (cases c)
    (auto simp: encoded_payload_len_def encoded_string_len_def names_fit_def Let_def)

lemma encode_command_fits:
  assumes ok: "names_fit (ce_command (cf_envelope f))"
    and fits: "length (envelope_layout (cf_envelope f)) + 14 \<le> length out"
  shows "encode_command f out = (Inr (length (envelope_layout (cf_envelope f)) + 14),
    frame_bytes COMMAND_MESSAGE_TYPE (cf_sequence f) (envelope_layout (cf_envelope f)) @
    drop (length (envelope_layout (cf_envelope f)) + 14) out)"
proof -
  let ?p = "envelope_layout (cf_envelope f)"
  have len: "encoded_payload_len (cf_envelope f) = Inr (length ?p)" "\<not> length ?p > MAX_PAYLOAD_LEN"
    using encoded_payload_len_ok [OF ok] names_fit_length [OF ok] by auto
  let ?ms = "[writer_write MAGIC, writer_write_u8 PROTOCOL_VERSION,
    writer_write_u8 COMMAND_MESSAGE_TYPE, writer_write (le_bytes 4 (cf_sequence f)),
    writer_write (le_bytes 2 (of_nat (length ?p) :: u16)), encode_payload (cf_envelope f)]"
  let ?body = "frame_body COMMAND_MESSAGE_TYPE (cf_sequence f) ?p"
  have "writes (st_do ?ms) (MAGIC @ [PROTOCOL_VERSION] @ [COMMAND_MESSAGE_TYPE] @
      le_bytes 4 (cf_sequence f) @ le_bytes 2 (of_nat (length ?p) :: u16) @ ?p @ [])"
    by (intro writes_intros writes_payload)
  then have "writes (st_do ?ms) (MAGIC @ ?body)"
    by (simp add: frame_body_def)
  from run_encoder [OF this, of out] fits show ?thesis
    using len(2)
    by (simp add: encode_command_def len(1) frame_bytes_def Let_def add.commute del: st_do.simps)
qed

lemma encode_command_short:
  assumes "names_fit (ce_command (cf_envelope f))" "length out < length (envelope_layout (cf_envelope f)) + 14"
  shows "encode_command f out =
    (Inl (BufferTooSmall (length (envelope_layout (cf_envelope f)) + 14) (length out)), out)"
  using assms encoded_payload_len_ok [of "cf_envelope f"] names_fit_length [of "cf_envelope f"]
  by (simp add: encode_command_def Let_def)

lemma decode_command_iff:
  "decode_command input = Inr f \<longleftrightarrow> frame_ok f \<and>
     input = frame_bytes COMMAND_MESSAGE_TYPE (cf_sequence f) (envelope_layout (cf_envelope f))"
  by (cases f)
    (auto simp: decode_command_open and_then_Inr_iff open_frame_iff decode_payload_iff frame_ok_def
      length_envelope_layout [simplified])

interpretation cmd: frame_format COMMAND_MESSAGE_TYPE encode_command decode_command frame_ok
  cf_sequence "\<lambda>f. envelope_layout (cf_envelope f)"
proof unfold_locales
qed (unfold frame_ok_def, (erule command_ok_fits [THEN names_fit_length]
    command_ok_fits [THEN encode_command_fits] command_ok_fits [THEN encode_command_short],
    assumption?)+, fact decode_command_iff [unfolded frame_ok_def])

lemma encode_queue_status_fits:
  assumes fits: "QUEUE_STATUS_FRAME_LEN \<le> length out"
  shows "encode_queue_status f out = (Inr QUEUE_STATUS_FRAME_LEN,
    frame_bytes QUEUE_STATUS_MESSAGE_TYPE (qf_sequence f) (status_layout (qf_status f)) @
    drop QUEUE_STATUS_FRAME_LEN out)"
proof -
  let ?s = "qf_status f"
  let ?ms = "[writer_write MAGIC, writer_write_u8 PROTOCOL_VERSION,
    writer_write_u8 QUEUE_STATUS_MESSAGE_TYPE, writer_write (le_bytes 4 (qf_sequence f)),
    writer_write (le_bytes 2 (of_nat QUEUE_STATUS_PAYLOAD_LEN :: u16)), writer_write_u8 0,
    writer_write (le_bytes 2 (qs_capacity ?s)), writer_write (le_bytes 2 (qs_fill ?s)),
    writer_write (le_bytes 8 (qs_earliest_accepted ?s)),
    writer_write (le_bytes 8 (qs_latest_accepted ?s)),
    writer_write_u8 (if qs_underrun ?s then QUEUE_STATUS_FLAG_UNDERRUN else 0)]"
  let ?body = "frame_body QUEUE_STATUS_MESSAGE_TYPE (qf_sequence f) (status_layout ?s)"
  have "writes (st_do ?ms) (MAGIC @ [PROTOCOL_VERSION] @ [QUEUE_STATUS_MESSAGE_TYPE] @
      le_bytes 4 (qf_sequence f) @ le_bytes 2 (of_nat QUEUE_STATUS_PAYLOAD_LEN :: u16) @ [0] @
      le_bytes 2 (qs_capacity ?s) @ le_bytes 2 (qs_fill ?s) @
      le_bytes 8 (qs_earliest_accepted ?s) @ le_bytes 8 (qs_latest_accepted ?s) @
      [if qs_underrun ?s then QUEUE_STATUS_FLAG_UNDERRUN else 0] @ [])"
    by (intro writes_intros)
  then have "writes (st_do ?ms) (MAGIC @ ?body)"
    by (simp add: frame_body_def status_layout_def del: st_do.simps)
  from run_encoder [OF this, of out] fits show ?thesis
    by (simp add: encode_queue_status_def frame_bytes_def del: st_do.simps)
qed

lemma decode_queue_status_iff:
  "decode_queue_status input = Inr f \<longleftrightarrow>
     input = frame_bytes QUEUE_STATUS_MESSAGE_TYPE (qf_sequence f) (status_layout (qf_status f))"
proof
  assume "decode_queue_status input = Inr f"
  then show "input =
      frame_bytes QUEUE_STATUS_MESSAGE_TYPE (qf_sequence f) (status_layout (qf_status f))"
    using decode_queue_payload_iff
    by (auto simp: decode_queue_status_open and_then_Inr_iff open_frame_iff split: if_splits)
next
  assume i: "input =
      frame_bytes QUEUE_STATUS_MESSAGE_TYPE (qf_sequence f) (status_layout (qf_status f))"
  have "decode_queue_payload (qf_sequence f) (status_layout (qf_status f)) = Inr f"
    by (subst decode_queue_payload_iff) simp_all
  then show "decode_queue_status input = Inr f"
    by (simp add: i decode_queue_status_open open_frame_complete)
qed

interpretation qst: frame_format QUEUE_STATUS_MESSAGE_TYPE encode_queue_status decode_queue_status
  "\<lambda>_. True" qf_sequence "\<lambda>f. status_layout (qf_status f)"
proof unfold_locales
  fix f :: QueueStatusFrame and out :: "u8 list"
  assume "length (status_layout (qf_status f)) + 14 \<le> length out"
  then show "encode_queue_status f out = (Inr (length (status_layout (qf_status f)) + 14),
      frame_bytes QUEUE_STATUS_MESSAGE_TYPE (qf_sequence f) (status_layout (qf_status f)) @
      drop (length (status_layout (qf_status f)) + 14) out)"
    using encode_queue_status_fits [of out f] by simp
qed (simp_all add: decode_queue_status_iff encode_queue_status_def)

lemma encode_clock_request_fits:
  assumes fits: "CLOCK_REQUEST_FRAME_LEN \<le> length out"
  shows "encode_clock_request f out = (Inr CLOCK_REQUEST_FRAME_LEN,
    frame_bytes CLOCK_REQUEST_MESSAGE_TYPE (rq_sequence f) [0] @ drop CLOCK_REQUEST_FRAME_LEN out)"
proof -
  let ?ms = "[writer_write MAGIC, writer_write_u8 PROTOCOL_VERSION,
    writer_write_u8 CLOCK_REQUEST_MESSAGE_TYPE, writer_write (le_bytes 4 (rq_sequence f)),
    writer_write (le_bytes 2 (of_nat CLOCK_REQUEST_PAYLOAD_LEN :: u16)), writer_write_u8 0]"
  let ?body = "frame_body CLOCK_REQUEST_MESSAGE_TYPE (rq_sequence f) [0]"
  have "writes (st_do ?ms) (MAGIC @ [PROTOCOL_VERSION] @ [CLOCK_REQUEST_MESSAGE_TYPE] @
      le_bytes 4 (rq_sequence f) @ le_bytes 2 (of_nat CLOCK_REQUEST_PAYLOAD_LEN :: u16) @ [0] @ [])"
    by (intro writes_intros)
  then have "writes (st_do ?ms) (MAGIC @ ?body)"
    by (simp add: frame_body_def del: st_do.simps)
  from run_encoder [OF this, of out] fits show ?thesis
    by (simp add: encode_clock_request_def frame_bytes_def del: st_do.simps)
qed

lemma decode_clock_request_iff:
  "decode_clock_request input = Inr f \<longleftrightarrow>
     input = frame_bytes CLOCK_REQUEST_MESSAGE_TYPE (rq_sequence f) [0]"
proof
  assume "decode_clock_request input = Inr f"
  then show "input = frame_bytes CLOCK_REQUEST_MESSAGE_TYPE (rq_sequence f) [0]"
    by (auto simp: decode_clock_request_def decode_fixed_header_open and_then_Inr_iff
        open_frame_iff read_iffs split: if_splits)
next
  assume i: "input = frame_bytes CLOCK_REQUEST_MESSAGE_TYPE (rq_sequence f) [0]"
  show "decode_clock_request input = Inr f"
    by (simp add: i decode_clock_request_def decode_fixed_header_open open_frame_complete)
      (simp add: reader_evals)
qed

interpretation crq: frame_format CLOCK_REQUEST_MESSAGE_TYPE encode_clock_request
  decode_clock_request "\<lambda>_. True" rq_sequence "\<lambda>_. [0]"
proof unfold_locales
  fix f :: ClockRequestFrame and out :: "u8 list"
  assume "length [0 :: u8] + 14 \<le> length out"
  then show "encode_clock_request f out = (Inr (length [0 :: u8] + 14),
      frame_bytes CLOCK_REQUEST_MESSAGE_TYPE (rq_sequence f) [0] @
      drop (length [0 :: u8] + 14) out)"
    using encode_clock_request_fits [of out f] by simp
qed (simp_all add: decode_clock_request_iff encode_clock_request_def)

lemma encode_clock_response_fits:
  assumes fits: "CLOCK_RESPONSE_FRAME_LEN \<le> length out"
  shows "encode_clock_response f out = (Inr CLOCK_RESPONSE_FRAME_LEN,
    frame_bytes CLOCK_RESPONSE_MESSAGE_TYPE (rf_sequence f) (response_layout (rf_response f)) @
    drop CLOCK_RESPONSE_FRAME_LEN out)"
proof -
  let ?r = "rf_response f"
  let ?ms = "[writer_write MAGIC, writer_write_u8 PROTOCOL_VERSION,
    writer_write_u8 CLOCK_RESPONSE_MESSAGE_TYPE, writer_write (le_bytes 4 (rf_sequence f)),
    writer_write (le_bytes 2 (of_nat CLOCK_RESPONSE_PAYLOAD_LEN :: u16)), writer_write_u8 0,
    writer_write (le_bytes 8 (cr_controller_receive ?r)),
    writer_write (le_bytes 8 (cr_controller_send ?r))]"
  let ?body = "frame_body CLOCK_RESPONSE_MESSAGE_TYPE (rf_sequence f) (response_layout ?r)"
  have "writes (st_do ?ms) (MAGIC @ [PROTOCOL_VERSION] @ [CLOCK_RESPONSE_MESSAGE_TYPE] @
      le_bytes 4 (rf_sequence f) @ le_bytes 2 (of_nat CLOCK_RESPONSE_PAYLOAD_LEN :: u16) @ [0] @
      le_bytes 8 (cr_controller_receive ?r) @ le_bytes 8 (cr_controller_send ?r) @ [])"
    by (intro writes_intros)
  then have "writes (st_do ?ms) (MAGIC @ ?body)"
    by (simp add: frame_body_def response_layout_def del: st_do.simps)
  from run_encoder [OF this, of out] fits show ?thesis
    by (simp add: encode_clock_response_def frame_bytes_def del: st_do.simps)
qed

lemma decode_clock_response_iff:
  "decode_clock_response input = Inr f \<longleftrightarrow>
     input = frame_bytes CLOCK_RESPONSE_MESSAGE_TYPE (rf_sequence f) (response_layout (rf_response f))"
proof
  assume "decode_clock_response input = Inr f"
  then show "input =
      frame_bytes CLOCK_RESPONSE_MESSAGE_TYPE (rf_sequence f) (response_layout (rf_response f))"
    by (auto simp: decode_clock_response_def decode_fixed_header_open and_then_Inr_iff
        open_frame_iff read_iffs response_layout_def split: if_splits)
next
  assume i: "input =
      frame_bytes CLOCK_RESPONSE_MESSAGE_TYPE (rf_sequence f) (response_layout (rf_response f))"
  show "decode_clock_response input = Inr f"
    by (simp add: i decode_clock_response_def decode_fixed_header_open open_frame_complete)
      (simp add: response_layout_def reader_evals)
qed

interpretation crs: frame_format CLOCK_RESPONSE_MESSAGE_TYPE encode_clock_response
  decode_clock_response "\<lambda>_. True" rf_sequence "\<lambda>f. response_layout (rf_response f)"
proof unfold_locales
  fix f :: ClockResponseFrame and out :: "u8 list"
  assume "length (response_layout (rf_response f)) + 14 \<le> length out"
  then show "encode_clock_response f out = (Inr (length (response_layout (rf_response f)) + 14),
      frame_bytes CLOCK_RESPONSE_MESSAGE_TYPE (rf_sequence f) (response_layout (rf_response f)) @
      drop (length (response_layout (rf_response f)) + 14) out)"
    using encode_clock_response_fits [of out f] by simp
qed (simp_all add: decode_clock_response_iff encode_clock_response_def)

section \<open>What the whole codec promises\<close>

definition decoders :: "u8 list \<Rightarrow> bool list" where
  "decoders input =
     [is_ok (decode_command input), is_ok (decode_queue_status input),
      is_ok (decode_clock_request input), is_ok (decode_clock_response input)]"

definition accepted :: "u8 list \<Rightarrow> bool" where
  "accepted input \<longleftrightarrow> True \<in> set (decoders input)"

lemma accepted_frame:
  assumes "accepted input"
  shows "\<exists>mt seq p. input = frame_bytes mt seq p"
  using assms
  by (auto simp: accepted_def decoders_def cmd.decode_is_ok_iff qst.decode_is_ok_iff
      crq.decode_is_ok_iff crs.decode_is_ok_iff)

text \<open>An accepted frame is the magic bytes and a tail whose checksum register is the residue.\<close>

lemma frame_bytes_residue:
  "take 2 (frame_bytes mt seq p) = MAGIC \<and>
   crc_run (NOT 0) (drop 2 (frame_bytes mt seq p)) = crc_residue"
  using crc_matches_iff_residue [of "le_bytes 4 (crc32c (frame_body mt seq p))" "frame_body mt seq p"]
  by (simp add: frame_bytes_def)

lemma burst_breaks_residue:
  assumes "length xs = length ys" "length xs \<le> 4" "xs \<noteq> ys"
    and "take 2 (pre @ xs @ post) = take 2 (pre @ ys @ post)"
  shows "crc_run c (drop 2 (pre @ xs @ post)) \<noteq> crc_run c (drop 2 (pre @ ys @ post))"
proof -
  let ?k = "2 - length pre"
  have same: "take ?k xs = take ?k ys"
    using assms(1,4) by (simp add: min_def split: if_splits)
  have "drop 2 (pre @ zs @ post) = drop 2 pre @ drop ?k zs @ drop (?k - length zs) post"
    for zs by simp
  moreover have "drop ?k xs \<noteq> drop ?k ys"
    using same assms(3) by (metis append_take_drop_id)
  ultimately show ?thesis
    using assms(1,2) crc_run_burst [of "drop ?k xs" "drop ?k ys" c "drop 2 pre"
        "drop (?k - length xs) post"] by simp
qed

text \<open>
  Claim C12: a frame damaged in transit is never taken for another one.  If a byte string that some
  decoder accepts is changed within any window of at most four consecutive bytes, wherever the
  window lies (magic, header, length field, payload, checksum), then no decoder accepts the result.
\<close>
theorem burst_corruption_rejected:
  assumes "accepted (pre @ xs @ post)" "length ys = length xs" "length xs \<le> 4" "ys \<noteq> xs"
  shows "\<not> accepted (pre @ ys @ post)"
proof
  assume "accepted (pre @ ys @ post)"
  then have "take 2 (pre @ ys @ post) = MAGIC" "crc_run (NOT 0) (drop 2 (pre @ ys @ post)) = crc_residue"
    using frame_bytes_residue by (metis accepted_frame)+
  moreover have "take 2 (pre @ xs @ post) = MAGIC"
    "crc_run (NOT 0) (drop 2 (pre @ xs @ post)) = crc_residue"
    using frame_bytes_residue assms(1) by (metis accepted_frame)+
  ultimately show False
    using burst_breaks_residue [of ys xs pre post "NOT 0"] assms(2-4) by simp
qed

theorem burst_corruption_rejected_witness:
  "\<not> accepted ([0x44, 0x52, 1, 3] @ [9, 1, 0, 128] @ [1, 0, 0, 117, 27, 59, 44])"
proof (rule burst_corruption_rejected [where xs = "[7, 0, 0, 0]"])
  have "crc32c [1, 3, 7, 0, 0, 0, 1, 0, 0] = 0x2c3b1b75"
    by (simp add: crc32c_def crc_byte_def crc_bits_8 crc_bit_def crc_poly_def)
  then have "frame_bytes 3 7 [0] = [0x44, 0x52, 1, 3, 7, 0, 0, 0, 1, 0, 0, 117, 27, 59, 44]"
    by (simp add: frame_bytes_def frame_body_def le_bytes_expand)
  then show "accepted ([0x44, 0x52, 1, 3] @ [7, 0, 0, 0] @ [1, 0, 0, 117, 27, 59, 44])"
    using crq.decode_layout [OF TrueI, of "\<lparr>rq_sequence = 7\<rparr>"]
    by (simp add: accepted_def decoders_def)
qed simp_all

text \<open>
  Claim C13: the command decoder accepts exactly the layouts of well-formed frames: it returns a
  frame iff the names in it are UTF-8 of at most 63 bytes and the input is, byte for byte, that
  frame's layout.  So it never accepts two spellings of one command.
\<close>
theorem decode_command_exact:
  "decode_command input = Inr f \<longleftrightarrow>
     list_all name_ok (command_names (ce_command (cf_envelope f))) \<and>
     input = frame_bytes COMMAND_MESSAGE_TYPE (cf_sequence f) (envelope_layout (cf_envelope f))"
  using cmd.decode_iff [of input f] by (simp add: frame_ok_def command_ok_def)

text \<open>
  The command encoder on every branch, for every frame and buffer: a name over 63 bytes
  and a buffer that is too short are reported and leave the buffer as it was; otherwise the layout
  is written to the front, the rest of the buffer is kept, and the length written is returned.
\<close>
theorem encode_command_spec:
  "encode_command f out =
     (let env = cf_envelope f; names = command_names (ce_command env);
          frame_len = length (envelope_layout env) + HEADER_LEN + CHECKSUM_LEN in
      if \<exists>s\<in>set names. MAX_STRING_LEN < length s
      then (Inl (EncStringTooLong (length (hd names)) MAX_STRING_LEN), out)
      else if length out < frame_len then (Inl (BufferTooSmall frame_len (length out)), out)
      else (Inr frame_len,
        frame_bytes COMMAND_MESSAGE_TYPE (cf_sequence f) (envelope_layout env) @ drop frame_len out))"
proof (cases "names_fit (ce_command (cf_envelope f))")
  case True
  then show ?thesis
    using encode_command_fits [OF True, of out] encode_command_short [OF True, of out]
    by (auto simp: Let_def names_fit_def list_all_iff not_less add.commute [of 14])
next
  case False
  then show ?thesis
    using encoded_payload_len_long [OF False refl]
    by (auto simp: encode_command_def Let_def names_fit_def list_all_iff not_le)
qed

text \<open>
  Claim C14: a command frame that was encoded is decoded to itself from the bytes written, whatever
  the buffer held before, and the bytes after it are untouched.
\<close>
theorem command_roundtrip:
  assumes "list_all name_ok (command_names (ce_command (cf_envelope f)))"
    and "encode_command f out = (Inr n, out')"
  shows "decode_command (take n out') = Inr f \<and> drop n out' = drop n out \<and> n \<le> MAX_FRAME_LEN"
proof -
  have "frame_ok f" using assms(1) by (simp add: frame_ok_def command_ok_def)
  then show ?thesis using cmd.roundtrip [OF _ assms(2)] cmd.payload_le [of f] by auto
qed

theorem command_roundtrip_witness:
  "let f = \<lparr>cf_sequence = 9, cf_envelope = \<lparr>ce_execute_at = Some 1000, ce_command = Move ''x'' (- 5) 200\<rparr>\<rparr>
   in \<exists>n out'. encode_command f (replicate 60 255) = (Inr n, out') \<and>
     decode_command (take n out') = Inr f"
proof -
  let ?f = "\<lparr>cf_sequence = 9, cf_envelope = \<lparr>ce_execute_at = Some 1000, ce_command = Move ''x'' (- 5) 200\<rparr>\<rparr>"
  have x: "name_ok ''x''"
    by (simp add: name_ok_def rust_string_def as_bytes_def)
  have "length (envelope_layout (cf_envelope ?f)) = 28"
    by (simp add: envelope_layout_def string_layout_def)
  then obtain n out' where e: "encode_command ?f (replicate 60 255) = (Inr n, out')"
    using encode_command_fits [of ?f "replicate 60 255"] by (simp add: names_fit_def)
  then show ?thesis
    using command_roundtrip [OF _ e] x by auto
qed

text \<open>
  The three fixed-size frames, queue status, clock request and clock response, survive
  the round trip for every value of every field.
\<close>
theorem fixed_frames_roundtrip:
  "(case encode_queue_status q out of
      (Inr n, out') \<Rightarrow> decode_queue_status (take n out') = Inr q \<and> drop n out' = drop n out
    | (Inl e, out') \<Rightarrow> out' = out \<and> length out < QUEUE_STATUS_FRAME_LEN) \<and>
   (case encode_clock_request r out of
      (Inr n, out') \<Rightarrow> decode_clock_request (take n out') = Inr r \<and> drop n out' = drop n out
    | (Inl e, out') \<Rightarrow> out' = out \<and> length out < CLOCK_REQUEST_FRAME_LEN) \<and>
   (case encode_clock_response p out of
      (Inr n, out') \<Rightarrow> decode_clock_response (take n out') = Inr p \<and> drop n out' = drop n out
    | (Inl e, out') \<Rightarrow> out' = out \<and> length out < CLOCK_RESPONSE_FRAME_LEN)"
  using qst.roundtrip_case [OF TrueI, of out q] crq.roundtrip_case [OF TrueI, of out r]
    crs.roundtrip_case [OF TrueI, of out p] by (simp split: prod.splits sum.splits)

text \<open>
  The message types do not overlap: no byte string is accepted by two of the four
  decoders.
\<close>
theorem decoders_exclusive:
  "length (filter id (decoders input)) \<le> 1"
proof -
  have mt: "frame_bytes mt seq p ! 3 = mt" for mt seq p
    by (simp add: frame_bytes_def frame_body_def)
  have "is_ok (decode_command input) \<Longrightarrow> input ! 3 = 1"
    "is_ok (decode_queue_status input) \<Longrightarrow> input ! 3 = 2"
    "is_ok (decode_clock_request input) \<Longrightarrow> input ! 3 = 3"
    "is_ok (decode_clock_response input) \<Longrightarrow> input ! 3 = 4"
    by (auto simp: cmd.decode_is_ok_iff qst.decode_is_ok_iff crq.decode_is_ok_iff
        crs.decode_is_ok_iff mt)
  then show ?thesis by (auto simp: decoders_def)
qed

end
