(* ===== verification/ClockSync.thy ===== *)
theory ClockSync
  imports Prelude Complex_Main
begin

text \<open>
  The clock estimator of \<^verbatim>\<open>crates/clock-sync/src/lib.rs\<close>: four-timestamp samples, the offset
  interval of one sample (\<^verbatim>\<open>observe\<close>, \<^verbatim>\<open>observe_bounded\<close>), the session state \<^verbatim>\<open>ClockSync\<close> with
  \<^verbatim>\<open>push\<close>, \<^verbatim>\<open>controller_window\<close>, \<^verbatim>\<open>uncertainty_at\<close> and \<^verbatim>\<open>resync_due\<close>, the drift estimate and the
  rounding divisions.  \<^verbatim>\<open>HostTick\<close> and \<^verbatim>\<open>ControllerTick\<close> are one-field wrappers of \<^verbatim>\<open>u64\<close> and are
  written as the word.  The lemmas: every rounding division computes the floor, ceiling or nearest
  integer, \<^verbatim>\<open>observe\<close> never overflows, a rejected sample leaves the session as it was, the session
  invariant, and soundness of the projected window against any controller clock whose rate keeps
  the slew bound.
\<close>

section \<open>Data\<close>

type_synonym HostTick = u64
type_synonym ControllerTick = u64

definition PARTS_PER_BILLION :: i128 where "PARTS_PER_BILLION = 1000000000"
definition MIDPOINT_SLEW_DENOMINATOR :: i128 where "MIDPOINT_SLEW_DENOMINATOR = 2000000000"

record ClockSample =
  host_send :: HostTick
  controller_receive :: ControllerTick
  controller_send :: ControllerTick
  host_receive :: HostTick

record OffsetObservation =
  reference_host :: HostTick
  offset_ticks :: i128
  offset_min_ticks :: i128
  offset_max_ticks :: i128
  round_trip_ticks :: u64

record DriftEstimate =
  ppb :: i128
  min_ppb :: i128
  max_ppb :: i128
  baseline_ticks :: u64

record ClockEstimate =
  anchor :: OffsetObservation
  drift :: DriftEstimate
  sampled_at :: HostTick

record ControllerWindow =
  earliest :: ControllerTick
  cw_estimate :: ControllerTick
  latest :: ControllerTick

datatype ClockSyncError =
    InvalidSlewBound
  | HostRegressed
  | ControllerRegressed
  | ControllerProcessingExceedsRoundTrip
  | InsufficientSeparation
  | ArithmeticOverflow
  | EstimateUnavailable
  | HostTickBeforeSession

record ClockSyncState =
  max_slew_ppb :: i128
  session_start :: "HostTick option"
  previous :: "OffsetObservation option"
  estimate :: "ClockEstimate option"
  last_raw :: "ClockSample option"

section \<open>Rounding divisions\<close>

text \<open>\<^verbatim>\<open>.ok_or(ClockSyncError::ArithmeticOverflow)?\<close>, the ending of every checked operation.\<close>

abbreviation overflow :: "'a option \<Rightarrow> ClockSyncError + 'a" where
  "overflow m \<equiv> ok_or m ArithmeticOverflow"

definition div_floor :: "i128 \<Rightarrow> i128 \<Rightarrow> ClockSyncError + i128" where
  "div_floor numerator denominator =
     and_then (overflow (i128_checked_div numerator denominator)) (\<lambda>quotient.
     and_then (overflow (i128_checked_rem numerator denominator)) (\<lambda>remainder.
       if remainder < 0 then overflow (i128_checked_sub quotient 1) else Inr quotient))"

definition div_ceil :: "i128 \<Rightarrow> i128 \<Rightarrow> ClockSyncError + i128" where
  "div_ceil numerator denominator =
     and_then (overflow (i128_checked_div numerator denominator)) (\<lambda>quotient.
     and_then (overflow (i128_checked_rem numerator denominator)) (\<lambda>remainder.
       if remainder > 0 then overflow (i128_checked_add quotient 1) else Inr quotient))"

definition div_round_nearest_ties_away :: "i128 \<Rightarrow> i128 \<Rightarrow> ClockSyncError + i128" where
  "div_round_nearest_ties_away numerator denominator =
     and_then (overflow (i128_checked_div numerator denominator)) (\<lambda>quotient.
     and_then (overflow (i128_checked_rem numerator denominator)) (\<lambda>remainder.
     and_then (overflow (Option.bind (i128_checked_abs remainder) (\<lambda>m. i128_checked_mul m 2)))
       (\<lambda>magnitude.
         if magnitude < denominator then Inr quotient
         else if numerator < 0 then overflow (i128_checked_sub quotient 1)
         else overflow (i128_checked_add quotient 1))))"

definition to_u64 :: "i128 \<Rightarrow> ClockSyncError + u64" where
  "to_u64 v = (if 0 \<le> v \<and> v < 2 ^ 64 then Inr (word_of_int v) else Inl ArithmeticOverflow)"

section \<open>Observations\<close>

definition observe :: "ClockSample \<Rightarrow> ClockSyncError + OffsetObservation" where
  "observe s =
     and_then (ok_or (checked_sub (host_receive s) (host_send s)) HostRegressed)
       (\<lambda>host_elapsed.
     and_then (ok_or (checked_sub (controller_send s) (controller_receive s)) ControllerRegressed)
       (\<lambda>controller_processing.
     and_then (ok_or (checked_sub host_elapsed controller_processing)
         ControllerProcessingExceedsRoundTrip) (\<lambda>round_trip.
     and_then (overflow (i128_checked_sub (uint (controller_send s)) (uint (host_receive s))))
       (\<lambda>low.
     and_then (overflow (i128_checked_sub (uint (controller_receive s)) (uint (host_send s))))
       (\<lambda>high.
     and_then (overflow (i128_checked_sub high low)) (\<lambda>width.
     and_then (overflow (i128_checked_add low (width sdiv 2))) (\<lambda>midpoint.
     and_then (overflow (checked_add (host_send s) (host_elapsed div 2))) (\<lambda>reference.
       Inr \<lparr>reference_host = reference, offset_ticks = midpoint, offset_min_ticks = low,
            offset_max_ticks = high, round_trip_ticks = round_trip\<rparr>))))))))"

definition observe_bounded :: "ClockSample \<Rightarrow> i128 \<Rightarrow> ClockSyncError + OffsetObservation" where
  "observe_bounded s slew =
     and_then (ok_or (checked_sub (host_receive s) (host_send s)) HostRegressed)
       (\<lambda>host_elapsed.
     if controller_send s < controller_receive s then Inl ControllerRegressed else
     and_then (and_then (overflow (i128_checked_mul (uint host_elapsed) slew))
         (\<lambda>n. div_ceil n MIDPOINT_SLEW_DENOMINATOR)) (\<lambda>allowance.
     and_then (overflow (i128_checked_sub (uint (controller_send s)) (uint (host_receive s))))
       (\<lambda>nominal_low.
     and_then (overflow (i128_checked_sub (uint (controller_receive s)) (uint (host_send s))))
       (\<lambda>nominal_high.
     and_then (overflow (i128_checked_sub nominal_low allowance)) (\<lambda>low.
     and_then (overflow (i128_checked_add nominal_high allowance)) (\<lambda>high.
     and_then (overflow (i128_checked_sub high low)) (\<lambda>width.
     if width < 0 then Inl ControllerProcessingExceedsRoundTrip else
     and_then (overflow (i128_checked_add low (width sdiv 2))) (\<lambda>midpoint.
     and_then (overflow (checked_add (host_send s) (host_elapsed div 2))) (\<lambda>reference.
       Inr \<lparr>reference_host = reference, offset_ticks = midpoint, offset_min_ticks = low,
            offset_max_ticks = high, round_trip_ticks = host_elapsed\<rparr>)))))))))"

definition estimate_drift ::
  "OffsetObservation \<Rightarrow> OffsetObservation \<Rightarrow> ClockSyncError + DriftEstimate" where
  "estimate_drift prev cur =
     and_then (ok_or (case checked_sub (reference_host cur) (reference_host prev) of
         None \<Rightarrow> None | Some baseline \<Rightarrow> if baseline \<noteq> 0 then Some baseline else None)
         InsufficientSeparation) (\<lambda>baseline.
     let denominator = uint baseline in
     and_then (overflow (i128_checked_sub (offset_ticks cur) (offset_ticks prev)))
       (\<lambda>point_delta.
     and_then (overflow (i128_checked_sub (offset_min_ticks cur) (offset_max_ticks prev)))
       (\<lambda>minimum_delta.
     and_then (overflow (i128_checked_sub (offset_max_ticks cur) (offset_min_ticks prev)))
       (\<lambda>maximum_delta.
     and_then (and_then (overflow (i128_checked_mul point_delta PARTS_PER_BILLION))
         (\<lambda>n. div_round_nearest_ties_away n denominator)) (\<lambda>p.
     and_then (and_then (overflow (i128_checked_mul minimum_delta PARTS_PER_BILLION))
         (\<lambda>n. div_floor n denominator)) (\<lambda>lo.
     and_then (and_then (overflow (i128_checked_mul maximum_delta PARTS_PER_BILLION))
         (\<lambda>n. div_ceil n denominator)) (\<lambda>hi.
       Inr \<lparr>ppb = p, min_ppb = lo, max_ppb = hi, baseline_ticks = baseline\<rparr>)))))))"

section \<open>The session\<close>

definition clock_sync_new :: "i128 \<Rightarrow> ClockSyncError + ClockSyncState" where
  "clock_sync_new slew =
     (if slew < 0 then Inl InvalidSlewBound
      else Inr \<lparr>max_slew_ppb = slew, session_start = None, previous = None, estimate = None,
                last_raw = None\<rparr>)"

definition push :: "ClockSample \<Rightarrow> (ClockSyncState, ClockSyncError, ClockEstimate option) st" where
  "push s self =
     (case observe_bounded s (max_slew_ppb self) of
        Inl e \<Rightarrow> (Inl e, self)
      | Inr observation \<Rightarrow>
          (case
             (case last_raw self of
                None \<Rightarrow> Inr ()
              | Some lst \<Rightarrow>
                  if host_send s < host_send lst \<or> host_receive s < host_receive lst
                  then Inl HostRegressed
                  else if controller_receive s < controller_receive lst \<or>
                          controller_send s < controller_send lst
                  then Inl ControllerRegressed
                  else Inr ())
           of
             Inl e \<Rightarrow> (Inl e, self)
           | Inr _ \<Rightarrow>
               (case
                  (case previous self of
                     Some prev \<Rightarrow>
                       if reference_host observation \<le> reference_host prev
                       then Inl InsufficientSeparation
                       else and_then (estimate_drift prev observation) (\<lambda>d.
                              Inr (Some \<lparr>anchor = observation, drift = d,
                                         sampled_at = host_receive s\<rparr>))
                   | None \<Rightarrow> Inr None)
                of
                  Inl e \<Rightarrow> (Inl e, self)
                | Inr next_estimate \<Rightarrow>
                    let self1 = (if session_start self = None
                                 then self\<lparr>session_start := Some (reference_host observation)\<rparr>
                                 else self);
                        self2 = self1\<lparr>previous := Some observation, last_raw := Some s\<rparr>;
                        self3 = (case next_estimate of
                                   Some e \<Rightarrow> self2\<lparr>estimate := Some e\<rparr> | None \<Rightarrow> self2)
                    in (Inr (estimate self3), self3))))"

definition project :: "ClockSyncState \<Rightarrow> HostTick \<Rightarrow> ClockSyncError + (i128 \<times> i128 \<times> i128)" where
  "project self host =
     and_then (ok_or (estimate self) EstimateUnavailable) (\<lambda>est.
     and_then (ok_or (session_start self) EstimateUnavailable) (\<lambda>start.
     if host < start then Inl HostTickBeforeSession else
     and_then (overflow (i128_checked_sub (uint host) (uint (reference_host (anchor est)))))
       (\<lambda>elapsed.
     and_then (overflow (i128_checked_neg (max_slew_ppb self))) (\<lambda>physical_min.
     let minimum = min (min_ppb (drift est)) physical_min;
         maximum = max (max_ppb (drift est)) (max_slew_ppb self);
         (low_ppb, high_ppb) = (if elapsed < 0 then (maximum, minimum) else (minimum, maximum)) in
     and_then (and_then (overflow (i128_checked_mul elapsed low_ppb))
         (\<lambda>n. div_floor n PARTS_PER_BILLION)) (\<lambda>low_drift.
     and_then (and_then (overflow (i128_checked_mul elapsed high_ppb))
         (\<lambda>n. div_ceil n PARTS_PER_BILLION)) (\<lambda>high_drift.
     and_then (overflow (i128_checked_add (offset_min_ticks (anchor est)) low_drift))
       (\<lambda>offset_low.
     and_then (overflow (i128_checked_add (offset_max_ticks (anchor est)) high_drift))
       (\<lambda>offset_high.
     and_then (overflow (i128_checked_add (uint host) offset_low)) (\<lambda>controller_low.
     and_then (overflow (i128_checked_add (uint host) offset_high)) (\<lambda>controller_high.
     and_then (overflow (i128_checked_sub controller_high controller_low)) (\<lambda>width.
     and_then (overflow (i128_checked_add controller_low (width sdiv 2))) (\<lambda>midpoint.
       Inr (controller_low, midpoint, controller_high)))))))))))))"

definition controller_window :: "ClockSyncState \<Rightarrow> HostTick \<Rightarrow> ClockSyncError + ControllerWindow"
where
  "controller_window self host =
     and_then (project self host) (\<lambda>(low, midpoint, high).
     and_then (to_u64 low) (\<lambda>lo.
     and_then (to_u64 midpoint) (\<lambda>mid.
     and_then (to_u64 high) (\<lambda>hi.
       Inr \<lparr>earliest = lo, cw_estimate = mid, latest = hi\<rparr>))))"

definition uncertainty_at :: "ClockSyncState \<Rightarrow> HostTick \<Rightarrow> ClockSyncError + u64" where
  "uncertainty_at self host =
     and_then (project self host) (\<lambda>(low, midpoint, high).
     and_then (to_u64 low) (\<lambda>_.
     and_then (to_u64 midpoint) (\<lambda>_.
     and_then (to_u64 high) (\<lambda>_.
     and_then (overflow (i128_checked_sub midpoint low)) (\<lambda>below.
     and_then (overflow (i128_checked_sub high midpoint)) (\<lambda>above.
       to_u64 (max below above)))))))"

definition resync_due :: "ClockSyncState \<Rightarrow> HostTick \<Rightarrow> u64 \<Rightarrow> bool" where
  "resync_due self host_now interval_ticks =
     (case estimate self of
        None \<Rightarrow> True
      | Some est \<Rightarrow>
          (case checked_sub host_now (sampled_at est) of
             None \<Rightarrow> False | Some elapsed \<Rightarrow> elapsed \<ge> interval_ticks))"

section \<open>The divisions round as their names say\<close>

lemma sdiv_pos: "0 < d \<Longrightarrow> n sdiv d = (if 0 \<le> n then n div d else - (- n div d))" for n d :: int
  by (cases n "0 :: int" rule: linorder_cases) (simp_all add: signed_divide_int_def)

lemma smod_pos: "0 < d \<Longrightarrow> n smod d = (if 0 \<le> n then n mod d else - (- n mod d))" for n d :: int
  by (cases n "0 :: int" rule: linorder_cases) (simp_all add: signed_modulo_int_def)

lemma abs_div_bounds: "0 < d \<Longrightarrow> 0 \<le> n \<Longrightarrow> 0 \<le> n div d \<and> n div d \<le> n" for n d :: int
  using zdiv_mono2 [of n 1 d] by (simp add: pos_imp_zdiv_nonneg_iff)

lemma in_i128_sdiv: "0 < d \<Longrightarrow> in_i128 n \<Longrightarrow> in_i128 (n sdiv d)"
  using abs_div_bounds [of d n] abs_div_bounds [of d "- n"] by (auto simp: sdiv_pos in_i128_def)

lemma i128_div_rem_pos:
  assumes "0 < d" "in_i128 n"
  shows "i128_checked_div n d = Some (n sdiv d)" "i128_checked_rem n d = Some (n smod d)"
  using assms in_i128_sdiv [OF assms]
  by (simp_all add: i128_checked_div_def i128_checked_rem_def i128_fit_def)

lemma div_between: "0 < d \<Longrightarrow> min n 0 \<le> n div d \<and> n div d \<le> max n 0" for n d :: int
  using abs_div_bounds [of d n] zdiv_mono2_neg [of n 1 d] div_neg_pos_less0 [of n d]
  by (cases "0 \<le> n") auto

lemma in_i128_div: "0 < d \<Longrightarrow> in_i128 n \<Longrightarrow> in_i128 (n div d)"
  using div_between [of d n] by (auto simp: in_i128_def)

lemma in_i128_ceil: "0 < d \<Longrightarrow> in_i128 n \<Longrightarrow> in_i128 (- (- n div d))"
  using div_between [of d "- n"] by (auto simp: in_i128_def)

lemma minus_div_eq:
  "0 < d \<Longrightarrow> - n div d = (if n mod d = 0 then - (n div d) else - (n div d) - 1)" for n d :: int
  by (simp add: zdiv_zminus1_eq_if)

lemma mod_pos_iff: "0 < d \<Longrightarrow> 0 < n mod d \<longleftrightarrow> n mod d \<noteq> 0" for n d :: int
  by (simp add: order.strict_iff_order)

lemma div_floor_eq:
  assumes "0 < d" "in_i128 n"
  shows "div_floor n d = Inr (n div d)"
  using assms in_i128_div [OF assms] minus_div_eq [OF assms(1), of "- n"]
    mod_pos_iff [OF assms(1), of "- n"]
  by (simp add: div_floor_def i128_div_rem_pos sdiv_pos smod_pos i128_checked_sub_def i128_fit_def
      not_less del: zdiv_zminus1_eq_if split: if_splits)

lemma div_ceil_eq:
  assumes "0 < d" "in_i128 n"
  shows "div_ceil n d = Inr (- (- n div d))"
  using assms in_i128_ceil [OF assms] minus_div_eq [OF assms(1), of n]
    mod_pos_iff [OF assms(1), of n]
  by (simp add: div_ceil_def i128_div_rem_pos sdiv_pos smod_pos i128_checked_add_def i128_fit_def
      not_less add.commute split: if_splits)

text \<open>The nearest integer, a tie going away from zero.\<close>

definition round_away :: "int \<Rightarrow> int \<Rightarrow> int" where
  "round_away n d = sgn n * ((2 * \<bar>n\<bar> + d) div (2 * d))"

lemma half_up_div:
  "0 < d \<Longrightarrow> (2 * n + d) div (2 * d) = (if 2 * (n mod d) < d then n div d else n div d + 1)"
  for n d :: int
proof -
  assume d: "0 < d"
  have "2 * n + d = 2 * (n div d * d + n mod d) + d" by simp
  also have "\<dots> = (2 * (n mod d) + d) + n div d * (2 * d)" by (simp only: algebra_simps)
  finally have "(2 * n + d) div (2 * d) = n div d + (2 * (n mod d) + d) div (2 * d)"
    using d by (simp only: div_mult_self1 mult_eq_0_iff) simp
  moreover have "(2 * (n mod d) + d) div (2 * d) = (if 2 * (n mod d) < d then 0 else 1)"
    using d pos_mod_sign [OF d, of n] pos_mod_bound [OF d, of n]
    by (auto simp: div_pos_pos_trivial intro: int_div_pos_eq [of _ "2 * d" 1 "2 * (n mod d) - d"])
  ultimately show ?thesis by simp
qed

lemma div_round_nearest_eq:
  assumes "0 < d" "d < 2 ^ 64" "in_i128 n"
  shows "div_round_nearest_ties_away n d =
    (if in_i128 (round_away n d) then Inr (round_away n d) else Inl ArithmeticOverflow)"
proof -
  have m: "0 \<le> \<bar>n\<bar> mod d" "\<bar>n\<bar> mod d < d" using assms(1) by simp_all
  have "i128_checked_abs (n smod d) = Some (\<bar>n\<bar> mod d)"
    "i128_checked_mul (\<bar>n\<bar> mod d) 2 = Some (2 * (\<bar>n\<bar> mod d))"
    using m assms(2) by (auto simp: arith_ops smod_pos [OF assms(1)] in_i128_def)
  then show ?thesis
    using assms in_i128_sdiv [OF assms(1,3)] half_up_div [OF assms(1), of "\<bar>n\<bar>"]
    by (auto simp: div_round_nearest_ties_away_def i128_div_rem_pos sdiv_pos round_away_def
        i128_checked_add_def i128_checked_sub_def i128_fit_def sgn_if)
qed

section \<open>What one sample gives\<close>

definition ceil_div :: "int \<Rightarrow> int \<Rightarrow> int" where "ceil_div n d = - (- n div d)"

definition host_span :: "ClockSample \<Rightarrow> int" where
  "host_span s = uint (host_receive s) - uint (host_send s)"

definition controller_span :: "ClockSample \<Rightarrow> int" where
  "controller_span s = uint (controller_send s) - uint (controller_receive s)"

definition sample_low :: "ClockSample \<Rightarrow> int" where
  "sample_low s = uint (controller_send s) - uint (host_receive s)"

definition sample_high :: "ClockSample \<Rightarrow> int" where
  "sample_high s = uint (controller_receive s) - uint (host_send s)"

definition sample_reference :: "ClockSample \<Rightarrow> u64" where
  "sample_reference s = host_send s + (host_receive s - host_send s) div 2"

definition sample_allowance :: "int \<Rightarrow> ClockSample \<Rightarrow> int" where
  "sample_allowance slew s = ceil_div (host_span s * slew) 2000000000"

lemma u64_bounds: "0 \<le> uint (w :: u64)" "uint (w :: u64) < 18446744073709551616"
  using unsigned_less [of w, where 'a = int] by simp_all

lemma in_i128_u64: "in_i128 (uint (w :: u64))"
proof -
  have "- (2 ^ 127) \<le> (0 :: int)" "(18446744073709551616 :: int) \<le> 2 ^ 127" by simp_all
  then show ?thesis using u64_bounds [of w] unfolding in_i128_def by (intro conjI) linarith+
qed

lemma span_width: "sample_high s - sample_low s = host_span s - controller_span s"
  by (simp add: sample_high_def sample_low_def host_span_def controller_span_def)

lemma reference_fits:
  assumes "host_send s \<le> host_receive s"
  shows "checked_add (host_send s) ((host_receive s - host_send s) div 2) = Some (sample_reference s)"
    and "uint (sample_reference s) = uint (host_send s) + host_span s div 2"
proof -
  have d: "uint ((host_receive s - host_send s) div 2) = host_span s div 2"
    using assms by (simp add: uint_div arith_ops host_span_def)
  have "host_span s div 2 \<le> host_span s"
    using assms by (simp add: host_span_def word_le_def)
  then have lt: "uint (host_send s) + host_span s div 2 < 2 ^ 64"
    using u64_bounds [of "host_receive s"] by (simp add: host_span_def)
  then show "checked_add (host_send s) ((host_receive s - host_send s) div 2) =
      Some (sample_reference s)"
    by (simp add: arith_ops d sample_reference_def)
  show "uint (sample_reference s) = uint (host_send s) + host_span s div 2"
    unfolding sample_reference_def using lt by (subst uint_add_fits) (simp_all add: d)
qed

lemma small_i128: "- (2 ^ 126) < k \<Longrightarrow> k < 2 ^ 126 \<Longrightarrow> in_i128 k"
  by (simp add: in_i128_def)

lemma sample_bounds:
  "- 18446744073709551616 < sample_low s" "sample_low s < 18446744073709551616"
  "- 18446744073709551616 < sample_high s" "sample_high s < 18446744073709551616"
  using u64_bounds [of "host_send s"] u64_bounds [of "host_receive s"]
    u64_bounds [of "controller_send s"] u64_bounds [of "controller_receive s"]
  unfolding sample_low_def sample_high_def by linarith+

lemma sample_differences:
  "i128_checked_sub (uint (controller_send s)) (uint (host_receive s)) = Some (sample_low s)"
  "i128_checked_sub (uint (controller_receive s)) (uint (host_send s)) = Some (sample_high s)"
  using sample_bounds [of s]
  by (auto simp: arith_ops sample_low_def sample_high_def intro!: small_i128)

lemma sdiv_2: "0 \<le> n \<Longrightarrow> n sdiv 2 = n div 2" for n :: int
  by (simp add: sdiv_pos)

lemma observe_eq:
  "observe s =
    (if host_receive s < host_send s then Inl HostRegressed
     else if controller_send s < controller_receive s then Inl ControllerRegressed
     else if host_span s < controller_span s then Inl ControllerProcessingExceedsRoundTrip
     else Inr \<lparr>reference_host = sample_reference s,
               offset_ticks = sample_low s + (sample_high s - sample_low s) div 2,
               offset_min_ticks = sample_low s, offset_max_ticks = sample_high s,
               round_trip_ticks = (host_receive s - host_send s) -
                 (controller_send s - controller_receive s)\<rparr>)"
proof -
  let ?E = "host_receive s - host_send s" and ?P = "controller_send s - controller_receive s"
  show ?thesis
  proof (cases "host_receive s < host_send s \<or> controller_send s < controller_receive s")
    case True
    then show ?thesis by (auto simp: observe_def checked_sub_def)
  next
    case False
    then have h: "checked_sub (host_receive s) (host_send s) = Some ?E"
      "checked_sub (controller_send s) (controller_receive s) = Some ?P"
      and le: "host_send s \<le> host_receive s" "controller_receive s \<le> controller_send s"
      by (auto simp: checked_sub_def)
    have p: "?P \<le> ?E \<longleftrightarrow> controller_span s \<le> host_span s"
      using le by (simp add: word_le_def [of ?P] arith_ops host_span_def controller_span_def)
    note b = sample_bounds [of s]
    have v: "i128_checked_sub (sample_high s) (sample_low s) = Some (sample_high s - sample_low s)"
      using b by (auto simp: arith_ops intro!: small_i128)
    have w: "i128_checked_add (sample_low s) ((sample_high s - sample_low s) div 2) =
        Some (sample_low s + (sample_high s - sample_low s) div 2)"
      using b by (auto simp: arith_ops intro!: small_i128)
    show ?thesis
      using False reference_fits(1) [OF le(1)] p w [unfolded span_width] span_width [of s] sdiv_2 [of "sample_high s - sample_low s"]
      by (auto simp: observe_def h v sample_differences checked_sub_def [of ?E])
  qed
qed

text \<open>
  The interval \<^verbatim>\<open>push\<close> uses.  The product of the span and the slew is the only operation that can
  leave the 128-bit range; the error for it is the only overflow.
\<close>

definition bounded_low :: "int \<Rightarrow> ClockSample \<Rightarrow> int" where
  "bounded_low slew s = sample_low s - sample_allowance slew s"

definition bounded_high :: "int \<Rightarrow> ClockSample \<Rightarrow> int" where
  "bounded_high slew s = sample_high s + sample_allowance slew s"

lemma allowance_bounds:
  assumes "0 \<le> slew" "host_send s \<le> host_receive s" "host_span s * slew < 2 ^ 127"
  shows "0 \<le> sample_allowance slew s" "sample_allowance slew s \<le> 2 ^ 97"
proof -
  let ?n = "host_span s * slew"
  have n: "0 \<le> ?n" using assms(1,2) by (simp add: host_span_def word_le_def)
  show "0 \<le> sample_allowance slew s"
    using n div_between [of 2000000000 "- ?n"] by (simp add: sample_allowance_def ceil_div_def)
  have "- (2 ^ 97) * 2000000000 \<le> - ?n" using assms(3) by simp
  from zdiv_mono1 [OF this, of 2000000000] have "- (2 ^ 97) \<le> - ?n div 2000000000" by simp
  then show "sample_allowance slew s \<le> 2 ^ 97" by (simp add: sample_allowance_def ceil_div_def)
qed

lemma observe_bounded_eq:
  assumes slew: "0 \<le> slew"
  shows "observe_bounded s slew =
    (if host_receive s < host_send s then Inl HostRegressed
     else if controller_send s < controller_receive s then Inl ControllerRegressed
     else if 2 ^ 127 \<le> host_span s * slew then Inl ArithmeticOverflow
     else if bounded_high slew s < bounded_low slew s then Inl ControllerProcessingExceedsRoundTrip
     else Inr \<lparr>reference_host = sample_reference s,
               offset_ticks = bounded_low slew s + (bounded_high slew s - bounded_low slew s) div 2,
               offset_min_ticks = bounded_low slew s, offset_max_ticks = bounded_high slew s,
               round_trip_ticks = host_receive s - host_send s\<rparr>)"
proof (cases "host_receive s < host_send s \<or> controller_send s < controller_receive s")
  case True
  then show ?thesis by (auto simp: observe_bounded_def checked_sub_def)
next
  case False
  then have le: "host_send s \<le> host_receive s" by auto
  then have E: "checked_sub (host_receive s) (host_send s) = Some (host_receive s - host_send s)"
    "uint (host_receive s - host_send s) = host_span s" "0 \<le> host_span s"
    by (simp_all add: checked_sub_def arith_ops host_span_def word_le_def)
  show ?thesis
  proof (cases "2 ^ 127 \<le> host_span s * slew")
    case True
    then have "i128_checked_mul (host_span s) slew = None"
      by (simp add: i128_checked_mul_def i128_fit_def in_i128_def)
    then show ?thesis using False True by (simp add: observe_bounded_def E)
  next
    case small: False
    then have fit: "in_i128 (host_span s * slew)"
      using mult_nonneg_nonneg [OF E(3) slew] unfolding in_i128_def by linarith
    note A = allowance_bounds [OF slew le small [unfolded not_le]]
    have m: "i128_checked_mul (host_span s) slew = Some (host_span s * slew)"
      using fit by (simp add: arith_ops)
    have c: "div_ceil (host_span s * slew) MIDPOINT_SLEW_DENOMINATOR = Inr (sample_allowance slew s)"
      using fit by (simp add: div_ceil_eq MIDPOINT_SLEW_DENOMINATOR_def sample_allowance_def ceil_div_def)
    have v: "i128_checked_sub (sample_low s) (sample_allowance slew s) = Some (bounded_low slew s)"
      "i128_checked_add (sample_high s) (sample_allowance slew s) = Some (bounded_high slew s)"
      "i128_checked_sub (bounded_high slew s) (bounded_low slew s) =
        Some (bounded_high slew s - bounded_low slew s)"
      "i128_checked_add (bounded_low slew s) ((bounded_high slew s - bounded_low slew s) div 2) =
        Some (bounded_low slew s + (bounded_high slew s - bounded_low slew s) div 2)"
      using A sample_bounds [of s]
      by (auto simp: arith_ops bounded_low_def bounded_high_def intro!: small_i128)
    show ?thesis
      using False small reference_fits(1) [OF le] sdiv_2 [of "bounded_high slew s - bounded_low slew s"]
      by (auto simp: observe_bounded_def E(1,2) m c v sample_differences)
  qed
qed

section \<open>The session invariant\<close>

text \<open>What a session remembers of the accepted samples, as a predicate on the state.\<close>

definition observed :: "i128 \<Rightarrow> ClockSample \<Rightarrow> OffsetObservation \<Rightarrow> bool" where
  "observed slew s ob \<longleftrightarrow> observe_bounded s slew = Inr ob"

definition session_inv :: "ClockSyncState \<Rightarrow> bool" where
  "session_inv cs \<longleftrightarrow> 0 \<le> max_slew_ppb cs \<and>
     (case last_raw cs of
        None \<Rightarrow> previous cs = None \<and> session_start cs = None \<and> estimate cs = None
      | Some s \<Rightarrow> \<exists>ob start.
          previous cs = Some ob \<and> observed (max_slew_ppb cs) s ob \<and>
          session_start cs = Some start \<and> start \<le> reference_host ob \<and>
          (case estimate cs of None \<Rightarrow> True
           | Some e \<Rightarrow> anchor e = ob \<and> sampled_at e = host_receive s \<and> start < reference_host ob))"

lemma push_error_unchanged: "push s cs = (Inl e, cs') \<Longrightarrow> cs' = cs"
  by (auto simp: push_def Let_def split: sum.splits option.splits if_splits)

definition not_before :: "ClockSample \<Rightarrow> ClockSample \<Rightarrow> bool" where
  "not_before l s \<longleftrightarrow> host_send l \<le> host_send s \<and> host_receive l \<le> host_receive s \<and>
     controller_receive l \<le> controller_receive s \<and> controller_send l \<le> controller_send s"

lemma push_first:
  assumes "push s cs = (Inr r, cs')" "previous cs = None"
  shows "\<exists>ob. observe_bounded s (max_slew_ppb cs) = Inr ob \<and> r = estimate cs \<and>
    cs' = cs\<lparr>session_start := (case session_start cs of None \<Rightarrow> Some (reference_host ob) | Some t \<Rightarrow> Some t),
      previous := Some ob, last_raw := Some s\<rparr>"
  using assms
  by (auto simp: push_def Let_def split: sum.splits option.splits if_splits)

lemma push_next:
  assumes "push s cs = (Inr r, cs')" "previous cs = Some prev"
  shows "\<exists>ob d. observe_bounded s (max_slew_ppb cs) = Inr ob \<and>
    reference_host prev < reference_host ob \<and> estimate_drift prev ob = Inr d \<and>
    (\<forall>l. last_raw cs = Some l \<longrightarrow> not_before l s) \<and>
    r = Some \<lparr>anchor = ob, drift = d, sampled_at = host_receive s\<rparr> \<and>
    cs' = cs\<lparr>session_start := (case session_start cs of None \<Rightarrow> Some (reference_host ob) | Some t \<Rightarrow> Some t),
      previous := Some ob, last_raw := Some s,
      estimate := Some \<lparr>anchor = ob, drift = d, sampled_at = host_receive s\<rparr>\<rparr>"
  using assms
  by (auto simp: push_def Let_def not_before_def not_less not_le and_then_Inr_iff
      split: sum.splits option.splits if_splits)

lemma session_inv_new: "clock_sync_new slew = Inr cs \<Longrightarrow> session_inv cs \<and> max_slew_ppb cs = slew"
  by (auto simp: clock_sync_new_def session_inv_def split: if_splits)

lemma push_slew: "max_slew_ppb (snd (push s cs)) = max_slew_ppb cs"
  by (auto simp: push_def Let_def split: sum.splits option.splits if_splits)

lemma session_inv_push:
  assumes inv: "session_inv cs"
  shows "session_inv (snd (push s cs))"
proof (cases "push s cs")
  case (Pair r cs')
  show ?thesis
  proof (cases r)
    case (Inl e)
    then show ?thesis using Pair inv push_error_unchanged by fastforce
  next
    case (Inr x)
    show ?thesis
    proof (cases "previous cs")
      case None
      then show ?thesis
        using push_first [of s cs x cs'] Pair Inr inv
        by (auto simp: session_inv_def observed_def split: option.splits)
    next
      case (Some prev)
      obtain start where start: "session_start cs = Some start" "start \<le> reference_host prev"
        "0 \<le> max_slew_ppb cs"
        using inv Some by (auto simp: session_inv_def split: option.splits)
      obtain ob d where "observe_bounded s (max_slew_ppb cs) = Inr ob"
        "reference_host prev < reference_host ob"
        "cs' = cs\<lparr>session_start := Some start, previous := Some ob, last_raw := Some s,
          estimate := Some \<lparr>anchor = ob, drift = d, sampled_at = host_receive s\<rparr>\<rparr>"
        using push_next [OF Pair [unfolded Inr] Some] start by auto
      moreover have "start < reference_host ob" using calculation(2) start(2) by simp
      ultimately show ?thesis using Pair start by (simp add: session_inv_def observed_def)
    qed
  qed
qed

text \<open>Any sequence of samples, rejected ones included.\<close>

definition push_all :: "ClockSample list \<Rightarrow> ClockSyncState \<Rightarrow> ClockSyncState" where
  "push_all samples cs = fold (\<lambda>s cs. snd (push s cs)) samples cs"

lemma push_all_simps [simp]:
  "push_all [] cs = cs"
  "push_all (s # ss) cs = push_all ss (snd (push s cs))"
  by (simp_all add: push_all_def)

lemma push_all_inv: "session_inv cs \<Longrightarrow> session_inv (push_all samples cs)"
  by (induction samples arbitrary: cs) (simp_all add: session_inv_push)

lemma push_all_slew: "max_slew_ppb (push_all samples cs) = max_slew_ppb cs"
  by (induction samples arbitrary: cs) (simp_all add: push_slew)

lemma push_last_raw:
  "last_raw (snd (push s cs)) = Some s \<or> snd (push s cs) = cs"
  by (auto simp: push_def Let_def split: sum.splits option.splits if_splits)

lemma push_all_last_raw:
  "last_raw (push_all samples cs) = Some s \<Longrightarrow> s \<in> set samples \<or> last_raw cs = Some s"
proof (induction samples arbitrary: cs)
  case (Cons t ss)
  then show ?case using push_last_raw [of t cs] by (cases "s = t") fastforce+
qed simp

text \<open>The anchor of an estimate is the observation of the last accepted sample.\<close>

lemma session_inv_estimate:
  assumes "session_inv cs" "estimate cs = Some e"
  obtains s start where "last_raw cs = Some s" "observe_bounded s (max_slew_ppb cs) = Inr (anchor e)"
    "session_start cs = Some start" "start < reference_host (anchor e)" "sampled_at e = host_receive s"
  using assms by (auto simp: session_inv_def observed_def split: option.splits)

section \<open>Projection\<close>

definition drift_low :: "ClockSyncState \<Rightarrow> ClockEstimate \<Rightarrow> int \<Rightarrow> int" where
  "drift_low cs e elapsed = elapsed *
     (if elapsed < 0 then max (max_ppb (drift e)) (max_slew_ppb cs)
      else min (min_ppb (drift e)) (- max_slew_ppb cs)) div 1000000000"

definition drift_high :: "ClockSyncState \<Rightarrow> ClockEstimate \<Rightarrow> int \<Rightarrow> int" where
  "drift_high cs e elapsed = ceil_div (elapsed *
     (if elapsed < 0 then min (min_ppb (drift e)) (- max_slew_ppb cs)
      else max (max_ppb (drift e)) (max_slew_ppb cs))) 1000000000"

lemma and_then_overflow_iff: "and_then (overflow m) k = Inr y \<longleftrightarrow> (\<exists>x. m = Some x \<and> k x = Inr y)"
  by (cases m) auto

lemma ppb_divisions:
  "in_i128 n \<Longrightarrow> div_floor n PARTS_PER_BILLION = Inr (n div 1000000000)"
  "in_i128 n \<Longrightarrow> div_ceil n PARTS_PER_BILLION = Inr (ceil_div n 1000000000)"
  by (simp_all add: div_floor_eq div_ceil_eq ceil_div_def PARTS_PER_BILLION_def)

lemma project_Inr:
  assumes "project cs host = Inr (lo, mid, hi)"
  obtains e start where "estimate cs = Some e" "session_start cs = Some start" "start \<le> host"
    "lo = uint host + (offset_min_ticks (anchor e) +
       drift_low cs e (uint host - uint (reference_host (anchor e))))"
    "hi = uint host + (offset_max_ticks (anchor e) +
       drift_high cs e (uint host - uint (reference_host (anchor e))))"
    "mid = lo + (hi - lo) sdiv 2"
proof -
  from assms obtain e start where *: "estimate cs = Some e" "session_start cs = Some start"
    by (auto simp: project_def and_then_Inr_iff ok_or_Inr_iff)
  then show thesis
    using assms
    by (intro that [OF *])
      (auto simp: project_def and_then_Inr_iff [of "and_then _ _"] ppb_divisions
        and_then_overflow_iff arith_ops drift_low_def drift_high_def not_less Let_def split: if_splits)
qed

section \<open>A true controller clock\<close>

text \<open>
  Host time is measured in host ticks; \<^verbatim>\<open>c t\<close> is the exact controller time at host time \<^verbatim>\<open>t\<close>, and a
  reading of the controller is its floor.  The clock keeps the session's slew bound when its offset
  changes by at most that many parts per billion of the time elapsed.
\<close>

definition slew_bounded :: "int \<Rightarrow> (real \<Rightarrow> real) \<Rightarrow> bool" where
  "slew_bounded slew c \<longleftrightarrow>
     (\<forall>s t. \<bar>(c t - t) - (c s - s)\<bar> \<le> real_of_int slew / 1000000000 * \<bar>t - s\<bar>)"

text \<open>A sample of that clock: the request is received and the response sent between the host's two readings.\<close>

definition exchange_of :: "(real \<Rightarrow> real) \<Rightarrow> real \<Rightarrow> ClockSample \<Rightarrow> bool" where
  "exchange_of c transit s \<longleftrightarrow> (\<exists>t1 t2.
     real_of_int (uint (host_send s)) \<le> t1 \<and> t1 \<le> t2 \<and>
     t2 + transit \<le> real_of_int (uint (host_receive s)) \<and>
     uint (controller_receive s) = \<lfloor>c t1\<rfloor> \<and> uint (controller_send s) = \<lfloor>c t2\<rfloor>)"

lemma ceil_div_real: "0 < d \<Longrightarrow> real_of_int n / real_of_int d \<le> real_of_int (ceil_div n d)"
  using ceiling_divide_eq_div [of n d] le_of_int_ceiling [of "real_of_int n / real_of_int d"]
  unfolding ceil_div_def by metis

lemma offset_above:
  fixes \<sigma> :: real
  assumes "0 \<le> \<sigma>" "\<sigma> \<le> 1" "h0 \<le> t1" "r \<le> h0 + E / 2" "h0 \<le> r"
    and "o_r \<le> o_1 + \<sigma> * \<bar>r - t1\<bar>"
  shows "o_r \<le> o_1 + (t1 - h0) + \<sigma> * E / 2"
proof (cases "t1 \<le> r")
  case True
  have "\<sigma> * (r - t1) \<le> \<sigma> * (E / 2)" using assms by (intro mult_left_mono) auto
  moreover have "\<bar>r - t1\<bar> = r - t1" using True by simp
  ultimately show ?thesis using assms(3,6) by (metis add_increasing2 add_left_mono diff_ge_0_iff_ge
        add.assoc add.commute order.trans times_divide_eq_right)
next
  case False
  have "0 \<le> E" using assms by linarith
  have "\<sigma> * (t1 - r) \<le> 1 * (t1 - r)" using assms False by (intro mult_right_mono) auto
  moreover have "0 \<le> \<sigma> * E / 2" using assms \<open>0 \<le> E\<close> by simp
  moreover have "\<bar>r - t1\<bar> = t1 - r" using False by simp
  ultimately show ?thesis using assms(3,5,6) by simp
qed

lemma offset_below:
  fixes \<sigma> :: real
  assumes "0 \<le> \<sigma>" "\<sigma> \<le> 1" "t2 + d \<le> h3" "h3 - r \<le> E / 2 + x" "r \<le> h3" "0 \<le> E"
    and "o_r \<ge> o_2 - \<sigma> * \<bar>t2 - r\<bar>" "0 \<le> d" "0 \<le> x"
  shows "o_2 - (h3 - t2) - \<sigma> * E / 2 \<le> o_r + max 0 (x - d)" (is "_ \<le> o_r + ?m")
proof (cases "t2 \<le> r")
  case True
  define p m where "p = \<sigma> * (r - t2)" and "m = ?m"
  have "p \<le> 1 * (r - t2)" unfolding p_def using assms True by (intro mult_right_mono) auto
  moreover have "0 \<le> \<sigma> * E / 2" using assms by simp
  moreover have "o_2 - p \<le> o_r" "0 \<le> m" using assms(7) True by (simp_all add: p_def m_def)
  ultimately show ?thesis using assms(5) unfolding m_def [symmetric] by simp
next
  case False
  have "\<sigma> * (t2 - r) \<le> \<sigma> * (E / 2 + max 0 (x - d))" using assms by (intro mult_left_mono) auto
  also have "\<dots> \<le> \<sigma> * E / 2 + 1 * max 0 (x - d)"
    using mult_right_mono [of \<sigma> 1 "max 0 (x - d)"] assms(2) by (simp add: distrib_left)
  finally have "\<sigma> * (t2 - r) \<le> \<sigma> * E / 2 + max 0 (x - d)" by simp
  moreover have "o_2 - \<sigma> * (t2 - r) \<le> o_r" using assms(7) False by simp
  ultimately show ?thesis using assms(3,8) by linarith
qed

lemma slew_bounded_offsets:
  assumes "slew_bounded slew c"
  shows "c t - t \<le> (c s - s) + real_of_int slew / 1000000000 * \<bar>t - s\<bar>"
    and "(c s - s) - real_of_int slew / 1000000000 * \<bar>t - s\<bar> \<le> c t - t"
  using assms unfolding slew_bounded_def by (smt (verit))+

text \<open>
  The interval of one sample holds the true offset at the reference tick.  Its upper end is exact.
  The lower end can be a tick too high, when the span is odd and the response takes no time; half a
  tick of response transit, or an even span, rules that out.
\<close>

definition slack :: "real \<Rightarrow> ClockSample \<Rightarrow> int" where
  "slack transit s = (if 1 / 2 \<le> transit \<or> even (host_span s) then 0 else 1)"

lemma interval_holds_offset:
  assumes slew: "0 \<le> slew" "slew \<le> 1000000000" and c: "slew_bounded slew c"
    and ex: "exchange_of c transit s" "0 \<le> transit"
    and r: "r = uint (sample_reference s)"
  shows "\<lfloor>c r\<rfloor> - r \<le> bounded_high slew s" "bounded_low slew s \<le> \<lfloor>c r\<rfloor> - r + slack transit s"
proof -
  let ?\<sigma> = "real_of_int slew / 1000000000"
  let ?h0 = "real_of_int (uint (host_send s))" and ?h3 = "real_of_int (uint (host_receive s))"
  let ?E = "real_of_int (host_span s)"
  obtain t1 t2 where t: "?h0 \<le> t1" "t1 \<le> t2" "t2 + transit \<le> ?h3"
    "uint (controller_receive s) = \<lfloor>c t1\<rfloor>" "uint (controller_send s) = \<lfloor>c t2\<rfloor>"
    using ex(1) by (auto simp: exchange_of_def)
  have "?h0 \<le> ?h3" using t ex(2) by linarith
  then have le: "host_send s \<le> host_receive s" unfolding of_int_le_iff word_le_def .
  then have E: "0 \<le> host_span s" by (simp add: host_span_def word_le_def)
  have reference: "r = uint (host_send s) + host_span s div 2"
    using reference_fits(2) [OF le] r by simp
  have h3: "uint (host_receive s) = uint (host_send s) + host_span s" by (simp add: host_span_def)
  have \<sigma>: "0 \<le> ?\<sigma>" "?\<sigma> \<le> 1" using slew by simp_all
  have A: "?\<sigma> * ?E / 2 \<le> real_of_int (sample_allowance slew s)"
    using ceil_div_real [of 2000000000 "host_span s * slew"]
    by (simp add: sample_allowance_def mult.commute)
  have half: "real_of_int (host_span s div 2) \<le> ?E / 2" "?E / 2 \<le> real_of_int (host_span s div 2) + 1 / 2"
    "even (host_span s) \<Longrightarrow> ?E / 2 = real_of_int (host_span s div 2)"
    by (linarith, linarith, auto)
  have "c r - r \<le> (c t1 - t1) + (t1 - ?h0) + ?\<sigma> * ?E / 2"
    using \<sigma> t(1) half E slew_bounded_offsets(1) [OF c, of r t1] unfolding reference
    by (intro offset_above [where r = "real_of_int r"]) (simp_all add: reference)
  then have "c r - r < real_of_int (bounded_high slew s) + 1"
    using A t(4) by (simp add: bounded_high_def sample_high_def) linarith
  then show "\<lfloor>c r\<rfloor> - r \<le> bounded_high slew s" by linarith
  let ?x = "if even (host_span s) then 0 else 1 / 2 :: real"
  have "(c t2 - t2) - (?h3 - t2) - ?\<sigma> * ?E / 2 \<le> (c r - r) + max 0 (?x - transit)"
    using \<sigma> t(3) half E ex(2) slew_bounded_offsets(2) [OF c, of t2 r]
    by (intro offset_below [where r = "real_of_int r"])
      (auto simp: reference h3 abs_minus_commute)
  then have "real_of_int (bounded_low slew s) \<le> (c r - r) + max 0 (?x - transit)"
    using A of_int_floor_le [of "c t2"] unfolding bounded_low_def sample_low_def t(5) of_int_diff
    by linarith
  moreover have "max 0 (?x - transit) \<le> real_of_int (slack transit s)"
    using ex(2) by (auto simp: slack_def)
  ultimately show "bounded_low slew s \<le> \<lfloor>c r\<rfloor> - r + slack transit s" by linarith
qed

lemma floor_offset_step:
  assumes "slew_bounded slew c"
  shows "\<lfloor>c (real_of_int r)\<rfloor> - r + (- (slew * \<bar>h - r\<bar>) div 1000000000) \<le> \<lfloor>c (real_of_int h)\<rfloor> - h"
    and "\<lfloor>c (real_of_int h)\<rfloor> - h \<le> \<lfloor>c (real_of_int r)\<rfloor> - r + ceil_div (slew * \<bar>h - r\<bar>) 1000000000"
proof -
  let ?x = "real_of_int slew / 1000000000 * \<bar>real_of_int h - real_of_int r\<bar>"
  have x: "?x = real_of_int (slew * \<bar>h - r\<bar>) / 1000000000" by simp
  have up: "?x \<le> real_of_int (ceil_div (slew * \<bar>h - r\<bar>) 1000000000)"
    using ceil_div_real [of 1000000000 "slew * \<bar>h - r\<bar>"] by (simp add: x)
  note b = slew_bounded_offsets [OF assms, where t = "real_of_int h" and s = "real_of_int r"]
  show "\<lfloor>c (real_of_int h)\<rfloor> - h \<le> \<lfloor>c (real_of_int r)\<rfloor> - r + ceil_div (slew * \<bar>h - r\<bar>) 1000000000"
    using b(1) up by linarith
  have "- (slew * \<bar>h - r\<bar>) div 1000000000 = - ceil_div (slew * \<bar>h - r\<bar>) 1000000000"
    by (simp add: ceil_div_def)
  then show "\<lfloor>c (real_of_int r)\<rfloor> - r + (- (slew * \<bar>h - r\<bar>) div 1000000000) \<le> \<lfloor>c (real_of_int h)\<rfloor> - h"
    using b(2) up by linarith
qed

text \<open>The drift used for projection is never narrower than the slew bound.\<close>

lemma drift_covers_slew:
  "drift_low cs e x \<le> - (max_slew_ppb cs * \<bar>x\<bar>) div 1000000000"
  "ceil_div (max_slew_ppb cs * \<bar>x\<bar>) 1000000000 \<le> drift_high cs e x"
proof -
  let ?s = "max_slew_ppb cs"
  have lo: "x * (if x < 0 then max (max_ppb (drift e)) ?s else min (min_ppb (drift e)) (- ?s)) \<le> - (?s * \<bar>x\<bar>)"
    using mult_left_mono_neg [of ?s "max (max_ppb (drift e)) ?s" x]
      mult_left_mono [of "min (min_ppb (drift e)) (- ?s)" "- ?s" x]
    by (auto simp: mult.commute abs_if not_less)
  show "drift_low cs e x \<le> - (?s * \<bar>x\<bar>) div 1000000000"
    unfolding drift_low_def by (rule zdiv_mono1 [OF lo]) simp
  have hi: "- (x * (if x < 0 then min (min_ppb (drift e)) (- ?s) else max (max_ppb (drift e)) ?s)) \<le> - (?s * \<bar>x\<bar>)"
    using mult_left_mono_neg [of "min (min_ppb (drift e)) (- ?s)" "- ?s" x]
      mult_left_mono [of ?s "max (max_ppb (drift e)) ?s" x]
    by (auto simp: mult.commute abs_if not_less)
  show "ceil_div (?s * \<bar>x\<bar>) 1000000000 \<le> drift_high cs e x"
    unfolding drift_high_def ceil_div_def by (intro le_imp_neg_le zdiv_mono1 [OF hi]) simp
qed

lemma to_u64_iff: "to_u64 v = Inr w \<longleftrightarrow> v = uint w"
  using u64_bounds [of w]
  by (auto simp: to_u64_def uint_word_of_int split: if_splits)

lemma controller_window_Inr:
  assumes "controller_window cs host = Inr w"
  shows "project cs host = Inr (uint (earliest w), uint (cw_estimate w), uint (latest w))"
  using assms by (auto simp: controller_window_def and_then_Inr_iff to_u64_iff)

lemma session_inv_bounds:
  assumes "session_inv cs" "estimate cs = Some e"
  obtains s where "last_raw cs = Some s" "anchor e =
      \<lparr>reference_host = sample_reference s,
       offset_ticks = bounded_low (max_slew_ppb cs) s +
         (bounded_high (max_slew_ppb cs) s - bounded_low (max_slew_ppb cs) s) div 2,
       offset_min_ticks = bounded_low (max_slew_ppb cs) s,
       offset_max_ticks = bounded_high (max_slew_ppb cs) s,
       round_trip_ticks = host_receive s - host_send s\<rparr>"
    "bounded_low (max_slew_ppb cs) s \<le> bounded_high (max_slew_ppb cs) s"
proof -
  have slew: "0 \<le> max_slew_ppb cs" using assms(1) by (simp add: session_inv_def)
  obtain s where s: "last_raw cs = Some s" "observe_bounded s (max_slew_ppb cs) = Inr (anchor e)"
    using session_inv_estimate [OF assms] by metis
  show thesis
    by (rule that [OF s(1)]) (use s(2) in \<open>simp_all add: observe_bounded_eq [OF slew] split: if_splits\<close>)
qed

lemma project_ordered:
  assumes inv: "session_inv cs" and p: "project cs h = Inr (lo, mid, hi)"
  shows "lo \<le> mid \<and> mid \<le> hi"
proof -
  obtain e where e: "estimate cs = Some e"
    "lo = uint h + (offset_min_ticks (anchor e) +
       drift_low cs e (uint h - uint (reference_host (anchor e))))"
    "hi = uint h + (offset_max_ticks (anchor e) +
       drift_high cs e (uint h - uint (reference_host (anchor e))))"
    "mid = lo + (hi - lo) sdiv 2"
    using project_Inr [OF p] by metis
  obtain s where "anchor e =
      \<lparr>reference_host = sample_reference s,
       offset_ticks = bounded_low (max_slew_ppb cs) s +
         (bounded_high (max_slew_ppb cs) s - bounded_low (max_slew_ppb cs) s) div 2,
       offset_min_ticks = bounded_low (max_slew_ppb cs) s,
       offset_max_ticks = bounded_high (max_slew_ppb cs) s,
       round_trip_ticks = host_receive s - host_send s\<rparr>"
    "bounded_low (max_slew_ppb cs) s \<le> bounded_high (max_slew_ppb cs) s"
    using session_inv_bounds [OF inv e(1)] by metis
  then have anchor: "offset_min_ticks (anchor e) \<le> offset_max_ticks (anchor e)" by simp
  let ?x = "uint h - uint (reference_host (anchor e))"
  have "0 \<le> max_slew_ppb cs * \<bar>?x\<bar>" using inv by (simp add: session_inv_def)
  then have "- (max_slew_ppb cs * \<bar>?x\<bar>) div 1000000000 \<le> 0"
    using div_between [of 1000000000 "- (max_slew_ppb cs * \<bar>?x\<bar>)"] by linarith
  then have "drift_low cs e ?x \<le> drift_high cs e ?x"
    using drift_covers_slew [where cs = cs and e = e and x = ?x] unfolding ceil_div_def by linarith
  then have "lo \<le> hi" using anchor e by simp
  then show ?thesis by (simp add: e(4) sdiv_2)
qed

section \<open>Properties\<close>

lemma window_sound_at:
  assumes slew: "0 \<le> max_slew_ppb cs" "max_slew_ppb cs \<le> 1000000000"
    and inv: "session_inv cs" and c: "slew_bounded (max_slew_ppb cs) c"
    and ex: "\<And>s. last_raw cs = Some s \<Longrightarrow> exchange_of c transit s" "0 \<le> transit"
    and w: "controller_window cs h = Inr w"
  shows "\<lfloor>c (uint h)\<rfloor> \<le> uint (latest w) \<and>
    (\<exists>s. last_raw cs = Some s \<and> uint (earliest w) \<le> \<lfloor>c (uint h)\<rfloor> + slack transit s)"
proof -
  obtain e start where e: "estimate cs = Some e"
    "uint (earliest w) = uint h + (offset_min_ticks (anchor e) +
       drift_low cs e (uint h - uint (reference_host (anchor e))))"
    "uint (latest w) = uint h + (offset_max_ticks (anchor e) +
       drift_high cs e (uint h - uint (reference_host (anchor e))))"
    using project_Inr [OF controller_window_Inr [OF w]] by metis
  obtain s where s: "last_raw cs = Some s" "reference_host (anchor e) = sample_reference s"
    "offset_min_ticks (anchor e) = bounded_low (max_slew_ppb cs) s"
    "offset_max_ticks (anchor e) = bounded_high (max_slew_ppb cs) s"
    using session_inv_bounds [OF inv e(1)] by (metis OffsetObservation.select_convs)
  note hold = interval_holds_offset [OF slew c ex(1) [OF s(1)] ex(2) refl]
  note step = floor_offset_step [OF c, where h = "uint h" and r = "uint (sample_reference s)"]
  note cover = drift_covers_slew [where cs = cs and e = e and x = "uint h - uint (sample_reference s)"]
  have "\<lfloor>c (uint h)\<rfloor> \<le> uint (latest w)"
    using hold(1) step(2) cover(2) unfolding e(3) s by linarith
  moreover have "uint (earliest w) \<le> \<lfloor>c (uint h)\<rfloor> + slack transit s"
    using hold(2) step(1) cover(1) unfolding e(2) s by linarith
  ultimately show ?thesis using s(1) by blast
qed


text \<open>Two exchanges whose response takes no time, of a clock that gains 1024 parts per billion.\<close>

definition instant_samples :: "ClockSample list" where
  "instant_samples =
     [\<lparr>host_send = 0, controller_receive = 0, controller_send = 1953127, host_receive = 1953125\<rparr>,
      \<lparr>host_send = 1953125, controller_receive = 1953127, controller_send = 3906254,
       host_receive = 3906250\<rparr>]"

definition fast_clock :: "real \<Rightarrow> real" where
  "fast_clock t = t + 1024 / 1000000000 * t"

lemma instant_window:
  "case clock_sync_new 1024 of Inl _ \<Rightarrow> False | Inr cs0 \<Rightarrow>
     controller_window (push_all instant_samples cs0) 2929687 =
       Inr \<lparr>earliest = 2929690, cw_estimate = 2929690, latest = 2929690\<rparr>"
  by (simp add: clock_sync_new_def instant_samples_def push_def observe_bounded_eq) code_simp

lemma fast_clock_offset: "(fast_clock t - t) - (fast_clock s - s) = 1024 / 1000000000 * (t - s)"
  by (simp add: fast_clock_def right_diff_distrib)

lemma fast_clock_slew: "slew_bounded 1024 fast_clock"
proof -
  have "\<bar>1024 / 1000000000 * x\<bar> \<le> 1024 / 1000000000 * \<bar>x\<bar>" for x :: real
    by (simp only: abs_mult abs_divide abs_numeral order_refl)
  then show ?thesis by (simp only: slew_bounded_def fast_clock_offset of_int_numeral simp_thms)
qed

lemma instant_exchanges: "list_all (exchange_of fast_clock 0) instant_samples"
proof -
  have "exchange_of fast_clock 0 s"
    if "uint (controller_receive s) = \<lfloor>fast_clock (uint (host_send s))\<rfloor>"
      "uint (controller_send s) = \<lfloor>fast_clock (uint (host_receive s))\<rfloor>"
      "host_send s \<le> host_receive s" for s
  proof -
    have "real_of_int (uint (host_send s)) \<le> real_of_int (uint (host_receive s))"
      using that(3) by (simp only: word_le_def of_int_le_iff)
    then show ?thesis unfolding exchange_of_def add_0_right using that(1,2) by blast
  qed
  then show ?thesis by (simp add: instant_samples_def fast_clock_def)
qed


text \<open>
  The half tick is needed.  The allowance for slew covers half of the exchange, but the
  anchor is the floor of the exchange's midpoint.  For a clock that gains 1024 parts per billion
  (the session's own bound), read at whole ticks of both clocks, two exchanges of odd length whose
  responses arrive at once give a window whose lower end lies strictly above the clock's true time.
\<close>
theorem instant_response_window_misses:
  "\<exists>cs0 w. clock_sync_new 1024 = Inr cs0 \<and> slew_bounded 1024 fast_clock \<and>
     list_all (\<lambda>s. exchange_of fast_clock 0 s \<and>
        fast_clock (uint (host_send s)) = uint (controller_receive s) \<and>
        fast_clock (uint (host_receive s)) = uint (controller_send s)) instant_samples \<and>
     controller_window (push_all instant_samples cs0) 2929687 = Inr w \<and>
     fast_clock 2929687 < uint (earliest w)"
proof -
  obtain cs0 where "clock_sync_new 1024 = Inr cs0"
    "controller_window (push_all instant_samples cs0) 2929687 =
       Inr \<lparr>earliest = 2929690, cw_estimate = 2929690, latest = 2929690\<rparr>"
    using instant_window by (auto split: sum.splits)
  then show ?thesis
    using fast_clock_slew instant_exchanges
    by (intro exI conjI) (auto simp: list_all_iff instant_samples_def fast_clock_def)
qed

text \<open>
  Claim C16: \<^verbatim>\<open>push\<close> is all or nothing.  A rejected sample leaves the session as it was; an accepted
  one keeps the invariant, is not before the previous one in any of its four timestamps, moves the
  anchor forward strictly, becomes the session's anchor, and from the second accepted sample on an
  estimate is returned.
\<close>
theorem push_atomic:
  assumes "session_inv cs"
  shows "case push s cs of
      (Inl e, cs') \<Rightarrow> cs' = cs
    | (Inr r, cs') \<Rightarrow> session_inv cs' \<and> last_raw cs' = Some s \<and> r = estimate cs' \<and>
        (r = None \<longleftrightarrow> last_raw cs = None) \<and>
        (\<forall>l ob ob'. last_raw cs = Some l \<and> previous cs = Some ob \<and> previous cs' = Some ob' \<longrightarrow>
           not_before l s \<and> reference_host ob < reference_host ob' \<and> session_start cs' = session_start cs)"
proof (cases "push s cs")
  case (Pair r cs')
  show ?thesis
  proof (cases r)
    case (Inl e)
    then show ?thesis using Pair push_error_unchanged by simp
  next
    case (Inr x)
    have inv': "session_inv cs'" using session_inv_push [OF assms, of s] Pair by simp
    show ?thesis
    proof (cases "previous cs")
      case None
      then have "last_raw cs = None" "estimate cs = None"
        using assms by (auto simp: session_inv_def split: option.splits)
      then show ?thesis using push_first [OF Pair [unfolded Inr] None] Pair Inr inv' by auto
    next
      case (Some prev)
      then have "last_raw cs \<noteq> None" "session_start cs \<noteq> None"
        using assms by (auto simp: session_inv_def split: option.splits)
      then show ?thesis using push_next [OF Pair [unfolded Inr] Some] Pair Inr inv' Some by auto
    qed
  qed
qed

theorem push_atomic_witness:
  "\<exists>cs0. clock_sync_new 100 = Inr cs0 \<and>
     snd (push \<lparr>host_send = 9, controller_receive = 4, controller_send = 4, host_receive = 3\<rparr> cs0) = cs0"
proof -
  let ?s = "\<lparr>host_send = 9, controller_receive = 4, controller_send = 4, host_receive = 3\<rparr> :: ClockSample"
  obtain cs0 where n: "clock_sync_new 100 = Inr cs0" by (simp add: clock_sync_new_def)
  have "\<exists>e. fst (push ?s cs0) = Inl e"
    by (simp add: push_def observe_bounded_def checked_sub_def)
  then show ?thesis
    using push_atomic [of cs0 ?s] session_inv_new [OF n] n
    by (cases "push ?s cs0") auto
qed

text \<open>
  The one-sample interval.  \<^verbatim>\<open>observe\<close> fails exactly on a regressed host clock, a regressed
  controller clock or a processing time longer than the exchange, in this order, and never on
  arithmetic; otherwise its offset is the floor midpoint of the interval, the interval is as wide as
  the round trip, and the reference tick lies within the exchange.
\<close>
theorem observe_exact:
  "case observe s of
     Inl e \<Rightarrow>
       e = (if host_span s < 0 then HostRegressed
            else if controller_span s < 0 then ControllerRegressed
            else ControllerProcessingExceedsRoundTrip) \<and>
       (host_span s < 0 \<or> controller_span s < 0 \<or> host_span s < controller_span s)
   | Inr ob \<Rightarrow>
       0 \<le> host_span s \<and> 0 \<le> controller_span s \<and> controller_span s \<le> host_span s \<and>
       offset_min_ticks ob = sample_low s \<and> offset_max_ticks ob = sample_high s \<and>
       offset_ticks ob = (sample_low s + sample_high s) div 2 \<and>
       sample_high s - sample_low s = uint (round_trip_ticks ob) \<and>
       uint (reference_host ob) = (uint (host_send s) + uint (host_receive s)) div 2"
proof -
  have spans: "host_receive s < host_send s \<longleftrightarrow> host_span s < 0"
    "controller_send s < controller_receive s \<longleftrightarrow> controller_span s < 0"
    by (simp_all add: host_span_def controller_span_def word_less_def)
  have mid: "a + (b - a) div 2 = (a + b) div 2" for a b :: int by linarith
  have trip: "uint ((host_receive s - host_send s) - (controller_send s - controller_receive s)) =
      host_span s - controller_span s"
    if "0 \<le> host_span s" "0 \<le> controller_span s" "controller_span s \<le> host_span s"
    using that by (simp add: word_le_def arith_ops host_span_def controller_span_def)
  have ref: "uint (sample_reference s) = (uint (host_send s) + uint (host_receive s)) div 2"
    if "0 \<le> host_span s"
    using reference_fits(2) [of s] that mid [of "uint (host_send s)" "uint (host_receive s)"]
    by (simp add: host_span_def word_le_def)
  show ?thesis
    using span_width [of s] trip ref mid [of "sample_low s" "sample_high s"]
    by (auto simp: observe_eq spans)
qed

text \<open>
  The window is ordered, and the uncertainty is its half-width: for every session reached
  from a new one, \<^verbatim>\<open>uncertainty_at\<close> gives a number exactly when \<^verbatim>\<open>controller_window\<close> gives a window, and
  the number is the larger distance from the estimate to an end.
\<close>
theorem uncertainty_is_half_width:
  assumes "clock_sync_new slew = Inr cs0" "cs = push_all samples cs0"
  shows "case controller_window cs h of
      Inl e \<Rightarrow> uncertainty_at cs h = Inl e
    | Inr w \<Rightarrow> earliest w \<le> cw_estimate w \<and> cw_estimate w \<le> latest w \<and>
        uncertainty_at cs h = Inr (max (cw_estimate w - earliest w) (latest w - cw_estimate w))"
proof (cases "controller_window cs h")
  case (Inl e)
  then show ?thesis
    by (auto simp: controller_window_def uncertainty_at_def and_then_def split: sum.splits)
next
  case (Inr w)
  have inv: "session_inv cs" "0 \<le> max_slew_ppb cs"
    using session_inv_new [OF assms(1)] push_all_inv [of cs0 samples] assms(2)
    by (auto simp: session_inv_def)
  note ordered = project_ordered [OF inv(1) controller_window_Inr [OF Inr]]
  have d: "uint (cw_estimate w - earliest w) = uint (cw_estimate w) - uint (earliest w)"
    "uint (latest w - cw_estimate w) = uint (latest w) - uint (cw_estimate w)"
    using ordered by (simp_all add: word_le_def arith_ops)
  have m: "max (uint a) (uint b) = uint (max a b)" for a b :: u64
    by (simp add: max_def word_le_def)
  have "in_i128 (uint (cw_estimate w) - uint (earliest w))" "in_i128 (uint (latest w) - uint (cw_estimate w))"
    unfolding d [symmetric] by (simp_all add: in_i128_u64)
  then have "uncertainty_at cs h = Inr (max (cw_estimate w - earliest w) (latest w - cw_estimate w))"
    using to_u64_iff
    by (simp add: uncertainty_at_def controller_window_Inr [OF Inr] and_then_Inr_iff arith_ops
        i128_checked_eval flip: d) (auto simp: m)
  then show ?thesis using Inr ordered by (simp add: word_le_def)
qed

theorem uncertainty_is_half_width_witness:
  "\<exists>cs0. clock_sync_new 1024 = Inr cs0 \<and> uncertainty_at (push_all instant_samples cs0) 2929687 = Inr 0"
proof -
  obtain cs0 where c: "clock_sync_new 1024 = Inr cs0"
    "controller_window (push_all instant_samples cs0) 2929687 =
       Inr \<lparr>earliest = 2929690, cw_estimate = 2929690, latest = 2929690\<rparr>"
    using instant_window by (auto split: sum.splits)
  then show ?thesis
    using uncertainty_is_half_width [OF c(1) refl, of instant_samples 2929687] by simp
qed

end
