(* ===== verification/BTree.thy ===== *)
theory BTree
  imports Prelude
begin

text \<open>
  \<^verbatim>\<open>BTreeMap\<close> of the standard library as the sources use it: an association list in strictly
  increasing key order, with lookup, insertion that replaces, removal, and iteration in key order.
  The locale \<^verbatim>\<open>ordered_map\<close> states what its clients rely on; it is interpreted on these functions.
  String keys compare by their bytes, which is the lexicographic order on Isabelle strings.
\<close>

type_synonym ('k, 'v) btree = "('k \<times> 'v) list"

definition bt_empty :: "('k, 'v) btree" where "bt_empty = []"

fun bt_get :: "('k :: linorder, 'v) btree \<Rightarrow> 'k \<Rightarrow> 'v option" where
  "bt_get [] k = None"
| "bt_get ((a, v) # m) k = (if k = a then Some v else bt_get m k)"

fun bt_insert :: "'k :: linorder \<Rightarrow> 'v \<Rightarrow> ('k, 'v) btree \<Rightarrow> ('k, 'v) btree" where
  "bt_insert k v [] = [(k, v)]"
| "bt_insert k v ((a, w) # m) =
     (if k < a then (k, v) # (a, w) # m
      else if k = a then (k, v) # m
      else (a, w) # bt_insert k v m)"

fun bt_remove :: "'k :: linorder \<Rightarrow> ('k, 'v) btree \<Rightarrow> ('k, 'v) btree" where
  "bt_remove k [] = []"
| "bt_remove k ((a, w) # m) = (if k = a then m else (a, w) # bt_remove k m)"

definition bt_keys :: "('k, 'v) btree \<Rightarrow> 'k list" where "bt_keys m = map fst m"

definition bt_values :: "('k, 'v) btree \<Rightarrow> 'v list" where "bt_values m = map snd m"

definition bt_inv :: "('k :: linorder, 'v) btree \<Rightarrow> bool" where
  "bt_inv m \<longleftrightarrow> sorted_wrt (<) (map fst m)"

locale ordered_map =
  fixes empty :: "'m"
    and get :: "'m \<Rightarrow> 'k :: linorder \<Rightarrow> 'v option"
    and insert :: "'k \<Rightarrow> 'v \<Rightarrow> 'm \<Rightarrow> 'm"
    and remove :: "'k \<Rightarrow> 'm \<Rightarrow> 'm"
    and entries :: "'m \<Rightarrow> ('k \<times> 'v) list"
    and inv :: "'m \<Rightarrow> bool"
  assumes inv_empty: "inv empty"
    and inv_insert: "inv m \<Longrightarrow> inv (insert k v m)"
    and inv_remove: "inv m \<Longrightarrow> inv (remove k m)"
    and get_empty: "get empty k = None"
    and get_insert: "inv m \<Longrightarrow> get (insert k v m) j = (if j = k then Some v else get m j)"
    and get_remove: "inv m \<Longrightarrow> get (remove k m) j = (if j = k then None else get m j)"
    and get_iff: "inv m \<Longrightarrow> get m k = Some v \<longleftrightarrow> (k, v) \<in> set (entries m)"
    and entries_sorted: "inv m \<Longrightarrow> sorted_wrt (<) (map fst (entries m))"
begin

lemma get_insert_same: "inv m \<Longrightarrow> get (insert k v m) k = Some v"
  by (simp add: get_insert)

lemma get_None_iff: "inv m \<Longrightarrow> get m k = None \<longleftrightarrow> k \<notin> fst ` set (entries m)"
  using get_iff [of m k] by (cases "get m k") (force simp: image_iff)+

lemma all_values: "inv m \<Longrightarrow> (\<forall>v\<in>snd ` set (entries m). P v) \<longleftrightarrow> (\<forall>k v. get m k = Some v \<longrightarrow> P v)"
  by (auto simp: get_iff)

lemma entries_distinct: "inv m \<Longrightarrow> distinct (map fst (entries m))"
  using entries_sorted by (simp add: strict_sorted_iff)

lemma length_entries: "inv m \<Longrightarrow> length (entries m) = card {k. get m k \<noteq> None}"
proof -
  assume m: "inv m"
  have "{k. get m k \<noteq> None} = set (map fst (entries m))"
    using get_None_iff [OF m] by auto
  then show ?thesis using entries_distinct [OF m] by (metis distinct_card length_map)
qed

text \<open>Two maps with the same lookups have the same entries: iteration is determined by lookup.\<close>

lemma entries_determined:
  assumes "inv m" "inv n" "\<And>k. get m k = get n k"
  shows "entries m = entries n"
proof -
  have same: "set (entries m) = set (entries n)"
    using get_iff [OF assms(1)] get_iff [OF assms(2)] assms(3) by (auto simp: set_eq_iff)
  have "map fst (entries m) = map fst (entries n)"
    using entries_sorted assms(1,2) same
    by (intro sorted_distinct_set_unique) (auto simp: strict_sorted_iff)
  moreover have "map (the \<circ> get m) (map fst (entries m)) = map snd (entries m)"
    "map (the \<circ> get n) (map fst (entries n)) = map snd (entries n)"
    using get_iff [OF assms(1), THEN iffD2] get_iff [OF assms(2), THEN iffD2] by fastforce+
  ultimately show ?thesis using assms(3) by (metis (no_types, lifting) ext zip_map_fst_snd comp_apply)
qed

end

lemma bt_get_notin: "k \<notin> fst ` set m \<Longrightarrow> bt_get m k = None"
  by (induction m k rule: bt_get.induct) auto

lemma bt_get_below: "\<forall>x\<in>set m. k < fst x \<Longrightarrow> bt_get m k = None"
  by (rule bt_get_notin) auto

lemma bt_get_Some_in: "bt_get m k = Some v \<Longrightarrow> (k, v) \<in> set m"
  by (induction m k rule: bt_get.induct) (auto split: if_splits)

lemma bt_get_insert: "bt_get (bt_insert k v m) j = (if j = k then Some v else bt_get m j)"
  by (induction k v m rule: bt_insert.induct) auto

lemma set_bt_insert: "fst ` set (bt_insert k v m) = insert k (fst ` set m)"
  by (induction k v m rule: bt_insert.induct) auto

lemma set_bt_remove_subset: "set (bt_remove k m) \<subseteq> set m"
  by (induction k m rule: bt_remove.induct) auto

lemma bt_inv_Cons: "bt_inv ((a, v) # m) \<longleftrightarrow> (\<forall>k\<in>fst ` set m. a < k) \<and> bt_inv m"
  by (auto simp: bt_inv_def)

lemma bt_inv_insert: "bt_inv m \<Longrightarrow> bt_inv (bt_insert k v m)"
  by (induction k v m rule: bt_insert.induct)
    (auto simp: bt_inv_Cons set_bt_insert bt_inv_def [of "[]"])

lemma bt_inv_remove: "bt_inv m \<Longrightarrow> bt_inv (bt_remove k m)"
  using set_bt_remove_subset
  by (induction k m rule: bt_remove.induct) (fastforce simp: bt_inv_Cons)+

interpretation bt: ordered_map bt_empty bt_get bt_insert bt_remove "\<lambda>m. m" bt_inv
proof unfold_locales
  show "bt_inv (bt_empty :: ('k :: linorder, 'v) btree)" by (simp add: bt_empty_def bt_inv_def)
next
  fix m :: "('k :: linorder, 'v) btree" and k j v
  assume m: "bt_inv m"
  show "bt_get (bt_insert k v m) j = (if j = k then Some v else bt_get m j)"
    by (rule bt_get_insert)
  show "bt_get (bt_remove k m) j = (if j = k then None else bt_get m j)"
    using m by (induction k m rule: bt_remove.induct)
      (auto simp: bt_inv_Cons bt_get_below)
  show "bt_get m k = Some v \<longleftrightarrow> (k, v) \<in> set m"
    using m by (induction m k rule: bt_get.induct) (auto simp: bt_inv_Cons)
  show "sorted_wrt (<) (map fst m)" using m by (simp add: bt_inv_def)
qed (simp_all add: bt_inv_insert bt_inv_remove bt_empty_def)

lemmas bt_simps = bt.get_empty bt.get_insert bt.get_remove bt.inv_empty bt.inv_insert bt.inv_remove

end
