(* ===== verification/Client.thy ===== *)
theory Client
  imports Frames ClockSync BTree
begin

text \<open>
  The host-side client of \<^verbatim>\<open>crates/control-client/src/lib.rs\<close>: \<^verbatim>\<open>ClockSession\<close> (one outstanding
  clock exchange, its timeout and its sequence numbers), \<^verbatim>\<open>MultiControllerClockSync\<close>,
  \<^verbatim>\<open>ClockExchange\<close> and \<^verbatim>\<open>CommandClient\<close>.  The traits \<^verbatim>\<open>HostClock\<close> and \<^verbatim>\<open>FrameSink\<close> are the
  function arguments \<^verbatim>\<open>now\<close> and \<^verbatim>\<open>send_frame\<close>, acting on a clock state and a sink state that
  every operation threads through, so what reached the sink before an error is visible.
\<close>

type_synonym 'c host_clock = "'c \<Rightarrow> HostTick \<times> 'c"
type_synonym ('s, 'e) frame_sink = "u8 list \<Rightarrow> 's \<Rightarrow> ('e + unit) \<times> 's"

definition decode_queue_status_frame :: "u8 list \<Rightarrow> DecodeError + QueueStatusFrame" where
  "decode_queue_status_frame input = decode_queue_status input"

definition decode_clock_response_frame :: "u8 list \<Rightarrow> DecodeError + ClockResponseFrame" where
  "decode_clock_response_frame input = decode_clock_response input"

section \<open>Clock sessions\<close>

record ClockRequestReceipt =
  crr_sequence :: u32
  crr_frame_len :: nat

record ClockExchangeReceipt =
  cer_sequence :: u32
  cer_sample :: ClockSample
  cer_estimate :: "ClockEstimate option"

record ClockTimeout =
  ct_sequence :: u32

datatype 'e ClockSessionError =
    Busy u32
  | SequenceExhausted
  | SessionEncode EncodeError
  | SessionTransport 'e
  | SessionSync ClockSyncError
  | SessionDecode DecodeError
  | NoPending
  | UnexpectedSequence u32 u32 \<comment> \<open>expected, received\<close>
  | TimedOut u32

record PendingClockExchange =
  pe_sequence :: u32
  pe_host_send :: HostTick

record ClockSession =
  cs_sync :: ClockSyncState
  cs_next_sequence :: u32
  cs_exhausted :: bool
  cs_timeout_ticks :: u64
  cs_pending :: "PendingClockExchange option"
  cs_request :: "u8 list"

definition clock_session_new :: "i128 \<Rightarrow> u64 \<Rightarrow> ClockSyncError + ClockSession" where
  "clock_session_new slew timeout =
     and_then (clock_sync_new slew) (\<lambda>sync.
       Inr \<lparr>cs_sync = sync, cs_next_sequence = 0, cs_exhausted = False, cs_timeout_ticks = timeout,
            cs_pending = None, cs_request = replicate CLOCK_REQUEST_FRAME_LEN 0\<rparr>)"

definition session_begin ::
  "'c host_clock \<Rightarrow> ('s, 'e) frame_sink \<Rightarrow> ClockSession \<Rightarrow> 's \<Rightarrow> 'c \<Rightarrow>
     ('e ClockSessionError + ClockRequestReceipt) \<times> ClockSession \<times> 's \<times> 'c" where
  "session_begin now send_frame self sink clk =
     (case cs_pending self of
        Some p \<Rightarrow> (Inl (Busy (pe_sequence p)), self, sink, clk)
      | None \<Rightarrow>
          if cs_exhausted self then (Inl SequenceExhausted, self, sink, clk)
          else
            let seq = cs_next_sequence self in
            case encode_clock_request \<lparr>rq_sequence = seq\<rparr> (cs_request self) of
              (Inl e, request) \<Rightarrow> (Inl (SessionEncode e), self\<lparr>cs_request := request\<rparr>, sink, clk)
            | (Inr frame_len, request) \<Rightarrow>
                let self1 = self\<lparr>cs_request := request, cs_exhausted := (seq = - 1),
                                 cs_next_sequence := seq + 1\<rparr>;
                    (host_send, clk1) = now clk in
                (case send_frame (take frame_len request) sink of
                   (Inl e, sink1) \<Rightarrow> (Inl (SessionTransport e), self1, sink1, clk1)
                 | (Inr _, sink1) \<Rightarrow>
                     (Inr \<lparr>crr_sequence = seq, crr_frame_len = frame_len\<rparr>,
                      self1\<lparr>cs_pending := Some \<lparr>pe_sequence = seq, pe_host_send = host_send\<rparr>\<rparr>,
                      sink1, clk1)))"

definition accept_response ::
  "'c host_clock \<Rightarrow> u8 list \<Rightarrow> ClockSession \<Rightarrow> 'c \<Rightarrow>
     (unit ClockSessionError + ClockExchangeReceipt) \<times> ClockSession \<times> 'c" where
  "accept_response now bytes self clk =
     (let (host_receive, clk1) = now clk in
      case decode_clock_response_frame bytes of
        Inl e \<Rightarrow> (Inl (SessionDecode e), self, clk1)
      | Inr response \<Rightarrow>
          (case cs_pending self of
             None \<Rightarrow> (Inl NoPending, self, clk1)
           | Some p \<Rightarrow>
               if rf_sequence response \<noteq> pe_sequence p
               then (Inl (UnexpectedSequence (pe_sequence p) (rf_sequence response)), self, clk1)
               else if saturating_sub host_receive (pe_host_send p) \<ge> cs_timeout_ticks self
               then (Inl (TimedOut (pe_sequence p)), self\<lparr>cs_pending := None\<rparr>, clk1)
               else
                 let sample = \<lparr>host_send = pe_host_send p,
                        controller_receive = cr_controller_receive (rf_response response),
                        controller_send = cr_controller_send (rf_response response),
                        host_receive = host_receive\<rparr>;
                     self1 = self\<lparr>cs_pending := None\<rparr> in
                 (case push sample (cs_sync self1) of
                    (Inl e, sync) \<Rightarrow> (Inl (SessionSync e), self1\<lparr>cs_sync := sync\<rparr>, clk1)
                  | (Inr est, sync) \<Rightarrow>
                      (Inr \<lparr>cer_sequence = pe_sequence p, cer_sample = sample, cer_estimate = est\<rparr>,
                       self1\<lparr>cs_sync := sync\<rparr>, clk1))))"

definition expire :: "HostTick \<Rightarrow> ClockSession \<Rightarrow> ClockTimeout option \<times> ClockSession" where
  "expire now self =
     (case cs_pending self of
        None \<Rightarrow> (None, self)
      | Some p \<Rightarrow>
          if saturating_sub now (pe_host_send p) \<ge> cs_timeout_ticks self
          then (Some \<lparr>ct_sequence = pe_sequence p\<rparr>, self\<lparr>cs_pending := None\<rparr>)
          else (None, self))"

section \<open>Clock sessions of a cluster\<close>

record MultiControllerClockSync =
  mc_sessions :: "(string, ClockSession) btree"
  mc_max_slew_ppb :: i128
  mc_timeout_ticks :: u64

definition multi_new :: "i128 \<Rightarrow> u64 \<Rightarrow> MultiControllerClockSync" where
  "multi_new slew timeout =
     \<lparr>mc_sessions = bt_empty, mc_max_slew_ppb = slew, mc_timeout_ticks = timeout\<rparr>"

definition multi_add_controller ::
  "string \<Rightarrow> (MultiControllerClockSync, ClockSyncError, unit) st" where
  "multi_add_controller name self =
     (case clock_session_new (mc_max_slew_ppb self) (mc_timeout_ticks self) of
        Inl e \<Rightarrow> (Inl e, self)
      | Inr session \<Rightarrow>
          (Inr (), self\<lparr>mc_sessions := bt_insert name session (mc_sessions self)\<rparr>))"

definition multi_session :: "MultiControllerClockSync \<Rightarrow> string \<Rightarrow> ClockSession option" where
  "multi_session self name = bt_get (mc_sessions self) name"

text \<open>\<^verbatim>\<open>session_mut\<close> gives the caller a place to write; writing a session back is this update.\<close>

definition multi_session_mut ::
  "string \<Rightarrow> (ClockSession \<Rightarrow> ClockSession) \<Rightarrow> MultiControllerClockSync \<Rightarrow> MultiControllerClockSync"
where
  "multi_session_mut name g self =
     (case bt_get (mc_sessions self) name of
        None \<Rightarrow> self
      | Some s \<Rightarrow> self\<lparr>mc_sessions := bt_insert name (g s) (mc_sessions self)\<rparr>)"

definition is_cluster_synchronized :: "MultiControllerClockSync \<Rightarrow> bool" where
  "is_cluster_synchronized self \<longleftrightarrow>
     bt_values (mc_sessions self) \<noteq> [] \<and>
     list_all (\<lambda>s. estimate (cs_sync s) \<noteq> None) (bt_values (mc_sessions self))"

definition controller_count :: "MultiControllerClockSync \<Rightarrow> nat" where
  "controller_count self = length (mc_sessions self)"

section \<open>Clock exchanges without a transport\<close>

datatype ClockExchangeError =
    ExchangePending
  | NoExchangePending
  | SequenceMismatch u32 u32 \<comment> \<open>expected, received\<close>
  | ExchangeDecode DecodeError
  | ExchangeSync ClockSyncError

record ClockExchange =
  ex_sync :: ClockSyncState
  ex_next_sequence :: u32
  ex_pending :: "(u32 \<times> HostTick) option"

definition exchange_new :: "i128 \<Rightarrow> ClockSyncError + ClockExchange" where
  "exchange_new slew = and_then (clock_sync_new slew) (\<lambda>sync.
     Inr \<lparr>ex_sync = sync, ex_next_sequence = 0, ex_pending = None\<rparr>)"

definition exchange_begin ::
  "HostTick \<Rightarrow> (ClockExchange, ClockExchangeError, ClockRequestFrame) st" where
  "exchange_begin send_tick self =
     (if ex_pending self \<noteq> None then (Inl ExchangePending, self)
      else let seq = ex_next_sequence self in
        (Inr \<lparr>rq_sequence = seq\<rparr>,
         self\<lparr>ex_next_sequence := seq + 1, ex_pending := Some (seq, send_tick)\<rparr>))"

definition exchange_complete ::
  "HostTick \<Rightarrow> ClockResponseFrame \<Rightarrow> (ClockExchange, ClockExchangeError, ClockEstimate option) st"
where
  "exchange_complete receive_tick response self =
     (case ex_pending self of
        None \<Rightarrow> (Inl NoExchangePending, self)
      | Some (expected, send_tick) \<Rightarrow>
          if rf_sequence response \<noteq> expected
          then (Inl (SequenceMismatch expected (rf_sequence response)), self)
          else
            let sample = \<lparr>host_send = send_tick,
                   controller_receive = cr_controller_receive (rf_response response),
                   controller_send = cr_controller_send (rf_response response),
                   host_receive = receive_tick\<rparr> in
            (case push sample (ex_sync self) of
               (Inl e, sync) \<Rightarrow> (Inl (ExchangeSync e), self\<lparr>ex_sync := sync\<rparr>)
             | (Inr est, sync) \<Rightarrow> (Inr est, self\<lparr>ex_sync := sync, ex_pending := None\<rparr>)))"

definition exchange_complete_frame ::
  "HostTick \<Rightarrow> u8 list \<Rightarrow> (ClockExchange, ClockExchangeError, ClockEstimate option) st" where
  "exchange_complete_frame receive_tick input self =
     (case decode_clock_response_frame input of
        Inl e \<Rightarrow> (Inl (ExchangeDecode e), self)
      | Inr response \<Rightarrow> exchange_complete receive_tick response self)"

definition exchange_estimate :: "ClockExchange \<Rightarrow> ClockEstimate option" where
  "exchange_estimate self = estimate (ex_sync self)"

definition exchange_pending_sequence :: "ClockExchange \<Rightarrow> u32 option" where
  "exchange_pending_sequence self = map_option fst (ex_pending self)"

section \<open>The command client\<close>

record SendReceipt =
  sr_sequence :: u32
  sr_frame_len :: nat

datatype 'e SendError = SendEncode EncodeError | SendTransport 'e

record 's CommandClient =
  cc_sink :: 's
  cc_next_sequence :: u32
  cc_frame :: "u8 list"

definition client_with_initial_sequence :: "'s \<Rightarrow> u32 \<Rightarrow> 's CommandClient" where
  "client_with_initial_sequence sink seq =
     \<lparr>cc_sink = sink, cc_next_sequence = seq, cc_frame = replicate MAX_FRAME_LEN 0\<rparr>"

definition client_new :: "'s \<Rightarrow> 's CommandClient" where
  "client_new sink = client_with_initial_sequence sink 0"

definition send_inner ::
  "('s, 'e) frame_sink \<Rightarrow> Tick option \<Rightarrow> Command \<Rightarrow> ('s CommandClient, 'e SendError, SendReceipt) st"
where
  "send_inner send_frame execute_at command self =
     (let seq = cc_next_sequence self;
          frame = \<lparr>cf_sequence = seq,
                   cf_envelope = \<lparr>ce_execute_at = execute_at, ce_command = command\<rparr>\<rparr> in
      case encode_command frame (cc_frame self) of
        (Inl e, buf) \<Rightarrow> (Inl (SendEncode e), self\<lparr>cc_frame := buf\<rparr>)
      | (Inr frame_len, buf) \<Rightarrow>
          let self1 = self\<lparr>cc_frame := buf, cc_next_sequence := cc_next_sequence self + 1\<rparr> in
          (case send_frame (take frame_len buf) (cc_sink self1) of
             (Inl e, sink) \<Rightarrow> (Inl (SendTransport e), self1\<lparr>cc_sink := sink\<rparr>)
           | (Inr _, sink) \<Rightarrow>
               (Inr \<lparr>sr_sequence = seq, sr_frame_len = frame_len\<rparr>, self1\<lparr>cc_sink := sink\<rparr>)))"

definition client_send ::
  "('s, 'e) frame_sink \<Rightarrow> Command \<Rightarrow> ('s CommandClient, 'e SendError, SendReceipt) st" where
  "client_send send_frame command = send_inner send_frame None command"

definition client_send_scheduled ::
  "('s, 'e) frame_sink \<Rightarrow> Tick \<Rightarrow> Command \<Rightarrow> ('s CommandClient, 'e SendError, SendReceipt) st"
where
  "client_send_scheduled send_frame execute_at command =
     send_inner send_frame (Some execute_at) command"

section \<open>Runs of a clock session\<close>

text \<open>A sink that also records the frames handed to it, in order.\<close>

definition recording :: "('s, 'e) frame_sink \<Rightarrow> (u8 list list \<times> 's, 'e) frame_sink" where
  "recording send_frame frame s =
     (case send_frame frame (snd s) of (r, s') \<Rightarrow> (r, (fst s @ [frame], s')))"

inductive session_run ::
  "'c host_clock \<Rightarrow> ('s, 'e) frame_sink \<Rightarrow> ClockSession \<Rightarrow> u8 list list \<Rightarrow> 's \<Rightarrow> 'c \<Rightarrow> bool"
  for now send_frame where
  run_new: "clock_session_new slew timeout = Inr cs \<Longrightarrow> session_run now send_frame cs [] s c"
| run_begin: "session_run now send_frame cs sent s c \<Longrightarrow>
    session_begin now (recording send_frame) cs (sent, s) c = (r, cs', (sent', s'), c') \<Longrightarrow>
    session_run now send_frame cs' sent' s' c'"
| run_response: "session_run now send_frame cs sent s c \<Longrightarrow>
    accept_response now bytes cs c = (r, cs', c') \<Longrightarrow> session_run now send_frame cs' sent s c'"
| run_expire: "session_run now send_frame cs sent s c \<Longrightarrow>
    expire t cs = (r, cs') \<Longrightarrow> session_run now send_frame cs' sent s c"

definition request_frame :: "nat \<Rightarrow> u8 list" where
  "request_frame q = frame_bytes CLOCK_REQUEST_MESSAGE_TYPE (of_nat q) [0]"

lemma length_request_frame [simp]: "length (request_frame q) = 15"
  by (simp add: request_frame_def)

lemma encode_request_buffer:
  "length buf = 15 \<Longrightarrow> encode_clock_request f buf =
     (Inr 15, frame_bytes CLOCK_REQUEST_MESSAGE_TYPE (rq_sequence f) [0])"
  using encode_clock_request_fits [of buf f] by simp

definition session_ok :: "ClockSession \<Rightarrow> nat \<Rightarrow> bool" where
  "session_ok cs n \<longleftrightarrow> n \<le> 2 ^ 32 \<and> length (cs_request cs) = 15 \<and>
     cs_next_sequence cs = of_nat n \<and> (cs_exhausted cs \<longleftrightarrow> n = 2 ^ 32) \<and> session_inv (cs_sync cs) \<and>
     (\<forall>p. cs_pending cs = Some p \<longrightarrow> 0 < n \<and> pe_sequence p = of_nat (n - 1))"

lemma accept_response_cases:
  assumes "accept_response now bytes cs c = (r, cs', c')"
  shows "cs' = cs \<or> cs' = cs\<lparr>cs_pending := None\<rparr> \<or>
    (\<exists>s. cs' = cs\<lparr>cs_pending := None, cs_sync := snd (push s (cs_sync cs))\<rparr>)"
  using assms
  by (auto simp: accept_response_def Let_def split: prod.splits sum.splits option.splits if_splits)
    (metis snd_conv)+

lemma session_ok_accept:
  "session_ok cs n \<Longrightarrow> accept_response now bytes cs c = (r, cs', c') \<Longrightarrow> session_ok cs' n"
  by (drule accept_response_cases) (auto simp: session_ok_def session_inv_push)

lemma session_ok_expire: "session_ok cs n \<Longrightarrow> expire t cs = (r, cs') \<Longrightarrow> session_ok cs' n"
  by (auto simp: expire_def session_ok_def split: option.splits if_splits)

lemma of_nat_u32_eq_max: "n < 2 ^ 32 \<Longrightarrow> (of_nat n :: u32) = - 1 \<longleftrightarrow> Suc n = 2 ^ 32"
proof -
  assume n: "n < 2 ^ 32"
  have "(of_nat n :: u32) = - 1 \<longleftrightarrow> unat (of_nat n :: u32) = unat (- 1 :: u32)"
    by (simp only: word_unat_eq_iff)
  also have "\<dots> \<longleftrightarrow> n = 2 ^ 32 - 1"
    using n by (simp add: unat_of_nat unsigned_minus_1_eq_mask mask_eq_exp_minus_1)
  finally show ?thesis using n by auto
qed

text \<open>\<^verbatim>\<open>begin\<close> either leaves session and sink alone or hands exactly one request to the sink.\<close>

lemma begin_cases:
  assumes ok: "session_ok cs n"
    and b: "session_begin now (recording send_frame) cs (sent, s) c = (r, cs', (sent', s'), c')"
  shows "sent' = sent \<and> cs' = cs \<and> is_ok r = False \<or>
    n < 2 ^ 32 \<and> cs_pending cs = None \<and> sent' = sent @ [request_frame n] \<and> session_ok cs' (Suc n)"
proof (cases "cs_pending cs = None \<and> \<not> cs_exhausted cs")
  case False
  then show ?thesis using b by (auto simp: session_begin_def split: option.splits)
next
  case True
  then have n: "n < 2 ^ 32" using ok by (auto simp: session_ok_def)
  have e: "encode_clock_request \<lparr>rq_sequence = cs_next_sequence cs\<rparr> (cs_request cs) =
      (Inr 15, request_frame n)"
    using ok encode_request_buffer by (simp add: session_ok_def request_frame_def)
  have len: "take 15 (request_frame n) = request_frame n" by simp
  show ?thesis
    using b True n ok of_nat_u32_eq_max [OF n]
    by (auto simp: session_begin_def e len Let_def recording_def session_ok_def add.commute
        split: prod.splits sum.splits)
qed

lemma session_new_ok:
  "clock_session_new slew timeout = Inr cs \<Longrightarrow>
     session_ok cs 0 \<and> cs_pending cs = None \<and> \<not> cs_exhausted cs \<and> length (cs_request cs) = 15 \<and>
     cs_timeout_ticks cs = timeout"
  using session_inv_new by (auto simp: clock_session_new_def session_ok_def)

lemma session_run_invariant:
  "session_run now send_frame cs sent s c \<Longrightarrow>
     session_ok cs (length sent) \<and> sent = map request_frame [0..<length sent]"
proof (induction rule: session_run.induct)
  case (run_new slew timeout cs s c)
  then show ?case using session_new_ok by fastforce
next
  case (run_begin cs sent s c r cs' sent' s' c')
  then show ?case using begin_cases [of cs "length sent"] by fastforce
qed (auto dest: session_ok_accept session_ok_expire)

lemma request_frame_inj:
  assumes "request_frame a = request_frame b" "a < 2 ^ 32" "b < 2 ^ 32"
  shows "a = b"
proof -
  have "decode_clock_request (request_frame a) = Inr \<lparr>rq_sequence = of_nat a\<rparr>"
    "decode_clock_request (request_frame b) = Inr \<lparr>rq_sequence = of_nat b\<rparr>"
    by (simp_all add: crq.decode_iff request_frame_def)
  then have "(of_nat a :: u32) = of_nat b" using assms(1) by simp
  then have "unat (of_nat a :: u32) = unat (of_nat b :: u32)" by simp
  then show ?thesis using assms(2,3) by (simp add: unat_of_nat)
qed

section \<open>Properties\<close>

text \<open>
  Claim C17: sequence numbers are never reused.  Along every run of a clock session (requests,
  responses of any bytes, time-outs, in any order, over any transport and clock) the frames handed
  to the transport are exactly the requests 0, 1, 2, ... in order, at most 2^32 of them and pairwise
  different, and an outstanding exchange is the last request sent.
\<close>
theorem session_requests_unique:
  assumes "session_run now send_frame cs sent s c"
  shows "sent = map request_frame [0..<length sent] \<and> length sent \<le> 2 ^ 32 \<and> distinct sent \<and>
    (case cs_pending cs of None \<Rightarrow> True
     | Some p \<Rightarrow> sent \<noteq> [] \<and> decode_clock_request (last sent) = Inr \<lparr>rq_sequence = pe_sequence p\<rparr>)"
proof -
  have ok: "session_ok cs (length sent)" and sent: "sent = map request_frame [0..<length sent]"
    using session_run_invariant [OF assms] by auto
  have le: "length sent \<le> 2 ^ 32" using ok by (simp add: session_ok_def)
  have "distinct (map request_frame [0..<length sent])"
    using request_frame_inj le by (auto simp: distinct_map inj_on_def)
  then have "distinct sent" using sent by simp
  moreover have "last sent = request_frame (length sent - 1)" if "sent \<noteq> []"
    using that by (subst sent) (simp add: last_map)
  ultimately show ?thesis
    using ok sent le
    by (auto simp: session_ok_def crq.decode_iff request_frame_def split: option.splits)
qed

theorem session_requests_unique_witness:
  "\<exists>cs sent s c. session_run (\<lambda>c :: nat. (of_nat c, Suc c)) (\<lambda>f s. ((Inr () :: unit + unit), s @ f))
     cs sent s c \<and> length sent = 1 \<and> sent = [request_frame 0]"
proof -
  let ?now = "\<lambda>c :: nat. (of_nat c :: HostTick, Suc c)"
  let ?send = "\<lambda>f s. ((Inr () :: unit + unit), s @ f)"
  have "is_ok (clock_session_new 100 50)"
    by (simp add: clock_session_new_def clock_sync_new_def)
  then obtain cs where cs: "clock_session_new 100 50 = Inr cs"
    unfolding is_ok_iff by blast
  have ok: "session_ok cs 0"
    and idle: "cs_pending cs = None" "\<not> cs_exhausted cs" "length (cs_request cs) = 15"
    using session_new_ok [OF cs] by blast+
  obtain r cs' sent s c where b:
    "session_begin ?now (recording ?send) cs ([], []) 0 = (r, cs', (sent, s), c)"
    by (cases "session_begin ?now (recording ?send) cs ([], []) 0") auto
  have "sent \<noteq> []"
    using b idle encode_request_buffer [OF idle(3)]
    by (auto simp: session_begin_def recording_def Let_def)
  then have one: "length sent = 1" using begin_cases [OF ok b] by auto
  have run: "session_run ?now ?send cs' sent s c"
    by (rule run_begin [OF run_new [OF cs] b])
  have "sent = map request_frame [0..<length sent]"
    using session_requests_unique [OF run] by blast
  then have "sent = [request_frame 0]" unfolding one by simp
  with run one show ?thesis by blast
qed

text \<open>
  What \<^verbatim>\<open>accept_response\<close> does with any bytes.  It gives a receipt only for the exact
  layout of a response that carries the outstanding sequence number and arrives before the time-out,
  and only when the estimator accepts the sample made of the remembered send tick, the two controller
  ticks and the tick just read.  On an error the estimator is unchanged, and the exchange stays
  outstanding unless it timed out or its own sample was rejected.
\<close>
theorem accept_response_exact:
  "let t = fst (now c); c1 = snd (now c) in
   case accept_response now bytes cs c of
      (Inr rc, cs', c') \<Rightarrow> c' = c1 \<and> cs_pending cs' = None \<and>
        (\<exists>p resp. cs_pending cs = Some p \<and>
           bytes = frame_bytes CLOCK_RESPONSE_MESSAGE_TYPE (pe_sequence p) (response_layout resp) \<and>
           max 0 (uint t - uint (pe_host_send p)) < uint (cs_timeout_ticks cs) \<and>
           rc = \<lparr>cer_sequence = pe_sequence p,
                 cer_sample = \<lparr>host_send = pe_host_send p, controller_receive = cr_controller_receive resp,
                   controller_send = cr_controller_send resp, host_receive = t\<rparr>,
                 cer_estimate = estimate (cs_sync cs')\<rparr> \<and>
           push (cer_sample rc) (cs_sync cs) = (Inr (cer_estimate rc), cs_sync cs'))
    | (Inl e, cs', c') \<Rightarrow> c' = c1 \<and> cs_sync cs' = cs_sync cs \<and>
        cs_pending cs' =
          (case e of TimedOut _ \<Rightarrow> None | SessionSync _ \<Rightarrow> None | _ \<Rightarrow> cs_pending cs)"
proof -
  have est: "push s st = (Inr r, st') \<Longrightarrow> r = estimate st'" for s st r st'
    by (auto simp: push_def Let_def split: sum.splits option.splits if_splits)
  have late: "saturating_sub t h \<ge> n \<longleftrightarrow> \<not> max 0 (uint t - uint h) < uint n" for t h n :: u64
    by (simp only: word_le_def uint_saturating_sub not_less)
  show ?thesis
    using crs.decode_iff [of bytes] est push_error_unchanged
    by (cases "now c") (auto simp: accept_response_def Let_def decode_clock_response_frame_def late
        split: sum.splits option.splits if_splits prod.splits)
qed

text \<open>
  The time-out is one boundary.  For an outstanding exchange and a correctly sequenced
  response, \<^verbatim>\<open>expire\<close> retires the exchange at a tick iff accepting the response at that same tick
  reports a time-out; both leave the session in the same state.
\<close>
theorem expire_agrees_with_accept:
  assumes "cs_pending cs = Some p"
    and "bytes = frame_bytes CLOCK_RESPONSE_MESSAGE_TYPE (pe_sequence p) (response_layout resp)"
  shows "case accept_response (\<lambda>t. (t, t)) bytes cs t of (r, cs', _) \<Rightarrow>
    (fst (expire t cs) = Some \<lparr>ct_sequence = pe_sequence p\<rparr> \<longleftrightarrow> r = Inl (TimedOut (pe_sequence p))) \<and>
    (fst (expire t cs) \<noteq> None \<longrightarrow> snd (expire t cs) = cs')"
proof -
  have "decode_clock_response_frame bytes = Inr \<lparr>rf_sequence = pe_sequence p, rf_response = resp\<rparr>"
    using crs.decode_layout [OF TrueI, of "\<lparr>rf_sequence = pe_sequence p, rf_response = resp\<rparr>"] assms(2)
    by (simp add: decode_clock_response_frame_def)
  then show ?thesis
    using assms(1)
    by (auto simp: accept_response_def expire_def Let_def split: prod.splits sum.splits)
qed

theorem expire_agrees_with_accept_witness:
  "let cs = \<lparr>cs_sync = \<lparr>max_slew_ppb = 100, session_start = None, previous = None, estimate = None, last_raw = None\<rparr>, cs_next_sequence = 1, cs_exhausted = False, cs_timeout_ticks = 50,
      cs_pending = Some \<lparr>pe_sequence = 0, pe_host_send = 100\<rparr>, cs_request = []\<rparr>;
    bytes = frame_bytes CLOCK_RESPONSE_MESSAGE_TYPE 0 (response_layout \<lparr>cr_controller_receive = 7, cr_controller_send = 8\<rparr>) in
   fst (accept_response (\<lambda>t. (t, t)) bytes cs 150) = Inl (TimedOut 0)"
proof -
  let ?cs = "\<lparr>cs_sync = \<lparr>max_slew_ppb = 100, session_start = None, previous = None, estimate = None, last_raw = None\<rparr>, cs_next_sequence = 1, cs_exhausted = False, cs_timeout_ticks = 50,
      cs_pending = Some \<lparr>pe_sequence = 0, pe_host_send = 100\<rparr>, cs_request = []\<rparr>"
  have "fst (expire 150 ?cs) = Some \<lparr>ct_sequence = 0\<rparr>"
    by (simp add: expire_def saturating_sub_def)
  then show ?thesis
    using expire_agrees_with_accept [of ?cs "\<lparr>pe_sequence = 0, pe_host_send = 100\<rparr>",
        OF _ refl, of 150 "\<lparr>cr_controller_receive = 7, cr_controller_send = 8\<rparr>"]
    by (simp add: Let_def split: prod.splits)
qed

text \<open>
  An exchange of \<^verbatim>\<open>ClockExchange\<close> can only end in success.  While one is outstanding, no
  operation but a completed one removes it: a rejected sample, a wrong sequence number and undecodable
  bytes leave the whole state as it was, and \<^verbatim>\<open>begin\<close> keeps failing.
\<close>
theorem exchange_ends_only_in_success:
  assumes "ex_pending x = Some (seq, h)"
  shows "exchange_begin t x = (Inl ExchangePending, x) \<and>
    (case exchange_complete_frame u bytes x of
       (Inl _, x') \<Rightarrow> x' = x
     | (Inr est, x') \<Rightarrow> ex_pending x' = None \<and> est = exchange_estimate x' \<and>
         last_raw (ex_sync x') \<noteq> None \<and> ex_next_sequence x' = ex_next_sequence x)"
proof -
  have ok: "push s st = (Inr r, st') \<Longrightarrow> r = estimate st' \<and> last_raw st' \<noteq> None" for s st r st'
    by (auto simp: push_def Let_def split: sum.splits option.splits if_splits)
  show ?thesis
    using assms push_error_unchanged
    by (auto simp: exchange_begin_def exchange_complete_frame_def exchange_complete_def
        exchange_estimate_def Let_def dest!: ok split: sum.splits prod.splits option.splits if_splits)
qed

theorem exchange_ends_only_in_success_witness:
  "let x = \<lparr>ex_sync = \<lparr>max_slew_ppb = 100, session_start = None, previous = None, estimate = None, last_raw = None\<rparr>, ex_next_sequence = 6, ex_pending = Some (5, 40)\<rparr> in
   fst (exchange_begin 50 x) = Inl ExchangePending \<and> snd (exchange_complete_frame 60 [] x) = x"
proof -
  let ?x = "\<lparr>ex_sync = \<lparr>max_slew_ppb = 100, session_start = None, previous = None, estimate = None, last_raw = None\<rparr>, ex_next_sequence = 6, ex_pending = Some (5, 40)\<rparr>"
  have "\<exists>e. fst (exchange_complete_frame 60 [] ?x) = Inl e"
    by (simp add: exchange_complete_frame_def decode_clock_response_frame_def
        decode_clock_response_def decode_fixed_header_def require_len_def)
  then show ?thesis
    using exchange_ends_only_in_success [of ?x 5 40 50 60 "[]"]
    by (cases "exchange_complete_frame 60 [] ?x") auto
qed

text \<open>
  What a command client sends.  A name that is too long consumes no sequence number and
  sends nothing; otherwise exactly one frame, the layout of the command under the next sequence
  number, reaches the transport, and the number is consumed even if the transport fails.
\<close>
theorem client_send_exact:
  assumes "length (cc_frame client) = MAX_FRAME_LEN"
  shows "case send_inner send_frame due c client of (r, client') \<Rightarrow>
    length (cc_frame client') = MAX_FRAME_LEN \<and>
    (let f = \<lparr>cf_sequence = cc_next_sequence client,
              cf_envelope = \<lparr>ce_execute_at = due, ce_command = c\<rparr>\<rparr>;
         bytes = frame_bytes COMMAND_MESSAGE_TYPE (cf_sequence f) (envelope_layout (cf_envelope f)) in
     if names_fit c
     then cc_next_sequence client' = cc_next_sequence client + 1 \<and>
       (r, cc_sink client') = (case send_frame bytes (cc_sink client) of
          (Inl e, s) \<Rightarrow> (Inl (SendTransport e), s)
        | (Inr _, s) \<Rightarrow> (Inr \<lparr>sr_sequence = cf_sequence f, sr_frame_len = length bytes\<rparr>, s))
     else (\<exists>e. r = Inl (SendEncode e)) \<and> client' = client)"
proof -
  let ?f = "\<lparr>cf_sequence = cc_next_sequence client, cf_envelope = \<lparr>ce_execute_at = due, ce_command = c\<rparr>\<rparr>"
  let ?p = "envelope_layout (cf_envelope ?f)"
  show ?thesis
  proof (cases "names_fit c")
    case True
    then have le: "length ?p \<le> 128" using names_fit_length [of "cf_envelope ?f"] by simp
    have e: "encode_command ?f (cc_frame client) = (Inr (length ?p + 14),
        frame_bytes COMMAND_MESSAGE_TYPE (cf_sequence ?f) ?p @ drop (length ?p + 14) (cc_frame client))"
      using True le assms by (intro encode_command_fits) simp_all
    show ?thesis
      using True le assms
      by (auto simp: send_inner_def Let_def e [simplified] split: prod.splits sum.splits)
  next
    case False
    have "encode_command ?f (cc_frame client) = (Inl (EncStringTooLong (length (hd (command_names c))) MAX_STRING_LEN), cc_frame client)"
      using encoded_payload_len_long [OF False, of "cf_envelope ?f"] by (simp add: encode_command_def)
    then show ?thesis using False assms by (simp add: send_inner_def Let_def)
  qed
qed

theorem client_send_exact_witness:
  "case client_send (\<lambda>f s. (Inr () :: unit + unit, s @ [f])) Heartbeat (client_new []) of (r, client) \<Rightarrow>
     cc_sink client = [frame_bytes COMMAND_MESSAGE_TYPE 0 [0, 0]] \<and> cc_next_sequence client = 1"
  using client_send_exact [where client = "client_new []" and due = None and c = Heartbeat
      and send_frame = "\<lambda>f s. (Inr () :: unit + unit, s @ [f])"]
  by (simp add: client_send_def client_new_def client_with_initial_sequence_def names_fit_def
      envelope_layout_def split: prod.splits)

text \<open>
  A cluster counts as synchronized iff it has a controller and every controller it knows
  has an estimate; adding a controller under a name, even a known one, starts it without one.
\<close>
theorem cluster_synchronized_iff:
  assumes "bt_inv (mc_sessions m)"
  shows "(is_cluster_synchronized m \<longleftrightarrow>
      (\<exists>name. multi_session m name \<noteq> None) \<and>
      (\<forall>name s. multi_session m name = Some s \<longrightarrow> estimate (cs_sync s) \<noteq> None)) \<and>
    (case multi_add_controller name m of
       (Inl e, m') \<Rightarrow> m' = m \<and> mc_max_slew_ppb m < 0
     | (Inr _, m') \<Rightarrow> bt_inv (mc_sessions m') \<and> \<not> is_cluster_synchronized m' \<and>
         (\<forall>other. other \<noteq> name \<longrightarrow> multi_session m' other = multi_session m other))"
proof -
  have sync: "is_cluster_synchronized k \<longleftrightarrow>
      (\<exists>name. multi_session k name \<noteq> None) \<and>
      (\<forall>name s. multi_session k name = Some s \<longrightarrow> estimate (cs_sync s) \<noteq> None)"
    if k: "bt_inv (mc_sessions k)" for k
  proof -
    have "bt_values (mc_sessions k) \<noteq> [] \<longleftrightarrow> (\<exists>name. multi_session k name \<noteq> None)"
      using bt.get_None_iff [OF k] by (cases "mc_sessions k") (auto simp: bt_values_def multi_session_def)
    moreover have "list_all P (bt_values (mc_sessions k)) \<longleftrightarrow>
        (\<forall>name s. multi_session k name = Some s \<longrightarrow> P s)" for P
      using bt.all_values [OF k, of P] by (simp add: bt_values_def multi_session_def list_all_iff)
    ultimately show ?thesis by (simp add: is_cluster_synchronized_def)
  qed
  show ?thesis
  proof (cases "clock_session_new (mc_max_slew_ppb m) (mc_timeout_ticks m)")
    case (Inl e)
    then show ?thesis using sync [OF assms]
      by (simp add: multi_add_controller_def clock_session_new_def clock_sync_new_def split: if_splits)
  next
    case (Inr new)
    let ?m = "m\<lparr>mc_sessions := bt_insert name new (mc_sessions m)\<rparr>"
    have inv: "bt_inv (mc_sessions ?m)" using assms by (simp add: bt_simps)
    have new: "estimate (cs_sync new) = None"
      using Inr by (auto simp: clock_session_new_def clock_sync_new_def split: if_splits)
    have look: "multi_session ?m other = (if other = name then Some new else multi_session m other)"
      for other using assms by (simp add: multi_session_def bt_simps)
    have "\<not> is_cluster_synchronized ?m" using sync [OF inv] new by (auto simp: look)
    then show ?thesis using sync [OF assms] inv Inr by (simp add: multi_add_controller_def look)
  qed
qed

theorem cluster_synchronized_iff_witness:
  "\<not> is_cluster_synchronized (multi_new 100 50) \<and>
   (\<exists>m. multi_add_controller ''motion'' (multi_new 100 50) = (Inr (), m) \<and> \<not> is_cluster_synchronized m)"
proof -
  have inv: "bt_inv (mc_sessions (multi_new 100 50))"
    by (simp add: multi_new_def bt_inv_def bt_empty_def)
  have "\<not> mc_max_slew_ppb (multi_new 100 50) < 0" by (simp add: multi_new_def)
  then show ?thesis
    using cluster_synchronized_iff [OF inv, of "''motion''"] bt.get_empty
    by (auto simp: multi_session_def multi_new_def split: prod.splits sum.splits)
qed

end
