(* ===== verification/Daemon.thy ===== *)
theory Daemon
  imports Client
begin

text \<open>
  The host-side daemon of \<^verbatim>\<open>crates/controller-daemon/src/lib.rs\<close>: registered controller sessions with
  their last heartbeat and queue status, the audit that finds dead controllers, and the connection
  state.  The lemmas: an invariant that ties the sessions to the clock sessions and the names to the
  keys, the exact result of an audit, that a fault is permanent, and that a controller never heard of
  is never reported dead.
\<close>

section \<open>State and operations\<close>

datatype DaemonState = Uninitialized | Connecting | Connected | Running | Faulted | Disconnected

record ControllerSessionStatus =
  css_controller_id :: string
  css_heartbeat_timeout_us :: u64
  css_last_seen_host_us :: u64
  css_queue_capacity :: u16
  css_queue_fill :: u16
  css_earliest_accepted_tick :: u64
  css_latest_accepted_tick :: u64
  css_underrun :: bool
  css_heartbeat_ok :: bool

record ControllerSession =
  cn_controller_id :: string
  cn_heartbeat_timeout_us :: u64
  cn_last_seen_host_us :: u64
  cn_last_status :: "QueueStatus option"

definition controller_session_new :: "string \<Rightarrow> u64 \<Rightarrow> ControllerSession" where
  "controller_session_new controller_id heartbeat_timeout_us =
     \<lparr>cn_controller_id = controller_id, cn_heartbeat_timeout_us = heartbeat_timeout_us,
      cn_last_seen_host_us = 0, cn_last_status = None\<rparr>"

definition session_record_heartbeat :: "u64 \<Rightarrow> ControllerSession \<Rightarrow> ControllerSession" where
  "session_record_heartbeat current_host_us self = self\<lparr>cn_last_seen_host_us := current_host_us\<rparr>"

definition is_heartbeat_alive :: "ControllerSession \<Rightarrow> u64 \<Rightarrow> bool" where
  "is_heartbeat_alive self current_host_us =
     (if cn_last_seen_host_us self = 0 then True
      else saturating_sub current_host_us (cn_last_seen_host_us self) \<le> cn_heartbeat_timeout_us self)"

definition session_status_of :: "ControllerSession \<Rightarrow> u64 \<Rightarrow> ControllerSessionStatus" where
  "session_status_of self current_host_us =
     (let (cap, fill, earliest_tick, latest_tick, underrun) =
        (case cn_last_status self of
           Some status \<Rightarrow> (qs_capacity status, qs_fill status, qs_earliest_accepted status,
                            qs_latest_accepted status, qs_underrun status)
         | None \<Rightarrow> (0, 0, 0, 0, False)) in
      \<lparr>css_controller_id = cn_controller_id self,
       css_heartbeat_timeout_us = cn_heartbeat_timeout_us self,
       css_last_seen_host_us = cn_last_seen_host_us self,
       css_queue_capacity = cap, css_queue_fill = fill,
       css_earliest_accepted_tick = earliest_tick, css_latest_accepted_tick = latest_tick,
       css_underrun = underrun,
       css_heartbeat_ok = is_heartbeat_alive self current_host_us\<rparr>)"

record ControllerDaemon =
  cd_state :: DaemonState
  cd_cluster_sync :: MultiControllerClockSync
  cd_sessions :: "(string, ControllerSession) btree"

definition daemon_new :: ControllerDaemon where
  "daemon_new =
     \<lparr>cd_state = Uninitialized, cd_cluster_sync = multi_new 0 100000, cd_sessions = bt_empty\<rparr>"

definition register_controller :: "string \<Rightarrow> u64 \<Rightarrow> ControllerDaemon \<Rightarrow> ControllerDaemon" where
  "register_controller controller_id heartbeat_timeout_us self =
     (let self1 = self\<lparr>cd_cluster_sync := snd (multi_add_controller controller_id (cd_cluster_sync self))\<rparr>;
          self2 = self1\<lparr>cd_sessions := bt_insert controller_id
                    (controller_session_new controller_id heartbeat_timeout_us) (cd_sessions self1)\<rparr> in
      if cd_state self2 = Uninitialized then self2\<lparr>cd_state := Connected\<rparr> else self2)"

definition daemon_record_heartbeat :: "string \<Rightarrow> u64 \<Rightarrow> ControllerDaemon \<Rightarrow> bool \<times> ControllerDaemon"
where
  "daemon_record_heartbeat controller_id current_host_us self =
     (case bt_get (cd_sessions self) controller_id of
        Some session \<Rightarrow>
          (True, self\<lparr>cd_sessions := bt_insert controller_id
             (session_record_heartbeat current_host_us session) (cd_sessions self)\<rparr>)
      | None \<Rightarrow> (False, self))"

definition update_queue_status ::
  "string \<Rightarrow> u8 list \<Rightarrow> u64 \<Rightarrow> (ControllerDaemon, DecodeError, QueueStatus) st" where
  "update_queue_status controller_id status_frame current_host_us self =
     (case decode_queue_status_frame status_frame of
        Inl e \<Rightarrow> (Inl e, self)
      | Inr status_decoded \<Rightarrow>
          let status = qf_status status_decoded in
          (Inr status,
           case bt_get (cd_sessions self) controller_id of
             None \<Rightarrow> self
           | Some session \<Rightarrow>
               self\<lparr>cd_sessions := bt_insert controller_id
                 (session_record_heartbeat current_host_us (session\<lparr>cn_last_status := Some status\<rparr>))
                 (cd_sessions self)\<rparr>))"

definition audit_heartbeats :: "u64 \<Rightarrow> ControllerDaemon \<Rightarrow> string list \<times> ControllerDaemon" where
  "audit_heartbeats current_host_us self =
     (let dead = map fst (filter (\<lambda>(_, session). \<not> is_heartbeat_alive session current_host_us)
                   (cd_sessions self)) in
      (dead, if dead \<noteq> [] then self\<lparr>cd_state := Faulted\<rparr> else self))"

definition active_controller_ids :: "ControllerDaemon \<Rightarrow> string list" where
  "active_controller_ids self = bt_keys (cd_sessions self)"

definition daemon_session_status ::
  "ControllerDaemon \<Rightarrow> string \<Rightarrow> u64 \<Rightarrow> ControllerSessionStatus option" where
  "daemon_session_status self controller_id current_host_us =
     map_option (\<lambda>s. session_status_of s current_host_us) (bt_get (cd_sessions self) controller_id)"

definition daemon_status_summary :: "ControllerDaemon \<Rightarrow> u64 \<Rightarrow> ControllerSessionStatus list" where
  "daemon_status_summary self current_host_us =
     map (\<lambda>s. session_status_of s current_host_us) (bt_values (cd_sessions self))"

section \<open>Steps and reachable states\<close>

datatype daemon_op =
    Register string u64
  | RecordHeartbeat string u64
  | UpdateStatus string "u8 list" u64
  | Audit u64

fun daemon_apply :: "daemon_op \<Rightarrow> ControllerDaemon \<Rightarrow> ControllerDaemon" where
  "daemon_apply (Register i t) d = register_controller i t d"
| "daemon_apply (RecordHeartbeat i t) d = snd (daemon_record_heartbeat i t d)"
| "daemon_apply (UpdateStatus i bytes t) d = snd (update_queue_status i bytes t d)"
| "daemon_apply (Audit t) d = snd (audit_heartbeats t d)"

inductive daemon_step :: "ControllerDaemon \<Rightarrow> ControllerDaemon \<Rightarrow> bool" where
  daemon_step_op: "daemon_step d (daemon_apply op d)"

inductive_cases daemon_stepE: "daemon_step d d'"

definition daemon_reachable :: "ControllerDaemon \<Rightarrow> bool" where
  "daemon_reachable d \<longleftrightarrow> daemon_step\<^sup>*\<^sup>* daemon_new d"

definition daemon_inv :: "ControllerDaemon \<Rightarrow> bool" where
  "daemon_inv d \<longleftrightarrow>
     bt_inv (cd_sessions d) \<and> bt_inv (mc_sessions (cd_cluster_sync d)) \<and>
     mc_max_slew_ppb (cd_cluster_sync d) = 0 \<and>
     (\<forall>i. multi_session (cd_cluster_sync d) i \<noteq> None \<longleftrightarrow> bt_get (cd_sessions d) i \<noteq> None) \<and>
     (\<forall>i s. bt_get (cd_sessions d) i = Some s \<longrightarrow> cn_controller_id s = i) \<and>
     cd_state d \<in> {Uninitialized, Connected, Faulted} \<and>
     (cd_state d = Uninitialized \<longrightarrow> (\<forall>i. bt_get (cd_sessions d) i = None))"

text \<open>The daemon's clock sessions use slew zero, which is valid, so registration always adds one.\<close>

lemma multi_add_zero_slew:
  assumes "mc_max_slew_ppb m = 0"
  shows "\<exists>s. snd (multi_add_controller name m) = m\<lparr>mc_sessions := bt_insert name s (mc_sessions m)\<rparr>"
  using assms by (simp add: multi_add_controller_def clock_session_new_def clock_sync_new_def) blast

lemma daemon_inv_new: "daemon_inv daemon_new"
  by (simp add: daemon_inv_def daemon_new_def multi_new_def multi_session_def bt_simps)

lemma daemon_inv_register: "daemon_inv d \<Longrightarrow> daemon_inv (register_controller i t d)"
  using multi_add_zero_slew [of "cd_cluster_sync d" i]
  by (auto simp: daemon_inv_def register_controller_def Let_def multi_session_def bt_simps
      controller_session_new_def)

lemma daemon_inv_update:
  assumes "daemon_inv d" "bt_get (cd_sessions d) i = Some s" "cn_controller_id s' = cn_controller_id s"
  shows "daemon_inv (d\<lparr>cd_sessions := bt_insert i s' (cd_sessions d)\<rparr>)"
  using assms by (auto simp: daemon_inv_def bt_simps)

lemma daemon_inv_apply: "daemon_inv d \<Longrightarrow> daemon_inv (daemon_apply op d)"
proof (induction op d rule: daemon_apply.induct)
  case (4 t d)
  have "daemon_inv (d\<lparr>cd_state := Faulted\<rparr>)" using 4 by (simp add: daemon_inv_def)
  then show ?case using 4 by (simp add: audit_heartbeats_def Let_def)
qed (auto simp: daemon_inv_register daemon_record_heartbeat_def update_queue_status_def Let_def
    session_record_heartbeat_def intro!: daemon_inv_update split: option.splits sum.splits)

lemma daemon_reachable_inv: "daemon_reachable d \<Longrightarrow> daemon_inv d"
  unfolding daemon_reachable_def
  by (induction rule: rtranclp_induct) (auto elim!: daemon_stepE intro: daemon_inv_new daemon_inv_apply)

lemma daemon_reachable_new: "daemon_reachable daemon_new"
  by (simp add: daemon_reachable_def)

lemma daemon_reachable_apply: "daemon_reachable d \<Longrightarrow> daemon_reachable (daemon_apply op d)"
  unfolding daemon_reachable_def by (erule rtranclp.rtrancl_into_rtrancl, rule daemon_step_op)

text \<open>A session is dead at a tick when it was heard of and its last sign of life is too long ago.\<close>

definition overdue :: "ControllerSession \<Rightarrow> u64 \<Rightarrow> bool" where
  "overdue s t \<longleftrightarrow> 0 < uint (cn_last_seen_host_us s) \<and>
     uint (cn_heartbeat_timeout_us s) < uint t - uint (cn_last_seen_host_us s)"

lemma alive_iff: "is_heartbeat_alive s t \<longleftrightarrow> \<not> overdue s t"
proof -
  have zero: "cn_last_seen_host_us s = 0 \<longleftrightarrow> uint (cn_last_seen_host_us s) = 0"
    by (simp add: word_uint_eq_iff)
  have int: "(if a = 0 then True else max 0 (u - a) \<le> n) \<longleftrightarrow> \<not> (0 < a \<and> n < u - a)"
    if "0 \<le> a" "0 \<le> n" for a n u :: int
    using that by (auto simp: max_def)
  show ?thesis
    unfolding is_heartbeat_alive_def overdue_def word_le_def uint_saturating_sub zero
    by (rule int) simp_all
qed

lemma audit_eq:
  "audit_heartbeats t d =
    (let dead = map fst (filter (\<lambda>(_, s). overdue s t) (cd_sessions d)) in
     (dead, d\<lparr>cd_state := (if dead = [] then cd_state d else Faulted)\<rparr>))"
proof -
  have "d\<lparr>cd_state := cd_state d\<rparr> = d" by (cases d) simp
  then show ?thesis by (simp add: audit_heartbeats_def Let_def alive_iff)
qed

lemma apply_other:
  assumes "bt_inv (cd_sessions d)"
    and "case op of Register j _ \<Rightarrow> True | RecordHeartbeat j _ \<Rightarrow> j \<noteq> i
      | UpdateStatus j _ _ \<Rightarrow> j \<noteq> i | Audit _ \<Rightarrow> True"
  shows "bt_get (cd_sessions (daemon_apply op d)) i =
    (case op of Register j t \<Rightarrow> if j = i then Some (controller_session_new i t) else bt_get (cd_sessions d) i
     | _ \<Rightarrow> bt_get (cd_sessions d) i)"
proof (cases op)
  case (Register j t)
  then show ?thesis using assms(1) by (simp add: register_controller_def Let_def bt_simps)
next
  case (RecordHeartbeat j t)
  then show ?thesis using assms
    by (simp add: daemon_record_heartbeat_def bt_simps split: option.split)
next
  case (UpdateStatus j bytes t)
  then show ?thesis using assms
    by (simp add: update_queue_status_def Let_def bt_simps split: option.split sum.split)
next
  case (Audit t)
  then show ?thesis by (simp add: audit_eq Let_def)
qed

section \<open>Properties\<close>

text \<open>
  Claim C18: what an audit finds.  In every reachable daemon the audit returns, in increasing name
  order and without repetition, exactly the registered controllers that were heard of and have been
  silent for longer than their own time-out, so never one that was not heard of yet; it changes nothing but the state, which becomes
  \<^verbatim>\<open>Faulted\<close> exactly when one was found.
\<close>
theorem audit_exact:
  assumes "daemon_reachable d" "audit_heartbeats t d = (dead, d')"
  shows "set dead = {i. \<exists>s. bt_get (cd_sessions d) i = Some s \<and> overdue s t} \<and>
    sorted_wrt (<) dead \<and> d' = d\<lparr>cd_state := (if dead = [] then cd_state d else Faulted)\<rparr>"
proof -
  have inv: "bt_inv (cd_sessions d)" using daemon_reachable_inv [OF assms(1)] by (simp add: daemon_inv_def)
  have dead: "dead = map fst (filter (\<lambda>(_, s). overdue s t) (cd_sessions d))"
    and d': "d' = d\<lparr>cd_state := (if dead = [] then cd_state d else Faulted)\<rparr>"
    using assms(2) unfolding audit_eq Let_def prod.inject by blast+
  have "sorted_wrt (<) (map fst (filter P m))" if "sorted_wrt (<) (map fst m)" for P and m :: "(string \<times> ControllerSession) list"
    using that by (induction m) auto
  then have "sorted_wrt (<) dead" using bt.entries_sorted [OF inv] unfolding dead by blast
  moreover have "set dead = {i. \<exists>s. bt_get (cd_sessions d) i = Some s \<and> overdue s t}"
    unfolding dead using bt.get_iff [OF inv] by force
  ultimately show ?thesis using d' by blast
qed

theorem audit_exact_witness:
  "let d = daemon_apply (RecordHeartbeat ''a'' 10) (daemon_apply (Register ''a'' 5) daemon_new) in
   set (fst (audit_heartbeats 16 d)) = {''a''} \<and> cd_state (snd (audit_heartbeats 16 d)) = Faulted"
proof -
  let ?d = "daemon_apply (RecordHeartbeat ''a'' 10) (daemon_apply (Register ''a'' 5) daemon_new)"
  have r: "daemon_reachable ?d" by (intro daemon_reachable_apply daemon_reachable_new)
  have s: "cd_sessions ?d = [(''a'', \<lparr>cn_controller_id = ''a'', cn_heartbeat_timeout_us = 5,
      cn_last_seen_host_us = 10, cn_last_status = None\<rparr>)]"
    by (simp add: register_controller_def daemon_record_heartbeat_def Let_def daemon_new_def bt_empty_def
        controller_session_new_def session_record_heartbeat_def)
  obtain dead d' where au: "audit_heartbeats 16 ?d = (dead, d')" by (cases "audit_heartbeats 16 ?d")
  have "set dead = {i. \<exists>s. bt_get (cd_sessions ?d) i = Some s \<and> overdue s 16}"
    using audit_exact [OF r au] by blast
  also have "\<dots> = {''a''}" unfolding s by (auto simp: overdue_def split: if_splits)
  finally have "set dead = {''a''}" .
  moreover have d': "d' = ?d\<lparr>cd_state := (if dead = [] then cd_state ?d else Faulted)\<rparr>"
    using audit_exact [OF r au] by blast
  moreover from calculation have "cd_state d' = Faulted" unfolding d' by (cases dead) simp_all
  ultimately show ?thesis using au by (simp only: Let_def fst_conv snd_conv)
qed

text \<open>
  A fault is for ever, and nothing but an audit raises it.  From a faulted daemon every
  sequence of operations, new registrations and heartbeats included, leads to a faulted daemon; and a
  reachable daemon is in one of only three of the six declared states.
\<close>
theorem fault_is_permanent:
  assumes "daemon_reachable d"
  shows "(cd_state d = Faulted \<and> daemon_step\<^sup>*\<^sup>* d d' \<longrightarrow> cd_state d' = Faulted) \<and>
    cd_state d \<in> {Uninitialized, Connected, Faulted} \<and>
    (cd_state (daemon_apply op d) = Faulted \<longrightarrow>
       cd_state d = Faulted \<or> (\<exists>t. op = Audit t \<and> fst (audit_heartbeats t d) \<noteq> []))"
proof -
  have keep: "cd_state (daemon_apply op d) = Faulted" if "cd_state d = Faulted" for op d
    using that by (cases op) (auto simp: register_controller_def daemon_record_heartbeat_def
      update_queue_status_def audit_heartbeats_def Let_def split: option.splits sum.splits)
  have "cd_state d' = Faulted" if "daemon_step\<^sup>*\<^sup>* d d'" "cd_state d = Faulted"
    using that by (induction rule: rtranclp_induct) (auto elim!: daemon_stepE simp: keep)
  moreover have "cd_state d = Faulted \<or> (\<exists>t. op = Audit t \<and> fst (audit_heartbeats t d) \<noteq> [])"
    if "cd_state (daemon_apply op d) = Faulted"
    using that by (cases op) (auto simp: register_controller_def daemon_record_heartbeat_def
      update_queue_status_def audit_heartbeats_def Let_def split: option.splits sum.splits if_splits)
  ultimately show ?thesis using daemon_reachable_inv [OF assms] by (simp add: daemon_inv_def)
qed

theorem fault_is_permanent_witness:
  "cd_state (daemon_apply (Register ''b'' 9)
     (snd (audit_heartbeats 16 (daemon_apply (RecordHeartbeat ''a'' 10) (daemon_apply (Register ''a'' 5) daemon_new))))) = Faulted"
proof -
  let ?d = "daemon_apply (Audit 16)
    (daemon_apply (RecordHeartbeat ''a'' 10) (daemon_apply (Register ''a'' 5) daemon_new))"
  have r: "daemon_reachable ?d" by (intro daemon_reachable_apply daemon_reachable_new)
  have "cd_state ?d = Faulted"
    by (simp add: register_controller_def daemon_record_heartbeat_def Let_def daemon_new_def bt_empty_def
        controller_session_new_def session_record_heartbeat_def audit_heartbeats_def
        is_heartbeat_alive_def saturating_sub_def)
  moreover have "daemon_step\<^sup>*\<^sup>* ?d (daemon_apply (Register ''b'' 9) ?d)"
    by (rule r_into_rtranclp) (rule daemon_step_op)
  ultimately have "cd_state (daemon_apply (Register ''b'' 9) ?d) = Faulted"
    using fault_is_permanent [OF r, of "daemon_apply (Register ''b'' 9) ?d"] by blast
  then show ?thesis by simp
qed

text \<open>
  A controller that never sends anything is never found.  However long after its
  registration an audit runs, whatever its time-out and whatever happens to other controllers, a
  controller without a heartbeat or a status is not among the dead.
\<close>
theorem silent_controller_never_dead:
  assumes "daemon_reachable d"
    and "list_all (\<lambda>op. case op of Register j _ \<Rightarrow> True | RecordHeartbeat j _ \<Rightarrow> j \<noteq> i
           | UpdateStatus j _ _ \<Rightarrow> j \<noteq> i | Audit _ \<Rightarrow> True) ops"
  shows "i \<notin> set (fst (audit_heartbeats t (fold daemon_apply ops (register_controller i timeout d))))"
proof -
  let ?silent = "\<lambda>d. daemon_inv d \<and> (\<forall>s. bt_get (cd_sessions d) i = Some s \<longrightarrow> cn_last_seen_host_us s = 0)"
  have start: "?silent (register_controller i timeout d)"
    using daemon_inv_register [OF daemon_reachable_inv [OF assms(1)]] daemon_reachable_inv [OF assms(1)]
      apply_other [where d = d and op = "Register i timeout" and i = i]
    by (simp add: controller_session_new_def) (simp add: daemon_inv_def)
  have "?silent (fold daemon_apply ops d)" if "?silent d" for d
    using assms(2) that
  proof (induction ops arbitrary: d)
    case (Cons op ops)
    have "daemon_inv d" using Cons.prems by blast
    then have inv: "daemon_inv (daemon_apply op d)" "bt_inv (cd_sessions d)"
      by (rule daemon_inv_apply) (use \<open>daemon_inv d\<close> in \<open>simp add: daemon_inv_def\<close>)
    have "?silent (daemon_apply op d)"
      using Cons.prems inv apply_other [OF inv(2), where op = op and i = i]
      by (cases op) (auto simp del: daemon_apply.simps simp: controller_session_new_def split: if_splits)
    then show ?case using Cons by simp
  qed simp
  then have s: "?silent (fold daemon_apply ops (register_controller i timeout d))" using start by blast
  then have inv: "bt_inv (cd_sessions (fold daemon_apply ops (register_controller i timeout d)))"
    by (simp add: daemon_inv_def)
  have "\<not> overdue st t" if "(i, st) \<in> set (cd_sessions (fold daemon_apply ops (register_controller i timeout d)))" for st
    using s bt.get_iff [OF inv, THEN iffD2, OF that] unfolding overdue_def by fastforce
  then show ?thesis by (auto simp: audit_eq Let_def)
qed

theorem silent_controller_never_dead_witness:
  "''a'' \<notin> set (fst (audit_heartbeats (- 1)
     (fold daemon_apply [RecordHeartbeat ''b'' 7] (register_controller ''a'' 5 daemon_new))))"
  by (rule silent_controller_never_dead [OF daemon_reachable_new]) simp

text \<open>
  A queue status reaches the daemon only as an exact frame.  Undecodable bytes change
  nothing; an accepted frame sets the status and the time of the named controller, as its status
  report then shows, and touches no other controller; for an unknown name nothing is stored.
\<close>
theorem update_queue_status_exact:
  assumes "daemon_reachable d"
  shows "case update_queue_status i bytes t d of
      (Inl _, d') \<Rightarrow> d' = d \<and> (\<nexists>f :: QueueStatusFrame. bytes = frame_bytes QUEUE_STATUS_MESSAGE_TYPE (qf_sequence f) (status_layout (qf_status f)))
    | (Inr st, d') \<Rightarrow>
        (\<exists>seq. bytes = frame_bytes QUEUE_STATUS_MESSAGE_TYPE seq (status_layout st)) \<and>
        cd_state d' = cd_state d \<and>
        (\<forall>j. bt_get (cd_sessions d') j = (if j = i then map_option (\<lambda>s. s\<lparr>cn_last_seen_host_us := t,
             cn_last_status := Some st\<rparr>) (bt_get (cd_sessions d) i) else bt_get (cd_sessions d) j))"
proof (cases "decode_queue_status bytes")
  case (Inl e)
  then have "bytes \<noteq> frame_bytes QUEUE_STATUS_MESSAGE_TYPE (qf_sequence f) (status_layout (qf_status f))"
    for f :: QueueStatusFrame
    using qst.decode_iff [of bytes f] by simp
  then have "\<nexists>f :: QueueStatusFrame. bytes = frame_bytes QUEUE_STATUS_MESSAGE_TYPE (qf_sequence f) (status_layout (qf_status f))"
    by blast
  then show ?thesis using Inl by (simp add: update_queue_status_def decode_queue_status_frame_def)
next
  case (Inr f)
  have "bt_inv (cd_sessions d)" using daemon_reachable_inv [OF assms] by (simp add: daemon_inv_def)
  then show ?thesis
    using Inr qst.decode_iff [of bytes f]
    by (auto simp: update_queue_status_def decode_queue_status_frame_def Let_def bt_simps
        session_record_heartbeat_def split: option.splits)
qed

theorem update_queue_status_exact_witness: "snd (update_queue_status ''a'' [] 5 daemon_new) = daemon_new"
proof -
  have "\<exists>e. fst (update_queue_status ''a'' [] 5 daemon_new) = Inl e"
    by (simp add: update_queue_status_def decode_queue_status_frame_def decode_queue_status_def require_len_def)
  then show ?thesis
    using update_queue_status_exact [OF daemon_reachable_new, where i = "''a''" and bytes = "[]" and t = 5]
    by (cases "update_queue_status ''a'' [] 5 daemon_new") auto
qed

end
