(* ===== verification/Rust_Text.thy ===== *)
theory Rust_Text
  imports Prelude
begin

text \<open>
  The operations on \<^verbatim>\<open>str\<close> that the sources use, on the UTF-8 bytes of a string: white space as the
  standard library has it (the White_Space property of Unicode), \<^verbatim>\<open>trim\<close>, \<^verbatim>\<open>split_whitespace\<close>, \<^verbatim>\<open>lines\<close>,
  \<^verbatim>\<open>split_once\<close>, \<^verbatim>\<open>join\<close>, \<^verbatim>\<open>starts_with\<close> and the ASCII case mappings.
\<close>

section \<open>White space\<close>

text \<open>The length in bytes of a white-space character at the front of a string, 0 if there is none.\<close>

definition ws_len :: "string \<Rightarrow> nat" where
  "ws_len s =
     (case map of_char (take 3 s) :: nat list of
        [] \<Rightarrow> 0
      | a # bs \<Rightarrow>
          if 9 \<le> a \<and> a \<le> 13 \<or> a = 32 then 1
          else (case bs of
              [] \<Rightarrow> 0
            | b # cs \<Rightarrow>
                if a = 0xC2 \<and> (b = 0x85 \<or> b = 0xA0) then 2
                else (case cs of
                    [] \<Rightarrow> 0
                  | c # _ \<Rightarrow>
                      if a = 0xE1 \<and> b = 0x9A \<and> c = 0x80 \<or>
                         a = 0xE2 \<and> b = 0x80 \<and> (0x80 \<le> c \<and> c \<le> 0x8A \<or> c = 0xA8 \<or> c = 0xA9 \<or> c = 0xAF) \<or>
                         a = 0xE2 \<and> b = 0x81 \<and> c = 0x9F \<or> a = 0xE3 \<and> b = 0x80 \<and> c = 0x80
                      then 3 else 0)))"

lemma ws_len_le: "ws_len s \<le> length s"
proof -
  have "ws_len s \<le> length (take 3 s)"
    by (cases "take 3 s" rule: list.exhaust; cases "tl (take 3 s)"; cases "tl (tl (take 3 s))")
      (simp_all add: ws_len_def)
  then show ?thesis by simp
qed

lemma ws_len_Nil [simp]: "ws_len [] = 0"
  by (simp add: ws_len_def)

lemma ws_len_drop: "ws_len s \<noteq> 0 \<Longrightarrow> length (drop (ws_len s) s) < length s"
  using ws_len_le [of s] by (cases s) auto

function trim_start :: "string \<Rightarrow> string" where
  "trim_start s = (if ws_len s = 0 then s else trim_start (drop (ws_len s) s))"
  by auto
termination
  by (relation "measure length") (use ws_len_drop in auto)

declare trim_start.simps [simp del]

text \<open>The same from the end: a white-space character of one, two or three bytes.\<close>

definition ws_len_end :: "string \<Rightarrow> nat" where
  "ws_len_end s =
     (case List.find (\<lambda>n. n \<le> length s \<and> ws_len (drop (length s - n) s) = n) [1, 2, 3] of
        Some n \<Rightarrow> n | None \<Rightarrow> 0)"

lemma ws_len_end_le: "ws_len_end s \<le> length s"
  by (auto simp: ws_len_end_def split: if_splits)

function trim_end :: "string \<Rightarrow> string" where
  "trim_end s = (if ws_len_end s = 0 then s else trim_end (take (length s - ws_len_end s) s))"
  by auto
termination
proof (relation "measure length")
  show "wf (measure length)" by simp
  fix s :: string assume "ws_len_end s \<noteq> 0"
  then show "(take (length s - ws_len_end s) s, s) \<in> measure length"
    using ws_len_end_le [of s] by simp
qed

declare trim_end.simps [simp del]

definition trim :: "string \<Rightarrow> string" where
  "trim s = trim_end (trim_start s)"

lemma length_trim: "length (trim s) \<le> length s"
proof -
  have "length (trim_start s) \<le> length s" for s
    by (induction s rule: trim_start.induct) (subst trim_start.simps, force)
  moreover have "length (trim_end s) \<le> length s" for s
    by (induction s rule: trim_end.induct) (subst trim_end.simps, force)
  ultimately show ?thesis unfolding trim_def by (meson le_trans)
qed

text \<open>The words of a text; \<^verbatim>\<open>word\<close> is what the current one has so far.\<close>

function split_words :: "string \<Rightarrow> string \<Rightarrow> string list" where
  "split_words word s =
     (if s = [] then (if word = [] then [] else [word])
      else if ws_len s = 0 then split_words (word @ [hd s]) (tl s)
      else (if word = [] then [] else [word]) @ split_words [] (drop (ws_len s) s))"
  by auto
termination
  by (relation "measure (length \<circ> snd)") (use ws_len_drop in auto)

declare split_words.simps [simp del]

definition split_whitespace :: "string \<Rightarrow> string list" where
  "split_whitespace s = split_words [] s"

section \<open>Lines and parts\<close>

definition strip_cr :: "string \<Rightarrow> string" where
  "strip_cr s = (if s \<noteq> [] \<and> List.last s = CHR 0x0D then butlast s else s)"

fun split_lines :: "string \<Rightarrow> string \<Rightarrow> string list" where
  "split_lines line [] = (if line = [] then [] else [line])"
| "split_lines line (c # cs) =
     (if c = CHR 0x0A then strip_cr line # split_lines [] cs else split_lines (line @ [c]) cs)"

definition lines :: "string \<Rightarrow> string list" where
  "lines s = split_lines [] s"

text \<open>\<^verbatim>\<open>split_once\<close> and \<^verbatim>\<open>find\<close> for an ASCII character, which is a single byte.\<close>

fun split_once :: "char \<Rightarrow> string \<Rightarrow> (string \<times> string) option" where
  "split_once c [] = None"
| "split_once c (x # xs) =
     (if x = c then Some ([], xs)
      else map_option (\<lambda>(a, b). (x # a, b)) (split_once c xs))"

definition before :: "char \<Rightarrow> string \<Rightarrow> string" where
  "before c s = (case split_once c s of Some (a, _) \<Rightarrow> a | None \<Rightarrow> s)"

text \<open>Splitting at every separator, and at the first occurrence of a string.\<close>

fun split_at_char :: "char \<Rightarrow> string \<Rightarrow> string \<Rightarrow> string list" where
  "split_at_char c part [] = [part]"
| "split_at_char c part (x # xs) =
     (if x = c then part # split_at_char c [] xs else split_at_char c (part @ [x]) xs)"

definition split_char :: "char \<Rightarrow> string \<Rightarrow> string list" where
  "split_char c s = split_at_char c [] s"

fun split_once_str :: "string \<Rightarrow> string \<Rightarrow> (string \<times> string) option" where
  "split_once_str p [] = (if p = [] then Some ([], []) else None)"
| "split_once_str p (x # xs) =
     (if take (length p) (x # xs) = p then Some ([], drop (length p) (x # xs))
      else map_option (\<lambda>(a, b). (x # a, b)) (split_once_str p xs))"

fun join :: "string \<Rightarrow> string list \<Rightarrow> string" where
  "join sep [] = []"
| "join sep [s] = s"
| "join sep (s # t # ss) = s @ sep @ join sep (t # ss)"

definition starts_with :: "string \<Rightarrow> string \<Rightarrow> bool" where
  "starts_with s p \<longleftrightarrow> take (length p) s = p"

definition ends_with :: "string \<Rightarrow> string \<Rightarrow> bool" where
  "ends_with s p \<longleftrightarrow> length p \<le> length s \<and> drop (length s - length p) s = p"

definition is_digit :: "char \<Rightarrow> bool" where
  "is_digit c \<longleftrightarrow> 48 \<le> (of_char c :: nat) \<and> (of_char c :: nat) \<le> 57"

text \<open>The number a string of digits denotes.\<close>

definition dec_value :: "string \<Rightarrow> nat" where
  "dec_value s = foldl (\<lambda>n c. 10 * n + (of_char c - 48)) 0 s"

definition is_lower :: "char \<Rightarrow> bool" where
  "is_lower c \<longleftrightarrow> 97 \<le> (of_char c :: nat) \<and> (of_char c :: nat) \<le> 122"

definition is_upper :: "char \<Rightarrow> bool" where
  "is_upper c \<longleftrightarrow> 65 \<le> (of_char c :: nat) \<and> (of_char c :: nat) \<le> 90"

definition ascii_upper :: "char \<Rightarrow> char" where
  "ascii_upper c = (if is_lower c then char_of (of_char c - 32 :: nat) else c)"

definition ascii_lower :: "char \<Rightarrow> char" where
  "ascii_lower c = (if is_upper c then char_of (of_char c + 32 :: nat) else c)"

text \<open>How many bytes the character at the front of a string has.\<close>

definition char_len :: "string \<Rightarrow> nat" where
  "char_len s =
     (case s of [] \<Rightarrow> 0
      | c # _ \<Rightarrow>
          if (of_char c :: nat) < 0x80 then 1
          else if (of_char c :: nat) < 0xE0 then 2
          else if (of_char c :: nat) < 0xF0 then 3 else 4)"

text \<open>A string in quotation marks, as the messages print it.\<close>

definition quoted :: "string \<Rightarrow> string" where
  "quoted s = [CHR 0x27] @ s @ [CHR 0x27]"

lemma split_once_Some_iff:
  "split_once c s = Some (a, b) \<longleftrightarrow> s = a @ c # b \<and> c \<notin> set a"
proof (induction s arbitrary: a)
  case (Cons x xs)
  then show ?case by (cases a) (auto simp: Cons.IH)
qed simp

lemma split_once_append [simp]: "c \<notin> set a \<Longrightarrow> split_once c (a @ c # b) = Some (a, b)"
  by (simp add: split_once_Some_iff)

end
