(* ===== verification/Framing.thy ===== *)
theory Framing
  imports Daemon Rust_Text
begin

text \<open>
  \<^verbatim>\<open>crates/transport-adapter/src/lib.rs\<close>: the frame codec that cuts a byte stream into frames and
  recovers from noise, the in-memory and channel transports, and the stream reader that feeds the
  codec from a transport and dispatches the frames, queue statuses into the daemon.  The trait
  \<^verbatim>\<open>StreamTransport\<close> is a read function acting on a transport state.  One round of the codec's loop
  is \<^verbatim>\<open>codec_step\<close>; every round that goes on shortens the buffer, which is why the loop ends.
\<close>

section \<open>The codec\<close>

definition adapter_crc32c :: "u8 list \<Rightarrow> u32" where
  "adapter_crc32c bytes =
     NOT (foldl (\<lambda>crc b. ((\<lambda>c. let mask = 0 - (c AND 1) in drop_bit 1 c XOR (0x82f63b78 AND mask)) ^^ 8)
                          (crc XOR ucast b))
            (NOT 0) bytes)"

lemma adapter_crc32c_eq: "adapter_crc32c bytes = crc32c bytes"
proof -
  have step: "(\<lambda>c. let mask = 0 - (c AND 1) in drop_bit 1 c XOR (0x82f63b78 AND mask)) = crc_bit"
    by (rule ext) (simp add: crc_bit_def crc_poly_def Let_def)
  show ?thesis
    unfolding adapter_crc32c_def step
    by (simp add: crc32c_def crc_run_def crc_byte_def foldl_conv_fold)
qed

datatype FrameCodecError = BufferOverflow nat

definition DEFAULT_CODEC_CAPACITY :: nat where "DEFAULT_CODEC_CAPACITY = 4096"

record FrameCodec =
  fc_buffer :: "u8 list"
  fc_max_capacity :: nat

definition codec_with_capacity :: "nat \<Rightarrow> FrameCodec" where
  "codec_with_capacity max_capacity = \<lparr>fc_buffer = [], fc_max_capacity = max_capacity\<rparr>"

definition codec_new :: FrameCodec where
  "codec_new = codec_with_capacity DEFAULT_CODEC_CAPACITY"

definition buffered_len :: "FrameCodec \<Rightarrow> nat" where
  "buffered_len self = length (fc_buffer self)"

definition codec_clear :: "FrameCodec \<Rightarrow> FrameCodec" where
  "codec_clear self = self\<lparr>fc_buffer := []\<rparr>"

definition feed :: "u8 list \<Rightarrow> (FrameCodec, FrameCodecError, unit) st" where
  "feed bytes self =
     (if length (fc_buffer self) + length bytes > fc_max_capacity self
      then (Inl (BufferOverflow (fc_max_capacity self)), self)
      else (Inr (), self\<lparr>fc_buffer := fc_buffer self @ bytes\<rparr>))"

text \<open>\<^verbatim>\<open>buffer.windows(2).position(|win| win == MAGIC)\<close>\<close>

fun magic_pos :: "u8 list \<Rightarrow> nat option" where
  "magic_pos (a # b # xs) =
     (if [a, b] = MAGIC then Some 0 else map_option Suc (magic_pos (b # xs)))"
| "magic_pos _ = None"

datatype codec_move =
    Wait "u8 list" \<comment> \<open>return \<open>None\<close> and keep this buffer\<close>
  | Skip "u8 list" \<comment> \<open>go on with this buffer\<close>
  | Emit "u8 list" "u8 list" \<comment> \<open>return this frame and keep this buffer\<close>

definition keep_last_d :: "u8 list \<Rightarrow> u8 list" where
  "keep_last_d buffer = (if buffer \<noteq> [] \<and> last buffer = 0x44 then [last buffer] else [])"

definition codec_step :: "u8 list \<Rightarrow> codec_move" where
  "codec_step buffer =
     (case magic_pos buffer of
        None \<Rightarrow> Wait (keep_last_d buffer)
      | Some pos \<Rightarrow>
          if pos > 0 then Skip (drop pos buffer)
          else if length buffer < HEADER_LEN then Wait buffer
          else
            let version = buffer ! 2; msg_type = buffer ! 3;
                payload_len = unat (of_le_bytes [buffer ! 8, buffer ! 9] :: u16);
                valid_header = (version = PROTOCOL_VERSION \<and> 1 \<le> msg_type \<and> msg_type \<le> 4 \<and>
                                payload_len \<le> MAX_PAYLOAD_LEN) in
            if \<not> valid_header then Skip (drop 1 buffer)
            else
              let frame_len = HEADER_LEN + payload_len + 4 in
              if frame_len > MAX_FRAME_LEN then Skip (drop 1 buffer)
              else if length buffer < frame_len then Wait buffer
              else
                let payload_end = HEADER_LEN + payload_len;
                    encoded_checksum = of_le_bytes [buffer ! payload_end, buffer ! (payload_end + 1),
                      buffer ! (payload_end + 2), buffer ! (payload_end + 3)];
                    computed_checksum = adapter_crc32c (drop 2 (take payload_end buffer)) in
                if encoded_checksum \<noteq> computed_checksum then Skip (drop 1 buffer)
                else Emit (take frame_len buffer) (drop frame_len buffer))"

lemma magic_pos_Some:
  "magic_pos xs = Some n \<Longrightarrow>
     n + 2 \<le> length xs \<and> take 2 (drop n xs) = MAGIC \<and> magic_pos (drop n xs) = Some 0"
  by (induction xs arbitrary: n rule: magic_pos.induct) (auto split: if_splits)

lemma codec_step_shorter:
  "codec_step b = Skip b' \<Longrightarrow> length b' < length b"
  "codec_step b = Emit f b' \<Longrightarrow> length b' < length b \<and> b = f @ b'"
  "codec_step b = Wait b' \<Longrightarrow> length b' \<le> length b"
  using magic_pos_Some [of b]
  by (auto simp: codec_step_def keep_last_d_def Let_def Suc_le_eq split: option.splits if_splits)

function next_frame_buffer :: "u8 list \<Rightarrow> u8 list option \<times> u8 list" where
  "next_frame_buffer buffer =
     (case codec_step buffer of
        Wait b \<Rightarrow> (None, b)
      | Skip b \<Rightarrow> next_frame_buffer b
      | Emit frame b \<Rightarrow> (Some frame, b))"
  by auto
termination
  by (relation "measure length") (auto dest: codec_step_shorter)

declare next_frame_buffer.simps [simp del]

definition next_frame :: "(FrameCodec, FrameCodecError, u8 list option) st" where
  "next_frame self =
     (case next_frame_buffer (fc_buffer self) of
        (r, b) \<Rightarrow> (Inr r, self\<lparr>fc_buffer := b\<rparr>))"

section \<open>One round on a longer buffer\<close>

lemma magic_pos_append: "magic_pos xs = Some n \<Longrightarrow> magic_pos (xs @ ys) = Some n"
proof (induction xs arbitrary: n rule: magic_pos.induct)
  case (1 a b xs)
  then show ?case by (cases "[a, b] = MAGIC") auto
qed auto

definition header_len :: "u8 list \<Rightarrow> nat" where
  "header_len buffer = unat (of_le_bytes [buffer ! 8, buffer ! 9] :: u16)"

definition header_valid :: "u8 list \<Rightarrow> bool" where
  "header_valid buffer \<longleftrightarrow> buffer ! 2 = PROTOCOL_VERSION \<and> 1 \<le> buffer ! 3 \<and> buffer ! 3 \<le> 4 \<and>
     header_len buffer \<le> MAX_PAYLOAD_LEN"

definition checksum_ok :: "u8 list \<Rightarrow> bool" where
  "checksum_ok buffer \<longleftrightarrow> (let n = header_len buffer in
     (of_le_bytes [buffer ! (10 + n), buffer ! (10 + n + 1), buffer ! (10 + n + 2), buffer ! (10 + n + 3)] :: u32) =
     crc32c (drop 2 (take (10 + n) buffer)))"

text \<open>The round as a decision tree over three tests; the second length test of the source never fires.\<close>

lemma codec_step_tree:
  "codec_step buffer =
     (case magic_pos buffer of
        None \<Rightarrow> Wait (keep_last_d buffer)
      | Some pos \<Rightarrow>
          if pos > 0 then Skip (drop pos buffer)
          else if length buffer < 10 then Wait buffer
          else if \<not> header_valid buffer then Skip (drop 1 buffer)
          else if length buffer < header_len buffer + 14 then Wait buffer
          else if \<not> checksum_ok buffer then Skip (drop 1 buffer)
          else Emit (take (header_len buffer + 14) buffer) (drop (header_len buffer + 14) buffer))"
  by (simp add: codec_step_def header_valid_def header_len_def checksum_ok_def adapter_crc32c_eq Let_def
      add.commute [of 14] cong: if_cong option.case_cong)

lemma header_append:
  assumes "10 \<le> length a"
  shows "header_len (a @ c) = header_len a" "header_valid (a @ c) = header_valid a"
proof -
  have "(a @ c) ! k = a ! k" if "k < 10" for k using assms that by (simp add: nth_append)
  then show "header_len (a @ c) = header_len a" by (simp add: header_len_def)
  then show "header_valid (a @ c) = header_valid a"
    using \<open>\<And>k. k < 10 \<Longrightarrow> (a @ c) ! k = a ! k\<close> by (simp add: header_valid_def)
qed

lemma checksum_append:
  assumes "header_len a + 14 \<le> length a"
  shows "checksum_ok (a @ c) = checksum_ok a"
proof -
  have "10 \<le> length a" using assms by simp
  moreover have "(a @ c) ! k = a ! k" if "k < header_len a + 14" for k
    using assms that by (simp add: nth_append)
  moreover have "take (10 + header_len a) (a @ c) = take (10 + header_len a) a"
    using assms by simp
  ultimately show ?thesis
    by (simp add: checksum_ok_def header_append Let_def del: take_append of_le_bytes.simps)
qed

lemma codec_step_append:
  assumes "\<forall>b. codec_step a \<noteq> Wait b"
  shows "codec_step (a @ c) =
    (case codec_step a of Skip b \<Rightarrow> Skip (b @ c) | Emit f b \<Rightarrow> Emit f (b @ c))"
proof (cases "magic_pos a")
  case None
  then show ?thesis using assms by (simp add: codec_step_tree)
next
  case (Some pos)
  note more = magic_pos_append [OF Some, of c] magic_pos_Some [OF Some]
  show ?thesis
  proof (cases "pos > 0")
    case True
    then show ?thesis using Some more by (simp add: codec_step_tree)
  next
    case False
    then have len: "10 \<le> length a" using assms Some by (auto simp: codec_step_tree split: if_splits)
    then show ?thesis
      using assms Some more False
      by (auto simp: codec_step_tree header_append checksum_append split: if_splits)
  qed
qed

lemma magic_pos_not_d: "v \<noteq> 0x44 \<Longrightarrow> magic_pos (v # c) = map_option Suc (magic_pos c)"
  by (cases c) auto

lemma magic_pos_None_append:
  assumes "magic_pos a = None"
  shows "magic_pos (a @ c) =
    map_option (\<lambda>n. n + (length a - length (keep_last_d a))) (magic_pos (keep_last_d a @ c))"
  using assms
proof (induction a rule: magic_pos.induct)
  case (1 x y xs)
  have keep: "keep_last_d (x # y # xs) = keep_last_d (y # xs)" by (simp add: keep_last_d_def)
  have len: "length (keep_last_d (y # xs)) \<le> length (y # xs)" by (simp add: keep_last_d_def)
  have no: "[x, y] \<noteq> MAGIC" "magic_pos (y # xs) = None" using 1(2) by (auto split: if_splits)
  have "magic_pos ((x # y # xs) @ c) = map_option Suc (magic_pos ((y # xs) @ c))"
    using no(1) by (simp only: append_Cons magic_pos.simps if_False)
  also have "\<dots> = map_option (\<lambda>n. n + (length (x # y # xs) - length (keep_last_d (y # xs))))
      (magic_pos (keep_last_d (y # xs) @ c))"
    unfolding 1(1) [OF no] using len
    by (simp add: option.map_comp comp_def Suc_diff_le cong: option.map_cong)
  finally show ?case unfolding keep .
qed (auto simp: keep_last_d_def option.map_ident neq_Nil_conv magic_pos_not_d)

section \<open>Draining the buffer\<close>

text \<open>All frames that can be taken now, and the buffer that is then left: next\_frame until it gives none.\<close>

function drain :: "u8 list \<Rightarrow> u8 list list \<times> u8 list" where
  "drain buffer =
     (case next_frame_buffer buffer of
        (None, b) \<Rightarrow> ([], b)
      | (Some f, b) \<Rightarrow> (case drain b of (fs, b') \<Rightarrow> (f # fs, b')))"
  by auto

lemma next_frame_buffer_shorter:
  "next_frame_buffer buffer = (Some f, b) \<Longrightarrow> length b < length buffer"
proof (induction buffer rule: next_frame_buffer.induct)
  case (1 buffer)
  note eq = next_frame_buffer.simps [of buffer]
  show ?case
  proof (cases "codec_step buffer")
    case (Wait b')
    then show ?thesis using 1(2) eq by simp
  next
    case (Skip b')
    then show ?thesis using 1 eq codec_step_shorter(1) [OF Skip] by fastforce
  next
    case (Emit f' b')
    then show ?thesis using 1(2) eq codec_step_shorter(2) [OF Emit] by auto
  qed
qed

termination drain
  by (relation "measure length") (auto dest: next_frame_buffer_shorter [OF sym])

declare drain.simps [simp del]

lemma drain_step:
  "drain buffer =
     (case codec_step buffer of
        Wait b \<Rightarrow> ([], b)
      | Skip b \<Rightarrow> drain b
      | Emit f b \<Rightarrow> (case drain b of (fs, b') \<Rightarrow> (f # fs, b')))"
  by (cases "codec_step buffer")
    (simp_all add: drain.simps [of buffer] next_frame_buffer.simps [of buffer], simp add: drain.simps)

lemma keep_last_d_idem: "keep_last_d (keep_last_d a) = keep_last_d a"
  by (simp add: keep_last_d_def)

lemma keep_last_d_append: "keep_last_d (keep_last_d a @ c) = keep_last_d (a @ c)"
  by (simp add: keep_last_d_def)

lemma drop_keep_last_d: "drop (length a - length (keep_last_d a)) a = keep_last_d a"
  by (cases a rule: rev_cases) (simp_all add: keep_last_d_def)

lemma length_keep_last_d: "length (keep_last_d a) \<le> length a"
  by (cases a) (simp_all add: keep_last_d_def)

lemma drain_skip: "magic_pos b = Some n \<Longrightarrow> drain b = drain (drop n b)"
  by (cases "n = 0") (simp, subst drain_step, simp add: codec_step_tree)

lemma drain_noise:
  assumes "magic_pos a = None"
  shows "drain (a @ c) = drain (keep_last_d a @ c)"
proof -
  let ?k = "length a - length (keep_last_d a)"
  note eq = magic_pos_None_append [OF assms, of c]
  show ?thesis
  proof (cases "magic_pos (keep_last_d a @ c)")
    case None
    then show ?thesis using eq
      by (simp add: drain_step [of "a @ c"] drain_step [of "keep_last_d a @ c"] codec_step_tree keep_last_d_append)
  next
    case (Some n)
    then have big: "magic_pos (a @ c) = Some (n + ?k)" using eq by simp
    have "drop ?k (a @ c) = keep_last_d a @ c" by (simp add: drop_keep_last_d)
    then have same: "drop (n + ?k) (a @ c) = drop n (keep_last_d a @ c)"
      by (metis drop_drop add.commute)
    then show ?thesis using drain_skip [OF big] drain_skip [OF Some] by (simp del: drop_append)
  qed
qed

text \<open>Draining early changes nothing: the frames and what is left do not depend on when data arrived.\<close>

lemma drain_append:
  "drain (a @ c) = (case drain a of (fs, b) \<Rightarrow> case drain (b @ c) of (gs, d) \<Rightarrow> (fs @ gs, d))"
proof (induction "length a" arbitrary: a rule: less_induct)
  case less
  show ?case
  proof (cases "codec_step a")
    case (Wait b)
    then have a: "drain a = ([], b)" by (simp add: drain_step)
    have "drain (a @ c) = drain (b @ c)"
      using Wait drain_noise [of a c] by (auto simp: codec_step_tree split: option.splits if_splits)
    then show ?thesis by (simp add: a split: prod.split)
  next
    case (Skip b)
    then have "drain a = drain b" by (simp add: drain_step)
    moreover have "drain (a @ c) = drain (b @ c)"
      using codec_step_append [of a c] Skip by (simp add: drain_step [of "a @ c"])
    moreover have "length b < length a" using codec_step_shorter(1) [OF Skip] .
    ultimately show ?thesis using less [of b] by simp
  next
    case (Emit f b)
    then have "drain a = (case drain b of (fs, b') \<Rightarrow> (f # fs, b'))" by (simp add: drain_step)
    moreover have "drain (a @ c) = (case drain (b @ c) of (fs, b') \<Rightarrow> (f # fs, b'))"
      using codec_step_append [of a c] Emit by (simp add: drain_step [of "a @ c"])
    moreover have "length b < length a" using codec_step_shorter(2) [OF Emit] by blast
    ultimately show ?thesis using less [of b] by (simp split: prod.split)
  qed
qed

section \<open>Candidates are frames\<close>

lemma magic_pos_zero: "magic_pos f = Some 0 \<longleftrightarrow> 2 \<le> length f \<and> [f ! 0, f ! 1] = MAGIC"
  by (cases f rule: magic_pos.cases) auto

lemma open_frame_codec:
  "is_ok (open_frame mt f) \<longleftrightarrow>
     magic_pos f = Some 0 \<and> 10 \<le> length f \<and> f ! 2 = 1 \<and> f ! 3 = mt \<and> header_len f \<le> 128 \<and>
     length f = header_len f + 14 \<and> checksum_ok f"
proof -
  have drop4: "drop (10 + n) f = [f ! (10 + n), f ! (10 + n + 1), f ! (10 + n + 2), f ! (10 + n + 3)]"
    if "length f = n + 14" for n
    using that by (intro nth_equalityI) (auto simp: nth_Cons' numeral_eq_Suc less_Suc_eq)
  show ?thesis
  proof (cases "length f = header_len f + 14")
    case True
    then show ?thesis
      using drop4 [OF True]
      by (auto simp: open_frame_def and_then_require Let_def magic_pos_zero header_len_def [symmetric]
          checksum_ok_def simp del: of_le_bytes.simps)
  next
    case False
    then show ?thesis
      by (auto simp: open_frame_def and_then_require Let_def header_len_def [symmetric]
          simp del: of_le_bytes.simps)
  qed
qed

definition a_frame :: "u8 list \<Rightarrow> bool" where
  "a_frame f \<longleftrightarrow> (\<exists>mt seq p. 1 \<le> mt \<and> mt \<le> 4 \<and> length p \<le> MAX_PAYLOAD_LEN \<and> f = frame_bytes mt seq p)"

lemma a_frame_iff:
  "a_frame f \<longleftrightarrow>
     magic_pos f = Some 0 \<and> 10 \<le> length f \<and> header_valid f \<and> length f = header_len f + 14 \<and> checksum_ok f"
proof -
  have "a_frame f \<longleftrightarrow> (\<exists>mt. 1 \<le> mt \<and> mt \<le> 4 \<and> is_ok (open_frame mt f))"
    unfolding a_frame_def is_ok_iff by (auto simp: open_frame_iff)
  then show ?thesis by (auto simp: open_frame_codec header_valid_def)
qed

lemma a_frame_length: "a_frame f \<Longrightarrow> 14 \<le> length f \<and> length f \<le> MAX_FRAME_LEN"
  by (auto simp: a_frame_def)

lemma codec_step_frame: "a_frame f \<Longrightarrow> codec_step (f @ rest) = Emit f rest"
  using codec_step_append [of f rest]
  by (simp add: a_frame_iff) (simp add: codec_step_tree)

lemma codec_step_emits_frame:
  assumes "codec_step buffer = Emit f b"
  shows "a_frame f"
proof -
  let ?n = "header_len buffer"
  have s: "magic_pos buffer = Some 0" "10 \<le> length buffer" "header_valid buffer" "?n + 14 \<le> length buffer"
    "checksum_ok buffer" "f = take (?n + 14) buffer"
    using assms by (auto simp: codec_step_tree not_less split: option.splits if_splits)
  have f: "buffer = f @ drop (?n + 14) buffer" "10 \<le> length f" "length f = ?n + 14"
    using s(4,6) by simp_all
  then have "header_len f = ?n" "header_valid f"
    using header_append [OF f(2), of "drop (?n + 14) buffer"] s(3) by auto
  moreover have "checksum_ok f"
    using checksum_append [of f "drop (?n + 14) buffer"] f s(5) \<open>header_len f = ?n\<close> by auto
  moreover have "magic_pos f = Some 0"
    using s(1,6) f(2) by (auto simp: magic_pos_zero)
  ultimately show ?thesis using f by (simp add: a_frame_iff)
qed

lemma drain_frame: "a_frame f \<Longrightarrow> drain (f @ rest) = (case drain rest of (fs, b) \<Rightarrow> (f # fs, b))"
  by (simp add: drain_step codec_step_frame)

lemma drain_frames:
  "list_all a_frame fs \<Longrightarrow> drain (concat fs @ rest) = (case drain rest of (gs, b) \<Rightarrow> (fs @ gs, b))"
  by (induction fs) (simp_all add: drain_frame split: prod.split)

lemma codec_step_waits:
  assumes "codec_step buffer = Wait b"
  shows "length b < MAX_FRAME_LEN \<and> codec_step b = Wait b"
proof (cases "magic_pos buffer")
  case None
  then have "b = keep_last_d buffer" using assms by (simp add: codec_step_tree)
  then show ?thesis by (simp add: codec_step_tree keep_last_d_def)
next
  case (Some n)
  then have "b = buffer" "length b < 10 \<or> header_valid b \<and> length b < header_len b + 14"
    using assms by (auto simp: codec_step_tree split: if_splits)
  then show ?thesis using assms by (auto simp: header_valid_def)
qed

lemma drain_result:
  "drain buffer = (fs, b) \<Longrightarrow>
     list_all a_frame fs \<and> length b < MAX_FRAME_LEN \<and> drain b = ([], b) \<and>
     (\<exists>noise. length noise = length fs + 1 \<and>
        buffer = concat (map2 (\<lambda>n f. n @ f) noise fs) @ last noise @ b)"
proof (induction "length buffer" arbitrary: buffer fs rule: less_induct)
  case less
  show ?case
  proof (cases "codec_step buffer")
    case (Wait b')
    then have b: "fs = []" "b' = b" using less.prems by (auto simp: drain_step)
    have "\<exists>n. buffer = n @ b"
    proof (cases "magic_pos buffer")
      case None
      then have "b = keep_last_d buffer" using Wait b by (simp add: codec_step_tree)
      then show ?thesis by (metis append_take_drop_id drop_keep_last_d)
    next
      case (Some n)
      then show ?thesis using Wait b by (auto simp: codec_step_tree split: if_splits)
    qed
    then obtain n where n: "buffer = n @ b" by blast
    show ?thesis
      using codec_step_waits [OF Wait] n unfolding b
      by (auto simp: drain_step [of b] intro: exI [of _ "[n]"])
  next
    case (Skip b')
    then have d: "drain b' = (fs, b)" using less.prems by (simp add: drain_step)
    obtain n where n: "buffer = n @ b'"
      using Skip by (auto simp: codec_step_tree split: option.splits if_splits)
        (metis append_take_drop_id)+
    obtain noise where "length noise = length fs + 1"
      "b' = concat (map2 (\<lambda>n f. n @ f) noise fs) @ last noise @ b" and
      r: "list_all a_frame fs" "length b < MAX_FRAME_LEN" "drain b = ([], b)"
      using less.hyps [OF codec_step_shorter(1) [OF Skip] d] by blast
    then have "length ((n @ hd noise) # tl noise) = length fs + 1 \<and>
        buffer = concat (map2 (\<lambda>n f. n @ f) ((n @ hd noise) # tl noise) fs) @ last ((n @ hd noise) # tl noise) @ b"
      using n by (cases noise; cases fs) auto
    then show ?thesis using r by blast
  next
    case (Emit f b')
    then obtain gs where d: "drain b' = (gs, b)" "fs = f # gs"
      using less.prems by (auto simp: drain_step split: prod.splits)
    have sh: "length b' < length buffer" "buffer = f @ b'" using codec_step_shorter(2) [OF Emit] by auto
    obtain noise where "length noise = length gs + 1"
      "b' = concat (map2 (\<lambda>n f. n @ f) noise gs) @ last noise @ b" and
      r: "list_all a_frame gs" "length b < MAX_FRAME_LEN" "drain b = ([], b)"
      using less.hyps [OF sh(1) d(1)] by blast
    then have "length ([] # noise) = length fs + 1 \<and>
        buffer = concat (map2 (\<lambda>n f. n @ f) ([] # noise) fs) @ last ([] # noise) @ b"
      using sh d by auto
    moreover have "list_all a_frame fs" using r d codec_step_emits_frame [OF Emit] by simp
    ultimately show ?thesis using r by blast
  qed
qed

section \<open>Transports\<close>

datatype MemoryTransportError = MemoryClosed

text \<open>
  A connected pair of memory endpoints shares two queues; endpoint A reads the first and writes the
  second, endpoint B the other way round.
\<close>

record MemoryLink =
  ml_q1 :: "u8 list"
  ml_q2 :: "u8 list"

datatype Side = SideA | SideB

definition memory_pair :: MemoryLink where "memory_pair = \<lparr>ml_q1 = [], ml_q2 = []\<rparr>"

definition incoming :: "Side \<Rightarrow> MemoryLink \<Rightarrow> u8 list" where
  "incoming side l = (case side of SideA \<Rightarrow> ml_q1 l | SideB \<Rightarrow> ml_q2 l)"

definition outgoing :: "Side \<Rightarrow> MemoryLink \<Rightarrow> u8 list" where
  "outgoing side l = (case side of SideA \<Rightarrow> ml_q2 l | SideB \<Rightarrow> ml_q1 l)"

definition set_incoming :: "Side \<Rightarrow> u8 list \<Rightarrow> MemoryLink \<Rightarrow> MemoryLink" where
  "set_incoming side q l = (case side of SideA \<Rightarrow> l\<lparr>ml_q1 := q\<rparr> | SideB \<Rightarrow> l\<lparr>ml_q2 := q\<rparr>)"

definition set_outgoing :: "Side \<Rightarrow> u8 list \<Rightarrow> MemoryLink \<Rightarrow> MemoryLink" where
  "set_outgoing side q l = (case side of SideA \<Rightarrow> l\<lparr>ml_q2 := q\<rparr> | SideB \<Rightarrow> l\<lparr>ml_q1 := q\<rparr>)"

definition memory_inject_incoming :: "Side \<Rightarrow> u8 list \<Rightarrow> MemoryLink \<Rightarrow> MemoryLink" where
  "memory_inject_incoming side bytes l = set_incoming side (incoming side l @ bytes) l"

definition memory_take_outgoing :: "Side \<Rightarrow> MemoryLink \<Rightarrow> u8 list \<times> MemoryLink" where
  "memory_take_outgoing side l = (outgoing side l, set_outgoing side [] l)"

definition memory_write_bytes :: "Side \<Rightarrow> u8 list \<Rightarrow> (MemoryLink, MemoryTransportError, unit) st" where
  "memory_write_bytes side bytes l = (Inr (), set_outgoing side (outgoing side l @ bytes) l)"

text \<open>Reads fill the front of the caller's buffer and report how much.\<close>

definition memory_read_bytes ::
  "Side \<Rightarrow> u8 list \<Rightarrow> MemoryLink \<Rightarrow> (MemoryTransportError + nat) \<times> u8 list \<times> MemoryLink" where
  "memory_read_bytes side buf l =
     (let inc = incoming side l; count = min (length buf) (length inc) in
      (Inr count, take count inc @ drop count buf, set_incoming side (drop count inc) l))"

definition memory_send_frame :: "Side \<Rightarrow> (MemoryLink, MemoryTransportError) frame_sink" where
  "memory_send_frame side frame l = memory_write_bytes side frame l"

datatype ChannelTransportError = SendFailed | ChannelDisconnected

text \<open>
  One direction of a channel pair: the chunks under way, the bytes of a chunk read in part, and
  whether each end still exists.
\<close>

record Channel =
  ch_chunks :: "u8 list list"
  ch_read_buf :: "u8 list"
  ch_sender_alive :: bool
  ch_receiver_alive :: bool

definition channel_new :: Channel where
  "channel_new = \<lparr>ch_chunks = [], ch_read_buf = [], ch_sender_alive = True, ch_receiver_alive = True\<rparr>"

definition channel_write_bytes :: "u8 list \<Rightarrow> (Channel, ChannelTransportError, unit) st" where
  "channel_write_bytes bytes c =
     (if ch_receiver_alive c then (Inr (), c\<lparr>ch_chunks := ch_chunks c @ [bytes]\<rparr>)
      else (Inl SendFailed, c))"

definition channel_read_bytes ::
  "u8 list \<Rightarrow> Channel \<Rightarrow> (ChannelTransportError + nat) \<times> u8 list \<times> Channel" where
  "channel_read_bytes buf c =
     (case
        (if ch_read_buf c = [] then
           (case ch_chunks c of
              chunk # rest \<Rightarrow> Inr (Some (c\<lparr>ch_read_buf := ch_read_buf c @ chunk, ch_chunks := rest\<rparr>))
            | [] \<Rightarrow> if ch_sender_alive c then Inr None else Inl ChannelDisconnected)
         else Inr (Some c))
      of
        Inl e \<Rightarrow> (Inl e, buf, c)
      | Inr None \<Rightarrow> (Inr 0, buf, c)
      | Inr (Some c1) \<Rightarrow>
          let count = min (length buf) (length (ch_read_buf c1)) in
          (Inr count, take count (ch_read_buf c1) @ drop count buf,
           c1\<lparr>ch_read_buf := drop count (ch_read_buf c1)\<rparr>))"

datatype FlowControl = FlowNone | Software | Hardware

record SerialTransportSpec =
  sp_port_path :: string
  sp_baud_rate :: u32
  sp_flow_control :: FlowControl

definition serial_validate :: "SerialTransportSpec \<Rightarrow> string + unit" where
  "serial_validate self =
     (if trim (sp_port_path self) = [] then Inl ''port_path cannot be empty''
      else if sp_baud_rate self = 0 then Inl ''baud_rate must be greater than zero''
      else Inr ())"

section \<open>The stream reader\<close>

datatype DispatchedFrame =
    DispQueueStatus QueueStatusFrame
  | DispClockRequest ClockRequestFrame
  | DispClockResponse ClockResponseFrame
  | DispCommand CommandFrame
  | DispRaw u8 "u8 list"

datatype 'e TransportAdapterError =
    AdapterTransport 'e
  | AdapterCodec FrameCodecError
  | AdapterDecode DecodeError
  | AdapterDaemonUpdate DecodeError

record TransportStreamReader =
  tr_codec :: FrameCodec
  tr_read_buf :: "u8 list"

definition reader_with_codec :: "FrameCodec \<Rightarrow> TransportStreamReader" where
  "reader_with_codec codec = \<lparr>tr_codec = codec, tr_read_buf = replicate (MAX_FRAME_LEN * 4) 0\<rparr>"

definition stream_reader_new :: TransportStreamReader where
  "stream_reader_new = reader_with_codec codec_new"

definition dispatch_frame ::
  "u8 list \<Rightarrow> string \<Rightarrow> u64 \<Rightarrow> (ControllerDaemon, 'e TransportAdapterError, DispatchedFrame) st"
where
  "dispatch_frame raw controller_id current_host_us daemon =
     (if length raw < HEADER_LEN
      then (Inl (AdapterDecode (Truncated HEADER_LEN (length raw))), daemon)
      else
        let msg_type = raw ! 3 in
        if msg_type = QUEUE_STATUS_MESSAGE_TYPE then
          (case update_queue_status controller_id raw current_host_us daemon of
             (Inl e, daemon1) \<Rightarrow> (Inl (AdapterDaemonUpdate e), daemon1)
           | (Inr _, daemon1) \<Rightarrow>
               (map_err AdapterDecode (and_then (decode_queue_status_frame raw)
                  (\<lambda>f. Inr (DispQueueStatus f))), daemon1))
        else if msg_type = CLOCK_RESPONSE_MESSAGE_TYPE then
          (map_err AdapterDecode (and_then (decode_clock_response_frame raw)
             (\<lambda>f. Inr (DispClockResponse f))), daemon)
        else if msg_type = CLOCK_REQUEST_MESSAGE_TYPE then
          (map_err AdapterDecode (and_then (decode_clock_request raw)
             (\<lambda>f. Inr (DispClockRequest f))), daemon)
        else if msg_type = COMMAND_MESSAGE_TYPE then
          (map_err AdapterDecode (and_then (decode_command raw)
             (\<lambda>f. Inr (DispCommand f))), daemon)
        else (Inr (DispRaw msg_type raw), daemon))"

text \<open>\<^verbatim>\<open>while let Some(frame\_bytes) = self.codec.next\_frame()?\<close>, on the codec's buffer.\<close>

function dispatch_loop ::
  "string \<Rightarrow> u64 \<Rightarrow> DispatchedFrame list \<Rightarrow> u8 list \<Rightarrow> ControllerDaemon \<Rightarrow>
     ('e TransportAdapterError + DispatchedFrame list) \<times> u8 list \<times> ControllerDaemon" where
  "dispatch_loop controller_id current_host_us dispatched buffer daemon =
     (case next_frame_buffer buffer of
        (None, b) \<Rightarrow> (Inr dispatched, b, daemon)
      | (Some frame, b) \<Rightarrow>
          (case dispatch_frame frame controller_id current_host_us daemon of
             (Inl e, daemon1) \<Rightarrow> (Inl e, b, daemon1)
           | (Inr f, daemon1) \<Rightarrow>
               dispatch_loop controller_id current_host_us (dispatched @ [f]) b daemon1))"
  by auto
termination
  by (relation "measure (\<lambda>(_, _, _, buffer, _). length buffer)")
    (auto dest: next_frame_buffer_shorter [OF sym])

declare dispatch_loop.simps [simp del]

type_synonym ('t, 'e) stream_read = "u8 list \<Rightarrow> 't \<Rightarrow> ('e + nat) \<times> u8 list \<times> 't"

definition read_and_dispatch ::
  "('t, 'e) stream_read \<Rightarrow> string \<Rightarrow> u64 \<Rightarrow> TransportStreamReader \<Rightarrow> 't \<Rightarrow> ControllerDaemon \<Rightarrow>
     ('e TransportAdapterError + DispatchedFrame list) \<times> TransportStreamReader \<times> 't \<times> ControllerDaemon"
where
  "read_and_dispatch read_bytes controller_id current_host_us self transport daemon =
     (case read_bytes (tr_read_buf self) transport of
        (Inl e, buf, t1) \<Rightarrow> (Inl (AdapterTransport e), self\<lparr>tr_read_buf := buf\<rparr>, t1, daemon)
      | (Inr n, buf, t1) \<Rightarrow>
          let self1 = self\<lparr>tr_read_buf := buf\<rparr> in
          (case (if n > 0 then feed (take n buf) (tr_codec self1) else (Inr (), tr_codec self1)) of
             (Inl e, codec) \<Rightarrow> (Inl (AdapterCodec e), self1\<lparr>tr_codec := codec\<rparr>, t1, daemon)
           | (Inr _, codec) \<Rightarrow>
               (case dispatch_loop controller_id current_host_us [] (fc_buffer codec) daemon of
                  (r, b, daemon1) \<Rightarrow>
                    (r, self1\<lparr>tr_codec := codec\<lparr>fc_buffer := b\<rparr>\<rparr>, t1, daemon1))))"

section \<open>Dispatching the frames of a buffer\<close>

text \<open>The frames in order, up to the first that fails.\<close>

fun dispatch_all ::
  "string \<Rightarrow> u64 \<Rightarrow> u8 list list \<Rightarrow> (ControllerDaemon, 'e TransportAdapterError, DispatchedFrame list) st"
where
  "dispatch_all i t [] d = (Inr [], d)"
| "dispatch_all i t (f # fs) d =
     (case dispatch_frame f i t d of
        (Inl e, d1) \<Rightarrow> (Inl e, d1)
      | (Inr x, d1) \<Rightarrow>
          (case dispatch_all i t fs d1 of (Inl e, d2) \<Rightarrow> (Inl e, d2) | (Inr xs, d2) \<Rightarrow> (Inr (x # xs), d2)))"

lemma dispatch_loop_drain:
  fixes i t acc d
  defines "run \<equiv> \<lambda>fs d. dispatch_all i t fs d :: ('e TransportAdapterError + DispatchedFrame list) \<times> ControllerDaemon"
  shows "drain buffer = (fs, b) \<Longrightarrow>
    (case dispatch_loop i t acc buffer d of (r, b1, d1) \<Rightarrow>
       (case run fs d of
          (Inr xs, d2) \<Rightarrow> r = Inr (acc @ xs) \<and> b1 = b \<and> d1 = d2
        | (Inl e, d2) \<Rightarrow> r = Inl e \<and> d1 = d2))"
  unfolding run_def
proof (induction "length buffer" arbitrary: buffer fs acc d rule: less_induct)
  case less
  note loop = dispatch_loop.simps [of i t acc buffer d]
  obtain r b0 where n: "next_frame_buffer buffer = (r, b0)" by (cases "next_frame_buffer buffer")
  note dr = drain.simps [of buffer] less.prems
  show ?case
  proof (cases r)
    case None
    then show ?thesis using dr n by (simp add: loop)
  next
    case (Some f)
    obtain gs where d0: "drain b0 = (gs, b)" "fs = f # gs"
      using dr n Some by (auto split: prod.splits)
    have sh: "length b0 < length buffer" using next_frame_buffer_shorter n Some by blast
    obtain q :: "'e TransportAdapterError + DispatchedFrame" and d1
      where q: "dispatch_frame f i t d = (q, d1)" by (rule prod.exhaust)
    show ?thesis
    proof (cases q)
      case (Inl e)
      then show ?thesis using q d0 n Some by (simp add: loop)
    next
      case (Inr x)
      then show ?thesis
        using less.hyps [OF sh d0(1), of "acc @ [x]" d1] q n Some d0
        by (simp add: loop split: prod.splits sum.splits)
    qed
  qed
qed

section \<open>A reader on a byte stream\<close>

lemma dispatch_all_append:
  fixes zs :: "DispatchedFrame list" and i t
  defines "run \<equiv> \<lambda>fs d. dispatch_all i t fs d :: ('e TransportAdapterError + DispatchedFrame list) \<times> ControllerDaemon"
  assumes "run (fs @ gs) d = (Inr zs, d2)"
  shows "\<exists>xs ys d1. run fs d = (Inr xs, d1) \<and> run gs d1 = (Inr ys, d2) \<and> zs = xs @ ys"
  using assms(2) unfolding run_def
proof (induction fs arbitrary: d zs)
  case (Cons f fs)
  obtain q :: "'e TransportAdapterError + DispatchedFrame" and d1
    where q: "dispatch_frame f i t d = (q, d1)" by (rule prod.exhaust)
  with Cons.prems obtain x ws where x: "q = Inr x"
    "dispatch_all i t (fs @ gs) d1 = (Inr ws :: 'e TransportAdapterError + DispatchedFrame list, d2)" "zs = x # ws"
    by (auto split: prod.splits sum.splits)
  from Cons.IH [OF x(2)] show ?case using q x by fastforce
qed auto

text \<open>Polling a reader several times in a row, up to the first error.\<close>

fun poll_times ::
  "('t, 'e) stream_read \<Rightarrow> string \<Rightarrow> u64 \<Rightarrow> nat \<Rightarrow> TransportStreamReader \<Rightarrow> 't \<Rightarrow> ControllerDaemon \<Rightarrow>
     ('e TransportAdapterError + DispatchedFrame list) \<times> TransportStreamReader \<times> 't \<times> ControllerDaemon"
where
  "poll_times get i t 0 r s d = (Inr [], r, s, d)"
| "poll_times get i t (Suc k) r s d =
     (case read_and_dispatch get i t r s d of
        (Inl e, r1, s1, d1) \<Rightarrow> (Inl e, r1, s1, d1)
      | (Inr xs, r1, s1, d1) \<Rightarrow>
          (case poll_times get i t k r1 s1 d1 of
             (Inl e, r2, s2, d2) \<Rightarrow> (Inl e, r2, s2, d2)
           | (Inr ys, r2, s2, d2) \<Rightarrow> (Inr (xs @ ys), r2, s2, d2)))"

text \<open>A reader between two polls: default capacity, full-size read buffer, codec waiting.\<close>

definition reader_idle :: "TransportStreamReader \<Rightarrow> bool" where
  "reader_idle r \<longleftrightarrow> fc_max_capacity (tr_codec r) = DEFAULT_CODEC_CAPACITY \<and>
     length (tr_read_buf r) = MAX_FRAME_LEN * 4 \<and>
     drain (fc_buffer (tr_codec r)) = ([], fc_buffer (tr_codec r))"

lemma reader_idle_new: "reader_idle stream_reader_new"
  by (simp add: reader_idle_def stream_reader_new_def reader_with_codec_def codec_new_def
      codec_with_capacity_def drain_step codec_step_tree keep_last_d_def)

text \<open>
  What a transport promises: bytes written are appended to what is under way, a read takes a prefix
  of it that fits the buffer, and reading makes progress while something is under way.
\<close>

locale byte_stream =
  fixes put_bytes :: "u8 list \<Rightarrow> 's \<Rightarrow> ('e + unit) \<times> 's"
    and get_bytes :: "u8 list \<Rightarrow> 's \<Rightarrow> ('e + nat) \<times> u8 list \<times> 's"
    and pending :: "'s \<Rightarrow> u8 list"
    and work :: "'s \<Rightarrow> nat"
    and up :: "'s \<Rightarrow> bool"
  assumes put_ok: "up s \<Longrightarrow>
      fst (put_bytes bytes s) = Inr () \<and> up (snd (put_bytes bytes s)) \<and>
      pending (snd (put_bytes bytes s)) = pending s @ bytes"
    and get_ok: "up s \<Longrightarrow> \<exists>n buf' s'. get_bytes buf s = (Inr n, buf', s') \<and> n \<le> length buf \<and>
      length buf' = length buf \<and> pending s = take n buf' @ pending s' \<and> up s' \<and>
      (pending s \<noteq> [] \<and> buf \<noteq> [] \<longrightarrow> work s' < work s)"
begin

lemma poll:
  assumes "up s" "reader_idle r" "drain (fc_buffer (tr_codec r) @ pending s) = (fs, b)"
    and "dispatch_all i t fs d = (Inr ys :: 'e TransportAdapterError + DispatchedFrame list, d2)"
  shows "\<exists>r' s' fs2 xs zs d1. read_and_dispatch get_bytes i t r s d = (Inr xs, r', s', d1) \<and>
    reader_idle r' \<and> up s' \<and> drain (fc_buffer (tr_codec r') @ pending s') = (fs2, b) \<and>
    dispatch_all i t fs2 d1 = (Inr zs :: 'e TransportAdapterError + DispatchedFrame list, d2) \<and>
    ys = xs @ zs \<and> (pending s \<noteq> [] \<longrightarrow> work s' < work s) \<and> (pending s = [] \<longrightarrow> pending s' = [])"
proof -
  let ?c = "tr_codec r" and ?b = "fc_buffer (tr_codec r)"
  have idle: "fc_max_capacity ?c = DEFAULT_CODEC_CAPACITY" "length (tr_read_buf r) = MAX_FRAME_LEN * 4"
    "drain ?b = ([], ?b)" using assms(2) by (simp_all add: reader_idle_def)
  have "tr_read_buf r \<noteq> []" using idle(2) by auto
  then obtain n buf s' where rd: "get_bytes (tr_read_buf r) s = (Inr n, buf, s')" "n \<le> MAX_FRAME_LEN * 4"
    "length buf = MAX_FRAME_LEN * 4" "pending s = take n buf @ pending s'" "up s'"
    "pending s \<noteq> [] \<longrightarrow> work s' < work s"
    using get_ok [OF assms(1), of "tr_read_buf r"] idle(2) by fastforce
  have small: "length ?b < MAX_FRAME_LEN" using drain_result [OF idle(3)] by blast
  let ?new = "?b @ take n buf"
  have fed: "(if n > 0 then feed (take n buf) ?c else (Inr (), ?c)) = (Inr (), ?c\<lparr>fc_buffer := ?new\<rparr>)"
    using small rd(2,3) idle(1) by (cases ?c) (simp add: feed_def DEFAULT_CODEC_CAPACITY_def)
  obtain fs1 b1 where d1: "drain ?new = (fs1, b1)" by (cases "drain ?new")
  obtain fs2 where d2: "drain (b1 @ pending s') = (fs2, b)" "fs = fs1 @ fs2"
    using assms(3) drain_append [of ?new "pending s'"] rd(4) d1
    by (auto split: prod.splits)
  obtain xs zs dm where xs: "dispatch_all i t fs1 d = (Inr xs :: 'e TransportAdapterError + DispatchedFrame list, dm)"
    "dispatch_all i t fs2 dm = (Inr zs :: 'e TransportAdapterError + DispatchedFrame list, d2)" "ys = xs @ zs"
    using dispatch_all_append assms(4) unfolding d2(2) by blast
  obtain rr b2 d3 where lp: "dispatch_loop i t [] ?new d = (rr :: 'e TransportAdapterError + DispatchedFrame list, b2, d3)"
    by (rule prod_cases3)
  have "dispatch_loop i t [] ?new d = (Inr xs :: 'e TransportAdapterError + DispatchedFrame list, b1, dm)"
    using dispatch_loop_drain [OF d1, where 'e = 'e and i = i and t = t and d = d and acc = "[]"] xs(1) lp
    by simp
  then have "read_and_dispatch get_bytes i t r s d =
      (Inr xs, r\<lparr>tr_read_buf := buf, tr_codec := ?c\<lparr>fc_buffer := b1\<rparr>\<rparr>, s', dm)"
    using rd(1) fed by (cases "n > 0") (simp_all add: read_and_dispatch_def Let_def)
  moreover have "reader_idle (r\<lparr>tr_read_buf := buf, tr_codec := ?c\<lparr>fc_buffer := b1\<rparr>\<rparr>)"
    using drain_result [OF d1] idle rd(3) by (simp add: reader_idle_def)
  ultimately show ?thesis using xs(2,3) d2 rd(4-6)
    by (intro exI [of _ "r\<lparr>tr_read_buf := buf, tr_codec := ?c\<lparr>fc_buffer := b1\<rparr>\<rparr>"] exI [of _ s']
        exI [of _ fs2] exI [of _ xs] exI [of _ zs] exI [of _ dm] conjI) simp_all
qed

text \<open>Enough polls deliver every frame of the stream, in order, however the bytes are cut.\<close>

lemma polls:
  assumes "up s" "reader_idle r" "drain (fc_buffer (tr_codec r) @ pending s) = (fs, b)"
    and "dispatch_all i t fs d = (Inr ys :: 'e TransportAdapterError + DispatchedFrame list, d2)"
    and "pending s \<noteq> [] \<longrightarrow> work s \<le> k"
  shows "\<exists>r' s'. poll_times get_bytes i t k r s d = (Inr ys, r', s', d2) \<and> reader_idle r' \<and>
    up s' \<and> pending s' = [] \<and> fc_buffer (tr_codec r') = b"
  using assms
proof (induction k arbitrary: s r fs d ys)
  case 0
  have "pending s = []" using poll [OF 0(1-4)] 0(5) by auto
  then have "fs = [] \<and> b = fc_buffer (tr_codec r)" using 0(2,3) by (simp add: reader_idle_def)
  then show ?case using 0 \<open>pending s = []\<close> by simp
next
  case (Suc k)
  obtain r1 s1 fs2 xs zs d1 where p: "read_and_dispatch get_bytes i t r s d = (Inr xs, r1, s1, d1)"
    "reader_idle r1" "up s1" "drain (fc_buffer (tr_codec r1) @ pending s1) = (fs2, b)"
    "dispatch_all i t fs2 d1 = (Inr zs :: 'e TransportAdapterError + DispatchedFrame list, d2)"
    "ys = xs @ zs" "pending s \<noteq> [] \<longrightarrow> work s1 < work s" "pending s = [] \<longrightarrow> pending s1 = []"
    using poll [OF Suc.prems(1-4)] by blast
  then have "pending s1 \<noteq> [] \<longrightarrow> work s1 \<le> k" using Suc.prems(5) by auto
  then obtain r' s' where "poll_times get_bytes i t k r1 s1 d1 = (Inr zs, r', s', d2)" "reader_idle r'"
    "up s'" "pending s' = []" "fc_buffer (tr_codec r') = b"
    using Suc.IH [OF p(3,2,4,5)] by blast
  then show ?case using p(1,6) by simp
qed

end

interpretation mem: byte_stream "memory_write_bytes SideA" "memory_read_bytes SideB" ml_q2
  "\<lambda>l. length (ml_q2 l)" "\<lambda>_. True"
proof unfold_locales
  fix l :: MemoryLink and buf :: "u8 list"
  show "\<exists>n buf' s'. memory_read_bytes SideB buf l = (Inr n, buf', s') \<and> n \<le> length buf \<and>
      length buf' = length buf \<and> ml_q2 l = take n buf' @ ml_q2 s' \<and> True \<and>
      (ml_q2 l \<noteq> [] \<and> buf \<noteq> [] \<longrightarrow> length (ml_q2 s') < length (ml_q2 l))"
    by (auto simp: memory_read_bytes_def Let_def incoming_def set_incoming_def min_def)
qed (simp_all add: memory_write_bytes_def outgoing_def set_outgoing_def)

interpretation chan: byte_stream channel_write_bytes channel_read_bytes
  "\<lambda>c. ch_read_buf c @ concat (ch_chunks c)"
  "\<lambda>c. length (ch_read_buf c) + length (concat (ch_chunks c)) + length (ch_chunks c)"
  "\<lambda>c. ch_sender_alive c \<and> ch_receiver_alive c"
proof unfold_locales
  fix c :: Channel and buf :: "u8 list"
  assume up: "ch_sender_alive c \<and> ch_receiver_alive c"
  show "\<exists>n buf' s'. channel_read_bytes buf c = (Inr n, buf', s') \<and> n \<le> length buf \<and>
      length buf' = length buf \<and> ch_read_buf c @ concat (ch_chunks c) =
        take n buf' @ ch_read_buf s' @ concat (ch_chunks s') \<and>
      (ch_sender_alive s' \<and> ch_receiver_alive s') \<and>
      (ch_read_buf c @ concat (ch_chunks c) \<noteq> [] \<and> buf \<noteq> [] \<longrightarrow>
        length (ch_read_buf s') + length (concat (ch_chunks s')) + length (ch_chunks s')
        < length (ch_read_buf c) + length (concat (ch_chunks c)) + length (ch_chunks c))"
    using up by (cases "ch_read_buf c"; cases "ch_chunks c")
      (auto simp: channel_read_bytes_def Let_def min_def)
qed (simp_all add: channel_write_bytes_def)

section \<open>Properties\<close>

text \<open>\<^verbatim>\<open>while let Some(frame) = codec.next\_frame()?\<close>, collecting the frames.\<close>

function take_frames :: "FrameCodec \<Rightarrow> u8 list list \<times> FrameCodec" where
  "take_frames self =
     (case next_frame self of
        (Inr (Some f), s) \<Rightarrow> (case take_frames s of (fs, s') \<Rightarrow> (f # fs, s'))
      | (_, s) \<Rightarrow> ([], s))"
  by auto
termination
  by (relation "measure (\<lambda>c. length (fc_buffer c))")
    (auto simp: next_frame_def dest!: next_frame_buffer_shorter split: prod.splits)

declare take_frames.simps [simp del]

lemma take_frames_drain:
  "take_frames self = (case drain (fc_buffer self) of (fs, b) \<Rightarrow> (fs, self\<lparr>fc_buffer := b\<rparr>))"
proof (induction self rule: take_frames.induct)
  case (1 self)
  show ?case
  proof (cases "next_frame_buffer (fc_buffer self)")
    case (Pair r b)
    then have n: "next_frame self = (Inr r, self\<lparr>fc_buffer := b\<rparr>)" by (simp add: next_frame_def)
    show ?thesis
    proof (cases r)
      case None
      then show ?thesis using n Pair by (simp add: take_frames.simps [of self] drain.simps [of "fc_buffer self"])
    next
      case (Some f)
      then show ?thesis
        using 1 [OF n [symmetric]] n Pair
        by (simp add: take_frames.simps [of self] drain.simps [of "fc_buffer self"] split: prod.splits)
    qed
  qed
qed

text \<open>A stream arriving in chunks: feed each chunk, then take the frames there are.\<close>

fun receive_chunks :: "u8 list list \<Rightarrow> (FrameCodec, FrameCodecError, u8 list list) st" where
  "receive_chunks [] self = (Inr [], self)"
| "receive_chunks (c # cs) self =
     (case feed c self of
        (Inl e, s) \<Rightarrow> (Inl e, s)
      | (Inr _, s) \<Rightarrow>
          (case take_frames s of (fs, s1) \<Rightarrow>
             (case receive_chunks cs s1 of
                (Inl e, s2) \<Rightarrow> (Inl e, s2)
              | (Inr gs, s2) \<Rightarrow> (Inr (fs @ gs), s2))))"

lemma receive_chunks_drain:
  assumes "list_all (\<lambda>c. length c + MAX_FRAME_LEN \<le> cap) cs" "drain b = ([], b)"
  shows "receive_chunks cs \<lparr>fc_buffer = b, fc_max_capacity = cap\<rparr> =
    (case drain (b @ concat cs) of (fs, b') \<Rightarrow> (Inr fs, \<lparr>fc_buffer = b', fc_max_capacity = cap\<rparr>))"
  using assms
proof (induction cs arbitrary: b)
  case (Cons c cs)
  have "length b < MAX_FRAME_LEN" using drain_result [OF Cons.prems(2)] by blast
  then have f: "feed c \<lparr>fc_buffer = b, fc_max_capacity = cap\<rparr> =
      (Inr (), \<lparr>fc_buffer = b @ c, fc_max_capacity = cap\<rparr>)"
    using Cons.prems(1) by (simp add: feed_def)
  obtain fs b1 where d: "drain (b @ c) = (fs, b1)" by (cases "drain (b @ c)")
  have "receive_chunks cs \<lparr>fc_buffer = b1, fc_max_capacity = cap\<rparr> =
      (case drain (b1 @ concat cs) of (fs, b') \<Rightarrow> (Inr fs, \<lparr>fc_buffer = b', fc_max_capacity = cap\<rparr>))"
    using Cons.IH drain_result [OF d] Cons.prems(1) by simp
  then show ?case
    using f d drain_append [of "b @ c" "concat cs"]
    by (simp add: take_frames_drain split: prod.splits)
qed simp

text \<open>
  Chunking does not matter.  For every byte stream, noise and damage included, the frames
  a codec delivers and the bytes it keeps are the same however the stream is cut into reads, as long
  as each read leaves room for one frame; no read then overflows the buffer.
\<close>
theorem chunking_irrelevant:
  assumes "list_all (\<lambda>c. length c + MAX_FRAME_LEN \<le> cap) cs"
    and "list_all (\<lambda>c. length c + MAX_FRAME_LEN \<le> cap) ds" "concat cs = concat ds"
  shows "receive_chunks cs (codec_with_capacity cap) = receive_chunks ds (codec_with_capacity cap) \<and>
    is_ok (fst (receive_chunks cs (codec_with_capacity cap)))"
proof -
  have "drain [] = ([], [])" by (simp add: drain_step codec_step_tree keep_last_d_def)
  then show ?thesis
    using receive_chunks_drain assms by (simp add: codec_with_capacity_def split: prod.splits)
qed

theorem chunking_irrelevant_witness:
  "receive_chunks [[1, 0x44], [0x52], [], [7]] (codec_with_capacity 4096) =
   receive_chunks [[1, 0x44, 0x52, 7]] (codec_with_capacity 4096)"
  using chunking_irrelevant [of 4096 "[[1, 0x44], [0x52], [], [7]]" "[[1, 0x44, 0x52, 7]]"] by simp



lemma frames_length:
  "length fs \<le> length noise \<Longrightarrow> list_all a_frame fs \<Longrightarrow>
     14 * length fs \<le> length (concat (map2 (\<lambda>n f. n @ f) noise fs))"
proof (induction fs arbitrary: noise)
  case (Cons f fs)
  then obtain n ns where "noise = n # ns" by (cases noise) auto
  then show ?case using Cons.IH [of ns] Cons.prems a_frame_length [of f] by simp
qed simp

text \<open>
  Claim C20: what a codec delivers from any bytes.  Every frame it returns is an exact frame layout
  with a known message type; the frames are disjoint pieces of the buffer in order, with noise in
  between; taking frames ends, after at most one frame per fourteen bytes, with fewer bytes kept than
  a longest frame has.
\<close>
theorem take_frames_sound:
  "case take_frames self of (fs, self') \<Rightarrow>
     list_all a_frame fs \<and> 14 * length fs \<le> length (fc_buffer self) \<and>
     length (fc_buffer self') < MAX_FRAME_LEN \<and> fst (next_frame self') = Inr None \<and>
     (\<exists>noise. length noise = length fs + 1 \<and>
        fc_buffer self = concat (map2 (\<lambda>n f. n @ f) noise fs) @ last noise @ fc_buffer self')"
proof -
  obtain fs b where d: "drain (fc_buffer self) = (fs, b)" by (cases "drain (fc_buffer self)")
  obtain noise where n: "length noise = length fs + 1"
    "fc_buffer self = concat (map2 (\<lambda>n f. n @ f) noise fs) @ last noise @ b"
    and r: "list_all a_frame fs" "length b < MAX_FRAME_LEN" "drain b = ([], b)"
    using drain_result [OF d] by blast
  have "14 * length fs \<le> length (fc_buffer self)"
    using frames_length [of fs noise] n r(1) by simp
  moreover have "fst (next_frame_buffer b) = None"
    using r(3) by (subst (asm) drain.simps) (auto split: prod.splits option.splits)
  moreover have "take_frames self = (fs, self\<lparr>fc_buffer := b\<rparr>)" by (simp add: take_frames_drain d)
  moreover have "next_frame_buffer b = (None, snd (next_frame_buffer b))"
    using \<open>fst (next_frame_buffer b) = None\<close> by (cases "next_frame_buffer b") simp
  then have "fst (next_frame (self\<lparr>fc_buffer := b\<rparr>)) = Inr None"
    by (simp add: next_frame_def split: prod.split) (metis fst_conv)
  ultimately show ?thesis using n r by auto
qed

text \<open>
  Claim C21: a frame damaged behind its header costs only itself.  If within the payload or checksum of a
  frame, behind its ten header bytes, any window of at most four bytes is changed, and the damaged frame
  contains no second magic, then the codec drops it and still delivers all frames that follow.  Damage to the
  magic, the version, the type or the length, and damage longer than four bytes, are not covered.
\<close>
theorem damaged_frame_dropped:
  assumes "a_frame (pre @ xs @ post)" "10 \<le> length pre" "length ys = length xs" "length xs \<le> 4" "ys \<noteq> xs"
    and "magic_pos (tl (pre @ ys @ post)) = None" "list_all a_frame fs"
  shows "fst (take_frames (c\<lparr>fc_buffer := (pre @ ys @ post) @ concat fs\<rparr>)) = fs"
proof -
  let ?good = "pre @ xs @ post" and ?bad = "pre @ ys @ post"
  have residue: "take 2 f = MAGIC \<and> crc_run (NOT 0) (drop 2 f) = crc_residue" if "a_frame f" for f
    using that frame_bytes_residue by (auto simp: a_frame_def)
  have "\<not> a_frame ?bad"
  proof
    assume "a_frame ?bad"
    from residue [OF this] residue [OF assms(1)] show False
      using burst_breaks_residue [of ys xs pre post "NOT 0"] assms(3-5) by simp
  qed
  moreover have h: "header_len ?bad = header_len pre" "header_len ?good = header_len pre"
    "header_valid ?bad = header_valid ?good"
    using header_append [OF assms(2)] by simp_all
  moreover have m: "magic_pos ?bad = Some 0 \<longleftrightarrow> magic_pos ?good = Some 0"
    using assms(2,3) by (auto simp: magic_pos_zero nth_append)
  moreover have "length ?bad = length ?good" using assms(3) by simp
  ultimately have bad: "magic_pos ?bad = Some 0" "10 \<le> length ?bad" "header_valid ?bad"
    "length ?bad = header_len ?bad + 14" "\<not> checksum_ok ?bad"
    using assms(1) unfolding a_frame_iff by metis+
  then have "codec_step ?bad = Skip (drop 1 ?bad)"
    unfolding codec_step_tree [of ?bad] by simp
  then have "codec_step ?bad = Skip (tl ?bad)" unfolding drop_Suc One_nat_def by simp
  then have "codec_step (?bad @ concat fs) = Skip (tl ?bad @ concat fs)"
    using codec_step_append [of ?bad "concat fs"] by (simp only: codec_move.case codec_move.distinct not_False_eq_True simp_thms)
  then have "drain (?bad @ concat fs) = drain (tl ?bad @ concat fs)" by (simp add: drain_step)
  also have "\<dots> = drain (keep_last_d (tl ?bad) @ concat fs)" using drain_noise [OF assms(6)] .
  finally have d: "drain (?bad @ concat fs) = drain (keep_last_d (tl ?bad) @ concat fs)" .
  have "fst (drain (keep_last_d (tl ?bad) @ concat fs)) = fs"
  proof (cases fs)
    case Nil
    have "codec_step (keep_last_d b) = Wait (keep_last_d b)" for b
      by (simp add: codec_step_tree keep_last_d_def)
    then show ?thesis using Nil by (simp add: drain_step)
  next
    case (Cons f gs)
    have nil: "drain (concat fs) = (fs, [])"
      using drain_frames [OF assms(7), of "[]"] by (simp add: drain_step codec_step_tree keep_last_d_def)
    have "magic_pos f = Some 0" using assms(7) Cons by (simp add: a_frame_iff)
    then have "magic_pos (concat fs) = Some 0" using Cons magic_pos_append by simp
    then have "magic_pos (0x44 # concat fs) = Some 1"
      by (cases "concat fs" rule: magic_pos.cases) (auto split: if_splits)
    from drain_skip [OF this] show ?thesis using nil by (simp add: keep_last_d_def)
  qed
  then have "fst (drain (?bad @ concat fs)) = fs" using d by simp
  moreover have "fst (take_frames k) = fst (drain (fc_buffer k))" for k
    by (simp add: take_frames_drain split: prod.split)
  ultimately show ?thesis by simp
qed

lemma request_frame_5: "request_frame 5 = [68, 82, 1, 3, 5, 0, 0, 0, 1, 0, 0, 229, 66, 61, 252]"
proof -
  have "crc32c [1, 3, 5, 0, 0, 0, 1, 0, 0] = 0xfc3d42e5"
    by (simp add: crc32c_def crc_byte_def crc_bits_8 crc_bit_def crc_poly_def)
  then show ?thesis
    by (simp add: request_frame_def frame_bytes_def frame_body_def le_bytes_expand)
qed

theorem damaged_frame_dropped_witness:
  "fst (take_frames (codec_new\<lparr>fc_buffer :=
     [68, 82, 1, 3, 5, 0, 0, 0, 1, 0, 1, 229, 66, 61, 252] @ request_frame 6\<rparr>)) = [request_frame 6]"
proof -
  have fr: "a_frame (request_frame n)" for n
    unfolding a_frame_def request_frame_def
    by (intro exI [of _ 3] exI [of _ "of_nat n"] exI [of _ "[0]"]) simp
  have "a_frame ([68, 82, 1, 3, 5, 0, 0, 0, 1, 0] @ [0] @ [229, 66, 61, 252])"
    using fr [of 5] by (simp add: request_frame_5)
  from damaged_frame_dropped [OF this, where ys = "[1]" and fs = "[request_frame 6]" and c = codec_new]
  show ?thesis using fr [of 6] by (simp add: MAGIC_def)
qed

text \<open>
  One poll of the reader, on every outcome.  A transport error changes only the read
  buffer; bytes that do not fit the codec are lost and nothing is dispatched, not even what the codec
  already holds; otherwise the frames of the kept bytes and the new ones are dispatched in order, all
  of them, or up to the first that fails, and then those before it changed the daemon but are not
  returned.
\<close>
theorem read_and_dispatch_exact:
  fixes read_bytes :: "('t, 'e) stream_read"
  shows "case read_bytes (tr_read_buf r) t of (res, buf, t1) \<Rightarrow>
     (case read_and_dispatch read_bytes i now r t d of (out, r1, t2, d1) \<Rightarrow>
        t2 = t1 \<and> tr_read_buf r1 = buf \<and>
        fc_max_capacity (tr_codec r1) = fc_max_capacity (tr_codec r) \<and>
        (case res of
           Inl e \<Rightarrow> out = Inl (AdapterTransport e) \<and> tr_codec r1 = tr_codec r \<and> d1 = d
         | Inr n \<Rightarrow>
             if n > 0 \<and> length (fc_buffer (tr_codec r)) + min n (length buf) > fc_max_capacity (tr_codec r)
             then out = Inl (AdapterCodec (BufferOverflow (fc_max_capacity (tr_codec r)))) \<and>
               tr_codec r1 = tr_codec r \<and> d1 = d
             else (case drain (fc_buffer (tr_codec r) @ take n buf) of (fs, b) \<Rightarrow>
               (case dispatch_all i now fs d of (o1, d2) \<Rightarrow>
                  out = o1 \<and> d1 = d2 \<and> (case o1 of Inl _ \<Rightarrow> True | Inr _ \<Rightarrow> fc_buffer (tr_codec r1) = b)))))"
proof -
  obtain res buf t1 where rd: "read_bytes (tr_read_buf r) t = (res, buf, t1)" by (rule prod_cases3)
  show ?thesis
  proof (cases res)
    case (Inl e)
    then show ?thesis using rd by (simp add: read_and_dispatch_def)
  next
    case (Inr n)
    let ?c = "tr_codec r"
    note rd = rd [unfolded Inr]
    let ?b = "fc_buffer ?c @ take n buf"
    show ?thesis
    proof (cases "n > 0 \<and> length (fc_buffer ?c) + min n (length buf) > fc_max_capacity ?c")
      case True
      then show ?thesis
        using rd by (simp add: read_and_dispatch_def feed_def min.commute)
    next
      case False
      have fed: "(if n > 0 then feed (take n buf) ?c else (Inr (), ?c)) = (Inr (), ?c\<lparr>fc_buffer := ?b\<rparr>)"
      proof (cases "n > 0")
        case True
        then show ?thesis using False by (simp add: feed_def min.commute)
      qed simp
      obtain fs b where dr: "drain ?b = (fs, b)" by (cases "drain ?b")
      obtain o1 :: "'e TransportAdapterError + DispatchedFrame list" and d2
        where da: "dispatch_all i now fs d = (o1, d2)" by (rule prod.exhaust)
      obtain o2 :: "'e TransportAdapterError + DispatchedFrame list" and b2 d3
        where dl: "dispatch_loop i now [] ?b d = (o2, b2, d3)" by (rule prod_cases3)
      have "o2 = o1 \<and> d3 = d2 \<and> (case o1 of Inl _ \<Rightarrow> True | Inr _ \<Rightarrow> b2 = b)"
        using dispatch_loop_drain [OF dr, where 'e = 'e and i = i and t = now and d = d and acc = "[]"] da dl
        by (cases o1) simp_all
      moreover have "read_and_dispatch read_bytes i now r t d =
          (o2, r\<lparr>tr_read_buf := buf, tr_codec := ?c\<lparr>fc_buffer := b2\<rparr>\<rparr>, t1, d3)"
        using rd fed dl by (cases "n > 0") (simp_all add: read_and_dispatch_def)
      moreover have "\<not> (fc_max_capacity ?c < length (fc_buffer ?c) + min n (length buf) \<and> n > 0)"
        using False by auto
      ultimately show ?thesis using rd dr da False by (cases o1) (simp_all only: prod.case sum.case, auto)
    qed
  qed
qed

end
