(* ===== verification/Auditor.thy ===== *)
theory Auditor
  imports BTree Wire
begin

text \<open>
  \<^verbatim>\<open>crates/toolpath-auditor/src/lib.rs\<close>: the audit of a job before it runs, against axis bounds, the
  largest feed rate and heater ceilings.  The audit walks the commands once and carries the axis
  positions; what it reports is compared with a specification that looks at each command on its own,
  at the position the commands in front of it lead to.
\<close>

record AxisLimit =
  min_um :: i64
  max_um :: i64

record AuditLimits =
  al_axes :: "(string, AxisLimit) btree"
  al_max_feed_rate_um_s :: u64
  al_heater_ceilings_milli_c :: "(string, i64) btree"

record AuditDiagnostic =
  ad_code :: string
  ad_command_index :: nat
  ad_message :: string

record AuditReport =
  ar_passed :: bool
  ar_commands_audited :: nat
  ar_diagnostics :: "AuditDiagnostic list"

record ToolpathAuditor =
  ta_limits :: AuditLimits

definition auditor_new :: "AuditLimits \<Rightarrow> ToolpathAuditor" where
  "auditor_new limits = \<lparr>ta_limits = limits\<rparr>"

type_synonym positions = "(string, i64) btree"

definition position_of :: "positions \<Rightarrow> string \<Rightarrow> i64" where
  "position_of positions axis = (case bt_get positions axis of Some p \<Rightarrow> p | None \<Rightarrow> 0)"

definition feed_diagnostic :: "AuditLimits \<Rightarrow> nat \<Rightarrow> string \<Rightarrow> u64 \<Rightarrow> AuditDiagnostic list" where
  "feed_diagnostic limits index what rate_um_s =
     (if al_max_feed_rate_um_s limits > 0 \<and> rate_um_s > al_max_feed_rate_um_s limits
      then [\<lparr>ad_code = ''A002'', ad_command_index = index,
             ad_message = what @ '' rate '' @ dec_nat (unat rate_um_s) @ '' um/s exceeds maximum feed rate ''
               @ dec_nat (unat (al_max_feed_rate_um_s limits)) @ '' um/s''\<rparr>]
      else [])"

text \<open>One turn of the loop of \<^verbatim>\<open>audit\<close>: what it reports and the positions afterwards.\<close>

fun audit_command ::
  "AuditLimits \<Rightarrow> nat \<Rightarrow> Command \<Rightarrow> positions \<Rightarrow> AuditDiagnostic list \<times> positions" where
  "audit_command limits index Heartbeat positions = ([], positions)"
| "audit_command limits index (SetHeaterTarget heater target_milli_c) positions =
     (case bt_get (al_heater_ceilings_milli_c limits) heater of
        None \<Rightarrow>
          ([\<lparr>ad_code = ''A004'', ad_command_index = index,
             ad_message = ''unknown heater '' @ [CHR 0x27] @ heater @ [CHR 0x27] @ '' in command''\<rparr>], positions)
      | Some ceiling \<Rightarrow>
          (if sint target_milli_c > sint ceiling
           then [\<lparr>ad_code = ''A003'', ad_command_index = index,
                  ad_message = ''heater '' @ [CHR 0x27] @ heater @ [CHR 0x27] @ '' target ''
                    @ dec_int (sint target_milli_c) @ '' mC exceeds ceiling of '' @ dec_int (sint ceiling) @ '' mC''\<rparr>]
           else [], positions))"
| "audit_command limits index (Home axis rate_um_s) positions =
     (feed_diagnostic limits index ''homing'' rate_um_s, bt_insert axis 0 positions)"
| "audit_command limits index (Move axis distance_um rate_um_s) positions =
     (let new_pos = i64_saturating_add (position_of positions axis) distance_um in
      (feed_diagnostic limits index ''move'' rate_um_s @
       (case bt_get (al_axes limits) axis of
          None \<Rightarrow> []
        | Some limit \<Rightarrow>
            if sint new_pos < sint (min_um limit) \<or> sint new_pos > sint (max_um limit)
            then [\<lparr>ad_code = ''A001'', ad_command_index = index,
                   ad_message = ''axis '' @ [CHR 0x27] @ axis @ [CHR 0x27] @ '' position '' @ dec_int (sint new_pos)
                     @ '' um is outside bounds ['' @ dec_int (sint (min_um limit)) @ '', ''
                     @ dec_int (sint (max_um limit)) @ ''] um''\<rparr>]
            else []),
       bt_insert axis new_pos positions))"

fun audit_commands ::
  "AuditLimits \<Rightarrow> nat \<Rightarrow> Command list \<Rightarrow> positions \<Rightarrow> AuditDiagnostic list" where
  "audit_commands limits index [] positions = []"
| "audit_commands limits index (cmd # cmds) positions =
     (case audit_command limits index cmd positions of
        (ds, positions1) \<Rightarrow> ds @ audit_commands limits (Suc index) cmds positions1)"

definition audit :: "ToolpathAuditor \<Rightarrow> Command list \<Rightarrow> AuditReport" where
  "audit self commands =
     (let diagnostics = audit_commands (ta_limits self) 0 commands bt_empty in
      \<lparr>ar_passed = (diagnostics = []), ar_commands_audited = length commands, ar_diagnostics = diagnostics\<rparr>)"

section \<open>What an audit should find\<close>

text \<open>Where an axis is after some commands: homing zeroes it, a move adds to it, within 64 bits.\<close>

fun travel :: "string \<Rightarrow> Command \<Rightarrow> int \<Rightarrow> int" where
  "travel axis (Home a _) p = (if a = axis then 0 else p)"
| "travel axis (Move a d _) p = (if a = axis then max i64_min (min i64_max (p + sint d)) else p)"
| "travel axis _ p = p"

definition place :: "Command list \<Rightarrow> string \<Rightarrow> int" where
  "place cmds axis = fold (travel axis) cmds 0"

definition too_fast :: "AuditLimits \<Rightarrow> u64 \<Rightarrow> bool" where
  "too_fast limits rate \<longleftrightarrow> 0 < al_max_feed_rate_um_s limits \<and> al_max_feed_rate_um_s limits < rate"

text \<open>The violations of one command after the commands in front of it, in the order they are reported.\<close>

fun violations :: "AuditLimits \<Rightarrow> Command list \<Rightarrow> Command \<Rightarrow> string list" where
  "violations limits before Heartbeat = []"
| "violations limits before (SetHeaterTarget heater target) =
     (case bt_get (al_heater_ceilings_milli_c limits) heater of
        None \<Rightarrow> [''A004'']
      | Some ceiling \<Rightarrow> if sint ceiling < sint target then [''A003''] else [])"
| "violations limits before (Home axis rate) = (if too_fast limits rate then [''A002''] else [])"
| "violations limits before (Move axis distance rate) =
     (if too_fast limits rate then [''A002''] else []) @
     (case bt_get (al_axes limits) axis of
        None \<Rightarrow> []
      | Some limit \<Rightarrow>
          let p = place (before @ [Move axis distance rate]) axis in
          if sint (min_um limit) \<le> p \<and> p \<le> sint (max_um limit) then [] else [''A001''])"

lemma place_snoc: "place (cmds @ [cmd]) axis = travel axis cmd (place cmds axis)"
  by (simp add: place_def)

definition tracks :: "positions \<Rightarrow> Command list \<Rightarrow> bool" where
  "tracks positions before \<longleftrightarrow> bt_inv positions \<and> (\<forall>axis. sint (position_of positions axis) = place before axis)"

lemma audit_command_step:
  assumes "tracks positions before"
  shows "map ad_code (fst (audit_command limits index cmd positions)) = violations limits before cmd"
    and "list_all (\<lambda>d. ad_command_index d = index) (fst (audit_command limits index cmd positions))"
    and "tracks (snd (audit_command limits index cmd positions)) (before @ [cmd])"
proof -
  have inv: "bt_inv positions" and p: "\<And>axis. sint (position_of positions axis) = place before axis"
    using assms by (simp_all add: tracks_def)
  have ins: "position_of (bt_insert a x positions) axis = (if axis = a then x else position_of positions axis)" for a x axis
    using bt.get_insert [OF inv, of a x axis] by (simp add: position_of_def)
  have sat: "sint (i64_saturating_add (position_of positions a) d) = max i64_min (min i64_max (place before a + sint d))" for a d
    by (simp only: sint_i64_saturating_add p)
  show "map ad_code (fst (audit_command limits index cmd positions)) = violations limits before cmd"
    by (cases cmd) (auto simp: feed_diagnostic_def too_fast_def place_snoc sat Let_def not_le split: option.split)
  show "list_all (\<lambda>d. ad_command_index d = index) (fst (audit_command limits index cmd positions))"
    by (cases cmd) (auto simp: feed_diagnostic_def Let_def split: option.split)
  show "tracks (snd (audit_command limits index cmd positions)) (before @ [cmd])"
    using bt_inv_insert [OF inv]
    by (cases cmd) (auto simp: tracks_def inv p ins sat place_snoc Let_def split: option.split)
qed

lemma audit_commands_spec:
  assumes "tracks positions before"
  shows "map (\<lambda>d. (ad_command_index d, ad_code d)) (audit_commands limits (length before) cmds positions) =
    concat (map (\<lambda>i. map (Pair (length before + i)) (violations limits (before @ take i cmds) (cmds ! i))) [0..<length cmds])"
  using assms
proof (induction cmds arbitrary: before positions)
  case (Cons cmd cmds)
  obtain ds positions1 where a: "audit_command limits (length before) cmd positions = (ds, positions1)" by fastforce
  note st = audit_command_step [OF Cons.prems, where limits = limits and index = "length before" and cmd = cmd, unfolded a fst_conv snd_conv]
  have "map (\<lambda>d. (ad_command_index d, ad_code d)) ds = map (Pair (length before)) (map ad_code ds)"
    using st(2) by (auto simp: list_all_iff)
  moreover have "[0..<length (cmd # cmds)] = 0 # map Suc [0..<length cmds]"
    by (simp add: map_Suc_upt upt_conv_Cons del: upt_Suc)
  ultimately show ?case
    using Cons.IH [OF st(3)] st(1) a by (simp add: comp_def del: upt_Suc)
qed simp

lemma tracks_empty: "tracks bt_empty []"
  by (simp add: tracks_def position_of_def place_def bt.get_empty bt.inv_empty)

section \<open>Properties\<close>

text \<open>
  Claim C26: an audit is exact.  It reports, in command order, exactly the violations of each command
  at the place the commands in front of it lead to: a position outside the bounds of a known axis, a
  feed rate above a nonzero maximum, a target above the ceiling of a known heater, an unknown heater;
  and it passes exactly when there are none.
\<close>
theorem audit_exact_spec:
  "let r = audit (auditor_new limits) cmds in
   map (\<lambda>d. (ad_command_index d, ad_code d)) (ar_diagnostics r) =
     concat (map (\<lambda>i. map (Pair i) (violations limits (take i cmds) (cmds ! i))) [0..<length cmds]) \<and>
   (ar_passed r \<longleftrightarrow> list_all (\<lambda>i. violations limits (take i cmds) (cmds ! i) = []) [0..<length cmds]) \<and>
   ar_commands_audited r = length cmds"
proof -
  let ?ds = "audit_commands limits 0 cmds bt_empty"
  let ?vs = "concat (map (\<lambda>i. map (Pair i) (violations limits (take i cmds) (cmds ! i))) [0..<length cmds])"
  have e: "map (\<lambda>d. (ad_command_index d, ad_code d)) ?ds = ?vs"
    using audit_commands_spec [OF tracks_empty, of limits cmds] by simp
  then have "?ds = [] \<longleftrightarrow> ?vs = []" by (metis map_is_Nil_conv)
  then have "?ds = [] \<longleftrightarrow> list_all (\<lambda>i. violations limits (take i cmds) (cmds ! i) = []) [0..<length cmds]"
    by (simp add: list_all_iff)
  then show ?thesis using e by (simp add: audit_def auditor_new_def Let_def)
qed

end
