(* ===== verification/Runner.thy ===== *)
theory Runner
  imports Auditor Daemon
begin

text \<open>
  \<^verbatim>\<open>crates/workflow-runner/src/lib.rs\<close>: the job queue in front of a controller session.  Commands are
  audited and enqueued, dispatched in batches that respect the controller's reported queue and time
  window, and counted as completed when the controller's queue has shrunk.
\<close>

record RunnerConfig =
  rc_target_horizon :: u16
  rc_min_threshold :: u16
  rc_max_batch_size :: nat
  rc_schedule_lead_margin_us :: u64

definition runner_config_default :: RunnerConfig where
  "runner_config_default =
     \<lparr>rc_target_horizon = 16, rc_min_threshold = 4, rc_max_batch_size = 8, rc_schedule_lead_margin_us = 1000\<rparr>"

datatype RunnerState = RunnerIdle | RunnerRunning | Throttled | UnderrunWarning | RunnerFaulted | Completed

record RunnerStats =
  rs_total_enqueued :: nat
  rs_total_dispatched :: nat
  rs_total_completed :: nat
  rs_pending_in_runner_queue :: nat
  rs_underrun_events :: u64
  rs_state :: RunnerState

datatype RunnerError =
    AuditFailed AuditReport
  | ControllerFaulted string
  | HeartbeatTimeout

record WorkflowRunner =
  wr_config :: RunnerConfig
  wr_auditor :: "ToolpathAuditor option"
  wr_job_queue :: "CommandEnvelope list"
  wr_last_controller_status :: "ControllerSessionStatus option"
  wr_total_enqueued :: nat
  wr_total_dispatched :: nat
  wr_total_completed :: nat
  wr_underrun_events :: u64
  wr_last_dispatched_tick :: "Tick option"
  wr_state :: RunnerState

definition runner_new :: "RunnerConfig \<Rightarrow> WorkflowRunner" where
  "runner_new config =
     \<lparr>wr_config = config, wr_auditor = None, wr_job_queue = [], wr_last_controller_status = None,
      wr_total_enqueued = 0, wr_total_dispatched = 0, wr_total_completed = 0, wr_underrun_events = 0,
      wr_last_dispatched_tick = None, wr_state = RunnerIdle\<rparr>"

definition set_auditor :: "AuditLimits \<Rightarrow> WorkflowRunner \<Rightarrow> WorkflowRunner" where
  "set_auditor limits self = self\<lparr>wr_auditor := Some (auditor_new limits)\<rparr>"

definition runner_with_auditor :: "RunnerConfig \<Rightarrow> AuditLimits \<Rightarrow> WorkflowRunner" where
  "runner_with_auditor config limits = set_auditor limits (runner_new config)"

definition clear_auditor :: "WorkflowRunner \<Rightarrow> WorkflowRunner" where
  "clear_auditor self = self\<lparr>wr_auditor := None\<rparr>"

definition is_throttled :: "WorkflowRunner \<Rightarrow> bool" where
  "is_throttled self \<longleftrightarrow> wr_state self = Throttled"

definition is_completed :: "WorkflowRunner \<Rightarrow> bool" where
  "is_completed self \<longleftrightarrow> wr_state self = Completed"

definition runner_stats :: "WorkflowRunner \<Rightarrow> RunnerStats" where
  "runner_stats self =
     \<lparr>rs_total_enqueued = wr_total_enqueued self, rs_total_dispatched = wr_total_dispatched self,
      rs_total_completed = wr_total_completed self, rs_pending_in_runner_queue = length (wr_job_queue self),
      rs_underrun_events = wr_underrun_events self, rs_state = wr_state self\<rparr>"

definition audit_failure :: "WorkflowRunner \<Rightarrow> Command list \<Rightarrow> AuditReport option" where
  "audit_failure self cmds =
     (case wr_auditor self of
        None \<Rightarrow> None
      | Some auditor \<Rightarrow> let report = audit auditor cmds in if ar_passed report then None else Some report)"

definition wake :: "WorkflowRunner \<Rightarrow> WorkflowRunner" where
  "wake self =
     (if wr_state self = RunnerIdle \<or> wr_state self = Completed
      then self\<lparr>wr_state := RunnerRunning\<rparr> else self)"

definition enqueue :: "CommandEnvelope \<Rightarrow> (WorkflowRunner, RunnerError, unit) st" where
  "enqueue envelope self =
     (case audit_failure self [ce_command envelope] of
        Some report \<Rightarrow> (Inl (AuditFailed report), self)
      | None \<Rightarrow>
          (Inr (), wake (self\<lparr>wr_job_queue := wr_job_queue self @ [envelope],
                              wr_total_enqueued := wr_total_enqueued self + 1\<rparr>)))"

definition enqueue_batch :: "CommandEnvelope list \<Rightarrow> (WorkflowRunner, RunnerError, nat) st" where
  "enqueue_batch items self =
     (if items = [] then (Inr 0, self)
      else
        (case audit_failure self (map ce_command items) of
           Some report \<Rightarrow> (Inl (AuditFailed report), self)
         | None \<Rightarrow>
             (Inr (length items), wake (self\<lparr>wr_job_queue := wr_job_queue self @ items,
                wr_total_enqueued := wr_total_enqueued self + length items\<rparr>))))"

definition update_controller_status :: "ControllerSessionStatus \<Rightarrow> WorkflowRunner \<Rightarrow> WorkflowRunner" where
  "update_controller_status status self =
     (let self1 =
        (if \<not> css_heartbeat_ok status then self\<lparr>wr_state := RunnerFaulted\<rparr>
         else if css_underrun status then
           (let s = self\<lparr>wr_underrun_events := wr_underrun_events self + 1\<rparr> in
            if wr_state s \<noteq> RunnerFaulted then s\<lparr>wr_state := UnderrunWarning\<rparr> else s)
         else self);
          active = unat (css_queue_fill status);
          self2 = self1\<lparr>wr_total_completed := wr_total_dispatched self1 - active\<rparr>;
          self3 =
        (if wr_job_queue self2 = [] \<and> active = 0 \<and> wr_total_dispatched self2 = wr_total_enqueued self2 \<and>
            wr_total_enqueued self2 > 0 \<and> wr_state self2 \<noteq> RunnerFaulted \<and> wr_state self2 \<noteq> UnderrunWarning
         then self2\<lparr>wr_state := Completed\<rparr>
         else if wr_state self2 = Throttled \<and> css_queue_fill status < rc_target_horizon (wr_config self2)
         then self2\<lparr>wr_state := RunnerRunning\<rparr> else self2)
      in self3\<lparr>wr_last_controller_status := Some status\<rparr>)"

text \<open>The time given to one command of a batch.\<close>

definition target_tick ::
  "RunnerConfig \<Rightarrow> Tick \<Rightarrow> Tick \<Rightarrow> Tick option \<Rightarrow> Tick option \<Rightarrow> Tick" where
  "target_tick config lo hi last_tick execute_at =
     (case execute_at of
        Some specified \<Rightarrow>
          let t = max specified lo;
              t1 = (case last_tick of
                      Some l \<Rightarrow> max t (saturating_add l (rc_schedule_lead_margin_us config)) | None \<Rightarrow> t) in
          if hi > 0 \<and> t1 > hi then hi else t1
      | None \<Rightarrow>
          (case last_tick of
             Some l \<Rightarrow> max lo (saturating_add l (rc_schedule_lead_margin_us config)) | None \<Rightarrow> lo))"

text \<open>The loop that pops a batch from the queue: the batch, the queue left, the last tick given.\<close>

fun take_batch ::
  "RunnerConfig \<Rightarrow> Tick \<Rightarrow> Tick \<Rightarrow> nat \<Rightarrow> CommandEnvelope list \<Rightarrow> Tick option \<Rightarrow>
     CommandEnvelope list \<times> CommandEnvelope list \<times> Tick option" where
  "take_batch config lo hi (Suc n) (envelope # queue) last_tick =
     (let t = target_tick config lo hi last_tick (ce_execute_at envelope) in
      case take_batch config lo hi n queue (Some t) of
        (batch, queue1, last1) \<Rightarrow> (envelope\<lparr>ce_execute_at := Some t\<rparr> # batch, queue1, last1))"
| "take_batch config lo hi n queue last_tick = ([], queue, last_tick)"

definition next_dispatch_batch :: "WorkflowRunner \<Rightarrow> CommandEnvelope list \<times> WorkflowRunner" where
  "next_dispatch_batch self =
     (if wr_state self = RunnerFaulted then ([], self)
      else if wr_job_queue self = [] then
        (if wr_total_completed self = wr_total_dispatched self \<and> wr_total_dispatched self > 0
         then ([], self\<lparr>wr_state := Completed\<rparr>)
         else if wr_state self \<noteq> RunnerFaulted \<and> wr_state self \<noteq> UnderrunWarning
         then ([], self\<lparr>wr_state := RunnerIdle\<rparr>)
         else ([], self))
      else
        (case
           (case wr_last_controller_status self of
              Some status \<Rightarrow>
                if \<not> css_heartbeat_ok status then None
                else Some (css_queue_capacity status, css_queue_fill status,
                           css_earliest_accepted_tick status, css_latest_accepted_tick status)
            | None \<Rightarrow> Some (rc_target_horizon (wr_config self), 0, 0, 0))
         of
           None \<Rightarrow> ([], self\<lparr>wr_state := RunnerFaulted\<rparr>)
         | Some (capacity, fill, earliest_accepted, latest_accepted) \<Rightarrow>
             let target_horizon = min (rc_target_horizon (wr_config self)) capacity in
             if fill \<ge> target_horizon then ([], self\<lparr>wr_state := Throttled\<rparr>)
             else
               let headroom = unat (target_horizon - fill);
                   batch_count = min (min headroom (rc_max_batch_size (wr_config self))) (length (wr_job_queue self)) in
               if batch_count = 0 then ([], self)
               else
                 (case take_batch (wr_config self) earliest_accepted latest_accepted batch_count
                         (wr_job_queue self) (wr_last_dispatched_tick self) of
                    (batch, queue, last_tick) \<Rightarrow>
                      let self1 = self\<lparr>wr_job_queue := queue, wr_last_dispatched_tick := last_tick,
                            wr_total_dispatched := wr_total_dispatched self + length batch\<rparr> in
                      (batch,
                       if wr_state self1 = Throttled \<and> fill < target_horizon \<or>
                          wr_state self1 \<noteq> UnderrunWarning \<and> wr_state self1 \<noteq> RunnerFaulted
                       then self1\<lparr>wr_state := RunnerRunning\<rparr> else self1))))"

text \<open>Sending a batch, up to the first error: what remains of it is dropped.\<close>

definition send_one ::
  "('s, 'e) frame_sink \<Rightarrow> CommandEnvelope \<Rightarrow> ('s CommandClient, 'e SendError, SendReceipt) st" where
  "send_one send_frame envelope client =
     (case ce_execute_at envelope of
        Some tick \<Rightarrow> client_send_scheduled send_frame tick (ce_command envelope) client
      | None \<Rightarrow> client_send send_frame (ce_command envelope) client)"

fun send_batch ::
  "('s, 'e) frame_sink \<Rightarrow> CommandEnvelope list \<Rightarrow> ('s CommandClient, 'e SendError, SendReceipt list) st" where
  "send_batch send_frame [] client = (Inr [], client)"
| "send_batch send_frame (envelope # batch) client =
     (case send_one send_frame envelope client of
        (Inl e, client1) \<Rightarrow> (Inl e, client1)
      | (Inr receipt, client1) \<Rightarrow>
          (case send_batch send_frame batch client1 of
             (Inl e, client2) \<Rightarrow> (Inl e, client2)
           | (Inr receipts, client2) \<Rightarrow> (Inr (receipt # receipts), client2)))"

definition dispatch_to_client ::
  "('s, 'e) frame_sink \<Rightarrow> WorkflowRunner \<Rightarrow> 's CommandClient \<Rightarrow>
     ('e SendError + SendReceipt list) \<times> WorkflowRunner \<times> 's CommandClient" where
  "dispatch_to_client send_frame self client =
     (case next_dispatch_batch self of
        (batch, self1) \<Rightarrow>
          (case send_batch send_frame batch client of (r, client1) \<Rightarrow> (r, self1, client1)))"


section \<open>Batches\<close>

lemma take_batch_front:
  "take_batch config lo hi n queue l = (batch, queue1, l1) \<Longrightarrow>
     length batch = min n (length queue) \<and> map ce_command batch = map ce_command (take n queue) \<and>
     queue1 = drop n queue \<and> list_all (\<lambda>e. ce_execute_at e \<noteq> None) batch"
proof (induction config lo hi n queue l arbitrary: batch rule: take_batch.induct)
  case (1 config lo hi n envelope queue l)
  then show ?case by (auto simp: Let_def split: prod.splits)
qed auto

definition in_window :: "Tick \<Rightarrow> Tick \<Rightarrow> CommandEnvelope \<Rightarrow> CommandEnvelope \<Rightarrow> bool" where
  "in_window lo hi queued sent \<longleftrightarrow> (case ce_execute_at sent of
     None \<Rightarrow> False
   | Some t \<Rightarrow> (hi = 0 \<or> lo \<le> hi \<longrightarrow> lo \<le> t) \<and> (ce_execute_at queued \<noteq> None \<and> hi \<noteq> 0 \<longrightarrow> t \<le> hi))"

lemma target_tick_window:
  "in_window lo hi queued (queued\<lparr>ce_execute_at := Some (target_tick config lo hi l (ce_execute_at queued))\<rparr>)"
  by (auto simp: in_window_def target_tick_def Let_def word_gt_0 max_def split: option.split)

lemma take_batch_window:
  "take_batch config lo hi n queue l = (batch, queue1, l1) \<Longrightarrow>
     list_all2 (in_window lo hi) (take n queue) batch"
proof (induction config lo hi n queue l arbitrary: batch rule: take_batch.induct)
  case (1 config lo hi n envelope queue l)
  then show ?case by (auto simp: Let_def target_tick_window split: prod.splits)
qed auto

lemma min_eq_0: "min a b = 0 \<longleftrightarrow> a = 0 \<or> b = (0 :: nat)"
  by (auto simp: min_def)

text \<open>A dispatch, opened: nothing is sent, or a batch within the controller's room.\<close>

lemma next_dispatch_cases:
  assumes "next_dispatch_batch r = (batch, r')"
  obtains "batch = []" "wr_job_queue r' = wr_job_queue r" "wr_last_dispatched_tick r' = wr_last_dispatched_tick r"
      "wr_total_dispatched r' = wr_total_dispatched r"
      "wr_state r = RunnerFaulted \<longrightarrow> r' = r"
      "wr_state r' = Completed \<longrightarrow> wr_state r = Completed \<or> wr_job_queue r = [] \<and> 0 < wr_total_dispatched r"
      "wr_total_enqueued r' = wr_total_enqueued r" "wr_total_completed r' = wr_total_completed r"
  | capacity fill lo hi n where "wr_state r \<noteq> RunnerFaulted"
      "(capacity, fill, lo, hi) = (case wr_last_controller_status r of
         None \<Rightarrow> (rc_target_horizon (wr_config r), 0, 0, 0)
       | Some s \<Rightarrow> (css_queue_capacity s, css_queue_fill s, css_earliest_accepted_tick s, css_latest_accepted_tick s))"
      "case wr_last_controller_status r of None \<Rightarrow> True | Some s \<Rightarrow> css_heartbeat_ok s"
      "0 < n" "n \<le> rc_max_batch_size (wr_config r)" "n \<le> length (wr_job_queue r)"
      "unat fill + n \<le> unat (min (rc_target_horizon (wr_config r)) capacity)"
      "(batch, wr_job_queue r', wr_last_dispatched_tick r') =
         take_batch (wr_config r) lo hi n (wr_job_queue r) (wr_last_dispatched_tick r)"
      "wr_total_dispatched r' = wr_total_dispatched r + n" "wr_state r' \<noteq> Completed"
      "wr_total_enqueued r' = wr_total_enqueued r" "wr_total_completed r' = wr_total_completed r"
proof (cases "wr_state r = RunnerFaulted \<or> wr_job_queue r = []")
  case True
  then show thesis using assms by (intro that(1)) (auto simp: next_dispatch_batch_def split: if_splits)
next
  case False
  show thesis
  proof (cases "case wr_last_controller_status r of None \<Rightarrow> False | Some s \<Rightarrow> \<not> css_heartbeat_ok s")
    case True
    then show thesis
      using False assms by (intro that(1)) (auto simp: next_dispatch_batch_def split: option.splits)
  next
    case hb: False
    obtain capacity fill lo hi where q0: "(case wr_last_controller_status r of
         None \<Rightarrow> (rc_target_horizon (wr_config r), 0, 0, 0)
       | Some s \<Rightarrow> (css_queue_capacity s, css_queue_fill s, css_earliest_accepted_tick s, css_latest_accepted_tick s))
       = (capacity, fill, lo, hi)"
      by (rule prod_cases4)
    note q = q0 [symmetric]
    then have sel: "(case wr_last_controller_status r of
              Some status \<Rightarrow>
                if \<not> css_heartbeat_ok status then None
                else Some (css_queue_capacity status, css_queue_fill status,
                           css_earliest_accepted_tick status, css_latest_accepted_tick status)
            | None \<Rightarrow> Some (rc_target_horizon (wr_config r), 0, 0, 0)) = Some (capacity, fill, lo, hi)"
      using hb by (auto split: option.splits)
    let ?h = "min (rc_target_horizon (wr_config r)) capacity"
    let ?n = "min (min (unat (?h - fill)) (rc_max_batch_size (wr_config r))) (length (wr_job_queue r))"
    show thesis
    proof (cases "?h \<le> fill \<or> ?n = 0")
      case True
      then show thesis
        using False assms sel by (intro that(1)) (auto simp: next_dispatch_batch_def Let_def split: if_splits)
    next
      case room: False
      obtain b queue l where tb: "take_batch (wr_config r) lo hi ?n (wr_job_queue r) (wr_last_dispatched_tick r) = (b, queue, l)"
        by (rule prod_cases3)
      have len: "length b = ?n" using take_batch_front [OF tb] by simp
      have "fill \<le> ?h" using room by (meson le_cases)
      then have "unat (?h - fill) = unat ?h - unat fill" by (rule unat_sub)
      moreover have "?n \<le> unat (?h - fill)" by simp
      moreover have "unat fill \<le> unat ?h" using \<open>fill \<le> ?h\<close> by (simp only: word_le_nat_alt)
      ultimately have fits: "unat fill + ?n \<le> unat ?h" by linarith
      let ?r1 = "r\<lparr>wr_job_queue := queue, wr_last_dispatched_tick := l, wr_total_dispatched := wr_total_dispatched r + length b\<rparr>"
      have eq: "batch = b" "r' = (if wr_state r \<noteq> UnderrunWarning then ?r1\<lparr>wr_state := RunnerRunning\<rparr> else ?r1)"
        using assms False sel room tb unfolding next_dispatch_batch_def by (auto simp: Let_def min_eq_0)
      show thesis
        by (rule that(2) [OF _ q _ _ _ _ fits])
          (use False hb room tb len eq in \<open>auto split: option.splits\<close>)
    qed
  qed
qed


section \<open>Histories\<close>

text \<open>
  The reachable runners, each with the envelopes accepted and the envelopes dispatched so far.
\<close>

inductive runner_run ::
  "WorkflowRunner \<Rightarrow> CommandEnvelope list \<Rightarrow> CommandEnvelope list \<Rightarrow> bool" where
  rr_new: "runner_run (runner_new config) [] []"
| rr_set: "runner_run r acc sent \<Longrightarrow> runner_run (set_auditor limits r) acc sent"
| rr_clear: "runner_run r acc sent \<Longrightarrow> runner_run (clear_auditor r) acc sent"
| rr_enqueue: "runner_run r acc sent \<Longrightarrow> enqueue e r = (res, r') \<Longrightarrow>
    runner_run r' (if is_ok res then acc @ [e] else acc) sent"
| rr_batch: "runner_run r acc sent \<Longrightarrow> enqueue_batch es r = (res, r') \<Longrightarrow>
    runner_run r' (if is_ok res then acc @ es else acc) sent"
| rr_status: "runner_run r acc sent \<Longrightarrow> runner_run (update_controller_status s r) acc sent"
| rr_dispatch: "runner_run r acc sent \<Longrightarrow> next_dispatch_batch r = (batch, r') \<Longrightarrow>
    runner_run r' acc (sent @ batch)"

definition runner_ok :: "WorkflowRunner \<Rightarrow> CommandEnvelope list \<Rightarrow> CommandEnvelope list \<Rightarrow> bool" where
  "runner_ok r acc sent \<longleftrightarrow>
     map ce_command acc = map ce_command sent @ map ce_command (wr_job_queue r) \<and>
     wr_total_enqueued r = length acc \<and> wr_total_dispatched r = length sent \<and>
     wr_total_completed r \<le> wr_total_dispatched r \<and>
     (wr_state r = Completed \<longrightarrow> wr_job_queue r = [] \<and> sent \<noteq> [])"

lemma runner_ok_lengths: "runner_ok r acc sent \<Longrightarrow> length acc = length sent + length (wr_job_queue r)"
  by (metis runner_ok_def length_append length_map)

lemma runner_ok_add:
  assumes "runner_ok r acc sent"
  shows "runner_ok (wake (r\<lparr>wr_job_queue := wr_job_queue r @ es, wr_total_enqueued := wr_total_enqueued r + length es\<rparr>))
    (acc @ es) sent"
  using assms by (auto simp: runner_ok_def wake_def)

lemma update_controller_status_fields [simp]:
  "wr_job_queue (update_controller_status s r) = wr_job_queue r"
  "wr_total_enqueued (update_controller_status s r) = wr_total_enqueued r"
  "wr_total_dispatched (update_controller_status s r) = wr_total_dispatched r"
  "wr_total_completed (update_controller_status s r) = wr_total_dispatched r - unat (css_queue_fill s)"
  by (simp_all add: update_controller_status_def Let_def)

lemma runner_ok_status:
  assumes "runner_ok r acc sent"
  shows "runner_ok (update_controller_status s r) acc sent"
proof -
  have "wr_job_queue r = [] \<and> sent \<noteq> []" if "wr_state (update_controller_status s r) = Completed"
  proof (cases "wr_state r = Completed")
    case True
    then show ?thesis using assms by (simp add: runner_ok_def)
  next
    case False
    then have "wr_job_queue r = []" "0 < wr_total_enqueued r" "wr_total_dispatched r = wr_total_enqueued r"
      using that by (auto simp: update_controller_status_def Let_def split: if_splits)
    then show ?thesis using assms by (auto simp: runner_ok_def)
  qed
  then show ?thesis using assms by (auto simp: runner_ok_def)
qed

lemma runner_run_ok: "runner_run r acc sent \<Longrightarrow> runner_ok r acc sent"
proof (induction rule: runner_run.induct)
  case (rr_new config)
  then show ?case by (simp add: runner_ok_def runner_new_def)
next
  case (rr_set r acc sent limits)
  then show ?case by (simp add: runner_ok_def set_auditor_def)
next
  case (rr_clear r acc sent)
  then show ?case by (simp add: runner_ok_def clear_auditor_def)
next
  case (rr_enqueue r acc sent e res r')
  then show ?case
    using runner_ok_add [OF rr_enqueue.IH, of "[e]"] by (auto simp: enqueue_def split: option.splits)
next
  case (rr_batch r acc sent es res r')
  then show ?case
    using runner_ok_add [OF rr_batch.IH, of es] by (auto simp: enqueue_batch_def split: option.splits if_splits)
next
  case (rr_status r acc sent s)
  then show ?case by (simp add: runner_ok_status)
next
  case (rr_dispatch r acc sent batch r')
  from rr_dispatch(2) show ?case
  proof (cases rule: next_dispatch_cases)
    case 1
    then show ?thesis using rr_dispatch.IH by (auto simp: runner_ok_def)
  next
    case (2 capacity fill lo hi n)
    note tb = take_batch_front [OF 2(8) [symmetric]]
    have "map ce_command batch @ map ce_command (wr_job_queue r') = map ce_command (wr_job_queue r)"
      using tb 2(6) by (metis append_take_drop_id map_append)
    then show ?thesis using rr_dispatch.IH 2 tb by (auto simp: runner_ok_def)
  qed
qed

section \<open>Two observations\<close>

definition job_status :: "u16 \<Rightarrow> ControllerSessionStatus" where
  "job_status fill =
     \<lparr>css_controller_id = ''c'', css_heartbeat_timeout_us = 1000, css_last_seen_host_us = 1, css_queue_capacity = 16,
      css_queue_fill = fill, css_earliest_accepted_tick = 0, css_latest_accepted_tick = 0, css_underrun = False,
      css_heartbeat_ok = True\<rparr>"

text \<open>
  A status from before a command reached the controller reports an empty queue and makes the runner
  Completed; the next status, with the command queued, does not take that back.
\<close>

lemma completed_while_queued:
  "let r1 = snd (enqueue \<lparr>ce_execute_at = None, ce_command = Home ''x'' 1000\<rparr> (runner_new runner_config_default));
       r2 = snd (next_dispatch_batch r1);
       r3 = update_controller_status (job_status 1) (update_controller_status (job_status 0) r2) in
   wr_state r3 = Completed \<and> wr_total_completed r3 = 0 \<and> wr_total_dispatched r3 = 1"
  by code_simp

text \<open>A command without a time is placed behind the last one, here beyond the latest tick the controller accepts.\<close>

lemma unscheduled_beyond_window:
  "let r = (runner_new runner_config_default)\<lparr>wr_job_queue := [\<lparr>ce_execute_at = None, ce_command = Home ''x'' 1000\<rparr>],
         wr_last_dispatched_tick := Some 4000\<rparr>;
       s = (job_status 0)\<lparr>css_earliest_accepted_tick := 100, css_latest_accepted_tick := 4000\<rparr> in
   map (\<lambda>e. case ce_execute_at e of Some t \<Rightarrow> 4000 < t | None \<Rightarrow> False)
     (fst (next_dispatch_batch (update_controller_status s r))) = [True]"
  by code_simp

text \<open>Each enqueue audits its command from position zero: moves that pass one by one fail as a batch.\<close>

definition short_axis :: AuditLimits where
  "short_axis = \<lparr>al_axes = [(''x'', \<lparr>min_um = 0, max_um = 10\<rparr>)], al_max_feed_rate_um_s = 0,
     al_heater_ceilings_milli_c = []\<rparr>"

lemma single_enqueues_escape_audit:
  "let e = \<lparr>ce_execute_at = None, ce_command = Move ''x'' 8 1000\<rparr>;
       r = runner_with_auditor runner_config_default short_axis in
   is_ok (fst (enqueue e r)) \<and> is_ok (fst (enqueue e (snd (enqueue e r)))) \<and>
   \<not> is_ok (fst (enqueue_batch [e, e] r))"
  by code_simp

section \<open>Properties\<close>

text \<open>
  Claim C27: no command is lost, repeated or reordered inside the runner.  Along every history of
  audits, enqueues, status updates and dispatches, the commands accepted are exactly the commands
  dispatched followed by those still queued; the counters count them; and a runner that says Completed
  has dispatched every command it accepted, and at least one.
\<close>
theorem runner_conserves_commands:
  assumes "runner_run r acc sent"
  shows "map ce_command acc = map ce_command sent @ map ce_command (wr_job_queue r) \<and>
    wr_total_enqueued r = length acc \<and> wr_total_dispatched r = length sent \<and>
    wr_total_completed r \<le> wr_total_dispatched r \<and>
    (is_completed r \<longrightarrow> map ce_command sent = map ce_command acc \<and> sent \<noteq> [])"
  using runner_run_ok [OF assms] by (auto simp: runner_ok_def is_completed_def)

theorem runner_conserves_commands_witness:
  "\<exists>r sent. runner_run r [\<lparr>ce_execute_at = None, ce_command = Heartbeat\<rparr>] sent \<and>
     map ce_command sent = [Heartbeat] \<and> wr_total_dispatched r = 1"
proof -
  let ?e = "\<lparr>ce_execute_at = None, ce_command = Heartbeat\<rparr>"
  let ?r0 = "runner_new runner_config_default"
  let ?r1 = "snd (enqueue ?e ?r0)" and ?b = "fst (next_dispatch_batch (snd (enqueue ?e ?r0)))"
  have e: "enqueue ?e ?r0 = (Inr (), ?r1)" by (simp add: enqueue_def audit_failure_def runner_new_def)
  have "runner_run ?r1 [?e] []" using rr_enqueue [OF rr_new e] by simp
  then have run: "runner_run (snd (next_dispatch_batch ?r1)) [?e] ?b"
    using rr_dispatch [of ?r1 "[?e]" "[]" ?b] by simp
  have "wr_job_queue (snd (next_dispatch_batch ?r1)) = []" by code_simp
  then show ?thesis using runner_conserves_commands [OF run] run by fastforce
qed

text \<open>
  Claim C28: the shape of every batch.  A dispatch takes the front of the queue, in order and with
  commands unchanged, at most the batch size and at most what the reported queue has room for under the
  target horizon.  Every command gets a time; in a window that is not empty it is not before the controller's
  earliest tick, and for a command that asked for a time it is not after the latest tick unless that is zero,
  which means no bound.  The time of a command that did not ask for one has no upper bound.  A faulted runner, or one whose controller's heartbeat is lost,
  sends nothing.
\<close>
theorem dispatch_batch_bounds:
  assumes "next_dispatch_batch r = (batch, r')"
  shows "let n = length batch in
    map ce_command batch = map ce_command (take n (wr_job_queue r)) \<and> wr_job_queue r' = drop n (wr_job_queue r) \<and>
    wr_total_dispatched r' = wr_total_dispatched r + n \<and>
    (n = 0 \<or> wr_state r \<noteq> RunnerFaulted \<and> n \<le> rc_max_batch_size (wr_config r) \<and>
      (case wr_last_controller_status r of
         None \<Rightarrow> n \<le> unat (rc_target_horizon (wr_config r)) \<and> list_all2 (in_window 0 0) (take n (wr_job_queue r)) batch
       | Some s \<Rightarrow> css_heartbeat_ok s \<and>
           unat (css_queue_fill s) + n \<le> unat (min (rc_target_horizon (wr_config r)) (css_queue_capacity s)) \<and>
           list_all2 (in_window (css_earliest_accepted_tick s) (css_latest_accepted_tick s))
             (take n (wr_job_queue r)) batch))"
  using assms
proof (cases rule: next_dispatch_cases)
  case 1
  then show ?thesis by simp
next
  case (2 capacity fill lo hi n)
  note tb = take_batch_front [OF 2(8) [symmetric]] and w = take_batch_window [OF 2(8) [symmetric]]
  have len: "length batch = n" using tb 2(6) by simp
  show ?thesis
    using 2 tb w unfolding len Let_def by (cases "wr_last_controller_status r") auto
qed

theorem dispatch_batch_bounds_witness:
  "length (fst (next_dispatch_batch ((runner_new runner_config_default)\<lparr>wr_job_queue :=
     replicate 20 \<lparr>ce_execute_at = None, ce_command = Heartbeat\<rparr>\<rparr>))) \<le> 8"
proof -
  let ?r = "(runner_new runner_config_default)\<lparr>wr_job_queue :=
     replicate 20 \<lparr>ce_execute_at = None, ce_command = Heartbeat\<rparr>\<rparr>"
  show ?thesis
    using dispatch_batch_bounds [of ?r "fst (next_dispatch_batch ?r)" "snd (next_dispatch_batch ?r)"]
    by (auto simp: Let_def runner_new_def runner_config_default_def)
qed

text \<open>
  Dispatching into a client, with every outcome.  The runner always forgets the whole batch.
  When all sends succeed there is one receipt per command; when one fails, exactly the commands in
  front of it went out, the client is left as that failure left it, and the commands behind it are
  neither sent nor kept, though the runner counts them as dispatched.
\<close>
theorem dispatch_to_client_exact:
  "case dispatch_to_client send_frame self client of (res, self', client') \<Rightarrow>
     case next_dispatch_batch self of (batch, runner) \<Rightarrow>
       self' = runner \<and>
       (case res of
          Inr receipts \<Rightarrow> length receipts = length batch \<and> send_batch send_frame batch client = (Inr receipts, client')
        | Inl e \<Rightarrow> \<exists>before envelope unsent receipts client1.
            batch = before @ envelope # unsent \<and> send_batch send_frame before client = (Inr receipts, client1) \<and>
            send_one send_frame envelope client1 = (Inl e, client'))"
proof -
  have sb: "case send_batch send_frame batch client of
      (Inr receipts, c) \<Rightarrow> length receipts = length batch
    | (Inl e, c) \<Rightarrow> \<exists>before envelope unsent receipts client1.
        batch = before @ envelope # unsent \<and> send_batch send_frame before client = (Inr receipts, client1) \<and>
        send_one send_frame envelope client1 = (Inl e, c)" for batch
  proof (induction batch arbitrary: client)
    case (Cons x batch)
    obtain r c1 where x: "send_one send_frame x client = (r, c1)" by fastforce
    show ?case
    proof (cases r)
      case (Inl e)
      then show ?thesis using x by (auto intro!: exI [of _ "[]"])
    next
      case (Inr receipt)
      obtain r2 c2 where b: "send_batch send_frame batch c1 = (r2, c2)" by fastforce
      show ?thesis
      proof (cases r2)
        case (Inl e)
        then obtain before envelope unsent receipts client1 where "batch = before @ envelope # unsent"
          "send_batch send_frame before c1 = (Inr receipts, client1)" "send_one send_frame envelope client1 = (Inl e, c2)"
          using Cons [of c1] b by auto
        then have "x # batch = (x # before) @ envelope # unsent \<and>
            send_batch send_frame (x # before) client = (Inr (receipt # receipts), client1) \<and>
            send_one send_frame envelope client1 = (Inl e, c2)"
          using x Inr by simp
        moreover have "send_batch send_frame (x # batch) client = (Inl e, c2)" using x Inr b \<open>r2 = Inl e\<close> \<open>r = Inr receipt\<close> by simp
        ultimately show ?thesis unfolding prod.case sum.case by (simp only: prod.case sum.case) blast
      next
        case (Inr receipts)
        then show ?thesis using Cons [of c1] x b \<open>r = Inr receipt\<close> by simp
      qed
    qed
  qed simp
  obtain batch runner where n: "next_dispatch_batch self = (batch, runner)" by fastforce
  obtain res c' where s: "send_batch send_frame batch client = (res, c')" by fastforce
  show ?thesis using sb [of batch] by (cases res) (simp_all add: dispatch_to_client_def n s)
qed

end
