(* ===== verification/Floats.thy ===== *)
theory Floats
  imports Prelude
begin

text \<open>
  The operations on \<^verbatim>\<open>f64\<close> that the sources use, as a record that the definitions take as an argument.
  No property of the development depends on how they round, except where a hypothesis says so.
  \<^verbatim>\<open>fo_literal\<close> is the value of a literal of the source, given by its text.
\<close>

record 'f float_ops =
  fo_of_int :: "int \<Rightarrow> 'f"
  fo_add :: "'f \<Rightarrow> 'f \<Rightarrow> 'f"
  fo_sub :: "'f \<Rightarrow> 'f \<Rightarrow> 'f"
  fo_mul :: "'f \<Rightarrow> 'f \<Rightarrow> 'f"
  fo_div :: "'f \<Rightarrow> 'f \<Rightarrow> 'f"
  fo_trunc_i64 :: "'f \<Rightarrow> int" \<comment> \<open>\<open>as i64\<close>\<close>
  fo_round :: "'f \<Rightarrow> 'f"

text \<open>With the reading of numbers from text, for the parsers.\<close>

record 'f text_float_ops = "'f float_ops" +
  fo_parse :: "string \<Rightarrow> 'f option"
  fo_literal :: "string \<Rightarrow> 'f"
  fo_is_finite :: "'f \<Rightarrow> bool"
  fo_less :: "'f \<Rightarrow> 'f \<Rightarrow> bool"
  fo_le :: "'f \<Rightarrow> 'f \<Rightarrow> bool"
  fo_abs :: "'f \<Rightarrow> 'f"
  fo_max :: "'f \<Rightarrow> 'f \<Rightarrow> 'f"
  fo_trunc_u64 :: "'f \<Rightarrow> nat" \<comment> \<open>\<open>as u64\<close>\<close>

text \<open>
  Integers as an instance for the witnesses: numbers are read from digits with an optional sign, a
  fraction or an exponent is cut off.
\<close>

fun digits_value :: "nat \<Rightarrow> string \<Rightarrow> nat option" where
  "digits_value acc [] = Some acc"
| "digits_value acc (c # cs) =
     (if 48 \<le> (of_char c :: nat) \<and> (of_char c :: nat) \<le> 57 then digits_value (10 * acc + (of_char c - 48)) cs
      else if c = CHR ''.'' \<or> c = CHR ''e'' then Some acc else None)"

fun int_text :: "string \<Rightarrow> int option" where
  "int_text [] = None"
| "int_text (c # cs) =
     (if c = CHR ''-'' then map_option (\<lambda>n. - int n) (if cs = [] then None else digits_value 0 cs)
      else map_option int (digits_value 0 (c # cs)))"

definition int_text_ops :: "int text_float_ops" where
  "int_text_ops = \<lparr>fo_of_int = id, fo_add = (+), fo_sub = (-), fo_mul = (*), fo_div = (div),
     fo_trunc_i64 = id, fo_round = id, fo_parse = int_text, fo_literal = (\<lambda>s. the (int_text s)),
     fo_is_finite = (\<lambda>_. True), fo_less = (<), fo_le = (\<le>), fo_abs = abs, fo_max = max, fo_trunc_u64 = nat\<rparr>"

end
