(* ===== verification/Simulator.thy ===== *)
theory Simulator
  imports Frames Floats "HOL-Library.Multiset"
begin

text \<open>
  \<^verbatim>\<open>crates/simulator/src/lib.rs\<close>: the command transport with its losses and delays, and the
  simulated controller: its bounded queue ordered by execution time, heaters, axes, the safety rules
  for a silent host and for a reset, the event trace and its replay comparison.

  Arithmetic that the source leaves to the machine's operators gives \<^verbatim>\<open>None\<close> where it would leave
  its range, the panic of a checked build.  The heaters' \<^verbatim>\<open>f64\<close> arithmetic is a record of operations,
  an argument of the definitions: no property here depends on how it rounds.  Error messages of
  \<^verbatim>\<open>process_wire_frame\<close> are kept as values.
\<close>

section \<open>Ticks\<close>

definition TICKS_PER_MS :: Tick where "TICKS_PER_MS = 1000"

definition STEP_TICKS :: Tick where "STEP_TICKS = TICKS_PER_MS"

section \<open>Events and traces\<close>

datatype Event =
    Accepted Tick string \<comment> \<open>at, what\<close>
  | Rejected Tick string string \<comment> \<open>at, what, reason\<close>
  | Executed Tick string
  | TempSample Tick string int \<comment> \<open>at, heater, milli-degrees\<close>
  | Endstop Tick string
  | SafeState Tick string string string \<comment> \<open>at, output, state, cause\<close>
  | FaultLatched Tick string
  | Reset Tick

fun event_at :: "Event \<Rightarrow> Tick" where
  "event_at (Accepted t _) = t"
| "event_at (Rejected t _ _) = t"
| "event_at (Executed t _) = t"
| "event_at (TempSample t _ _) = t"
| "event_at (Endstop t _) = t"
| "event_at (SafeState t _ _ _) = t"
| "event_at (FaultLatched t _) = t"
| "event_at (Reset t) = t"

type_synonym Trace = "Event list"

definition slice_get :: "'a list \<Rightarrow> nat \<Rightarrow> 'a option" where
  "slice_get xs i = (if i < length xs then Some (xs ! i) else None)"

definition first_divergence :: "Trace \<Rightarrow> Trace \<Rightarrow> nat option" where
  "first_divergence self other =
     (let n = max (length self) (length other) in
      List.find (\<lambda>i. slice_get self i \<noteq> slice_get other i) [0..<n])"

record TraceDivergence =
  td_event_index :: nat
  td_first_divergent_tick :: "Tick option"
  td_expected :: "Event option"
  td_actual :: "Event option"

record ReplayReport =
  rr_matched :: bool
  rr_expected_events :: nat
  rr_actual_events :: nat
  rr_divergence :: "TraceDivergence option"

definition replay_report :: "Trace \<Rightarrow> Trace \<Rightarrow> ReplayReport" where
  "replay_report self expected =
     (let divergence = map_option (\<lambda>event_index.
            let actual = slice_get self event_index; expct = slice_get expected event_index;
                first_divergent_tick =
                  (case (map_option event_at actual, map_option event_at expct) of
                     (Some a, Some e) \<Rightarrow> Some (min a e)
                   | (a, e) \<Rightarrow> if a = None then e else a)
            in \<lparr>td_event_index = event_index, td_first_divergent_tick = first_divergent_tick,
                td_expected = expct, td_actual = actual\<rparr>) (first_divergence self expected)
      in \<lparr>rr_matched = (divergence = None), rr_expected_events = length expected,
          rr_actual_events = length self, rr_divergence = divergence\<rparr>)"

section \<open>The command transport\<close>

record TransportConfig =
  tc_latency_ticks :: Tick
  tc_jitter_ticks :: Tick
  tc_loss_per_mille :: u16
  tc_dup_per_mille :: u16
  tc_seed :: u64

definition transport_config_default :: TransportConfig where
  "transport_config_default =
     \<lparr>tc_latency_ticks = 200, tc_jitter_ticks = 0, tc_loss_per_mille = 0, tc_dup_per_mille = 0, tc_seed = 0\<rparr>"

record SimTransport =
  tp_cfg :: TransportConfig
  tp_rng :: u64
  tp_in_flight :: "(Tick \<times> CommandEnvelope) list"
  tp_link_up :: bool

definition transport_new :: "TransportConfig \<Rightarrow> SimTransport" where
  "transport_new cfg =
     \<lparr>tp_cfg = cfg, tp_rng = tc_seed cfg * 2 + 1, tp_in_flight = [], tp_link_up = True\<rparr>"

definition next_rand :: "SimTransport \<Rightarrow> u64 \<times> SimTransport" where
  "next_rand self =
     (let rng = tp_rng self * 6364136223846793005 + 1442695040888963407 in
      (drop_bit 33 rng, self\<lparr>tp_rng := rng\<rparr>))"

definition roll :: "u16 \<Rightarrow> SimTransport \<Rightarrow> bool \<times> SimTransport" where
  "roll per_mille self =
     (if per_mille > 0
      then (case next_rand self of (r, self1) \<Rightarrow> (r mod 1000 < ucast per_mille, self1))
      else (False, self))"

definition transport_send_inner ::
  "Tick \<Rightarrow> Tick option \<Rightarrow> Command \<Rightarrow> SimTransport \<Rightarrow> SimTransport option" where
  "transport_send_inner now execute_at cmd self =
     (if \<not> tp_link_up self then Some self
      else
        (case roll (tc_loss_per_mille (tp_cfg self)) self of
           (True, self1) \<Rightarrow> Some self1
         | (False, self1) \<Rightarrow>
             (case (if tc_jitter_ticks (tp_cfg self1) > 0
                    then (case next_rand self1 of (r, self2) \<Rightarrow>
                      map_option (\<lambda>n. (r mod n, self2)) (checked_add (tc_jitter_ticks (tp_cfg self1)) 1))
                    else Some (0, self1))
              of
                None \<Rightarrow> None
              | Some (jitter, self2) \<Rightarrow>
                  let arrival = saturating_add (saturating_add now (tc_latency_ticks (tp_cfg self2))) jitter;
                      message = \<lparr>ce_execute_at = execute_at, ce_command = cmd\<rparr>;
                      self3 = self2\<lparr>tp_in_flight := tp_in_flight self2 @ [(arrival, message)]\<rparr> in
                  (case roll (tc_dup_per_mille (tp_cfg self3)) self3 of
                     (True, self4) \<Rightarrow>
                       Some (self4\<lparr>tp_in_flight := tp_in_flight self4 @ [(saturating_add arrival 1, message)]\<rparr>)
                   | (False, self4) \<Rightarrow> Some self4))))"

definition transport_send :: "Tick \<Rightarrow> Command \<Rightarrow> SimTransport \<Rightarrow> SimTransport option" where
  "transport_send now cmd self = transport_send_inner now None cmd self"

definition transport_send_scheduled ::
  "Tick \<Rightarrow> Tick \<Rightarrow> Command \<Rightarrow> SimTransport \<Rightarrow> SimTransport option" where
  "transport_send_scheduled now execute_at cmd self = transport_send_inner now (Some execute_at) cmd self"

definition drop_link :: "SimTransport \<Rightarrow> SimTransport" where
  "drop_link self = self\<lparr>tp_link_up := False, tp_in_flight := []\<rparr>"

definition restore_link :: "SimTransport \<Rightarrow> SimTransport" where
  "restore_link self = self\<lparr>tp_link_up := True\<rparr>"

text \<open>\<^verbatim>\<open>sort_by_key\<close> is stable, as \<^verbatim>\<open>sort_key\<close> is.\<close>

definition deliver_due :: "Tick \<Rightarrow> SimTransport \<Rightarrow> CommandEnvelope list \<times> SimTransport" where
  "deliver_due now self =
     (let due = filter (\<lambda>(at, _). at \<le> now) (tp_in_flight self);
          self1 = self\<lparr>tp_in_flight := filter (\<lambda>(at, _). \<not> at \<le> now) (tp_in_flight self)\<rparr> in
      (map snd (sort_key fst due), self1))"

section \<open>The controller's state\<close>

record HeaterCfg =
  hc_name :: string
  hc_gain_milli_c :: int
  hc_tau_ms :: u64
  hc_safe_state :: string
  hc_heartbeat_timeout :: "Tick option"

record AxisCfg =
  ac_name :: string
  ac_start_position_um :: int

record 'f HeaterState =
  hs_cfg :: HeaterCfg
  hs_milli_c :: 'f
  hs_target_milli_c :: int
  hs_duty_on :: bool
  hs_forced_safe :: bool

record Motion =
  mo_what :: string
  mo_per_ms_um :: int
  mo_remaining_um :: int
  mo_homing :: bool

record AxisState =
  ax_cfg :: AxisCfg
  ax_position_um :: int
  ax_motion :: "Motion option"

record QueueWindow =
  qw_min_lead_ticks :: Tick
  qw_max_horizon_ticks :: Tick

record QueueWindowError =
  qe_min_lead_ticks :: Tick
  qe_max_horizon_ticks :: Tick

definition queue_window_new :: "Tick \<Rightarrow> Tick \<Rightarrow> QueueWindowError + QueueWindow" where
  "queue_window_new min_lead_ticks max_horizon_ticks =
     (if max_horizon_ticks < min_lead_ticks
      then Inl \<lparr>qe_min_lead_ticks = min_lead_ticks, qe_max_horizon_ticks = max_horizon_ticks\<rparr>
      else Inr \<lparr>qw_min_lead_ticks = min_lead_ticks, qw_max_horizon_ticks = max_horizon_ticks\<rparr>)"

definition queue_window_default :: QueueWindow where
  "queue_window_default =
     \<lparr>qw_min_lead_ticks = 100 * TICKS_PER_MS, qw_max_horizon_ticks = 1000 * TICKS_PER_MS\<rparr>"

record SimQueueStatus =
  sq_capacity :: nat
  sq_fill_level :: nat
  sq_earliest_accepted_timestamp :: Tick
  sq_latest_accepted_timestamp :: Tick

record QueuedCommand =
  qc_execute_at :: Tick
  qc_command :: Command

record 'f SimController =
  sc_now :: Tick
  sc_ambient_milli_c :: int
  sc_heaters :: "'f HeaterState list"
  sc_axes :: "AxisState list"
  sc_queue :: "QueuedCommand list"
  sc_queue_capacity :: nat
  sc_queue_window :: QueueWindow
  sc_last_heartbeat :: Tick
  sc_latched_fault :: "string option"
  sc_temp_sample_every :: Tick
  sc_next_temp_sample :: Tick
  sc_trace :: Trace

definition controller_new ::
  "'f float_ops \<Rightarrow> int \<Rightarrow> HeaterCfg list \<Rightarrow> AxisCfg list \<Rightarrow> 'f SimController" where
  "controller_new fo ambient_milli_c heaters axes =
     \<lparr>sc_now = 0, sc_ambient_milli_c = ambient_milli_c,
      sc_heaters = map (\<lambda>cfg. \<lparr>hs_cfg = cfg, hs_milli_c = fo_of_int fo ambient_milli_c,
         hs_target_milli_c = 0, hs_duty_on = False, hs_forced_safe = False\<rparr>) heaters,
      sc_axes = map (\<lambda>cfg. \<lparr>ax_cfg = cfg, ax_position_um = ac_start_position_um cfg, ax_motion = None\<rparr>) axes,
      sc_queue = [], sc_queue_capacity = 16, sc_queue_window = queue_window_default,
      sc_last_heartbeat = 0, sc_latched_fault = None,
      sc_temp_sample_every = 100 * TICKS_PER_MS, sc_next_temp_sample = 100 * TICKS_PER_MS,
      sc_trace = []\<rparr>"

definition heater_milli_c :: "'f float_ops \<Rightarrow> 'f SimController \<Rightarrow> string \<Rightarrow> int option" where
  "heater_milli_c fo self name =
     map_option (\<lambda>h. fo_trunc_i64 fo (fo_round fo (hs_milli_c h)))
       (List.find (\<lambda>h. hc_name (hs_cfg h) = name) (sc_heaters self))"

definition axis_position_um :: "'f SimController \<Rightarrow> string \<Rightarrow> int option" where
  "axis_position_um self name =
     map_option ax_position_um (List.find (\<lambda>a. ac_name (ax_cfg a) = name) (sc_axes self))"

definition queue_status :: "'f SimController \<Rightarrow> SimQueueStatus" where
  "queue_status self =
     \<lparr>sq_capacity = sc_queue_capacity self, sq_fill_level = length (sc_queue self),
      sq_earliest_accepted_timestamp = saturating_add (sc_now self) (qw_min_lead_ticks (sc_queue_window self)),
      sq_latest_accepted_timestamp = saturating_add (sc_now self) (qw_max_horizon_ticks (sc_queue_window self))\<rparr>"

definition set_queue_window :: "QueueWindow \<Rightarrow> 'f SimController \<Rightarrow> 'f SimController" where
  "set_queue_window window self = self\<lparr>sc_queue_window := window\<rparr>"

definition push_event :: "Event \<Rightarrow> 'f SimController \<Rightarrow> 'f SimController" where
  "push_event e self = self\<lparr>sc_trace := sc_trace self @ [e]\<rparr>"

fun summarize :: "Command \<Rightarrow> string" where
  "summarize Heartbeat = ''heartbeat''"
| "summarize (SetHeaterTarget heater target_milli_c) =
     ''set '' @ heater @ '' -> '' @ dec_int (sint target_milli_c) @ '' mC''"
| "summarize (Home axis _) = ''home '' @ axis"
| "summarize (Move axis distance_um _) =
     ''move '' @ axis @ '' '' @ dec_int (sint distance_um) @ '' um''"

section \<open>Accepting commands\<close>

definition reject :: "string \<Rightarrow> string \<Rightarrow> 'f SimController \<Rightarrow> 'f SimController" where
  "reject what reason self = push_event (Rejected (sc_now self) what reason) self"

fun insert_queued :: "QueuedCommand \<Rightarrow> QueuedCommand list \<Rightarrow> QueuedCommand list" where
  "insert_queued q [] = [q]"
| "insert_queued q (x # xs) =
     (if qc_execute_at x > qc_execute_at q then q # x # xs else x # insert_queued q xs)"

definition accept :: "CommandEnvelope \<Rightarrow> 'f SimController \<Rightarrow> 'f SimController" where
  "accept incoming self =
     (let command = ce_command incoming; execute_at = ce_execute_at incoming;
          what = (case execute_at of
                    Some t \<Rightarrow> summarize command @ '' @ '' @ dec_nat (unat t)
                  | None \<Rightarrow> summarize command) in
      case sc_latched_fault self of
        Some code \<Rightarrow> reject what (''fault latched: '' @ code) self
      | None \<Rightarrow>
          if command = Heartbeat then
            (if execute_at \<noteq> None then reject what ''heartbeat cannot be scheduled'' self
             else self\<lparr>sc_last_heartbeat := sc_now self\<rparr>)
          else
            let scheduled_for = (case execute_at of Some t \<Rightarrow> t | None \<Rightarrow> sc_now self);
                status = queue_status self in
            if execute_at \<noteq> None \<and> scheduled_for mod STEP_TICKS \<noteq> 0 then
              reject what (''timestamp '' @ dec_nat (unat scheduled_for) @ '' is not aligned to the ''
                @ dec_nat (unat STEP_TICKS) @ ''-tick execution quantum'') self
            else if execute_at \<noteq> None \<and> scheduled_for < sq_earliest_accepted_timestamp status then
              reject what (''timestamp '' @ dec_nat (unat scheduled_for) @ '' is before earliest accepted ''
                @ dec_nat (unat (sq_earliest_accepted_timestamp status))) self
            else if execute_at \<noteq> None \<and> scheduled_for > sq_latest_accepted_timestamp status then
              reject what (''timestamp '' @ dec_nat (unat scheduled_for) @ '' is after latest accepted ''
                @ dec_nat (unat (sq_latest_accepted_timestamp status))) self
            else if length (sc_queue self) \<ge> sc_queue_capacity self then
              reject what ''queue full'' self
            else
              let self1 = push_event (Accepted (sc_now self) what) self in
              self1\<lparr>sc_queue := insert_queued \<lparr>qc_execute_at = scheduled_for, qc_command = command\<rparr>
                                  (sc_queue self1)\<rparr>)"

datatype WireFrameError =
    HeaderTooShort
  | DecodeCommandError DecodeError
  | DecodeQueueStatusError DecodeError
  | EncodeQueueStatusError EncodeError
  | DecodeClockRequestError DecodeError
  | EncodeClockResponseError EncodeError
  | UnsupportedMessageType u8

definition process_wire_frame ::
  "u8 list \<Rightarrow> ('f SimController, WireFrameError, u8 list option) st" where
  "process_wire_frame frame self =
     (if length frame < 4 then (Inl HeaderTooShort, self)
      else
        let message_type = frame ! 3 in
        if message_type = COMMAND_MESSAGE_TYPE then
          (case decode_command frame of
             Inl e \<Rightarrow> (Inl (DecodeCommandError e), self)
           | Inr cmd_frame \<Rightarrow> (Inr None, accept (cf_envelope cmd_frame) self))
        else if message_type = QUEUE_STATUS_MESSAGE_TYPE then
          (case decode_queue_status frame of
             Inl e \<Rightarrow> (Inl (DecodeQueueStatusError e), self)
           | Inr status_req \<Rightarrow>
               let status = queue_status self;
                   status_resp = \<lparr>qf_sequence = qf_sequence status_req,
                     qf_status = \<lparr>qs_capacity = of_nat (sq_capacity status), qs_fill = of_nat (sq_fill_level status),
                       qs_earliest_accepted = sq_earliest_accepted_timestamp status,
                       qs_latest_accepted = sq_latest_accepted_timestamp status,
                       qs_underrun = (sc_latched_fault self \<noteq> None)\<rparr>\<rparr> in
               (case encode_queue_status status_resp (replicate QUEUE_STATUS_FRAME_LEN 0) of
                  (Inl e, _) \<Rightarrow> (Inl (EncodeQueueStatusError e), self)
                | (Inr len, buf) \<Rightarrow> (Inr (Some (take len buf)), self)))
        else if message_type = CLOCK_REQUEST_MESSAGE_TYPE then
          (case decode_clock_request frame of
             Inl e \<Rightarrow> (Inl (DecodeClockRequestError e), self)
           | Inr clock_req \<Rightarrow>
               let clock_resp = \<lparr>rf_sequence = rq_sequence clock_req,
                     rf_response = \<lparr>cr_controller_receive = sc_now self, cr_controller_send = sc_now self\<rparr>\<rparr> in
               (case encode_clock_response clock_resp (replicate CLOCK_RESPONSE_FRAME_LEN 0) of
                  (Inl e, _) \<Rightarrow> (Inl (EncodeClockResponseError e), self)
                | (Inr len, buf) \<Rightarrow> (Inr (Some (take len buf)), self)))
        else (Inl (UnsupportedMessageType message_type), self))"

definition controller_reset :: "'f SimController \<Rightarrow> 'f SimController" where
  "controller_reset self =
     (let at = sc_now self;
          heaters = map (\<lambda>h. h\<lparr>hs_target_milli_c := 0, hs_duty_on := False, hs_forced_safe := False\<rparr>) (sc_heaters self);
          safe = map (\<lambda>h. SafeState at (hc_name (hs_cfg h)) (hc_safe_state (hs_cfg h)) ''controller-reset'') heaters in
      self\<lparr>sc_heaters := heaters, sc_axes := map (\<lambda>a. a\<lparr>ax_motion := None\<rparr>) (sc_axes self), sc_queue := [],
           sc_latched_fault := Some ''controller-reset'',
           sc_trace := sc_trace self @ [Reset at] @ safe @ [FaultLatched at ''controller-reset'']\<rparr>)"

section \<open>Running\<close>

text \<open>\<^verbatim>\<open>iter_mut().find(..)\<close>: the first element with the property is changed.\<close>

fun update_first :: "('a \<Rightarrow> bool) \<Rightarrow> ('a \<Rightarrow> 'a) \<Rightarrow> 'a list \<Rightarrow> 'a list" where
  "update_first P g [] = []"
| "update_first P g (x # xs) = (if P x then g x # xs else x # update_first P g xs)"

fun start_command :: "Command \<Rightarrow> 'f SimController \<Rightarrow> 'f SimController option" where
  "start_command Heartbeat self = Some self"
| "start_command (SetHeaterTarget heater target_milli_c) self =
     (if list_ex (\<lambda>h. hc_name (hs_cfg h) = heater) (sc_heaters self)
      then Some (push_event (Executed (sc_now self)
               (''heater '' @ heater @ '' target '' @ dec_int (sint target_milli_c) @ '' mC''))
             (self\<lparr>sc_heaters := update_first (\<lambda>h. hc_name (hs_cfg h) = heater)
                (\<lambda>h. h\<lparr>hs_target_milli_c := sint target_milli_c, hs_forced_safe := False\<rparr>) (sc_heaters self)\<rparr>))
      else Some self)"
| "start_command (Home axis rate_um_s) self =
     (let per_ms = - (sint rate_um_s sdiv 1000) in
      Some (self\<lparr>sc_axes := update_first (\<lambda>a. ac_name (ax_cfg a) = axis)
        (\<lambda>a. a\<lparr>ax_motion := Some \<lparr>mo_what = ''home '' @ axis, mo_per_ms_um = per_ms,
                 mo_remaining_um = 0, mo_homing = True\<rparr>\<rparr>) (sc_axes self)\<rparr>))"
| "start_command (Move axis distance_um rate_um_s) self =
     (if list_ex (\<lambda>a. ac_name (ax_cfg a) = axis) (sc_axes self) then
        map_option (\<lambda>product. self\<lparr>sc_axes := update_first (\<lambda>a. ac_name (ax_cfg a) = axis)
          (\<lambda>a. a\<lparr>ax_motion := Some \<lparr>mo_what = ''move '' @ axis @ '' '' @ dec_int (sint distance_um) @ '' um'',
                   mo_per_ms_um = product sdiv 1000, mo_remaining_um = sint distance_um, mo_homing = False\<rparr>\<rparr>)
          (sc_axes self)\<rparr>) (i64_fit (sgn (sint distance_um) * sint rate_um_s))
      else Some self)"

text \<open>\<^verbatim>\<open>while front().is_some_and(..) { pop_front .. }\<close>\<close>

fun start_loop :: "QueuedCommand list \<Rightarrow> 'f SimController \<Rightarrow> 'f SimController option" where
  "start_loop [] self = Some (self\<lparr>sc_queue := []\<rparr>)"
| "start_loop (queued # rest) self =
     (if qc_execute_at queued \<le> sc_now self
      then Option.bind (start_command (qc_command queued) (self\<lparr>sc_queue := rest\<rparr>)) (start_loop rest)
      else Some (self\<lparr>sc_queue := queued # rest\<rparr>))"

definition start_due :: "'f SimController \<Rightarrow> 'f SimController option" where
  "start_due self = start_loop (sc_queue self) self"

text \<open>Heartbeat loss, for one heater: the heater and the events it adds.\<close>

definition heartbeat_check :: "Tick \<Rightarrow> Tick \<Rightarrow> 'f HeaterState \<Rightarrow> 'f HeaterState \<times> Event list" where
  "heartbeat_check now last_heartbeat h =
     (case hc_heartbeat_timeout (hs_cfg h) of
        None \<Rightarrow> (h, [])
      | Some timeout \<Rightarrow>
          if \<not> hs_forced_safe h \<and> hs_target_milli_c h > 0 \<and> saturating_sub now last_heartbeat > timeout
          then (h\<lparr>hs_target_milli_c := 0, hs_duty_on := False, hs_forced_safe := True\<rparr>,
                [SafeState now (hc_name (hs_cfg h)) (hc_safe_state (hs_cfg h)) ''heartbeat-loss''])
          else (h, []))"

definition enforce_heartbeat :: "'f SimController \<Rightarrow> 'f SimController" where
  "enforce_heartbeat self =
     (let hs = map (heartbeat_check (sc_now self) (sc_last_heartbeat self)) (sc_heaters self) in
      self\<lparr>sc_heaters := map fst hs, sc_trace := sc_trace self @ concat (map snd hs)\<rparr>)"

definition heater_step :: "'f float_ops \<Rightarrow> int \<Rightarrow> 'f HeaterState \<Rightarrow> 'f HeaterState" where
  "heater_step fo ambient_milli_c h =
     (let duty_on = (\<not> hs_forced_safe h \<and> fo_trunc_i64 fo (hs_milli_c h) < hs_target_milli_c h);
          drive = (if duty_on then fo_of_int fo (hc_gain_milli_c (hs_cfg h)) else fo_of_int fo 0);
          ambient = fo_of_int fo ambient_milli_c;
          dt_over_tau = fo_div fo (fo_of_int fo 1) (fo_of_int fo (uint (hc_tau_ms (hs_cfg h)))) in
      h\<lparr>hs_duty_on := duty_on,
        hs_milli_c := fo_add fo (hs_milli_c h)
          (fo_mul fo (fo_sub fo drive (fo_sub fo (hs_milli_c h) ambient)) dt_over_tau)\<rparr>)"

definition axis_step :: "Tick \<Rightarrow> AxisState \<Rightarrow> (AxisState \<times> Event list) option" where
  "axis_step now a =
     (case ax_motion a of
        None \<Rightarrow> Some (a, [])
      | Some m \<Rightarrow>
          if mo_homing m then
            map_option (\<lambda>position.
                if position \<le> 0
                then (a\<lparr>ax_position_um := 0, ax_motion := None\<rparr>,
                      [Endstop now (ac_name (ax_cfg a)), Executed now (mo_what m)])
                else (a\<lparr>ax_position_um := position\<rparr>, []))
              (i64_fit (ax_position_um a + mo_per_ms_um m))
          else
            Option.bind (i64_fit \<bar>mo_per_ms_um m\<bar>) (\<lambda>abs_rate.
            Option.bind (i64_fit \<bar>mo_remaining_um m\<bar>) (\<lambda>abs_remaining.
            let step = (if abs_rate \<ge> abs_remaining then mo_remaining_um m else mo_per_ms_um m) in
            Option.bind (i64_fit (ax_position_um a + step)) (\<lambda>position.
            map_option (\<lambda>remaining.
                if remaining = 0
                then (a\<lparr>ax_position_um := position, ax_motion := None\<rparr>, [Executed now (mo_what m)])
                else (a\<lparr>ax_position_um := position, ax_motion := Some (m\<lparr>mo_remaining_um := remaining\<rparr>)\<rparr>, []))
              (i64_fit (mo_remaining_um m - step))))))"

fun axes_step :: "Tick \<Rightarrow> AxisState list \<Rightarrow> (AxisState list \<times> Event list) option" where
  "axes_step now [] = Some ([], [])"
| "axes_step now (a # as) =
     Option.bind (axis_step now a) (\<lambda>(a1, es).
     map_option (\<lambda>(as1, es1). (a1 # as1, es @ es1)) (axes_step now as))"

definition sample_temperatures :: "'f float_ops \<Rightarrow> 'f SimController \<Rightarrow> 'f SimController option" where
  "sample_temperatures fo self =
     (if sc_now self \<ge> sc_next_temp_sample self then
        map_option (\<lambda>next_sample. self\<lparr>sc_next_temp_sample := next_sample,
            sc_trace := sc_trace self @ map (\<lambda>h. TempSample (sc_now self) (hc_name (hs_cfg h))
              (fo_trunc_i64 fo (fo_round fo (hs_milli_c h)))) (sc_heaters self)\<rparr>)
          (checked_add (sc_next_temp_sample self) (sc_temp_sample_every self))
      else Some self)"

text \<open>The body of the loop of \<^verbatim>\<open>run\<close>.\<close>

definition run_step ::
  "'f float_ops \<Rightarrow> SimTransport \<Rightarrow> 'f SimController \<Rightarrow> (SimTransport \<times> 'f SimController) option" where
  "run_step fo transport self =
     Option.bind (checked_add (sc_now self) STEP_TICKS) (\<lambda>now.
     case deliver_due now transport of (commands, transport1) \<Rightarrow>
     Option.bind (start_due (fold accept commands (self\<lparr>sc_now := now\<rparr>))) (\<lambda>self1.
     let self2 = enforce_heartbeat self1;
         self3 = self2\<lparr>sc_heaters := map (heater_step fo (sc_ambient_milli_c self2)) (sc_heaters self2)\<rparr> in
     Option.bind (axes_step now (sc_axes self3)) (\<lambda>(axes, events).
     let self4 = self3\<lparr>sc_axes := axes, sc_trace := sc_trace self3 @ events\<rparr> in
     map_option (\<lambda>self5. (transport1, self5)) (sample_temperatures fo self4))))"


section \<open>What the parts of a step keep\<close>

lemma accept_fields [simp]:
  "sc_now (accept m c) = sc_now c" "sc_heaters (accept m c) = sc_heaters c" "sc_axes (accept m c) = sc_axes c"
  "sc_latched_fault (accept m c) = sc_latched_fault c" "sc_queue_capacity (accept m c) = sc_queue_capacity c"
  by (simp_all add: accept_def reject_def push_event_def Let_def split: option.split)

lemma fold_accept_fields [simp]:
  "sc_now (fold accept ms c) = sc_now c" "sc_heaters (fold accept ms c) = sc_heaters c"
  "sc_axes (fold accept ms c) = sc_axes c" "sc_latched_fault (fold accept ms c) = sc_latched_fault c"
  "sc_queue_capacity (fold accept ms c) = sc_queue_capacity c"
  by (induction ms arbitrary: c) simp_all

lemma start_command_fields:
  assumes "start_command cmd c = Some c'"
  shows "sc_now c' = sc_now c \<and> sc_queue c' = sc_queue c \<and> sc_latched_fault c' = sc_latched_fault c \<and>
    sc_queue_capacity c' = sc_queue_capacity c \<and> sc_last_heartbeat c' = sc_last_heartbeat c"
  using assms by (cases cmd) (auto simp: push_event_def Let_def split: if_splits)

lemma start_loop_fields:
  "start_loop q c = Some c' \<Longrightarrow> sc_now c' = sc_now c \<and> sc_latched_fault c' = sc_latched_fault c \<and>
     sc_queue_capacity c' = sc_queue_capacity c \<and> sc_last_heartbeat c' = sc_last_heartbeat c"
  by (induction q arbitrary: c)
    (auto simp: bind_eq_Some_conv dest!: start_command_fields split: if_splits)

lemma start_loop_queue:
  "start_loop q c = Some c' \<Longrightarrow> sc_queue c' = dropWhile (\<lambda>x. qc_execute_at x \<le> sc_now c) q"
proof (induction q arbitrary: c)
  case (Cons x q)
  show ?case
  proof (cases "qc_execute_at x \<le> sc_now c")
    case True
    then obtain c1 where c1: "start_command (qc_command x) (c\<lparr>sc_queue := q\<rparr>) = Some c1" "start_loop q c1 = Some c'"
      using Cons.prems by (auto simp: bind_eq_Some_conv)
    then show ?thesis using Cons.IH [OF c1(2)] start_command_fields [OF c1(1)] True by simp
  next
    case False
    then show ?thesis using Cons.prems by auto
  qed
qed auto

lemma enforce_fields [simp]:
  "sc_now (enforce_heartbeat c) = sc_now c" "sc_queue (enforce_heartbeat c) = sc_queue c"
  "sc_axes (enforce_heartbeat c) = sc_axes c" "sc_latched_fault (enforce_heartbeat c) = sc_latched_fault c"
  "sc_queue_capacity (enforce_heartbeat c) = sc_queue_capacity c"
  "sc_last_heartbeat (enforce_heartbeat c) = sc_last_heartbeat c"
  by (simp_all add: enforce_heartbeat_def Let_def)

lemma sample_fields:
  "sample_temperatures fo c = Some c' \<Longrightarrow> sc_now c' = sc_now c \<and> sc_queue c' = sc_queue c \<and>
     sc_heaters c' = sc_heaters c \<and> sc_axes c' = sc_axes c \<and> sc_latched_fault c' = sc_latched_fault c \<and>
     sc_queue_capacity c' = sc_queue_capacity c \<and> sc_last_heartbeat c' = sc_last_heartbeat c"
  by (auto simp: sample_temperatures_def split: if_splits)

text \<open>One step, opened.\<close>

lemma run_stepE:
  assumes "run_step fo tr c = Some (tr', c')"
  obtains now cmds c1 axes events where
    "checked_add (sc_now c) STEP_TICKS = Some now" "deliver_due now tr = (cmds, tr')"
    "start_due (fold accept cmds (c\<lparr>sc_now := now\<rparr>)) = Some c1"
    "axes_step now (sc_axes c1) = Some (axes, events)"
    "sc_now c' = now" "sc_queue c' = sc_queue c1" "sc_axes c' = axes"
    "sc_heaters c' = map (heater_step fo (sc_ambient_milli_c (enforce_heartbeat c1))) (sc_heaters (enforce_heartbeat c1))"
    "sc_latched_fault c' = sc_latched_fault c" "sc_queue_capacity c' = sc_queue_capacity c"
    "sc_last_heartbeat c' = sc_last_heartbeat c1" "sc_now c1 = now" "sc_latched_fault c1 = sc_latched_fault c"
proof -
  obtain now where now: "checked_add (sc_now c) STEP_TICKS = Some now"
    using assms by (auto simp: run_step_def bind_eq_Some_conv)
  obtain cmds tr1 where due: "deliver_due now tr = (cmds, tr1)" by fastforce
  let ?c0 = "fold accept cmds (c\<lparr>sc_now := now\<rparr>)"
  obtain c1 where c1: "start_due ?c0 = Some c1"
    using assms now due by (auto simp: run_step_def bind_eq_Some_conv)
  let ?c3 = "(enforce_heartbeat c1)\<lparr>sc_heaters := map (heater_step fo (sc_ambient_milli_c (enforce_heartbeat c1)))
    (sc_heaters (enforce_heartbeat c1))\<rparr>"
  obtain axes events where ax: "axes_step now (sc_axes c1) = Some (axes, events)"
    using assms now due c1 by (auto simp: run_step_def bind_eq_Some_conv Let_def)
  have sm: "sample_temperatures fo (?c3\<lparr>sc_axes := axes, sc_trace := sc_trace ?c3 @ events\<rparr>) = Some c' \<and> tr' = tr1"
    using assms now due c1 ax by (auto simp: run_step_def Let_def)
  have f1: "sc_now c1 = now" "sc_latched_fault c1 = sc_latched_fault c" "sc_queue_capacity c1 = sc_queue_capacity c"
    using start_loop_fields [OF c1 [unfolded start_due_def]] by simp_all
  show thesis
    using sample_fields [OF conjunct1 [OF sm]] sm f1
    by (intro that [OF now _ c1 ax]) (simp_all add: due)
qed

lemma checked_add_unat:
  assumes "checked_add a b = Some c"
  shows "unat c = unat a + unat b"
proof -
  have "int (unat c) = int (unat a + unat b)" using checked_add_uint [OF assms] by simp
  then show ?thesis by (simp only: of_nat_eq_iff)
qed

lemma run_step_now: "run_step fo tr c = Some (tr', c') \<Longrightarrow> unat (sc_now c') = unat (sc_now c) + 1000"
  by (erule run_stepE, drule checked_add_unat) (simp add: STEP_TICKS_def TICKS_PER_MS_def)

function run ::
  "'f float_ops \<Rightarrow> Tick \<Rightarrow> SimTransport \<Rightarrow> 'f SimController \<Rightarrow> (SimTransport \<times> 'f SimController) option" where
  "run fo until transport self =
     (if sc_now self < until
      then (case run_step fo transport self of
              None \<Rightarrow> None
            | Some (transport1, self1) \<Rightarrow> run fo until transport1 self1)
      else Some (transport, self))"
  by auto
termination
  by (relation "measure (\<lambda>(_, until, _, c). unat until - unat (sc_now c))")
    (auto simp: word_less_nat_alt dest!: run_step_now)

declare run.simps [simp del]

section \<open>The queue\<close>

definition queue_sorted :: "QueuedCommand list \<Rightarrow> bool" where
  "queue_sorted q \<longleftrightarrow> sorted (map qc_execute_at q)"

lemma set_insert_queued [simp]: "set (insert_queued q xs) = insert q (set xs)"
  by (induction xs) auto

lemma length_insert_queued [simp]: "length (insert_queued q xs) = Suc (length xs)"
  by (induction xs) auto

lemma queue_sorted_insert: "queue_sorted xs \<Longrightarrow> queue_sorted (insert_queued q xs)"
  by (induction xs) (auto simp: queue_sorted_def)

definition queue_ok :: "'f SimController \<Rightarrow> bool" where
  "queue_ok c \<longleftrightarrow> queue_sorted (sc_queue c) \<and> length (sc_queue c) \<le> sc_queue_capacity c"

lemma queue_ok_accept: "queue_ok c \<Longrightarrow> queue_ok (accept m c)"
  by (auto simp: queue_ok_def accept_def reject_def push_event_def Let_def queue_sorted_insert split: option.split)

lemma queue_ok_fold_accept: "queue_ok c \<Longrightarrow> queue_ok (fold accept ms c)"
  by (induction ms arbitrary: c) (simp_all add: queue_ok_accept)

lemma queue_ok_start:
  assumes "queue_ok c" "start_due c = Some c'"
  shows "queue_ok c' \<and> (\<forall>q\<in>set (sc_queue c'). sc_now c < qc_execute_at q)"
proof -
  have q: "sc_queue c' = dropWhile (\<lambda>x. qc_execute_at x \<le> sc_now c) (sc_queue c)"
    using start_loop_queue assms(2) unfolding start_due_def by blast
  have srt: "sorted (map qc_execute_at (sc_queue c'))"
    using assms(1) sorted_dropWhile [of "map qc_execute_at (sc_queue c)" "\<lambda>t. t \<le> sc_now c"]
    by (simp add: q queue_ok_def queue_sorted_def dropWhile_map comp_def)
  have "sc_now c < qc_execute_at x" if x: "x \<in> set (sc_queue c')" for x
  proof -
    obtain y ys where y: "sc_queue c' = y # ys" using x by (cases "sc_queue c'") auto
    then have "\<not> qc_execute_at y \<le> sc_now c" using hd_dropWhile [of "\<lambda>x. qc_execute_at x \<le> sc_now c" "sc_queue c"]
      unfolding q [symmetric] by simp
    moreover have "qc_execute_at y \<le> qc_execute_at x" using srt x by (auto simp: y)
    ultimately show ?thesis by simp
  qed
  moreover have "length (sc_queue c') \<le> length (sc_queue c)" unfolding q by (rule length_dropWhile_le)
  ultimately show ?thesis
    using srt assms start_loop_fields [OF assms(2) [unfolded start_due_def]]
    by (auto simp: queue_ok_def queue_sorted_def)
qed


section \<open>Reachable controllers\<close>

inductive sim_reach :: "'f float_ops \<Rightarrow> 'f SimController \<Rightarrow> 'f SimController \<Rightarrow> bool" for fo c0 where
  reach_start: "sim_reach fo c0 c0"
| reach_frame: "sim_reach fo c0 c \<Longrightarrow> process_wire_frame frame c = (r, c') \<Longrightarrow> sim_reach fo c0 c'"
| reach_step: "sim_reach fo c0 c \<Longrightarrow> run_step fo tr c = Some (tr', c') \<Longrightarrow> sim_reach fo c0 c'"
| reach_reset: "sim_reach fo c0 c \<Longrightarrow> sim_reach fo c0 (controller_reset c)"
| reach_window: "sim_reach fo c0 c \<Longrightarrow> sim_reach fo c0 (set_queue_window w c)"

lemma process_wire_frame_cases:
  "process_wire_frame frame c = (r, c') \<Longrightarrow> c' = c \<or> (\<exists>m. c' = accept m c)"
  by (auto simp: process_wire_frame_def Let_def split: sum.splits prod.splits if_splits)

lemma run_reach:
  "sim_reach fo c0 c \<Longrightarrow> run fo until tr c = Some (tr', c') \<Longrightarrow> sim_reach fo c0 c'"
proof (induction fo until tr c rule: run.induct)
  case (1 fo until tr c)
  show ?case
  proof (cases "sc_now c < until")
    case True
    then obtain tr1 c1 where s: "run_step fo tr c = Some (tr1, c1)" "run fo until tr1 c1 = Some (tr', c')"
      using 1(3) by (auto simp: run.simps [of fo until tr c] split: option.splits)
    show ?thesis using 1(1) [OF True s(1) refl reach_step [OF 1(2) s(1)] s(2)] .
  next
    case False
    then show ?thesis using 1(2,3) by (simp add: run.simps [of fo until tr c])
  qed
qed

text \<open>A run that does anything ends with a step.\<close>

lemma run_last_step:
  "run fo until tr c = Some (tr', c') \<Longrightarrow> sc_now c < until \<Longrightarrow> sim_reach fo c0 c \<Longrightarrow>
     \<exists>tr1 c1. sim_reach fo c0 c1 \<and> run_step fo tr1 c1 = Some (tr', c') \<and> until \<le> sc_now c'"
proof (induction fo until tr c rule: run.induct)
  case (1 fo until tr c)
  obtain tr1 c1 where s: "run_step fo tr c = Some (tr1, c1)" "run fo until tr1 c1 = Some (tr', c')"
    using 1(2,3) by (auto simp: run.simps [of fo until tr c] split: option.splits)
  show ?case
  proof (cases "sc_now c1 < until")
    case True
    show ?thesis using 1(1) [OF 1(3) s(1) refl s(2) True reach_step [OF 1(4) s(1)]] .
  next
    case False
    then have "tr' = tr1" "c' = c1" using s(2) by (simp_all add: run.simps [of fo until tr1 c1])
    then show ?thesis using s(1) 1(4) False by (intro exI [of _ tr] exI [of _ c]) auto
  qed
qed

definition heaters_ok :: "'f SimController \<Rightarrow> bool" where
  "heaters_ok c \<longleftrightarrow> (\<forall>h\<in>set (sc_heaters c). hs_forced_safe h \<longrightarrow> hs_target_milli_c h = 0)"

definition inert :: "'f SimController \<Rightarrow> bool" where
  "inert c \<longleftrightarrow> sc_queue c = [] \<and> (\<forall>h\<in>set (sc_heaters c). hs_target_milli_c h = 0) \<and>
     (\<forall>a\<in>set (sc_axes c). ax_motion a = None)"

definition sim_ok :: "'f SimController \<Rightarrow> bool" where
  "sim_ok c \<longleftrightarrow> queue_ok c \<and> heaters_ok c \<and> (sc_latched_fault c \<noteq> None \<longrightarrow> inert c)"

lemma set_update_first: "set (update_first P g xs) \<subseteq> set xs \<union> {g x | x. x \<in> set xs \<and> P x}"
  by (induction xs) auto

lemma accept_latched: "sc_latched_fault c \<noteq> None \<Longrightarrow> sc_queue (accept m c) = sc_queue c"
  by (auto simp: accept_def reject_def push_event_def Let_def)

lemma fold_accept_latched: "sc_latched_fault c \<noteq> None \<Longrightarrow> sc_queue (fold accept ms c) = sc_queue c"
  by (induction ms arbitrary: c) (simp_all add: accept_latched)

lemma sim_ok_accept: "sim_ok c \<Longrightarrow> sim_ok (accept m c)"
  by (auto simp: sim_ok_def queue_ok_accept heaters_ok_def inert_def accept_latched)

lemma start_command_heaters:
  "start_command cmd c = Some c' \<Longrightarrow> heaters_ok c \<Longrightarrow> heaters_ok c'"
  using set_update_first
  by (cases cmd) (fastforce simp: heaters_ok_def push_event_def Let_def split: if_splits)+

lemma start_loop_heaters: "start_loop q c = Some c' \<Longrightarrow> heaters_ok c \<Longrightarrow> heaters_ok c'"
proof (induction q arbitrary: c)
  case (Cons x q)
  show ?case
  proof (cases "qc_execute_at x \<le> sc_now c")
    case True
    then obtain c1 where "start_command (qc_command x) (c\<lparr>sc_queue := q\<rparr>) = Some c1" "start_loop q c1 = Some c'"
      using Cons.prems by (auto simp: bind_eq_Some_conv)
    then show ?thesis using Cons start_command_heaters by (fastforce simp: heaters_ok_def)
  next
    case False
    then show ?thesis using Cons.prems by (auto simp: heaters_ok_def)
  qed
qed (auto simp: heaters_ok_def)

lemma heater_step_fields [simp]:
  "hs_cfg (heater_step fo amb h) = hs_cfg h" "hs_target_milli_c (heater_step fo amb h) = hs_target_milli_c h"
  "hs_forced_safe (heater_step fo amb h) = hs_forced_safe h"
  by (simp_all add: heater_step_def Let_def)

lemma heartbeat_check_cases:
  "hs_cfg (fst (heartbeat_check now lh h)) = hs_cfg h \<and>
   (fst (heartbeat_check now lh h) = h \<or>
    hs_target_milli_c (fst (heartbeat_check now lh h)) = 0 \<and> hs_forced_safe (fst (heartbeat_check now lh h)))"
  by (auto simp: heartbeat_check_def split: option.split)

lemma axes_step_idle:
  "\<forall>a\<in>set as. ax_motion a = None \<Longrightarrow> axes_step now as = Some (as, [])"
  by (induction as) (simp_all add: axis_step_def)

lemma sim_ok_step:
  assumes ok: "sim_ok c" and s: "run_step fo tr c = Some (tr', c')"
  shows "sim_ok c' \<and> (\<forall>q\<in>set (sc_queue c'). sc_now c' < qc_execute_at q) \<and>
    (sc_latched_fault c \<noteq> None \<longrightarrow> sc_axes c' = sc_axes c)"
  using s
proof (cases rule: run_stepE)
  case (1 now cmds c1 axes events)
  let ?c0 = "fold accept cmds (c\<lparr>sc_now := now\<rparr>)"
  have ok1: "sim_ok (c\<lparr>sc_now := now\<rparr>)" using ok by (simp add: sim_ok_def queue_ok_def heaters_ok_def inert_def)
  have q0: "queue_ok ?c0" using ok1 by (intro queue_ok_fold_accept) (simp add: sim_ok_def)
  note q1 = queue_ok_start [OF q0 1(3)]
  have cap: "sc_queue_capacity c1 = sc_queue_capacity c"
    using start_loop_fields [OF 1(3) [unfolded start_due_def]] by simp
  have "heaters_ok ?c0" using ok1 by (simp add: sim_ok_def heaters_ok_def)
  then have "heaters_ok c1" using start_loop_heaters 1(3) unfolding start_due_def by blast
  then have "hs_target_milli_c (fst (heartbeat_check now (sc_last_heartbeat c1) h)) = 0"
    if "h \<in> set (sc_heaters c1)" "hs_forced_safe (fst (heartbeat_check now (sc_last_heartbeat c1) h))" for h
    using heartbeat_check_cases [of now "sc_last_heartbeat c1" h] that by (auto simp: heaters_ok_def)
  then have h2: "heaters_ok c'"
    by (auto simp: heaters_ok_def 1(8,12) enforce_heartbeat_def Let_def)
  have lat: "inert c' \<and> sc_axes c' = sc_axes c" if l: "sc_latched_fault c \<noteq> None"
  proof -
    have i: "inert c" using ok l by (simp add: sim_ok_def)
    have "sc_queue ?c0 = []" using i l fold_accept_latched [of "c\<lparr>sc_now := now\<rparr>" cmds] by (simp add: inert_def)
    then have c1: "c1 = ?c0\<lparr>sc_queue := []\<rparr>" using 1(3) by (simp add: start_due_def)
    have "axes = sc_axes c1"
      using 1(4) axes_step_idle [of "sc_axes c1" now] i by (simp add: c1 inert_def)
    moreover have "hs_target_milli_c (fst (heartbeat_check now (sc_last_heartbeat c1) h)) = 0"
      if "h \<in> set (sc_heaters c)" for h
      using heartbeat_check_cases [of now "sc_last_heartbeat c1" h] that i by (auto simp: inert_def)
    ultimately show ?thesis
      using i by (auto simp: inert_def 1(6-8,12) c1 enforce_heartbeat_def Let_def)
  qed
  have "queue_ok c'" using q1 cap by (simp add: queue_ok_def 1(6,10))
  moreover have "sc_latched_fault c' = sc_latched_fault c" by (rule 1(9))
  ultimately show ?thesis using h2 lat q1 1(5,6) by (auto simp: sim_ok_def)
qed

lemma inert_reset: "inert (controller_reset c)"
  by (auto simp: inert_def controller_reset_def Let_def)

lemma sim_ok_reset: "sim_ok (controller_reset c)"
  using inert_reset [of c] by (auto simp: sim_ok_def queue_ok_def queue_sorted_def heaters_ok_def inert_def)

lemma sim_ok_window: "sim_ok (set_queue_window w c) = sim_ok c"
  by (simp add: sim_ok_def queue_ok_def heaters_ok_def inert_def set_queue_window_def)

lemma sim_reach_ok:
  assumes "sim_reach fo c0 c" "sim_ok c0"
  shows "sim_ok c"
  using assms(1)
proof (induction rule: sim_reach.induct)
  case (reach_frame c frame r c')
  then show ?case using process_wire_frame_cases [OF reach_frame(2)] sim_ok_accept by auto
next
  case (reach_step c tr tr' c')
  then show ?case using sim_ok_step by blast
next
  case (reach_window c w)
  then show ?case by (simp add: sim_ok_window)
qed (auto simp: assms(2) sim_ok_reset)

lemma sim_ok_new: "sim_ok (controller_new fo amb hs as)"
  by (auto simp: sim_ok_def queue_ok_def queue_sorted_def heaters_ok_def controller_new_def)


section \<open>What acceptance does\<close>

lemma insert_queued_split:
  "\<exists>pre post. qs = pre @ post \<and> list_all (\<lambda>x. qc_execute_at x \<le> t) pre \<and>
     (case post of [] \<Rightarrow> True | x # _ \<Rightarrow> t < qc_execute_at x) \<and>
     insert_queued \<lparr>qc_execute_at = t, qc_command = cmd\<rparr> qs = pre @ [\<lparr>qc_execute_at = t, qc_command = cmd\<rparr>] @ post"
proof (induction qs)
  case (Cons x qs)
  show ?case
  proof (cases "t < qc_execute_at x")
    case True
    then show ?thesis by (intro exI [of _ "[]"] exI [of _ "x # qs"]) simp
  next
    case False
    obtain pre post where "qs = pre @ post" "list_all (\<lambda>x. qc_execute_at x \<le> t) pre"
      "case post of [] \<Rightarrow> True | x # _ \<Rightarrow> t < qc_execute_at x"
      "insert_queued \<lparr>qc_execute_at = t, qc_command = cmd\<rparr> qs =
         pre @ [\<lparr>qc_execute_at = t, qc_command = cmd\<rparr>] @ post" using Cons by blast
    then show ?thesis using False by (intro exI [of _ "x # pre"] exI [of _ post]) simp
  qed
qed simp

lemma accept_heartbeat:
  "sc_latched_fault c = None \<Longrightarrow> ce_command m = Heartbeat \<Longrightarrow> ce_execute_at m = None \<Longrightarrow>
     accept m c = c\<lparr>sc_last_heartbeat := sc_now c\<rparr>"
  by (simp add: accept_def)

definition acceptable :: "'f SimController \<Rightarrow> CommandEnvelope \<Rightarrow> bool" where
  "acceptable c m \<longleftrightarrow> (let t = (case ce_execute_at m of Some t \<Rightarrow> t | None \<Rightarrow> sc_now c) in
     sc_latched_fault c = None \<and> ce_command m \<noteq> Heartbeat \<and>
     (ce_execute_at m = None \<or> t mod 1000 = 0 \<and>
       saturating_add (sc_now c) (qw_min_lead_ticks (sc_queue_window c)) \<le> t \<and>
       t \<le> saturating_add (sc_now c) (qw_max_horizon_ticks (sc_queue_window c))) \<and>
     length (sc_queue c) < sc_queue_capacity c)"

lemmas accept_unfold = accept_def reject_def push_event_def queue_status_def STEP_TICKS_def TICKS_PER_MS_def Let_def

lemma accept_queues:
  assumes "acceptable c m"
  shows "\<exists>what. accept m c = c\<lparr>sc_trace := sc_trace c @ [Accepted (sc_now c) what],
    sc_queue := insert_queued \<lparr>qc_execute_at = (case ce_execute_at m of Some t \<Rightarrow> t | None \<Rightarrow> sc_now c),
      qc_command = ce_command m\<rparr> (sc_queue c)\<rparr>"
proof (cases "ce_execute_at m")
  case None
  then show ?thesis using assms by (simp add: acceptable_def accept_unfold not_le) blast
next
  case (Some t)
  then have "t mod 1000 = 0" "\<not> t < saturating_add (sc_now c) (qw_min_lead_ticks (sc_queue_window c))"
    "\<not> saturating_add (sc_now c) (qw_max_horizon_ticks (sc_queue_window c)) < t"
    "\<not> sc_queue_capacity c \<le> length (sc_queue c)" "sc_latched_fault c = None" "ce_command m \<noteq> Heartbeat"
    using assms by (simp_all add: acceptable_def not_less not_le Let_def)
  then show ?thesis using Some by (simp add: accept_unfold) blast
qed

lemma accept_rejects:
  assumes "\<not> acceptable c m"
    and "\<not> (sc_latched_fault c = None \<and> ce_command m = Heartbeat \<and> ce_execute_at m = None)"
  shows "\<exists>what reason. accept m c = c\<lparr>sc_trace := sc_trace c @ [Rejected (sc_now c) what reason]\<rparr>"
proof (cases "sc_latched_fault c")
  case (Some code)
  then show ?thesis by (simp add: accept_def reject_def push_event_def Let_def) blast
next
  case None
  show ?thesis
  proof (cases "ce_execute_at m")
    case None
    then have "sc_queue_capacity c \<le> length (sc_queue c)" "ce_command m \<noteq> Heartbeat"
      using assms \<open>sc_latched_fault c = None\<close> by (auto simp: acceptable_def)
    then show ?thesis
      using None \<open>sc_latched_fault c = None\<close> by (simp add: accept_unfold) blast
  next
    case (Some t)
    then have "ce_command m = Heartbeat \<or> t mod 1000 \<noteq> 0 \<or>
        t < saturating_add (sc_now c) (qw_min_lead_ticks (sc_queue_window c)) \<or>
        saturating_add (sc_now c) (qw_max_horizon_ticks (sc_queue_window c)) < t \<or>
        sc_queue_capacity c \<le> length (sc_queue c)"
      using assms(1) None by (auto simp: acceptable_def Let_def not_le not_less)
    then consider "ce_command m = Heartbeat"
      | "ce_command m \<noteq> Heartbeat" "t mod 1000 \<noteq> 0"
      | "ce_command m \<noteq> Heartbeat" "t mod 1000 = 0" "t < saturating_add (sc_now c) (qw_min_lead_ticks (sc_queue_window c))"
      | "ce_command m \<noteq> Heartbeat" "t mod 1000 = 0" "\<not> t < saturating_add (sc_now c) (qw_min_lead_ticks (sc_queue_window c))"
        "saturating_add (sc_now c) (qw_max_horizon_ticks (sc_queue_window c)) < t"
      | "ce_command m \<noteq> Heartbeat" "t mod 1000 = 0" "\<not> t < saturating_add (sc_now c) (qw_min_lead_ticks (sc_queue_window c))"
        "\<not> saturating_add (sc_now c) (qw_max_horizon_ticks (sc_queue_window c)) < t"
        "sc_queue_capacity c \<le> length (sc_queue c)"
      by satx
    then have "\<exists>what reason. accept m c = reject what reason c"
      by cases (use Some None in \<open>simp_all add: accept_def queue_status_def STEP_TICKS_def TICKS_PER_MS_def Let_def, blast+\<close>)
    then show ?thesis by (auto simp: reject_def push_event_def)
  qed
qed

section \<open>Traces side by side\<close>

lemma slice_get_eq:
  assumes "\<forall>i<max (length xs) (length ys). slice_get xs i = slice_get ys i"
  shows "xs = ys"
proof (rule nth_equalityI)
  have "\<not> length xs < length ys" using assms by (auto simp: slice_get_def dest: spec [of _ "length xs"])
  moreover have "\<not> length ys < length xs" using assms by (auto simp: slice_get_def dest: spec [of _ "length ys"])
  ultimately show "length xs = length ys" by simp
  then show "xs ! i = ys ! i" if "i < length xs" for i using assms that by (auto simp: slice_get_def)
qed

lemma slice_get_prefix:
  assumes "slice_get xs i \<noteq> slice_get ys i" "\<forall>j<i. slice_get xs j = slice_get ys j"
  shows "i \<le> length xs \<and> i \<le> length ys \<and> take i xs = take i ys"
proof -
  have a: "i \<le> length xs"
  proof (rule ccontr)
    assume "\<not> i \<le> length xs"
    then have "length ys \<le> length xs" using assms(2) by (auto simp: slice_get_def dest!: spec [of _ "length xs"] split: if_splits)
    then show False using assms(1) \<open>\<not> i \<le> length xs\<close> by (simp add: slice_get_def)
  qed
  have b: "i \<le> length ys"
  proof (rule ccontr)
    assume "\<not> i \<le> length ys"
    then have "length xs \<le> length ys" using assms(2) by (auto simp: slice_get_def dest!: spec [of _ "length ys"] split: if_splits)
    then show False using assms(1) \<open>\<not> i \<le> length ys\<close> by (simp add: slice_get_def)
  qed
  have "take i xs = take i ys"
    using a b assms(2) by (intro nth_equalityI) (auto simp: slice_get_def)
  then show ?thesis using a b by blast
qed

section \<open>Concrete controllers\<close>

text \<open>Whole numbers as one instance of the heaters' arithmetic, and a heater and an axis.\<close>

definition int_ops :: "int float_ops" where
  "int_ops = \<lparr>fo_of_int = id, fo_add = (+), fo_sub = (-), fo_mul = (*), fo_div = (div),
     fo_trunc_i64 = id, fo_round = id\<rparr>"

definition demo_controller :: "int SimController" where
  "demo_controller = controller_new int_ops 20000
     [\<lparr>hc_name = ''bed'', hc_gain_milli_c = 80000, hc_tau_ms = 1000, hc_safe_state = ''off'',
       hc_heartbeat_timeout = Some 500\<rparr>]
     [\<lparr>ac_name = ''x'', ac_start_position_um = 0\<rparr>]"

lemma demo_run:
  "map_option (\<lambda>(_, c). (sc_now c, sc_last_heartbeat c, map (hc_heartbeat_timeout \<circ> hs_cfg) (sc_heaters c)))
     (run int_ops 1000 (transport_new transport_config_default) demo_controller) = Some (1000, 0, [Some 500])"
  by code_simp

lemma demo_axis: "List.find (\<lambda>a. ac_name (ax_cfg a) = ''x'') (sc_axes demo_controller) =
    Some \<lparr>ax_cfg = \<lparr>ac_name = ''x'', ac_start_position_um = 0\<rparr>, ax_position_um = 0, ax_motion = None\<rparr>"
  by code_simp

text \<open>
  A target of zero is not off: below zero degrees a heater is driven even after a reset.
\<close>

lemma reset_heater_driven_below_zero:
  "map_option (\<lambda>(_, c). (sc_latched_fault c, map hs_duty_on (sc_heaters c)))
     (run int_ops 1000 (transport_new transport_config_default)
       (controller_reset (demo_controller\<lparr>sc_heaters := map (\<lambda>h. h\<lparr>hs_milli_c := -5000\<rparr>) (sc_heaters demo_controller)\<rparr>))) =
   Some (Some ''controller-reset'', [True])"
  by code_simp

section \<open>Properties\<close>

text \<open>
  What the controller does with an incoming command, on every branch.  A plain heartbeat
  refreshes the watchdog and leaves no trace.  A command enters the queue exactly when no fault is
  latched, it is no heartbeat, a scheduled time lies on the millisecond grid and inside the window,
  and there is room; it goes behind all commands due no later and in front of the first due later,
  with one Accepted event.  Every other command changes nothing but the trace, by one Rejected event.
\<close>
theorem accept_exact:
  "let cmd = ce_command m; at = ce_execute_at m; t = (case at of Some t \<Rightarrow> t | None \<Rightarrow> sc_now c);
       lead = saturating_add (sc_now c) (qw_min_lead_ticks (sc_queue_window c));
       horizon = saturating_add (sc_now c) (qw_max_horizon_ticks (sc_queue_window c)) in
   if sc_latched_fault c = None \<and> cmd = Heartbeat \<and> at = None then accept m c = c\<lparr>sc_last_heartbeat := sc_now c\<rparr>
   else if sc_latched_fault c = None \<and> cmd \<noteq> Heartbeat \<and>
     (at = None \<or> t mod 1000 = 0 \<and> lead \<le> t \<and> t \<le> horizon) \<and> length (sc_queue c) < sc_queue_capacity c
   then \<exists>what pre post. sc_queue c = pre @ post \<and> list_all (\<lambda>q. qc_execute_at q \<le> t) pre \<and>
     (case post of [] \<Rightarrow> True | q # _ \<Rightarrow> t < qc_execute_at q) \<and>
     accept m c = c\<lparr>sc_trace := sc_trace c @ [Accepted (sc_now c) what],
       sc_queue := pre @ [\<lparr>qc_execute_at = t, qc_command = cmd\<rparr>] @ post\<rparr>
   else \<exists>what reason. accept m c = c\<lparr>sc_trace := sc_trace c @ [Rejected (sc_now c) what reason]\<rparr>"
proof -
  let ?t = "case ce_execute_at m of Some t \<Rightarrow> t | None \<Rightarrow> sc_now c"
  let ?ok = "sc_latched_fault c = None \<and> ce_command m \<noteq> Heartbeat \<and>
    (ce_execute_at m = None \<or> ?t mod 1000 = 0 \<and>
      saturating_add (sc_now c) (qw_min_lead_ticks (sc_queue_window c)) \<le> ?t \<and>
      ?t \<le> saturating_add (sc_now c) (qw_max_horizon_ticks (sc_queue_window c))) \<and>
    length (sc_queue c) < sc_queue_capacity c"
  show ?thesis
  proof (cases ?ok)
    case True
    obtain pre post where i: "sc_queue c = pre @ post" "list_all (\<lambda>x. qc_execute_at x \<le> ?t) pre"
      "case post of [] \<Rightarrow> True | x # _ \<Rightarrow> ?t < qc_execute_at x"
      "insert_queued \<lparr>qc_execute_at = ?t, qc_command = ce_command m\<rparr> (sc_queue c) =
         pre @ [\<lparr>qc_execute_at = ?t, qc_command = ce_command m\<rparr>] @ post"
      using insert_queued_split [of "sc_queue c" ?t "ce_command m"] by blast
    obtain what where "accept m c = c\<lparr>sc_trace := sc_trace c @ [Accepted (sc_now c) what],
        sc_queue := insert_queued \<lparr>qc_execute_at = ?t, qc_command = ce_command m\<rparr> (sc_queue c)\<rparr>"
      using accept_queues [of c m] True unfolding acceptable_def Let_def by blast
    then show ?thesis using True i unfolding i(4) Let_def by (simp only: simp_thms if_True if_False) blast
  next
    case False
    then show ?thesis using accept_rejects [of c m] accept_heartbeat [of c m] unfolding Let_def acceptable_def
      by (simp only: simp_thms if_True if_False split: if_split) blast
  qed
qed

text \<open>
  Claim C23: the command queue.  Whatever frames arrive, however the controller is run, reset or
  reconfigured, the queue stays ordered by execution time and within its 16 places; and when the
  controller has run, every command still queued lies in the future: nothing due is left behind.
\<close>
theorem queue_invariant:
  assumes "sim_reach fo (controller_new fo ambient hs as) c"
    and "sc_now c < until" "run fo until tr c = Some (tr', c')"
  shows "sorted (map qc_execute_at (sc_queue c)) \<and> length (sc_queue c) \<le> 16 \<and>
    sorted (map qc_execute_at (sc_queue c')) \<and> length (sc_queue c') \<le> 16 \<and>
    until \<le> sc_now c' \<and> list_all (\<lambda>q. sc_now c' < qc_execute_at q) (sc_queue c')"
proof -
  have cap: "sim_reach fo (controller_new fo ambient hs as) x \<Longrightarrow> sc_queue_capacity x = 16" for x
    by (induction rule: sim_reach.induct)
      (auto simp: controller_new_def controller_reset_def set_queue_window_def Let_def
        dest: process_wire_frame_cases elim: run_stepE)
  obtain tr1 c1 where r: "sim_reach fo (controller_new fo ambient hs as) c1"
    "run_step fo tr1 c1 = Some (tr', c')" "until \<le> sc_now c'"
    using run_last_step [OF assms(3,2,1)] by blast
  have ok: "sim_ok c" "sim_ok c1" using sim_reach_ok sim_ok_new assms(1) r(1) by blast+
  show ?thesis
    using ok(1) sim_ok_step [OF ok(2) r(2)] r(3) cap [OF assms(1)] cap [OF reach_step [OF r(1,2)]]
    by (auto simp: sim_ok_def queue_ok_def queue_sorted_def list_all_iff)
qed

theorem queue_invariant_witness:
  "case run int_ops 1000 (transport_new transport_config_default) demo_controller of
     None \<Rightarrow> False | Some (_, c') \<Rightarrow> length (sc_queue c') \<le> 16"
proof -
  obtain tr' c' where r: "run int_ops 1000 (transport_new transport_config_default) demo_controller = Some (tr', c')"
    using demo_run by auto
  have "sc_now demo_controller < 1000" by (simp add: demo_controller_def controller_new_def)
  then show ?thesis
    using queue_invariant [OF reach_start _ r [unfolded demo_controller_def]] r
    by (simp add: demo_controller_def)
qed

text \<open>
  Claim C24: a silent host does not heat.  After any run, a heater whose policy has a heartbeat
  time-out, and whose last heartbeat is longer ago than that, has no positive target, whatever was
  queued, scheduled or received before; the controller enforces it without the host.
\<close>
theorem silent_host_no_heat:
  assumes "sim_reach fo (controller_new fo ambient hs as) c"
    and "sc_now c < until" "run fo until tr c = Some (tr', c')"
    and "h \<in> set (sc_heaters c')" "hc_heartbeat_timeout (hs_cfg h) = Some timeout"
    and "timeout < saturating_sub (sc_now c') (sc_last_heartbeat c')"
  shows "hs_target_milli_c h \<le> 0"
proof -
  obtain tr1 c1 where r: "sim_reach fo (controller_new fo ambient hs as) c1"
    "run_step fo tr1 c1 = Some (tr', c')"
    using run_last_step [OF assms(3,2,1)] by blast
  have ok: "sim_ok c1" using sim_reach_ok sim_ok_new r(1) by blast
  from r(2) show ?thesis
  proof (cases rule: run_stepE)
    case (1 now cmds c2 axes events)
    have "heaters_ok (fold accept cmds (c1\<lparr>sc_now := now\<rparr>))" using ok by (simp add: sim_ok_def heaters_ok_def)
    then have h2: "heaters_ok c2" using start_loop_heaters 1(3) unfolding start_due_def by blast
    obtain g where g: "g \<in> set (sc_heaters c2)"
      "h = heater_step fo (sc_ambient_milli_c (enforce_heartbeat c2)) (fst (heartbeat_check now (sc_last_heartbeat c2) g))"
      using assms(4) by (auto simp: 1(8,12) enforce_heartbeat_def Let_def)
    have t: "hc_heartbeat_timeout (hs_cfg g) = Some timeout"
      using assms(5) heartbeat_check_cases [of now "sc_last_heartbeat c2" g] by (simp add: g(2))
    have "hs_target_milli_c (fst (heartbeat_check now (sc_last_heartbeat c2) g)) \<le> 0"
      using t assms(6) h2 g(1) by (auto simp: heartbeat_check_def heaters_ok_def 1(5,11))
    then show ?thesis by (simp add: g(2))
  qed
qed

theorem silent_host_no_heat_witness:
  "case run int_ops 1000 (transport_new transport_config_default) demo_controller of
     None \<Rightarrow> False | Some (_, c') \<Rightarrow> hs_target_milli_c (hd (sc_heaters c')) \<le> 0"
proof -
  obtain tr' c' where r: "run int_ops 1000 (transport_new transport_config_default) demo_controller = Some (tr', c')"
    and c: "sc_now c' = 1000" "sc_last_heartbeat c' = 0"
      "map (hc_heartbeat_timeout \<circ> hs_cfg) (sc_heaters c') = [Some 500]"
    using demo_run by auto
  have lt: "sc_now demo_controller < 1000" by (simp add: demo_controller_def controller_new_def)
  obtain h where h: "sc_heaters c' = [h]" "hc_heartbeat_timeout (hs_cfg h) = Some 500" using c(3) by auto
  have "hs_target_milli_c h \<le> 0"
    by (rule silent_host_no_heat [OF reach_start lt [unfolded demo_controller_def] r [unfolded demo_controller_def] _ h(2)])
      (simp_all add: h c saturating_sub_def)
  then show ?thesis using r h by simp
qed

text \<open>
  A reset is final.  After a reset, whatever frames arrive and however long the controller
  runs, the fault stays latched, the queue stays empty, every heater target stays zero and no axis
  moves; only further resets are possible.
\<close>
theorem reset_is_permanent:
  assumes "sim_reach fo (controller_reset c) c'"
  shows "sc_latched_fault c' = Some ''controller-reset'' \<and> sc_queue c' = [] \<and>
    list_all (\<lambda>h. hs_target_milli_c h = 0) (sc_heaters c') \<and>
    list_all (\<lambda>a. ax_motion a = None) (sc_axes c') \<and>
    map ax_position_um (sc_axes c') = map ax_position_um (sc_axes c)"
proof -
  have "sim_ok c' \<and> sc_latched_fault c' = Some ''controller-reset'' \<and>
      map ax_position_um (sc_axes c') = map ax_position_um (sc_axes c)"
    using assms
  proof (induction rule: sim_reach.induct)
    case reach_start
    then show ?case using sim_ok_reset [of c] by (simp add: controller_reset_def Let_def)
  next
    case (reach_frame c1 frame r c2)
    then show ?case using process_wire_frame_cases [OF reach_frame(2)] sim_ok_accept [of c1] by fastforce
  next
    case (reach_step c1 tr tr' c2)
    have "sc_latched_fault c2 = sc_latched_fault c1" using reach_step(2) by (elim run_stepE)
    then show ?case using sim_ok_step [OF _ reach_step(2)] reach_step(3) by simp
  next
    case (reach_reset c1)
    then show ?case using sim_ok_reset [of c1] by (simp add: controller_reset_def Let_def comp_def)
  next
    case (reach_window c1 w)
    then show ?case using sim_ok_window [of w c1] by (simp add: set_queue_window_def)
  qed
  then show ?thesis by (simp add: sim_ok_def inert_def list_all_iff)
qed

theorem reset_is_permanent_witness:
  "sc_queue (controller_reset demo_controller) = [] \<and>
   sc_latched_fault (controller_reset demo_controller) = Some ''controller-reset''"
  using reset_is_permanent [OF reach_start [of int_ops "controller_reset demo_controller"]] by simp

text \<open>
  Replay.  A report says matched exactly when the traces are equal; otherwise its
  divergence names the first index at which they differ, up to which they agree, what each has there,
  and the earlier of the ticks there.
\<close>
theorem replay_exact:
  "let r = replay_report self expct in
   rr_actual_events r = length self \<and> rr_expected_events r = length expct \<and>
   (case rr_divergence r of
      None \<Rightarrow> rr_matched r \<and> self = expct
    | Some d \<Rightarrow> \<not> rr_matched r \<and> self \<noteq> expct \<and>
        (let i = td_event_index d in
         take i self = take i expct \<and> i \<le> length self \<and> i \<le> length expct \<and>
         td_actual d = (if i < length self then Some (self ! i) else None) \<and>
         td_expected d = (if i < length expct then Some (expct ! i) else None) \<and>
         td_actual d \<noteq> td_expected d \<and>
         td_first_divergent_tick d =
           (case (td_actual d, td_expected d) of
              (Some a, Some e) \<Rightarrow> Some (min (event_at a) (event_at e))
            | (Some a, None) \<Rightarrow> Some (event_at a)
            | (None, Some e) \<Rightarrow> Some (event_at e)
            | (None, None) \<Rightarrow> None)))"
proof (cases "first_divergence self expct")
  case None
  then have "\<forall>i<max (length self) (length expct). slice_get self i = slice_get expct i"
    by (auto simp: first_divergence_def find_None_iff)
  then have "self = expct" using slice_get_eq by blast
  then show ?thesis using None by (simp add: replay_report_def Let_def)
next
  case (Some i)
  have d: "slice_get self i \<noteq> slice_get expct i" "\<forall>j<i. slice_get self j = slice_get expct j"
    using Some by (auto simp: first_divergence_def find_Some_iff)
  then have p: "i \<le> length self \<and> i \<le> length expct \<and> take i self = take i expct" by (intro slice_get_prefix)
  have ne: "self \<noteq> expct" using d(1) by auto
  show ?thesis
    using Some d(1) p ne
    by (cases "slice_get self i"; cases "slice_get expct i")
      (auto simp: replay_report_def Let_def slice_get_def split: if_splits)
qed

text \<open>
  Delivery.  What a transport delivers at a tick is exactly what is due by then, each
  message once, ordered by arrival and at equal arrival in the order it was sent; everything else
  stays under way.
\<close>
theorem deliver_due_exact:
  "case deliver_due now self of (commands, self') \<Rightarrow>
     \<exists>due. commands = map snd due \<and> sorted (map fst due) \<and>
       mset due + mset (tp_in_flight self') = mset (tp_in_flight self) \<and>
       list_all (\<lambda>(at, _). at \<le> now) due \<and> list_all (\<lambda>(at, _). now < at) (tp_in_flight self') \<and>
       (\<forall>t. filter (\<lambda>(at, _). at = t) due = (if t \<le> now then filter (\<lambda>(at, _). at = t) (tp_in_flight self) else []))"
proof -
  let ?q = "tp_in_flight self"
  let ?due = "sort_key fst (filter (\<lambda>(at, _). at \<le> now) ?q)"
  have stable: "filter (\<lambda>(at, _). at = t) ?due = (if t \<le> now then filter (\<lambda>(at, _). at = t) ?q else [])" for t
  proof -
    have "filter (\<lambda>x. fst x = t) ?due = filter (\<lambda>x. fst x = t) (filter (\<lambda>(at, _). at \<le> now) ?q)"
      using sort_key_stable [of fst t "filter (\<lambda>(at, _). at \<le> now) ?q"] by simp
    also have "\<dots> = (if t \<le> now then filter (\<lambda>x. fst x = t) ?q else [])"
      by (auto simp: case_prod_beta filter_empty_conv intro!: filter_cong)
    finally show ?thesis by (simp add: case_prod_unfold)
  qed
  have "mset ?due + mset (filter (\<lambda>(at, _). \<not> at \<le> now) ?q) = mset ?q"
    by (simp add: mset_filter multiset_partition [symmetric])
  then show ?thesis
    using stable
    by (simp add: deliver_due_def Let_def, intro exI [of _ ?due]) (auto simp: list_all_iff not_le)
qed

end
