(* ===== verification/Pipeline.thy ===== *)
theory Pipeline
  imports Framing Runner Simulator
begin

text \<open>
  The parts together: a batch leaves the runner, goes through a command client into a byte stream, is
  cut into frames and dispatched on the other side, and reaches a controller.  The bytes in between
  implement handing the batch over directly.
\<close>

definition command_bytes :: "CommandFrame \<Rightarrow> u8 list" where
  "command_bytes f = frame_bytes COMMAND_MESSAGE_TYPE (cf_sequence f) (envelope_layout (cf_envelope f))"

text \<open>A batch under consecutive sequence numbers.\<close>

fun numbered :: "u32 \<Rightarrow> CommandEnvelope list \<Rightarrow> CommandFrame list" where
  "numbered seq [] = []"
| "numbered seq (e # es) = \<lparr>cf_sequence = seq, cf_envelope = e\<rparr> # numbered (seq + 1) es"

definition sendable :: "CommandEnvelope \<Rightarrow> bool" where
  "sendable e \<longleftrightarrow> command_ok (ce_command e)"

lemma numbered_ok: "list_all sendable es \<Longrightarrow> list_all frame_ok (numbered seq es)"
  by (induction es arbitrary: seq) (simp_all add: sendable_def frame_ok_def)

lemma map_envelope_numbered [simp]: "map cf_envelope (numbered seq es) = es"
  by (induction es arbitrary: seq) simp_all

lemma length_command_bytes:
  assumes "frame_ok f"
  shows "length (command_bytes f) = length (envelope_layout (cf_envelope f)) + 14"
    and "length (envelope_layout (cf_envelope f)) \<le> MAX_PAYLOAD_LEN"
  using assms length_envelope_layout [of "cf_envelope f"] by (simp_all add: command_bytes_def frame_ok_def)

lemma command_bytes_frame: "frame_ok f \<Longrightarrow> a_frame (command_bytes f)"
  using length_command_bytes(2) [of f] unfolding a_frame_def command_bytes_def
  by (intro exI [of _ COMMAND_MESSAGE_TYPE] exI [of _ "cf_sequence f"] exI [of _ "envelope_layout (cf_envelope f)"]) simp

section \<open>Sending into memory\<close>

definition client_ok :: "'s CommandClient \<Rightarrow> bool" where
  "client_ok c \<longleftrightarrow> length (cc_frame c) = MAX_FRAME_LEN"

lemma send_one_memory:
  assumes "client_ok c" "sendable e"
  shows "\<exists>receipt c'. send_one (memory_send_frame SideA) e c = (Inr receipt, c') \<and> client_ok c' \<and>
    cc_next_sequence c' = cc_next_sequence c + 1 \<and>
    cc_sink c' = (cc_sink c)\<lparr>ml_q2 := ml_q2 (cc_sink c) @
      command_bytes \<lparr>cf_sequence = cc_next_sequence c, cf_envelope = e\<rparr>\<rparr>"
proof -
  let ?f = "\<lparr>cf_sequence = cc_next_sequence c, cf_envelope = e\<rparr>"
  let ?p = "envelope_layout e"
  have e: "e = \<lparr>ce_execute_at = ce_execute_at e, ce_command = ce_command e\<rparr>" by (cases e) simp
  have le: "length ?p \<le> 128" using length_envelope_layout [of e] assms(2) by (simp add: sendable_def)
  have enc: "encode_command ?f (cc_frame c) = (Inr (length ?p + 14),
      command_bytes ?f @ drop (length ?p + 14) (cc_frame c))"
    using encode_command_fits [of ?f "cc_frame c"] assms le command_ok_fits
    by (simp add: sendable_def client_ok_def command_bytes_def)
  have len: "length (command_bytes ?f) = length ?p + 14" by (simp add: command_bytes_def)
  have "send_one (memory_send_frame SideA) e c = send_inner (memory_send_frame SideA) (ce_execute_at e) (ce_command e) c"
    by (simp add: send_one_def client_send_def client_send_scheduled_def split: option.split)
  then show ?thesis
    using assms(1) le enc len
    by (simp add: send_inner_def Let_def e [symmetric] memory_send_frame_def memory_write_bytes_def
        outgoing_def set_outgoing_def client_ok_def)
qed

lemma send_batch_memory:
  assumes "client_ok c" "list_all sendable es"
  shows "\<exists>receipts c'. send_batch (memory_send_frame SideA) es c = (Inr receipts, c') \<and>
    length receipts = length es \<and>
    cc_sink c' = (cc_sink c)\<lparr>ml_q2 := ml_q2 (cc_sink c) @
      concat (map command_bytes (numbered (cc_next_sequence c) es))\<rparr>"
  using assms
proof (induction es arbitrary: c)
  case (Cons e es)
  obtain receipt c1 where s: "send_one (memory_send_frame SideA) e c = (Inr receipt, c1)" "client_ok c1"
    "cc_next_sequence c1 = cc_next_sequence c + 1"
    "cc_sink c1 = (cc_sink c)\<lparr>ml_q2 := ml_q2 (cc_sink c) @
      command_bytes \<lparr>cf_sequence = cc_next_sequence c, cf_envelope = e\<rparr>\<rparr>"
    using send_one_memory [OF Cons.prems(1), of e] Cons.prems(2) by auto
  obtain receipts c' where "send_batch (memory_send_frame SideA) es c1 = (Inr receipts, c')"
    "length receipts = length es"
    "cc_sink c' = (cc_sink c1)\<lparr>ml_q2 := ml_q2 (cc_sink c1) @
      concat (map command_bytes (numbered (cc_next_sequence c1) es))\<rparr>"
    using Cons.IH [OF s(2)] Cons.prems(2) by auto
  then show ?case using s by simp
qed simp

section \<open>Receiving\<close>

lemma dispatch_command_frame:
  assumes "frame_ok f"
  shows "dispatch_frame (command_bytes f) i t d = (Inr (DispCommand f), d)"
proof -
  have "decode_command (command_bytes f) = Inr f"
    using assms by (simp add: decode_command_iff command_bytes_def)
  moreover have "command_bytes f ! 3 = COMMAND_MESSAGE_TYPE"
    by (simp add: command_bytes_def frame_bytes_def frame_body_def)
  ultimately show ?thesis
    using length_command_bytes [OF assms] by (simp add: dispatch_frame_def Let_def)
qed

lemma dispatch_all_commands:
  "list_all frame_ok fs \<Longrightarrow> dispatch_all i t (map command_bytes fs) d = (Inr (map DispCommand fs), d)"
  by (induction fs) (simp_all add: dispatch_command_frame)

lemma controller_takes_command:
  assumes "frame_ok f"
  shows "process_wire_frame (command_bytes f) c = (Inr None, accept (cf_envelope f) c)"
proof -
  have "decode_command (command_bytes f) = Inr f"
    using assms by (simp add: decode_command_iff command_bytes_def)
  moreover have "command_bytes f ! 3 = COMMAND_MESSAGE_TYPE"
    by (simp add: command_bytes_def frame_bytes_def frame_body_def)
  ultimately show ?thesis
    using length_command_bytes [OF assms] by (simp add: process_wire_frame_def Let_def)
qed

lemma controller_takes_commands:
  "list_all frame_ok fs \<Longrightarrow>
     fold (\<lambda>raw c. snd (process_wire_frame raw c)) (map command_bytes fs) c = fold accept (map cf_envelope fs) c"
  by (induction fs arbitrary: c) (simp_all add: controller_takes_command)

section \<open>Properties\<close>

text \<open>
  Claim C29: the byte stream implements handing a batch over.  Whatever batch the runner takes, with
  names that are valid, sending it through a fresh client into a memory link succeeds with a receipt
  per command; on the other side a fresh stream reader, polled often enough, delivers exactly these
  commands, in order, under the sequence numbers 0, 1, 2, ..., leaves nothing behind and does not touch
  the daemon; and a controller that processes the frames ends as if it had accepted the batch directly.
\<close>
theorem pipeline_refines_handover:
  assumes "next_dispatch_batch r = (batch, r')" "list_all sendable batch"
    and "length (concat (map command_bytes (numbered 0 batch))) \<le> k"
  shows "\<exists>receipts client reader link.
    dispatch_to_client (memory_send_frame SideA) r (client_new memory_pair) = (Inr receipts, r', client) \<and>
    length receipts = length batch \<and>
    poll_times (memory_read_bytes SideB) i t k stream_reader_new (cc_sink client) d =
      (Inr (map DispCommand (numbered 0 batch)), reader, link, d) \<and>
    ml_q2 link = [] \<and> fc_buffer (tr_codec reader) = [] \<and>
    fold (\<lambda>raw c. snd (process_wire_frame raw c)) (map command_bytes (numbered 0 batch)) controller =
      fold accept batch controller"
proof -
  let ?fs = "numbered 0 batch"
  have ok: "list_all frame_ok ?fs" using numbered_ok [OF assms(2)] .
  have c: "client_ok (client_new memory_pair)" "cc_next_sequence (client_new memory_pair) = 0"
    "cc_sink (client_new memory_pair) = memory_pair"
    by (simp_all add: client_ok_def client_new_def client_with_initial_sequence_def)
  obtain receipts client where s: "send_batch (memory_send_frame SideA) batch (client_new memory_pair) = (Inr receipts, client)"
    "length receipts = length batch" "ml_q2 (cc_sink client) = concat (map command_bytes ?fs)"
    using send_batch_memory [OF c(1) assms(2)] c(2,3) by (auto simp: memory_pair_def)
  have disp: "dispatch_to_client (memory_send_frame SideA) r (client_new memory_pair) = (Inr receipts, r', client)"
    by (simp add: dispatch_to_client_def assms(1) s(1))
  have fr: "list_all a_frame (map command_bytes ?fs)"
    using ok command_bytes_frame by (auto simp: list_all_iff)
  have "drain [] = ([], [])" by (simp add: drain_step codec_step_tree keep_last_d_def)
  then have dr: "drain (fc_buffer (tr_codec stream_reader_new) @ ml_q2 (cc_sink client)) = (map command_bytes ?fs, [])"
    using drain_frames [OF fr, of "[]"]
    by (simp add: s(3) stream_reader_new_def reader_with_codec_def codec_new_def codec_with_capacity_def)
  have da: "dispatch_all i t (map command_bytes ?fs) d =
      (Inr (map DispCommand ?fs) :: MemoryTransportError TransportAdapterError + DispatchedFrame list, d)"
    using dispatch_all_commands [OF ok] .
  obtain reader link where
    "poll_times (memory_read_bytes SideB) i t k stream_reader_new (cc_sink client) d =
       (Inr (map DispCommand ?fs), reader, link, d)" "ml_q2 link = []" "fc_buffer (tr_codec reader) = []"
    using mem.polls [OF TrueI reader_idle_new dr da, of k] assms(3) s(3) by auto
  then show ?thesis
    using disp s(2) controller_takes_commands [OF ok, of controller] by auto
qed

theorem pipeline_refines_handover_witness:
  "\<exists>receipts client reader link.
    dispatch_to_client (memory_send_frame SideA)
      ((runner_new runner_config_default)\<lparr>wr_job_queue := [\<lparr>ce_execute_at = None, ce_command = Heartbeat\<rparr>]\<rparr>)
      (client_new memory_pair) = (Inr receipts, snd (next_dispatch_batch
      ((runner_new runner_config_default)\<lparr>wr_job_queue := [\<lparr>ce_execute_at = None, ce_command = Heartbeat\<rparr>]\<rparr>)), client) \<and>
    poll_times (memory_read_bytes SideB) ''c'' 0 24 stream_reader_new (cc_sink client) daemon_new =
      (Inr [DispCommand \<lparr>cf_sequence = 0, cf_envelope = \<lparr>ce_execute_at = Some 0, ce_command = Heartbeat\<rparr>\<rparr>],
       reader, link, daemon_new)"
proof -
  let ?r = "(runner_new runner_config_default)\<lparr>wr_job_queue := [\<lparr>ce_execute_at = None, ce_command = Heartbeat\<rparr>]\<rparr>"
  let ?e = "\<lparr>ce_execute_at = Some 0, ce_command = Heartbeat\<rparr> :: CommandEnvelope"
  have "fst (next_dispatch_batch ?r) = [?e]" by code_simp
  then have n: "next_dispatch_batch ?r = ([?e], snd (next_dispatch_batch ?r))" by (metis prod.collapse)
  have "list_all sendable [?e]" by (simp add: sendable_def command_ok_def)
  moreover have "length (concat (map command_bytes (numbered 0 [?e]))) \<le> 24"
    by (simp add: command_bytes_def envelope_layout_def)
  ultimately show ?thesis
    using pipeline_refines_handover [OF n, of 24 "''c''" 0 daemon_new demo_controller] by auto
qed

end

