(* ===== verification/ClockLink.thy ===== *)
theory ClockLink
  imports Client
begin

text \<open>
  \<^verbatim>\<open>crates/simulator/src/clock_transport.rs\<close> and \<^verbatim>\<open>clock_cluster.rs\<close>: the simulated link that carries
  clock requests to a controller and its answers back, with latency, jitter, loss and duplication
  drawn from a seeded generator, the integer controller clock that stamps the answers, and the
  cluster of such links.  Then the closed loop of a host session over a link.
\<close>

section \<open>The controller clock\<close>

record ClockLinkConfig =
  cl_latency_ticks :: u64
  cl_jitter_ticks :: u64
  cl_loss_per_mille :: u16
  cl_dup_per_mille :: u16

definition clock_link_default :: ClockLinkConfig where
  "clock_link_default =
     \<lparr>cl_latency_ticks = 200, cl_jitter_ticks = 0, cl_loss_per_mille = 0, cl_dup_per_mille = 0\<rparr>"

record ControllerClock =
  host_epoch :: u64
  controller_epoch :: u64
  rate_ppb :: i64

datatype ControllerClockError =
    NonPositiveRate i64
  | HostBeforeEpoch u64 u64 \<comment> \<open>host tick, host epoch\<close>
  | ClockArithmeticOverflow

definition controller_clock_new ::
  "u64 \<Rightarrow> u64 \<Rightarrow> i64 \<Rightarrow> ControllerClockError + ControllerClock" where
  "controller_clock_new he ce rate =
     (if sint rate \<le> - PARTS_PER_BILLION then Inl (NonPositiveRate rate)
      else Inr \<lparr>host_epoch = he, controller_epoch = ce, rate_ppb = rate\<rparr>)"

definition clock_at :: "ControllerClock \<Rightarrow> u64 \<Rightarrow> ControllerClockError + u64" where
  "clock_at self host_tick =
     and_then (ok_or (checked_sub host_tick (host_epoch self))
                 (HostBeforeEpoch host_tick (host_epoch self))) (\<lambda>elapsed.
     and_then (ok_or (i128_checked_add PARTS_PER_BILLION (sint (rate_ppb self))) ClockArithmeticOverflow) (\<lambda>rate.
     and_then (ok_or (i128_checked_mul (uint elapsed) rate) ClockArithmeticOverflow) (\<lambda>product.
     let scaled = product sdiv PARTS_PER_BILLION in
     if 0 \<le> scaled \<and> scaled < 2 ^ 64
     then ok_or (checked_add (controller_epoch self) (word_of_int scaled)) ClockArithmeticOverflow
     else Inl ClockArithmeticOverflow)))"

section \<open>The link\<close>

record ClockTransportConfig =
  ct_request :: ClockLinkConfig
  ct_response :: ClockLinkConfig
  ct_processing_ticks :: u64
  ct_max_pending :: nat
  ct_seed :: u64
  ct_controller_clock :: ControllerClock

definition clock_transport_default :: ClockTransportConfig where
  "clock_transport_default =
     \<lparr>ct_request = clock_link_default, ct_response = clock_link_default, ct_processing_ticks = 0,
      ct_max_pending = 8, ct_seed = 0,
      ct_controller_clock = \<lparr>host_epoch = 0, controller_epoch = 0, rate_ppb = 0\<rparr>\<rparr>"

datatype Direction = RequestDirection | ResponseDirection

datatype ClockTransportConfigError =
    InvalidLossRate Direction u16
  | InvalidDuplicationRate Direction u16
  | ZeroPendingCapacity

datatype SimClockTransportError =
    LinkDecode DecodeError
  | LinkEncode EncodeError
  | LinkClock ControllerClockError
  | TimeOverflow
  | QueueFull nat

record SimClockFrame =
  sf_delivered_at :: u64
  sf_bytes :: "u8 list"

record ScheduledResponse =
  sr_delivered_at :: u64
  sr_insertion_order :: u64
  sr_bytes :: "u8 list"

record SimClockTransport =
  st_cfg :: ClockTransportConfig
  st_rng :: u64
  st_next_insertion_order :: u64
  st_pending :: "ScheduledResponse list"
  st_link_up :: bool

definition validate_link ::
  "Direction \<Rightarrow> ClockLinkConfig \<Rightarrow> ClockTransportConfigError + unit" where
  "validate_link direction link =
     (if cl_loss_per_mille link > 1000 then Inl (InvalidLossRate direction (cl_loss_per_mille link))
      else if cl_dup_per_mille link > 1000
      then Inl (InvalidDuplicationRate direction (cl_dup_per_mille link))
      else Inr ())"

definition sim_clock_transport_new ::
  "ClockTransportConfig \<Rightarrow> ClockTransportConfigError + SimClockTransport" where
  "sim_clock_transport_new cfg =
     and_then (validate_link RequestDirection (ct_request cfg)) (\<lambda>_.
     and_then (validate_link ResponseDirection (ct_response cfg)) (\<lambda>_.
     if ct_max_pending cfg = 0 then Inl ZeroPendingCapacity
     else Inr \<lparr>st_cfg = cfg, st_rng = ct_seed cfg * 2 + 1, st_next_insertion_order = 0,
               st_pending = [], st_link_up = True\<rparr>))"

definition pending_len :: "SimClockTransport \<Rightarrow> nat" where
  "pending_len self = length (st_pending self)"

definition clock_next_rand :: "SimClockTransport \<Rightarrow> u64 \<times> SimClockTransport" where
  "clock_next_rand self =
     (let rng = st_rng self * 6364136223846793005 + 1442695040888963407 in
      (drop_bit 33 rng, self\<lparr>st_rng := rng\<rparr>))"

text \<open>A roll of the generator against a rate per mille; no roll is made for rate zero.\<close>

definition clock_roll :: "u16 \<Rightarrow> SimClockTransport \<Rightarrow> bool \<times> SimClockTransport" where
  "clock_roll per_mille self =
     (if per_mille > 0
      then (case clock_next_rand self of (r, self1) \<Rightarrow> (r mod 1000 < ucast per_mille, self1))
      else (False, self))"

definition deliveries ::
  "u64 \<Rightarrow> ClockLinkConfig \<Rightarrow> (SimClockTransport, SimClockTransportError, u64 list) st" where
  "deliveries sent_at link self =
     (case clock_roll (cl_loss_per_mille link) self of
        (True, self1) \<Rightarrow> (Inr [], self1)
      | (False, self1) \<Rightarrow>
          (case (if cl_jitter_ticks link = 0 then (Inr 0, self1)
                 else (case checked_add (cl_jitter_ticks link) 1 of
                         None \<Rightarrow> (Inl TimeOverflow, self1)
                       | Some choices \<Rightarrow>
                           (case clock_next_rand self1 of (r, self2) \<Rightarrow> (Inr (r mod choices), self2))))
           of
             (Inl e, self2) \<Rightarrow> (Inl e, self2)
           | (Inr jitter, self2) \<Rightarrow>
               (case Option.bind (checked_add sent_at (cl_latency_ticks link)) (\<lambda>tick. checked_add tick jitter) of
                  None \<Rightarrow> (Inl TimeOverflow, self2)
                | Some delivered_at \<Rightarrow>
                    (case clock_roll (cl_dup_per_mille link) self2 of
                       (False, self3) \<Rightarrow> (Inr [delivered_at], self3)
                     | (True, self3) \<Rightarrow>
                         (case checked_add delivered_at 1 of
                            None \<Rightarrow> (Inl TimeOverflow, self3)
                          | Some again \<Rightarrow> (Inr [delivered_at, again], self3))))))"

text \<open>The inner loop of \<^verbatim>\<open>send_request_mut\<close>: one scheduled response per delivery, numbered.\<close>

fun schedule :: "u8 list \<Rightarrow> u64 list \<Rightarrow> SimClockTransport \<Rightarrow> ScheduledResponse list \<times> SimClockTransport" where
  "schedule bytes [] self = ([], self)"
| "schedule bytes (t # ts) self =
     (case schedule bytes ts (self\<lparr>st_next_insertion_order := st_next_insertion_order self + 1\<rparr>) of
        (rs, self1) \<Rightarrow>
          (\<lparr>sr_delivered_at = t, sr_insertion_order = st_next_insertion_order self, sr_bytes = bytes\<rparr> # rs,
           self1))"

definition answer ::
  "u32 \<Rightarrow> u64 \<Rightarrow> (SimClockTransport, SimClockTransportError, ScheduledResponse list) st" where
  "answer seq controller_arrival_host self =
     (let clock = ct_controller_clock (st_cfg self) in
      case checked_add controller_arrival_host (ct_processing_ticks (st_cfg self)) of
        None \<Rightarrow> (Inl TimeOverflow, self)
      | Some controller_send_host \<Rightarrow>
          (case clock_at clock controller_arrival_host of
             Inl e \<Rightarrow> (Inl (LinkClock e), self)
           | Inr receive \<Rightarrow>
               (case clock_at clock controller_send_host of
                  Inl e \<Rightarrow> (Inl (LinkClock e), self)
                | Inr send \<Rightarrow>
                    (case encode_clock_response
                            \<lparr>rf_sequence = seq,
                             rf_response = \<lparr>cr_controller_receive = receive, cr_controller_send = send\<rparr>\<rparr>
                            (replicate CLOCK_RESPONSE_FRAME_LEN 0) of
                       (Inl e, _) \<Rightarrow> (Inl (LinkEncode e), self)
                     | (Inr _, bytes) \<Rightarrow>
                         (case deliveries controller_send_host (ct_response (st_cfg self)) self of
                            (Inl e, self1) \<Rightarrow> (Inl e, self1)
                          | (Inr ts, self1) \<Rightarrow>
                              (case schedule bytes ts self1 of (rs, self2) \<Rightarrow> (Inr rs, self2)))))))"

fun answer_all ::
  "u32 \<Rightarrow> u64 list \<Rightarrow> (SimClockTransport, SimClockTransportError, ScheduledResponse list) st" where
  "answer_all seq [] self = (Inr [], self)"
| "answer_all seq (t # ts) self =
     (case answer seq t self of
        (Inl e, self1) \<Rightarrow> (Inl e, self1)
      | (Inr rs, self1) \<Rightarrow>
          (case answer_all seq ts self1 of
             (Inl e, self2) \<Rightarrow> (Inl e, self2)
           | (Inr rs', self2) \<Rightarrow> (Inr (rs @ rs'), self2)))"

definition send_request_mut ::
  "u64 \<Rightarrow> u8 list \<Rightarrow> (SimClockTransport, SimClockTransportError, unit) st" where
  "send_request_mut sent_at frame self =
     (case decode_clock_request frame of
        Inl e \<Rightarrow> (Inl (LinkDecode e), self)
      | Inr request \<Rightarrow>
          if \<not> st_link_up self then (Inr (), self)
          else
            (case deliveries sent_at (ct_request (st_cfg self)) self of
               (Inl e, self1) \<Rightarrow> (Inl e, self1)
             | (Inr request_arrivals, self1) \<Rightarrow>
                 (case answer_all (rq_sequence request) request_arrivals self1 of
                    (Inl e, self2) \<Rightarrow> (Inl e, self2)
                  | (Inr scheduled, self2) \<Rightarrow>
                      if length (st_pending self2) + length scheduled > ct_max_pending (st_cfg self2)
                      then (Inl (QueueFull (ct_max_pending (st_cfg self2))), self2)
                      else (Inr (), self2\<lparr>st_pending := st_pending self2 @ scheduled\<rparr>))))"

text \<open>The work is done on a copy that replaces the link only on success.\<close>

definition send_request ::
  "u64 \<Rightarrow> u8 list \<Rightarrow> (SimClockTransport, SimClockTransportError, unit) st" where
  "send_request sent_at frame self =
     (let candidate = self in
      case send_request_mut sent_at frame candidate of
        (Inl e, _) \<Rightarrow> (Inl e, self)
      | (Inr _, candidate1) \<Rightarrow> (Inr (), candidate1))"

definition due_before :: "ScheduledResponse \<Rightarrow> ScheduledResponse \<Rightarrow> bool" where
  "due_before a b \<longleftrightarrow> sr_delivered_at a < sr_delivered_at b \<or>
     sr_delivered_at a = sr_delivered_at b \<and> sr_insertion_order a < sr_insertion_order b"

text \<open>
  \<^verbatim>\<open>enumerate().filter(..).min_by_key(..)\<close>: the first of the least due elements, with the elements
  in front of it and behind it.
\<close>

fun pick_due ::
  "u64 \<Rightarrow> ScheduledResponse list \<Rightarrow> (ScheduledResponse list \<times> ScheduledResponse \<times> ScheduledResponse list) option"
where
  "pick_due now [] = None"
| "pick_due now (r # rs) =
     (case pick_due now rs of
        None \<Rightarrow> if sr_delivered_at r \<le> now then Some ([], r, rs) else None
      | Some (pre, m, post) \<Rightarrow>
          if sr_delivered_at r \<le> now \<and> \<not> due_before m r then Some ([], r, rs) else Some (r # pre, m, post))"

definition receive_due :: "u64 \<Rightarrow> SimClockTransport \<Rightarrow> SimClockFrame option \<times> SimClockTransport" where
  "receive_due host_now self =
     (case pick_due host_now (st_pending self) of
        None \<Rightarrow> (None, self)
      | Some (pre, response, post) \<Rightarrow>
          (Some \<lparr>sf_delivered_at = sr_delivered_at response, sf_bytes = sr_bytes response\<rparr>,
           self\<lparr>st_pending := pre @ post\<rparr>))"

definition clock_drop_link :: "SimClockTransport \<Rightarrow> SimClockTransport" where
  "clock_drop_link self = self\<lparr>st_link_up := False, st_pending := []\<rparr>"

definition clock_restore_link :: "SimClockTransport \<Rightarrow> SimClockTransport" where
  "clock_restore_link self = self\<lparr>st_link_up := True\<rparr>"

section \<open>The cluster\<close>

type_synonym ControllerId = u32

datatype SimClockClusterError =
    DuplicateController ControllerId
  | UnknownController ControllerId
  | ClusterConfiguration ClockTransportConfigError
  | ClusterTransport ControllerId SimClockTransportError

type_synonym SimClockCluster = "(ControllerId, SimClockTransport) btree"

fun cluster_add_all ::
  "SimClockCluster \<Rightarrow> (ControllerId \<times> ClockTransportConfig) list \<Rightarrow> SimClockClusterError + SimClockCluster"
where
  "cluster_add_all controllers [] = Inr controllers"
| "cluster_add_all controllers ((controller, configuration) # rest) =
     (if bt_get controllers controller \<noteq> None then Inl (DuplicateController controller)
      else and_then (map_err ClusterConfiguration (sim_clock_transport_new configuration)) (\<lambda>transport.
        cluster_add_all (bt_insert controller transport controllers) rest))"

definition cluster_new ::
  "(ControllerId \<times> ClockTransportConfig) list \<Rightarrow> SimClockClusterError + SimClockCluster" where
  "cluster_new configurations = cluster_add_all bt_empty configurations"

definition controller_ids :: "SimClockCluster \<Rightarrow> ControllerId list" where
  "controller_ids self = bt_keys self"

definition cluster_send_request ::
  "ControllerId \<Rightarrow> u64 \<Rightarrow> u8 list \<Rightarrow> (SimClockCluster, SimClockClusterError, unit) st" where
  "cluster_send_request controller sent_at frame self =
     (case bt_get self controller of
        None \<Rightarrow> (Inl (UnknownController controller), self)
      | Some transport \<Rightarrow>
          (case send_request sent_at frame transport of
             (r, transport1) \<Rightarrow>
               (map_err (ClusterTransport controller) r, bt_insert controller transport1 self)))"

definition cluster_receive_due ::
  "ControllerId \<Rightarrow> u64 \<Rightarrow> (SimClockCluster, SimClockClusterError, SimClockFrame option) st" where
  "cluster_receive_due controller host_now self =
     (case bt_get self controller of
        None \<Rightarrow> (Inl (UnknownController controller), self)
      | Some transport \<Rightarrow>
          (case receive_due host_now transport of
             (r, transport1) \<Rightarrow> (Inr r, bt_insert controller transport1 self)))"

definition cluster_drop_link :: "ControllerId \<Rightarrow> (SimClockCluster, SimClockClusterError, unit) st" where
  "cluster_drop_link controller self =
     (case bt_get self controller of
        None \<Rightarrow> (Inl (UnknownController controller), self)
      | Some transport \<Rightarrow> (Inr (), bt_insert controller (clock_drop_link transport) self))"

definition cluster_restore_link :: "ControllerId \<Rightarrow> (SimClockCluster, SimClockClusterError, unit) st" where
  "cluster_restore_link controller self =
     (case bt_get self controller of
        None \<Rightarrow> (Inl (UnknownController controller), self)
      | Some transport \<Rightarrow> (Inr (), bt_insert controller (clock_restore_link transport) self))"

definition cluster_pending_len :: "SimClockCluster \<Rightarrow> ControllerId \<Rightarrow> SimClockClusterError + nat" where
  "cluster_pending_len self controller =
     ok_or (map_option pending_len (bt_get self controller)) (UnknownController controller)"

section \<open>What the clock and the link do\<close>

text \<open>The clock read at real host times; the integer clock is its floor.\<close>

definition linear_clock :: "ControllerClock \<Rightarrow> real \<Rightarrow> real" where
  "linear_clock k t = real_of_int (uint (controller_epoch k)) +
     (t - real_of_int (uint (host_epoch k))) * (1 + real_of_int (sint (rate_ppb k)) / 1000000000)"

lemma sint_i64_bounds: "- 9223372036854775808 \<le> sint (w :: i64)" "sint (w :: i64) < 9223372036854775808"
  using sint_greater_eq [of w] sint_less [of w] by simp_all

lemma uint_of_int_u64: "0 \<le> v \<Longrightarrow> v < 2 ^ 64 \<Longrightarrow> uint (word_of_int v :: u64) = v"
  by (simp add: uint_word_of_int)

lemma clock_at_iff:
  assumes "- 1000000000 < sint (rate_ppb k)"
  shows "clock_at k h = Inr x \<longleftrightarrow> host_epoch k \<le> h \<and>
    uint x = uint (controller_epoch k) +
      (uint h - uint (host_epoch k)) * (1000000000 + sint (rate_ppb k)) div 1000000000"
    (is "_ \<longleftrightarrow> _ \<and> _ = _ + ?s")
proof (cases "host_epoch k \<le> h")
  case False
  then show ?thesis by (simp add: clock_at_def checked_sub_def)
next
  case True
  let ?r = "1000000000 + sint (rate_ppb k)" and ?e = "uint h - uint (host_epoch k)"
  have e: "0 \<le> ?e" "?e < 18446744073709551616" "uint (h - host_epoch k) = ?e"
    using True u64_bounds [of h] u64_bounds(1) [of "host_epoch k"] uint_sub_le [OF True]
    unfolding word_le_def by linarith+
  have r: "0 < ?r" "?r < 2 ^ 63 + 1000000000" using assms sint_i64_bounds [of "rate_ppb k"] by simp_all
  have p: "0 \<le> ?e * ?r" using e(1) r(1) by simp
  have a: "in_i128 ?r" using r by (simp add: in_i128_def)
  have s: "0 \<le> ?s" "(?e * ?r) sdiv 1000000000 = ?s"
    using p by (simp_all add: sdiv_pos pos_imp_zdiv_nonneg_iff)
  have over: "?s < 2 ^ 64 \<Longrightarrow> in_i128 (?e * ?r)"
  proof -
    assume "?s < 2 ^ 64"
    then have "?e * ?r < 2 ^ 64 * 1000000000" by (simp add: div_less_iff_less_mult)
    then show "in_i128 (?e * ?r)" using p by (simp add: in_i128_def)
  qed
  have w: "uint (word_of_int ?s :: u64) = ?s" if "?s < 2 ^ 64"
    using s(1) that by (simp add: uint_word_of_int)
  have "clock_at k h = Inr x \<longleftrightarrow> ?s < 2 ^ 64 \<and>
      uint (controller_epoch k) + uint (word_of_int ?s :: u64) < 2 ^ 64 \<and> x = controller_epoch k + word_of_int ?s"
  proof (cases "in_i128 (?e * ?r)")
    case True
    then show ?thesis
      using \<open>host_epoch k \<le> h\<close> e(3) a s
      by (simp add: clock_at_def checked_sub_def i128_checked_eval PARTS_PER_BILLION_def Let_def ok_or_Inr_iff
          checked_add_Some_iff conj_ac)
  next
    case False
    then show ?thesis
      using \<open>host_epoch k \<le> h\<close> e(3) a over
      by (auto simp: clock_at_def checked_sub_def i128_checked_eval PARTS_PER_BILLION_def Let_def
          i128_checked_mul_def i128_fit_def)
  qed
  also have "\<dots> \<longleftrightarrow> uint x = uint (controller_epoch k) + ?s"
  proof
    assume l: "?s < 2 ^ 64 \<and> uint (controller_epoch k) + uint (word_of_int ?s :: u64) < 2 ^ 64 \<and>
      x = controller_epoch k + word_of_int ?s"
    then show "uint x = uint (controller_epoch k) + ?s"
      using uint_add_fits [of "controller_epoch k" "word_of_int ?s"] w by simp
  next
    assume x: "uint x = uint (controller_epoch k) + ?s"
    have "?s < 18446744073709551616" "uint (controller_epoch k) + ?s < 18446744073709551616"
      using x u64_bounds(2) [of x] u64_bounds(1) [of "controller_epoch k"] by linarith+
    then have lt: "?s < 2 ^ 64" "uint (controller_epoch k) + ?s < 2 ^ 64" by simp_all
    have "uint (controller_epoch k + word_of_int ?s) = uint x"
      using uint_add_fits [of "controller_epoch k" "word_of_int ?s"] w lt x by simp
    then show "?s < 2 ^ 64 \<and> uint (controller_epoch k) + uint (word_of_int ?s :: u64) < 2 ^ 64 \<and>
        x = controller_epoch k + word_of_int ?s"
      using lt w by (simp add: word_uint_eq_iff)
  qed
  finally show ?thesis using True by simp
qed

lemma clock_at_floor:
  assumes "- 1000000000 < sint (rate_ppb k)" "clock_at k h = Inr x"
  shows "uint x = \<lfloor>linear_clock k (uint h)\<rfloor>"
proof -
  let ?n = "(uint h - uint (host_epoch k)) * (1000000000 + sint (rate_ppb k))"
  have x: "uint x = uint (controller_epoch k) + ?n div 1000000000"
    using assms by (simp add: clock_at_iff)
  have "linear_clock k (uint h) = real_of_int (uint (controller_epoch k)) + real_of_int ?n / real_of_int 1000000000"
    by (simp add: linear_clock_def field_simps)
  then show ?thesis unfolding x by (simp only: int_add_floor [symmetric] floor_divide_of_int_eq)
qed

lemma linear_clock_slew:
  assumes "\<bar>sint (rate_ppb k)\<bar> \<le> slew"
  shows "slew_bounded slew (linear_clock k)"
proof -
  let ?r = "real_of_int (sint (rate_ppb k))"
  have d: "(linear_clock k t - t) - (linear_clock k s - s) = ?r / 1000000000 * (t - s)" for s t
    by (simp add: linear_clock_def field_simps)
  have "\<bar>?r / 1000000000 * x\<bar> \<le> real_of_int slew / 1000000000 * \<bar>x\<bar>" for x
  proof -
    have "\<bar>?r\<bar> \<le> real_of_int slew" using assms by linarith
    then have "\<bar>?r\<bar> / 1000000000 * \<bar>x\<bar> \<le> real_of_int slew / 1000000000 * \<bar>x\<bar>"
      by (intro mult_right_mono divide_right_mono) simp_all
    then show ?thesis by (simp only: abs_mult abs_divide abs_numeral)
  qed
  then show ?thesis by (simp only: slew_bounded_def d simp_thms)
qed

text \<open>All that delivering and answering change is the generator and the numbering.\<close>

definition same_link :: "SimClockTransport \<Rightarrow> SimClockTransport \<Rightarrow> bool" where
  "same_link a b \<longleftrightarrow> st_cfg a = st_cfg b \<and> st_pending a = st_pending b \<and> st_link_up a = st_link_up b"

lemma same_link_trans: "same_link a b \<Longrightarrow> same_link b c \<Longrightarrow> same_link a c"
  by (simp add: same_link_def)

lemma clock_roll_same: "clock_roll m self = (r, self') \<Longrightarrow> same_link self self'"
  by (auto simp: clock_roll_def clock_next_rand_def Let_def same_link_def split: if_splits)

lemma deliveries_cases:
  assumes "deliveries s link self = (Inr ts, self')"
  shows "same_link self self' \<and> length ts \<le> 2 \<and> (\<forall>t\<in>set ts. uint s + uint (cl_latency_ticks link) \<le> uint t)"
proof -
  obtain lost self1 where l: "clock_roll (cl_loss_per_mille link) self = (lost, self1)" by fastforce
  show ?thesis
  proof (cases lost)
    case True
    then show ?thesis using assms l clock_roll_same [OF l] by (simp add: deliveries_def)
  next
    case False
    obtain jitter self2 where j: "(if cl_jitter_ticks link = 0 then (Inr 0, self1)
          else (case checked_add (cl_jitter_ticks link) 1 of None \<Rightarrow> (Inl TimeOverflow, self1)
            | Some choices \<Rightarrow> (case clock_next_rand self1 of (r, self2) \<Rightarrow> (Inr (r mod choices), self2)))) =
          (Inr jitter :: SimClockTransportError + u64, self2)"
      using assms l False by (auto simp: deliveries_def split: prod.splits sum.splits)
    then have s2: "same_link self1 self2"
      by (auto simp: same_link_def clock_next_rand_def Let_def split: if_splits option.splits)
    obtain d where d: "Option.bind (checked_add s (cl_latency_ticks link)) (\<lambda>tick. checked_add tick jitter) = Some d"
      using assms l False j by (auto simp: deliveries_def split: option.splits)
    then have ud: "uint d = uint s + uint (cl_latency_ticks link) + uint jitter"
      by (auto simp: bind_eq_Some_conv dest!: checked_add_uint)
    obtain dup self3 where r: "clock_roll (cl_dup_per_mille link) self2 = (dup, self3)" by fastforce
    have "same_link self self3"
      using clock_roll_same [OF l] s2 clock_roll_same [OF r] same_link_trans by blast
    moreover have "self' = self3 \<and> (ts = [d] \<or> (\<exists>d'. checked_add d 1 = Some d' \<and> ts = [d, d']))"
      using assms l False j d r by (auto simp: deliveries_def split: bool.splits option.splits)
    ultimately show ?thesis using ud by (auto dest!: checked_add_uint)
  qed
qed

text \<open>
  A scheduled response is genuine for a request: it decodes to the request's number and to the
  clock's readings when the request arrived and when the answer left, and it is due no earlier than
  the latencies allow.
\<close>

definition genuine :: "ClockTransportConfig \<Rightarrow> u32 \<Rightarrow> u64 \<Rightarrow> ScheduledResponse \<Rightarrow> bool" where
  "genuine cfg seq sent r \<longleftrightarrow> (\<exists>t1 t2 a b.
     uint sent + uint (cl_latency_ticks (ct_request cfg)) \<le> uint t1 \<and>
     uint t2 = uint t1 + uint (ct_processing_ticks cfg) \<and>
     uint t2 + uint (cl_latency_ticks (ct_response cfg)) \<le> uint (sr_delivered_at r) \<and>
     clock_at (ct_controller_clock cfg) t1 = Inr a \<and> clock_at (ct_controller_clock cfg) t2 = Inr b \<and>
     decode_clock_response (sr_bytes r) =
       Inr \<lparr>rf_sequence = seq, rf_response = \<lparr>cr_controller_receive = a, cr_controller_send = b\<rparr>\<rparr>)"

lemma schedule_cases:
  "schedule bytes ts self = (rs, self') \<Longrightarrow>
     same_link self self' \<and> map sr_delivered_at rs = ts \<and> list_all (\<lambda>r. sr_bytes r = bytes) rs"
proof (induction ts arbitrary: self rs)
  case (Cons t ts)
  obtain rs1 where r: "schedule bytes ts (self\<lparr>st_next_insertion_order := st_next_insertion_order self + 1\<rparr>) = (rs1, self')"
    "rs = \<lparr>sr_delivered_at = t, sr_insertion_order = st_next_insertion_order self, sr_bytes = bytes\<rparr> # rs1"
    using Cons.prems by (auto split: prod.splits)
  show ?case using Cons.IH [OF r(1)] r(2) by (simp add: same_link_def)
qed (simp add: same_link_def)

lemma answer_cases:
  assumes "answer seq t self = (Inr rs, self')"
    and "uint sent + uint (cl_latency_ticks (ct_request (st_cfg self))) \<le> uint t"
  shows "same_link self self' \<and> length rs \<le> 2 \<and> list_all (genuine (st_cfg self) seq sent) rs"
proof -
  let ?cfg = "st_cfg self"
  obtain t2 where t2: "checked_add t (ct_processing_ticks ?cfg) = Some t2"
    using assms(1) by (auto simp: answer_def Let_def split: option.splits)
  obtain a where a: "clock_at (ct_controller_clock ?cfg) t = Inr a"
    using assms(1) t2 by (auto simp: answer_def Let_def split: sum.splits)
  obtain b where b: "clock_at (ct_controller_clock ?cfg) t2 = Inr b"
    using assms(1) t2 a by (auto simp: answer_def Let_def split: sum.splits)
  let ?f = "\<lparr>rf_sequence = seq, rf_response = \<lparr>cr_controller_receive = a, cr_controller_send = b\<rparr>\<rparr>"
  obtain bytes n where e: "encode_clock_response ?f (replicate CLOCK_RESPONSE_FRAME_LEN 0) = (Inr n, bytes)"
    "decode_clock_response bytes = Inr ?f"
    using encode_clock_response_fits [of "replicate CLOCK_RESPONSE_FRAME_LEN 0" ?f] decode_clock_response_iff
    by simp
  obtain ts self1 where d: "deliveries t2 (ct_response ?cfg) self = (Inr ts, self1)"
    using assms(1) t2 a b e by (auto simp: answer_def Let_def split: prod.splits sum.splits)
  obtain self2 where s: "schedule bytes ts self1 = (rs, self2)" "self' = self2"
    using assms(1) t2 a b e d by (auto simp: answer_def Let_def split: prod.splits)
  note dc = deliveries_cases [OF d] and sc = schedule_cases [OF s(1)]
  have "genuine ?cfg seq sent r" if "r \<in> set rs" for r
  proof -
    have "sr_delivered_at r \<in> set ts" "sr_bytes r = bytes" using sc that by (auto simp: list_all_iff)
    then show ?thesis
      using dc checked_add_uint [OF t2] a b e(2) assms(2) unfolding genuine_def by metis
  qed
  moreover have "length rs \<le> 2" using dc sc by (metis length_map)
  ultimately show ?thesis using dc sc s(2) same_link_trans by (auto simp: list_all_iff)
qed

lemma answer_all_cases:
  assumes "answer_all seq ts self = (Inr rs, self')"
    and "\<forall>t\<in>set ts. uint sent + uint (cl_latency_ticks (ct_request (st_cfg self))) \<le> uint t"
  shows "same_link self self' \<and> length rs \<le> 2 * length ts \<and> list_all (genuine (st_cfg self) seq sent) rs"
  using assms
proof (induction ts arbitrary: self rs)
  case (Cons t ts)
  obtain rs1 self1 rs2 where r: "answer seq t self = (Inr rs1, self1)"
    "answer_all seq ts self1 = (Inr rs2, self')" "rs = rs1 @ rs2"
    using Cons.prems(1) by (auto split: prod.splits sum.splits)
  have a: "same_link self self1 \<and> length rs1 \<le> 2 \<and> list_all (genuine (st_cfg self) seq sent) rs1"
    using answer_cases [OF r(1), where sent = sent] Cons.prems(2) by simp
  then have cfg: "st_cfg self1 = st_cfg self" by (simp add: same_link_def)
  show ?case
    using Cons.IH [OF r(2)] Cons.prems(2) a r(3) same_link_trans [of self self1 self'] unfolding cfg by simp
qed (simp add: same_link_def)

text \<open>What a handed-over frame adds to the link.\<close>

lemma send_request_cases:
  assumes "send_request t frame self = (r, self')"
  shows "(\<forall>e. r = Inl e \<longrightarrow> self' = self) \<and> st_cfg self' = st_cfg self \<and> st_link_up self' = st_link_up self \<and>
    (\<exists>new. st_pending self' = st_pending self @ new \<and> length new \<le> 4 \<and>
      (new \<noteq> [] \<longrightarrow> st_link_up self \<and> length (st_pending self') \<le> ct_max_pending (st_cfg self)) \<and>
      (\<forall>f. decode_clock_request frame = Inr f \<longrightarrow> list_all (genuine (st_cfg self) (rq_sequence f) t) new) \<and>
      (is_ok r \<longrightarrow> is_ok (decode_clock_request frame)))"
proof (cases "send_request_mut t frame self")
  case (Pair res cand)
  show ?thesis
  proof (cases res)
    case (Inl e)
    then show ?thesis using assms Pair by (auto simp: send_request_def Let_def)
  next
    case (Inr u)
    then have eq: "r = Inr ()" "self' = cand" using assms Pair by (simp_all add: send_request_def Let_def)
    obtain f where f: "decode_clock_request frame = Inr f"
      using Pair Inr by (auto simp: send_request_mut_def split: sum.splits)
    show ?thesis
    proof (cases "st_link_up self")
      case False
      then show ?thesis using Pair Inr f eq by (auto simp: send_request_mut_def)
    next
      case True
      obtain arr self1 where d: "deliveries t (ct_request (st_cfg self)) self = (Inr arr, self1)"
        using Pair Inr f True by (auto simp: send_request_mut_def split: prod.splits sum.splits)
      obtain new self2 where a: "answer_all (rq_sequence f) arr self1 = (Inr new, self2)"
        using Pair Inr f True d by (auto simp: send_request_mut_def split: prod.splits sum.splits)
      note dc = deliveries_cases [OF d]
      have same: "same_link self self1" using dc by blast
      then have cfg: "st_cfg self1 = st_cfg self" by (simp add: same_link_def)
      have ac: "same_link self1 self2 \<and> length new \<le> 2 * length arr \<and>
          list_all (genuine (st_cfg self) (rq_sequence f) t) new"
        using answer_all_cases [OF a] dc unfolding cfg by blast
      then have "same_link self self2" using same same_link_trans by blast
      moreover have "cand = self2\<lparr>st_pending := st_pending self2 @ new\<rparr>"
        "length (st_pending self2) + length new \<le> ct_max_pending (st_cfg self2)"
        using Pair Inr f True d a by (auto simp: send_request_mut_def split: if_splits)
      ultimately show ?thesis
        using eq f ac dc True by (intro conjI exI [of _ new]) (auto simp: same_link_def)
    qed
  qed
qed


section \<open>Receiving\<close>

lemma pick_due_cases:
  "case pick_due now rs of
     None \<Rightarrow> list_all (\<lambda>r. now < sr_delivered_at r) rs
   | Some (pre, m, post) \<Rightarrow> rs = pre @ m # post \<and> sr_delivered_at m \<le> now \<and>
       list_all (\<lambda>r. sr_delivered_at r \<le> now \<longrightarrow> due_before m r) pre \<and>
       list_all (\<lambda>r. sr_delivered_at r \<le> now \<longrightarrow> \<not> due_before r m) post"
proof (induction rs)
  case (Cons r rs)
  show ?case
  proof (cases "pick_due now rs")
    case None
    then have "\<forall>x\<in>set rs. \<not> sr_delivered_at x \<le> now" using Cons by (simp add: list_all_iff not_le)
    then show ?thesis using None Cons by (auto simp: list_all_iff not_le)
  next
    case (Some p)
    obtain pre m post where p: "p = (pre, m, post)" by (cases p)
    have ih: "rs = pre @ m # post" "sr_delivered_at m \<le> now"
      "\<forall>x\<in>set pre. sr_delivered_at x \<le> now \<longrightarrow> due_before m x"
      "\<forall>x\<in>set post. sr_delivered_at x \<le> now \<longrightarrow> \<not> due_before x m"
      using Cons Some p by (simp_all add: list_all_iff)
    show ?thesis
    proof (cases "sr_delivered_at r \<le> now \<and> \<not> due_before m r")
      case True
      have "\<not> due_before x r" if "x \<in> set rs" "sr_delivered_at x \<le> now" for x
      proof
        assume "due_before x r"
        then show False using True ih that by (auto simp: due_before_def)
      qed
      then show ?thesis using Some p True by (auto simp: list_all_iff)
    next
      case False
      then show ?thesis using Some p ih by (auto simp: list_all_iff)
    qed
  qed
qed simp

section \<open>The closed loop\<close>

text \<open>
  A host session drives a link: it begins exchanges, polls for due answers and hands them to the
  session, checks time-outs; the link may go down and come back; time passes.  The host reads the
  clock as the step happens.
\<close>

definition read_clock :: "u64 \<Rightarrow> unit host_clock" where
  "read_clock now c = (now, c)"

inductive clock_loop ::
  "i128 \<Rightarrow> u64 \<Rightarrow> ClockTransportConfig \<Rightarrow> u64 \<Rightarrow> ClockSession \<Rightarrow> SimClockTransport \<Rightarrow> bool"
  for slew timeout cfg where
  loop_start: "clock_session_new slew timeout = Inr cs \<Longrightarrow> sim_clock_transport_new cfg = Inr link \<Longrightarrow>
    clock_loop slew timeout cfg now cs link"
| loop_wait: "clock_loop slew timeout cfg now cs link \<Longrightarrow> now \<le> now' \<Longrightarrow>
    clock_loop slew timeout cfg now' cs link"
| loop_begin: "clock_loop slew timeout cfg now cs link \<Longrightarrow>
    session_begin (read_clock now) (send_request now) cs link () = (r, cs', link', c) \<Longrightarrow>
    clock_loop slew timeout cfg now cs' link'"
| loop_receive: "clock_loop slew timeout cfg now cs link \<Longrightarrow>
    receive_due now link = (Some f, link') \<Longrightarrow>
    accept_response (read_clock now) (sf_bytes f) cs () = (r', cs', c) \<Longrightarrow>
    clock_loop slew timeout cfg now cs' link'"
| loop_expire: "clock_loop slew timeout cfg now cs link \<Longrightarrow> expire now cs = (t, cs') \<Longrightarrow>
    clock_loop slew timeout cfg now cs' link"
| loop_drop: "clock_loop slew timeout cfg now cs link \<Longrightarrow>
    clock_loop slew timeout cfg now cs (clock_drop_link link)"
| loop_restore: "clock_loop slew timeout cfg now cs link \<Longrightarrow>
    clock_loop slew timeout cfg now cs (clock_restore_link link)"

lemma begin_exact:
  assumes ok: "session_ok cs n"
    and b: "session_begin (read_clock now) put cs s () = (r, cs', s', c)"
  shows "cs' = cs \<and> s' = s \<or>
    (\<exists>res. put (request_frame n) s = (res, s') \<and> n < 2 ^ 32 \<and> session_ok cs' (Suc n) \<and>
       cs_sync cs' = cs_sync cs \<and>
       cs_pending cs' = (if is_ok res then Some \<lparr>pe_sequence = of_nat n, pe_host_send = now\<rparr> else None))"
proof (cases "cs_pending cs = None \<and> \<not> cs_exhausted cs")
  case False
  then show ?thesis using b by (auto simp: session_begin_def split: option.splits)
next
  case True
  then have n: "n < 2 ^ 32" using ok by (auto simp: session_ok_def)
  have e: "encode_clock_request \<lparr>rq_sequence = cs_next_sequence cs\<rparr> (cs_request cs) =
      (Inr 15, request_frame n)"
    using ok encode_request_buffer by (simp add: session_ok_def request_frame_def)
  have len: "take 15 (request_frame n) = request_frame n" by simp
  obtain res s1 where p: "put (request_frame n) s = (res, s1)" by (cases "put (request_frame n) s")
  let ?cs = "cs\<lparr>cs_request := request_frame n, cs_exhausted := (cs_next_sequence cs = - 1),
    cs_next_sequence := cs_next_sequence cs + 1\<rparr>"
  have "s' = s1 \<and> cs' = (if is_ok res then
      ?cs\<lparr>cs_pending := Some \<lparr>pe_sequence = cs_next_sequence cs, pe_host_send = now\<rparr>\<rparr> else ?cs)"
    using b True p by (cases res) (simp_all add: session_begin_def e len Let_def read_clock_def)
  moreover have "session_ok (if is_ok res then
      ?cs\<lparr>cs_pending := Some \<lparr>pe_sequence = cs_next_sequence cs, pe_host_send = now\<rparr>\<rparr> else ?cs) (Suc n)"
    using True n ok of_nat_u32_eq_max [OF n] by (auto simp: session_ok_def add.commute)
  ultimately show ?thesis using p n True ok by (auto simp: session_ok_def)
qed

text \<open>
  Along the loop every answer under way is genuine for some request already sent, an outstanding
  exchange is the last request, and the last accepted sample is an exchange of the linear clock.
\<close>

definition loop_ok ::
  "i128 \<Rightarrow> ClockTransportConfig \<Rightarrow> u64 list \<Rightarrow> ClockSession \<Rightarrow> SimClockTransport \<Rightarrow> bool" where
  "loop_ok slew cfg sends cs link \<longleftrightarrow>
     session_ok cs (length sends) \<and> max_slew_ppb (cs_sync cs) = slew \<and> st_cfg link = cfg \<and>
     length (st_pending link) \<le> ct_max_pending cfg \<and>
     (\<forall>p. cs_pending cs = Some p \<longrightarrow> pe_host_send p = last sends) \<and>
     (\<forall>r\<in>set (st_pending link). \<exists>q<length sends. genuine cfg (of_nat q) (sends ! q) r) \<and>
     (\<forall>s. last_raw (cs_sync cs) = Some s \<longrightarrow>
        exchange_of (linear_clock (ct_controller_clock cfg))
          (real_of_int (uint (cl_latency_ticks (ct_response cfg)))) s)"

lemma request_decodes: "decode_clock_request (request_frame n) = Inr \<lparr>rq_sequence = of_nat n\<rparr>"
  by (simp add: crq.decode_iff request_frame_def)

lemma loop_ok_begin:
  assumes ok: "loop_ok slew cfg sends cs link"
    and b: "session_begin (read_clock now) (send_request now) cs link () = (r, cs', link', c)"
  shows "\<exists>sends'. loop_ok slew cfg sends' cs' link'"
proof -
  let ?n = "length sends"
  have s: "session_ok cs ?n" using ok by (simp add: loop_ok_def)
  consider "cs' = cs" "link' = link"
    | res where "send_request now (request_frame ?n) link = (res, link')" "?n < 2 ^ 32" "session_ok cs' (Suc ?n)"
      "cs_sync cs' = cs_sync cs"
      "cs_pending cs' = (if is_ok res then Some \<lparr>pe_sequence = of_nat ?n, pe_host_send = now\<rparr> else None)"
    using begin_exact [OF s b] by blast
  then show ?thesis
  proof cases
    case 1
    then show ?thesis using ok by blast
  next
    case 2
    obtain new where new: "st_cfg link' = st_cfg link" "st_pending link' = st_pending link @ new"
      "new \<noteq> [] \<longrightarrow> length (st_pending link') \<le> ct_max_pending (st_cfg link)"
      "list_all (genuine (st_cfg link) (of_nat ?n) now) new"
      using send_request_cases [OF 2(1)] request_decodes [of ?n] by auto
    have "\<exists>q<length (sends @ [now]). genuine cfg (of_nat q) ((sends @ [now]) ! q) x"
      if "x \<in> set (st_pending link')" for x
    proof (cases "x \<in> set new")
      case True
      then have "genuine cfg (of_nat ?n) ((sends @ [now]) ! ?n) x"
        using new(4) ok by (simp add: loop_ok_def list_all_iff)
      then show ?thesis by (intro exI [of _ ?n]) simp
    next
      case False
      then have "x \<in> set (st_pending link)" using that new(2) by simp
      then obtain q where "q < ?n" "genuine cfg (of_nat q) (sends ! q) x" using ok by (auto simp: loop_ok_def)
      then show ?thesis by (intro exI [of _ q]) (simp add: nth_append)
    qed
    moreover have "length (st_pending link') \<le> ct_max_pending cfg"
      using new ok by (cases "new = []") (auto simp: loop_ok_def)
    ultimately have "loop_ok slew cfg (sends @ [now]) cs' link'"
      using 2 ok new(1) by (auto simp: loop_ok_def split: if_splits)
    then show ?thesis by blast
  qed
qed

lemma receive_due_cases:
  assumes "receive_due now link = (Some f, link')"
  obtains x where "x \<in> set (st_pending link)" "sr_delivered_at x \<le> now" "sf_bytes f = sr_bytes x"
    "link' = link\<lparr>st_pending := st_pending link'\<rparr>" "set (st_pending link') \<subseteq> set (st_pending link)"
    "length (st_pending link') < length (st_pending link)"
proof -
  obtain pre m post where p: "pick_due now (st_pending link) = Some (pre, m, post)"
    "f = \<lparr>sf_delivered_at = sr_delivered_at m, sf_bytes = sr_bytes m\<rparr>" "link' = link\<lparr>st_pending := pre @ post\<rparr>"
    using assms by (auto simp: receive_due_def split: option.splits)
  have "st_pending link = pre @ m # post" "sr_delivered_at m \<le> now"
    using pick_due_cases [of now "st_pending link"] p(1) by simp_all
  with p show thesis by (intro that [of m]) auto
qed

lemma of_nat_u32_eq: "(of_nat a :: u32) = of_nat b \<Longrightarrow> a < 2 ^ 32 \<Longrightarrow> b < 2 ^ 32 \<Longrightarrow> a = b"
proof -
  assume a: "(of_nat a :: u32) = of_nat b" "a < 2 ^ 32" "b < 2 ^ 32"
  have "unat (of_nat a :: u32) = unat (of_nat b :: u32)" unfolding a(1) ..
  then show "a = b" using a(2,3) by (simp add: unat_of_nat)
qed

lemma accept_response_sample:
  assumes "accept_response (read_clock now) bytes cs () = (r, cs', c)"
  shows "(cs_sync cs' = cs_sync cs \<or>
     (\<exists>p f. cs_pending cs = Some p \<and> decode_clock_response bytes = Inr f \<and> rf_sequence f = pe_sequence p \<and>
       cs_sync cs' = snd (push \<lparr>host_send = pe_host_send p,
          controller_receive = cr_controller_receive (rf_response f),
          controller_send = cr_controller_send (rf_response f), host_receive = now\<rparr> (cs_sync cs)))) \<and>
    (cs_pending cs' = cs_pending cs \<or> cs_pending cs' = None)"
  using assms
  by (auto simp: accept_response_def decode_clock_response_frame_def read_clock_def Let_def
      split: prod.splits sum.splits option.splits if_splits)

lemma genuine_exchange:
  assumes rate: "- 1000000000 < sint (rate_ppb (ct_controller_clock cfg))"
    and g: "genuine cfg seq sent x" "sr_delivered_at x \<le> now"
    and d: "decode_clock_response (sr_bytes x) = Inr f"
  shows "rf_sequence f = seq \<and>
    exchange_of (linear_clock (ct_controller_clock cfg)) (real_of_int (uint (cl_latency_ticks (ct_response cfg))))
      \<lparr>host_send = sent, controller_receive = cr_controller_receive (rf_response f),
       controller_send = cr_controller_send (rf_response f), host_receive = now\<rparr>"
proof -
  obtain t1 t2 a b where t: "uint sent + uint (cl_latency_ticks (ct_request cfg)) \<le> uint t1"
    "uint t2 = uint t1 + uint (ct_processing_ticks cfg)"
    "uint t2 + uint (cl_latency_ticks (ct_response cfg)) \<le> uint (sr_delivered_at x)"
    "clock_at (ct_controller_clock cfg) t1 = Inr a" "clock_at (ct_controller_clock cfg) t2 = Inr b"
    "f = \<lparr>rf_sequence = seq, rf_response = \<lparr>cr_controller_receive = a, cr_controller_send = b\<rparr>\<rparr>"
    using g(1) d unfolding genuine_def by auto
  have fl: "uint a = \<lfloor>linear_clock (ct_controller_clock cfg) (uint t1)\<rfloor>"
    "uint b = \<lfloor>linear_clock (ct_controller_clock cfg) (uint t2)\<rfloor>"
    using clock_at_floor [OF rate] t(4,5) by auto
  have nn: "0 \<le> uint (cl_latency_ticks (ct_request cfg))" "0 \<le> uint (ct_processing_ticks cfg)" by simp_all
  have le: "uint sent \<le> uint t1" "uint t1 \<le> uint t2"
    "uint t2 + uint (cl_latency_ticks (ct_response cfg)) \<le> uint now"
    using t(1-3) g(2) nn unfolding word_le_def by linarith+
  have "real_of_int (uint t2) + real_of_int (uint (cl_latency_ticks (ct_response cfg))) \<le> real_of_int (uint now)"
    using le(3) by (metis of_int_add of_int_le_iff)
  moreover have "real_of_int (uint sent) \<le> real_of_int (uint t1)" "real_of_int (uint t1) \<le> real_of_int (uint t2)"
    using le by (simp_all only: of_int_le_iff)
  ultimately have near: "real_of_int (uint sent) \<le> real_of_int (uint t1)"
    "real_of_int (uint t1) \<le> real_of_int (uint t2)"
    "real_of_int (uint t2) + real_of_int (uint (cl_latency_ticks (ct_response cfg))) \<le> real_of_int (uint now)"
    by blast+
  show ?thesis
    unfolding exchange_of_def t(6)
    by (intro conjI, simp, rule exI [of _ "real_of_int (uint t1)"], rule exI [of _ "real_of_int (uint t2)"])
      (use near fl in simp)
qed

lemma loop_ok_receive:
  assumes rate: "- 1000000000 < sint (rate_ppb (ct_controller_clock cfg))"
    and ok: "loop_ok slew cfg sends cs link"
    and r: "receive_due now link = (Some f, link')"
    and a: "accept_response (read_clock now) (sf_bytes f) cs () = (r', cs', c)"
  shows "loop_ok slew cfg sends cs' link'"
proof -
  let ?ex = "exchange_of (linear_clock (ct_controller_clock cfg)) (real_of_int (uint (cl_latency_ticks (ct_response cfg))))"
  obtain x where x: "x \<in> set (st_pending link)" "sr_delivered_at x \<le> now" "sf_bytes f = sr_bytes x"
    "link' = link\<lparr>st_pending := st_pending link'\<rparr>" "set (st_pending link') \<subseteq> set (st_pending link)"
    "length (st_pending link') < length (st_pending link)"
    using receive_due_cases [OF r] by metis
  obtain q where q: "q < length sends" "genuine cfg (of_nat q) (sends ! q) x" using ok x(1) by (auto simp: loop_ok_def)
  note acc = accept_response_sample [OF a]
  have s: "session_ok cs (length sends)" using ok by (simp add: loop_ok_def)
  have raw: "?ex s" if ls: "last_raw (cs_sync cs') = Some s" for s
  proof (cases "last_raw (cs_sync cs') = last_raw (cs_sync cs)")
    case True
    then show ?thesis using ok ls by (simp add: loop_ok_def)
  next
    case False
    then obtain p fr where p: "cs_pending cs = Some p" "decode_clock_response (sf_bytes f) = Inr fr"
      "rf_sequence fr = pe_sequence p" and sy: "cs_sync cs' = snd (push \<lparr>host_send = pe_host_send p,
          controller_receive = cr_controller_receive (rf_response fr),
          controller_send = cr_controller_send (rf_response fr), host_receive = now\<rparr> (cs_sync cs))"
      using acc by auto
    have seq: "pe_sequence p = of_nat (length sends - 1)" "0 < length sends" "length sends \<le> 2 ^ 32"
      "pe_host_send p = last sends"
      using s ok p(1) by (auto simp: session_ok_def loop_ok_def)
    have "rf_sequence fr = of_nat q"
      using genuine_exchange [OF rate q(2) x(2)] p(2) x(3) by simp
    then have "(of_nat q :: u32) = of_nat (length sends - 1)" using p(3) seq(1) by metis
    moreover have "q < 2 ^ 32" "length sends - 1 < 2 ^ 32" using q(1) seq(2,3) by simp_all
    ultimately have "q = length sends - 1" by (rule of_nat_u32_eq)
    then have "sends ! q = pe_host_send p" using seq(2,4) by (simp add: last_conv_nth)
    moreover have "last_raw (cs_sync cs') = Some \<lparr>host_send = pe_host_send p,
        controller_receive = cr_controller_receive (rf_response fr),
        controller_send = cr_controller_send (rf_response fr), host_receive = now\<rparr>"
      using False push_last_raw [of _ "cs_sync cs"] unfolding sy by metis
    ultimately show ?thesis
      using genuine_exchange [OF rate q(2) x(2), of fr] p(2) x(3) ls by simp
  qed
  have slew: "max_slew_ppb (cs_sync cs') = slew" using acc ok push_slew by (auto simp: loop_ok_def)
  have cfg: "st_cfg link' = cfg" using x(4) ok unfolding loop_ok_def
    by (metis SimClockTransport.select_convs(1) SimClockTransport.surjective SimClockTransport.update_convs(4))
  have old: "length (st_pending link) \<le> ct_max_pending cfg"
    "\<And>p. cs_pending cs = Some p \<Longrightarrow> pe_host_send p = last sends"
    "\<And>r. r \<in> set (st_pending link) \<Longrightarrow> \<exists>q<length sends. genuine cfg (of_nat q) (sends ! q) r"
    using ok by (auto simp: loop_ok_def)
  have "\<And>p. cs_pending cs' = Some p \<Longrightarrow> pe_host_send p = last sends" using acc old(2) by (metis option.distinct(1))
  moreover have "length (st_pending link') \<le> ct_max_pending cfg" using x(6) old(1) by linarith
  ultimately show ?thesis
    unfolding loop_ok_def using session_ok_accept [OF s a] slew cfg raw x(5) old(3)
    by (intro conjI allI impI ballI) auto
qed

lemma loop_start_ok:
  assumes "clock_session_new slew timeout = Inr cs" "sim_clock_transport_new cfg = Inr link"
  shows "loop_ok slew cfg [] cs link"
proof -
  obtain sync where sync: "clock_sync_new slew = Inr sync" "cs_sync cs = sync"
    using assms(1) by (auto simp: clock_session_new_def)
  have "max_slew_ppb sync = slew" "last_raw sync = None"
    using sync(1) by (auto simp: clock_sync_new_def split: if_splits)
  then show ?thesis
    using session_new_ok [OF assms(1)] assms(2) sync(2)
    by (auto simp: loop_ok_def sim_clock_transport_new_def split: if_splits)
qed

lemma clock_loop_ok:
  assumes "clock_loop slew timeout cfg now cs link"
    and rate: "- 1000000000 < sint (rate_ppb (ct_controller_clock cfg))"
  shows "\<exists>sends. loop_ok slew cfg sends cs link"
  using assms(1)
proof (induction rule: clock_loop.induct)
  case (loop_start cs link now)
  then show ?case using loop_start_ok by blast
next
  case (loop_begin now cs link r cs' link' c)
  then show ?case using loop_ok_begin by blast
next
  case (loop_receive now cs link f link' r' cs' c)
  then show ?case using loop_ok_receive [OF rate] by blast
next
  case (loop_expire now cs link t cs')
  then obtain sends where o: "loop_ok slew cfg sends cs link" by blast
  have "cs_sync cs' = cs_sync cs \<and> (cs_pending cs' = cs_pending cs \<or> cs_pending cs' = None)"
    using loop_expire(2) by (auto simp: expire_def split: option.splits if_splits)
  then show ?case
    using o session_ok_expire [OF _ loop_expire(2)] by (intro exI [of _ sends]) (auto simp: loop_ok_def)
next
  case (loop_drop now cs link)
  then show ?case by (auto simp: loop_ok_def clock_drop_link_def)
next
  case (loop_restore now cs link)
  then show ?case by (auto simp: loop_ok_def clock_restore_link_def)
qed


section \<open>An exchange over a clean link\<close>

lemma clean_send:
  assumes link: "st_link_up link" "length (st_pending link) < ct_max_pending (st_cfg link)"
    and clean: "cl_loss_per_mille (ct_request (st_cfg link)) = 0" "cl_loss_per_mille (ct_response (st_cfg link)) = 0"
      "cl_dup_per_mille (ct_request (st_cfg link)) = 0" "cl_dup_per_mille (ct_response (st_cfg link)) = 0"
      "cl_jitter_ticks (ct_request (st_cfg link)) = 0" "cl_jitter_ticks (ct_response (st_cfg link)) = 0"
    and t: "checked_add t (cl_latency_ticks (ct_request (st_cfg link))) = Some t1"
      "checked_add t1 (ct_processing_ticks (st_cfg link)) = Some t2"
      "checked_add t2 (cl_latency_ticks (ct_response (st_cfg link))) = Some t3"
    and k: "clock_at (ct_controller_clock (st_cfg link)) t1 = Inr a"
      "clock_at (ct_controller_clock (st_cfg link)) t2 = Inr b"
    and f: "decode_clock_request frame = Inr f"
  shows "\<exists>bytes. send_request t frame link = (Inr (), link\<lparr>
      st_next_insertion_order := st_next_insertion_order link + 1,
      st_pending := st_pending link @
        [\<lparr>sr_delivered_at = t3, sr_insertion_order = st_next_insertion_order link, sr_bytes = bytes\<rparr>]\<rparr>) \<and>
    decode_clock_response bytes = Inr \<lparr>rf_sequence = rq_sequence f,
      rf_response = \<lparr>cr_controller_receive = a, cr_controller_send = b\<rparr>\<rparr>"
proof -
  let ?f = "\<lparr>rf_sequence = rq_sequence f, rf_response = \<lparr>cr_controller_receive = a, cr_controller_send = b\<rparr>\<rparr>"
  obtain bytes n where e: "encode_clock_response ?f (replicate CLOCK_RESPONSE_FRAME_LEN 0) = (Inr n, bytes)"
    "decode_clock_response bytes = Inr ?f"
    using encode_clock_response_fits [of "replicate CLOCK_RESPONSE_FRAME_LEN 0" ?f] decode_clock_response_iff
    by simp
  have zero: "checked_add x 0 = Some x" for x :: u64
    using u64_bounds(2) [of x] by (simp add: checked_add_Some_iff)
  have d: "deliveries x l link = (Inr [y], link)"
    if "cl_loss_per_mille l = 0" "cl_dup_per_mille l = 0" "cl_jitter_ticks l = 0"
      "checked_add x (cl_latency_ticks l) = Some y" for x y l
    using that by (simp add: deliveries_def clock_roll_def zero)
  have "answer (rq_sequence f) t1 link = (Inr
      [\<lparr>sr_delivered_at = t3, sr_insertion_order = st_next_insertion_order link, sr_bytes = bytes\<rparr>],
      link\<lparr>st_next_insertion_order := st_next_insertion_order link + 1\<rparr>)"
    using t(2) k e(1) d [OF clean(2,4,6) t(3)] by (simp add: answer_def Let_def)
  then show ?thesis
    using link f d [OF clean(1,3,5) t(1)] e(2)
    by (intro exI [of _ bytes]) (simp add: send_request_def send_request_mut_def Let_def)
qed

lemma clean_exchange:
  assumes loop: "clock_loop slew timeout cfg t cs link" and idle: "cs_pending cs = None" "\<not> cs_exhausted cs"
    and link: "st_link_up link" "st_pending link = []" "0 < ct_max_pending cfg"
    and clean: "cl_loss_per_mille (ct_request cfg) = 0" "cl_loss_per_mille (ct_response cfg) = 0"
      "cl_dup_per_mille (ct_request cfg) = 0" "cl_dup_per_mille (ct_response cfg) = 0"
      "cl_jitter_ticks (ct_request cfg) = 0" "cl_jitter_ticks (ct_response cfg) = 0"
    and t: "checked_add t (cl_latency_ticks (ct_request cfg)) = Some t1"
      "checked_add t1 (ct_processing_ticks cfg) = Some t2"
      "checked_add t2 (cl_latency_ticks (ct_response cfg)) = Some t3" "t \<le> t3"
      "saturating_sub t3 t < cs_timeout_ticks cs"
    and k: "clock_at (ct_controller_clock cfg) t1 = Inr a" "clock_at (ct_controller_clock cfg) t2 = Inr b"
    and inv: "loop_ok slew cfg sends cs link"
  shows "\<exists>cs' link'. clock_loop slew timeout cfg t3 cs' link' \<and> cs_pending cs' = None \<and>
    st_link_up link' \<and> st_pending link' = [] \<and> cs_timeout_ticks cs' = cs_timeout_ticks cs \<and>
    cs_sync cs' = snd (push \<lparr>host_send = t, controller_receive = a, controller_send = b, host_receive = t3\<rparr> (cs_sync cs)) \<and>
    cs_next_sequence cs' = cs_next_sequence cs + 1 \<and> (cs_exhausted cs' \<longleftrightarrow> cs_next_sequence cs = - 1)"
proof -
  let ?n = "length sends"
  have cfg: "st_cfg link = cfg" and ok: "session_ok cs ?n" using inv by (simp_all add: loop_ok_def)
  have n: "?n < 2 ^ 32" "cs_next_sequence cs = of_nat ?n" using ok idle(2) by (auto simp: session_ok_def)
  have e: "encode_clock_request \<lparr>rq_sequence = cs_next_sequence cs\<rparr> (cs_request cs) = (Inr 15, request_frame ?n)"
    using ok encode_request_buffer by (simp add: session_ok_def request_frame_def)
  have len: "take 15 (request_frame ?n) = request_frame ?n" by simp
  have max: "length (st_pending link) < ct_max_pending (st_cfg link)" using link cfg by simp
  obtain bytes where s: "send_request t (request_frame ?n) link = (Inr (), link\<lparr>
      st_next_insertion_order := st_next_insertion_order link + 1,
      st_pending := [\<lparr>sr_delivered_at = t3, sr_insertion_order = st_next_insertion_order link, sr_bytes = bytes\<rparr>]\<rparr>)"
    and d: "decode_clock_response bytes = Inr \<lparr>rf_sequence = of_nat ?n,
      rf_response = \<lparr>cr_controller_receive = a, cr_controller_send = b\<rparr>\<rparr>"
    using clean_send [OF link(1) max, unfolded cfg, OF clean t(1-3) k request_decodes [of ?n]] link(2)
    by auto
  let ?cs1 = "cs\<lparr>cs_request := request_frame ?n, cs_exhausted := (cs_next_sequence cs = - 1),
    cs_next_sequence := cs_next_sequence cs + 1,
    cs_pending := Some \<lparr>pe_sequence = cs_next_sequence cs, pe_host_send = t\<rparr>\<rparr>"
  let ?link1 = "snd (send_request t (request_frame ?n) link)"
  have b: "session_begin (read_clock t) (send_request t) cs link () =
      (Inr \<lparr>crr_sequence = cs_next_sequence cs, crr_frame_len = 15\<rparr>, ?cs1, ?link1, ())"
    using idle by (simp add: session_begin_def e len Let_def read_clock_def s)
  have l1: "clock_loop slew timeout cfg t3 ?cs1 ?link1"
    by (rule loop_wait [OF loop_begin [OF loop b] t(4)])
  have r: "receive_due t3 ?link1 = (Some \<lparr>sf_delivered_at = t3, sf_bytes = bytes\<rparr>, ?link1\<lparr>st_pending := []\<rparr>)"
    by (simp add: s receive_due_def)
  let ?s = "\<lparr>host_send = t, controller_receive = a, controller_send = b, host_receive = t3\<rparr>"
  let ?cs2 = "?cs1\<lparr>cs_pending := None, cs_sync := snd (push ?s (cs_sync cs))\<rparr>"
  have "\<exists>res. accept_response (read_clock t3) bytes ?cs1 () = (res, ?cs2, ())"
    using d n(2) t(5)
    by (cases "push ?s (cs_sync cs)")
      (auto simp: accept_response_def decode_clock_response_frame_def read_clock_def Let_def not_le [symmetric]
        split: sum.split)
  then obtain res where a: "accept_response (read_clock t3) (sf_bytes \<lparr>sf_delivered_at = t3, sf_bytes = bytes\<rparr>) ?cs1 () = (res, ?cs2, ())"
    by auto
  show ?thesis
    using loop_receive [OF l1 r a] link s by (intro exI [of _ ?cs2] exI [of _ "?link1\<lparr>st_pending := []\<rparr>"]) simp
qed

section \<open>Properties\<close>

text \<open>
  The controller clock.  A clock is refused exactly when its rate would not be positive;
  its reading is the epoch plus the floor of the scaled elapsed time, an error before its epoch and
  where the reading leaves 64 bits, and nothing else fails.
\<close>
theorem controller_clock_exact:
  "case controller_clock_new he ce rate of
     Inl e \<Rightarrow> e = NonPositiveRate rate \<and> sint rate \<le> - 1000000000
   | Inr k \<Rightarrow> - 1000000000 < sint rate \<and>
       (let v = uint ce + (uint h - uint he) * (1000000000 + sint rate) div 1000000000 in
        clock_at k h =
          (if h < he then Inl (HostBeforeEpoch h he)
           else if v < 2 ^ 64 then Inr (word_of_int v) else Inl ClockArithmeticOverflow))"
proof (cases "sint rate \<le> - 1000000000")
  case True
  then show ?thesis by (simp add: controller_clock_new_def PARTS_PER_BILLION_def)
next
  case False
  let ?k = "\<lparr>host_epoch = he, controller_epoch = ce, rate_ppb = rate\<rparr>"
  let ?v = "uint ce + (uint h - uint he) * (1000000000 + sint rate) div 1000000000"
  have k: "controller_clock_new he ce rate = Inr ?k" "- 1000000000 < sint rate"
    using False by (simp_all add: controller_clock_new_def PARTS_PER_BILLION_def)
  have "clock_at ?k h = (if h < he then Inl (HostBeforeEpoch h he)
      else if ?v < 2 ^ 64 then Inr (word_of_int ?v) else Inl ClockArithmeticOverflow)"
  proof (cases "h < he")
    case True
    then have "\<not> he \<le> h" by simp
    then show ?thesis using True by (simp add: clock_at_def checked_sub_def)
  next
    case nb: False
    then have le: "he \<le> h" "0 \<le> (uint h - uint he) * (1000000000 + sint rate)"
      using k(2) by (auto simp: word_le_def word_less_def not_less)
    have nn: "0 \<le> ?v" using le(2) by (simp add: pos_imp_zdiv_nonneg_iff)
    have errors: "clock_at ?k h = Inr x \<or> clock_at ?k h = Inl ClockArithmeticOverflow" if "\<nexists>x. clock_at ?k h = Inr x" for x
      using that le(1)
      by (auto simp: clock_at_def checked_sub_def ok_or_def and_then_def Let_def split: option.splits sum.splits if_splits)
    show ?thesis
    proof (cases "?v < 2 ^ 64")
      case True
      then have "uint (word_of_int ?v :: u64) = ?v" by (rule uint_of_int_u64 [OF nn])
      then have "clock_at ?k h = Inr (word_of_int ?v)"
        using le(1) k(2) by (subst clock_at_iff) (simp_all only: ControllerClock.select_convs simp_thms)
      then show ?thesis using nb True by simp
    next
      case False
      have "\<nexists>x. clock_at ?k h = Inr x"
      proof
        assume "\<exists>x. clock_at ?k h = Inr x"
        then obtain x where "clock_at ?k h = Inr x" ..
        then have "uint x = ?v" using k(2) by (simp add: clock_at_iff)
        then show False using False u64_bounds(2) [of x] by simp
      qed
      then show ?thesis using errors [of undefined] nb False by auto
    qed
  qed
  then show ?thesis using k by (simp add: Let_def)
qed

text \<open>
  Claim C22: what synchronisation over the simulated link guarantees.  Take a host session that drives a link
  with any latency, jitter, loss, duplication and outages, in any order of requests, polls, time-outs and
  waits, to a controller clock whose rate is within a slew bound below one.  When the session projects a host
  tick, the reading of the controller clock at that tick is at most \<^verbatim>\<open>latest\<close> and at most one tick before
  \<^verbatim>\<open>earliest\<close>; it lies inside the window if the link is configured with at least one tick on the way back; a link
  without latency is covered by the bound of one tick only.  The link never holds more than its bound of answers.
\<close>
theorem loop_window_sound:
  assumes "clock_loop slew timeout cfg now cs link"
    and "\<bar>sint (rate_ppb (ct_controller_clock cfg))\<bar> \<le> slew" "slew < 1000000000"
    and "controller_window (cs_sync cs) h = Inr w" "clock_at (ct_controller_clock cfg) h = Inr x"
  shows "x \<le> latest w \<and> uint (earliest w) \<le> uint x + 1 \<and>
    (1 \<le> cl_latency_ticks (ct_response cfg) \<longrightarrow> earliest w \<le> x) \<and> length (st_pending link) \<le> ct_max_pending cfg"
proof -
  let ?k = "ct_controller_clock cfg"
  have rate: "- 1000000000 < sint (rate_ppb ?k)" using assms(2,3) by linarith
  obtain sends where ok: "loop_ok slew cfg sends cs link" using clock_loop_ok [OF assms(1) rate] by blast
  let ?lat = "real_of_int (uint (cl_latency_ticks (ct_response cfg)))"
  have "0 \<le> uint (cl_latency_ticks (ct_response cfg))" by simp
  then have lat: "0 \<le> ?lat" by (simp only: of_int_0_le_iff)
  have inv: "session_inv (cs_sync cs)" "max_slew_ppb (cs_sync cs) = slew" "0 \<le> slew"
    using ok assms(2) by (auto simp: loop_ok_def session_ok_def)
  have "\<lfloor>linear_clock ?k (uint h)\<rfloor> \<le> uint (latest w) \<and>
    (\<exists>s. last_raw (cs_sync cs) = Some s \<and> uint (earliest w) \<le> \<lfloor>linear_clock ?k (uint h)\<rfloor> + slack ?lat s)"
    using assms(3,4) inv linear_clock_slew [OF assms(2)] ok lat
    by (intro window_sound_at) (auto simp: loop_ok_def)
  then obtain s where w: "uint x \<le> uint (latest w)" "uint (earliest w) \<le> uint x + slack ?lat s"
    using clock_at_floor [OF rate assms(5)] by auto
  have "uint (earliest w) \<le> uint x + 1" using w(2) by (auto simp: slack_def split: if_splits)
  moreover have "earliest w \<le> x" if "1 \<le> cl_latency_ticks (ct_response cfg)"
  proof -
    have "1 \<le> uint (cl_latency_ticks (ct_response cfg))" using that by (simp add: word_le_def)
    then have "1 / 2 \<le> ?lat" by linarith
    then show ?thesis using w(2) by (simp add: slack_def word_le_def)
  qed
  ultimately show ?thesis using w(1) ok by (simp add: word_le_def loop_ok_def)
qed

lemma default_exchange:
  assumes loop: "clock_loop 1000 5000 clock_transport_default t cs link"
    and idle: "cs_pending cs = None" "\<not> cs_exhausted cs" "st_link_up link" "st_pending link = []"
      "cs_timeout_ticks cs = 5000"
    and t: "checked_add t 200 = Some t1" "checked_add t1 200 = Some t3" "t \<le> t3" "saturating_sub t3 t < 5000"
    and k: "clock_at (ct_controller_clock clock_transport_default) t1 = Inr t1"
  shows "\<exists>cs' link'. clock_loop 1000 5000 clock_transport_default t3 cs' link' \<and> cs_pending cs' = None \<and>
    st_link_up link' \<and> st_pending link' = [] \<and> cs_timeout_ticks cs' = 5000 \<and>
    cs_sync cs' = snd (push \<lparr>host_send = t, controller_receive = t1, controller_send = t1, host_receive = t3\<rparr> (cs_sync cs)) \<and>
    cs_next_sequence cs' = cs_next_sequence cs + 1 \<and> (cs_exhausted cs' \<longleftrightarrow> cs_next_sequence cs = - 1)"
proof -
  let ?cfg = "clock_transport_default"
  obtain sends where ok: "loop_ok 1000 ?cfg sends cs link"
    using clock_loop_ok [OF loop] by (auto simp: clock_transport_default_def)
  have zero: "checked_add t1 (ct_processing_ticks ?cfg) = Some t1"
    using u64_bounds(2) [of t1] by (simp add: checked_add_Some_iff clock_transport_default_def)
  show ?thesis
    by (rule clean_exchange [OF loop idle(1-4), where ?t1.0 = t1 and ?t2.0 = t1, unfolded idle(5)])
      (use t k zero ok in \<open>simp_all add: clock_transport_default_def clock_link_default_def\<close>)
qed

theorem loop_window_sound_witness:
  "\<exists>now cs link w. clock_loop 1000 5000 clock_transport_default now cs link \<and>
     controller_window (cs_sync cs) 2000 = Inr w \<and> earliest w \<le> 2000 \<and> 2000 \<le> latest w"
proof -
  let ?cfg = clock_transport_default
  have k: "clock_at (ct_controller_clock ?cfg) h = Inr h" for h
    by (subst clock_at_iff) (simp_all add: clock_transport_default_def)
  have "is_ok (clock_session_new 1000 5000)" by (simp add: clock_session_new_def clock_sync_new_def)
  then obtain cs where cs: "clock_session_new 1000 5000 = Inr cs" unfolding is_ok_iff by blast
  have sync: "clock_sync_new 1000 = Inr (cs_sync cs)" "cs_next_sequence cs = 0"
    using cs by (auto simp: clock_session_new_def)
  note idle = session_new_ok [OF cs]
  obtain link where link: "sim_clock_transport_new ?cfg = Inr link" "st_link_up link" "st_pending link = []"
    by (simp add: sim_clock_transport_new_def validate_link_def clock_transport_default_def clock_link_default_def)
  let ?s1 = "\<lparr>host_send = 0, controller_receive = 200, controller_send = 200, host_receive = 400\<rparr>"
  let ?s2 = "\<lparr>host_send = 1000, controller_receive = 1200, controller_send = 1200, host_receive = 1400\<rparr>"
  obtain cs1 link1 where one: "clock_loop 1000 5000 ?cfg 400 cs1 link1" "cs_pending cs1 = None" "st_link_up link1"
    "st_pending link1 = []" "cs_timeout_ticks cs1 = 5000" "cs_sync cs1 = snd (push ?s1 (cs_sync cs))"
    "cs_next_sequence cs1 = 1" "\<not> cs_exhausted cs1"
    using default_exchange [OF loop_start [OF cs link(1)], of 0 200 400] idle link k sync(2)
    by (auto simp: checked_add_def saturating_sub_def)
  have wait: "clock_loop 1000 5000 ?cfg 1000 cs1 link1" by (rule loop_wait [OF one(1)]) simp
  obtain cs2 link2 where two: "clock_loop 1000 5000 ?cfg 1400 cs2 link2" "cs_sync cs2 = snd (push ?s2 (cs_sync cs1))"
    using default_exchange [OF wait one(2,8,3,4,5), of 1200 1400] k
    by (auto simp: checked_add_def saturating_sub_def)
  have "case clock_sync_new 1000 of Inl _ \<Rightarrow> False | Inr c \<Rightarrow>
      is_ok (controller_window (push_all [?s1, ?s2] c) 2000)"
    by (simp add: clock_sync_new_def push_def observe_bounded_eq) code_simp
  then obtain w where w: "controller_window (cs_sync cs2) 2000 = Inr w"
    by (auto simp: sync(1) one(6) two(2) is_ok_iff)
  have "earliest w \<le> 2000 \<and> 2000 \<le> latest w"
    using loop_window_sound [OF two(1) _ _ w k [of 2000]]
    by (simp add: clock_transport_default_def clock_link_default_def)
  then show ?thesis using two(1) w by blast
qed

end
