(* ===== verification/Schema.thy ===== *)
theory Schema
  imports BTree Floats Rust_Text
begin

text \<open>
  \<^verbatim>\<open>crates/machine-schema/src/lib.rs\<close>: diagnostics with their source positions, identifiers, typed
  physical quantities, and the machine document.  A YAML value of an open attribute is a type of its
  own, \<^verbatim>\<open>'v\<close>, which belongs to the YAML library.
\<close>

section \<open>Diagnostics\<close>

record SourcePosition =
  pos_line :: nat
  pos_column :: nat

record SourceSpan =
  sn_document :: "string option"
  sn_path :: "string option"
  sn_start :: SourcePosition
  sn_end :: SourcePosition

definition source_span_new :: "string \<Rightarrow> SourcePosition \<Rightarrow> SourcePosition \<Rightarrow> SourceSpan" where
  "source_span_new path start stop =
     \<lparr>sn_document = None, sn_path = Some path, sn_start = start, sn_end = stop\<rparr>"

definition source_span_point :: "nat \<Rightarrow> nat \<Rightarrow> SourceSpan" where
  "source_span_point line column =
     (let position = \<lparr>pos_line = line, pos_column = column\<rparr> in
      \<lparr>sn_document = None, sn_path = None, sn_start = position, sn_end = position\<rparr>)"

definition in_document :: "string \<Rightarrow> SourceSpan \<Rightarrow> SourceSpan" where
  "in_document document self = self\<lparr>sn_document := Some document\<rparr>"

record RelatedDiagnostic =
  rd_message :: string
  rd_path :: "string option"
  rd_source :: "SourceSpan option"

definition related_diagnostic_at :: "string \<Rightarrow> string \<Rightarrow> RelatedDiagnostic" where
  "related_diagnostic_at message path = \<lparr>rd_message = message, rd_path = Some path, rd_source = None\<rparr>"

definition related_with_source :: "string \<Rightarrow> SourceSpan \<Rightarrow> RelatedDiagnostic" where
  "related_with_source message source =
     \<lparr>rd_message = message, rd_path = sn_path source, rd_source = Some source\<rparr>"

datatype Severity = SevError | SevWarning | SevInfo

record Diagnostic =
  dg_code :: string
  dg_severity :: Severity
  dg_message :: string
  dg_path :: "string option"
  dg_line :: "nat option"
  dg_column :: "nat option"
  dg_source :: "SourceSpan option"
  dg_related :: "RelatedDiagnostic list"
  dg_suggestions :: "string list"

definition diag_error :: "string \<Rightarrow> string \<Rightarrow> Diagnostic" where
  "diag_error code message =
     \<lparr>dg_code = code, dg_severity = SevError, dg_message = message, dg_path = None, dg_line = None,
      dg_column = None, dg_source = None, dg_related = [], dg_suggestions = []\<rparr>"

definition diag_warning :: "string \<Rightarrow> string \<Rightarrow> Diagnostic" where
  "diag_warning code message = (diag_error code message)\<lparr>dg_severity := SevWarning\<rparr>"

definition diag_info :: "string \<Rightarrow> string \<Rightarrow> Diagnostic" where
  "diag_info code message = (diag_error code message)\<lparr>dg_severity := SevInfo\<rparr>"

definition diag_at :: "string \<Rightarrow> Diagnostic \<Rightarrow> Diagnostic" where
  "diag_at path self = self\<lparr>dg_path := Some path\<rparr>"

definition suggest :: "string \<Rightarrow> Diagnostic \<Rightarrow> Diagnostic" where
  "suggest s self = self\<lparr>dg_suggestions := dg_suggestions self @ [s]\<rparr>"

definition with_source :: "SourceSpan \<Rightarrow> Diagnostic \<Rightarrow> Diagnostic" where
  "with_source source self =
     (let self1 = (if dg_path self = None then self\<lparr>dg_path := sn_path source\<rparr> else self) in
      self1\<lparr>dg_line := Some (pos_line (sn_start source)), dg_column := Some (pos_column (sn_start source)),
            dg_source := Some source\<rparr>)"

definition related_at :: "string \<Rightarrow> string \<Rightarrow> Diagnostic \<Rightarrow> Diagnostic" where
  "related_at message path self = self\<lparr>dg_related := dg_related self @ [related_diagnostic_at message path]\<rparr>"

definition related_source :: "string \<Rightarrow> SourceSpan \<Rightarrow> Diagnostic \<Rightarrow> Diagnostic" where
  "related_source message source self =
     self\<lparr>dg_related := dg_related self @ [related_with_source message source]\<rparr>"

definition is_error :: "Diagnostic \<Rightarrow> bool" where
  "is_error d \<longleftrightarrow> dg_severity d = SevError"

lemma severity_simps [simp]:
  "is_error (diag_error c m)" "\<not> is_error (diag_warning c m)" "\<not> is_error (diag_info c m)"
  "is_error (diag_at p d) \<longleftrightarrow> is_error d" "is_error (suggest s d) \<longleftrightarrow> is_error d"
  "is_error (with_source src d) \<longleftrightarrow> is_error d" "is_error (related_at m p d) \<longleftrightarrow> is_error d"
  "is_error (related_source m src d) \<longleftrightarrow> is_error d"
  by (simp_all add: is_error_def diag_error_def diag_warning_def diag_info_def diag_at_def suggest_def
      with_source_def related_at_def related_source_def Let_def)

lemma code_simps [simp]:
  "dg_code (diag_error c m) = c" "dg_code (diag_warning c m) = c" "dg_code (diag_info c m) = c"
  "dg_code (diag_at p d) = dg_code d" "dg_code (suggest s d) = dg_code d"
  "dg_code (with_source src d) = dg_code d" "dg_code (related_at m p d) = dg_code d"
  "dg_code (related_source m src d) = dg_code d"
  by (simp_all add: diag_error_def diag_warning_def diag_info_def diag_at_def suggest_def
      with_source_def related_at_def related_source_def Let_def)

section \<open>Identifiers\<close>

definition valid_identifier :: "string \<Rightarrow> bool" where
  "valid_identifier s =
     (case s of
        [] \<Rightarrow> False
      | c # chars \<Rightarrow> is_lower c \<and>
          list_all (\<lambda>c. is_lower c \<or> is_digit c \<or> c = CHR ''_'' \<or> c = CHR ''-'') chars)"

definition valid_package_ref_name :: "string \<Rightarrow> bool" where
  "valid_package_ref_name raw =
     (case split_once (CHR ''/'') raw of
        None \<Rightarrow> False
      | Some (namespace, name) \<Rightarrow> valid_identifier namespace \<and> valid_identifier name)"

lemma valid_identifier_no_dot: "valid_identifier s \<Longrightarrow> CHR ''.'' \<notin> set s"
  by (auto simp: valid_identifier_def is_lower_def is_digit_def list_all_iff split: list.splits)

section \<open>Quantities\<close>

datatype Dimension =
    Length | Velocity | Acceleration | Time | Power | Voltage | Current | Frequency | Temperature
  | Resistance | Memory

record 'f Quantity =
  q_value :: 'f
  q_dimension :: Dimension
  q_raw :: string

definition UNIT_TABLE :: "(string \<times> Dimension \<times> string) list" where
  "UNIT_TABLE =
     [(''mm'', Length, ''1.0''), (''m'', Length, ''1000.0''), (''um'', Length, ''0.001''),
      (''mm/s'', Velocity, ''1.0''), (''m/s'', Velocity, ''1000.0''),
      (''mm/s^2'', Acceleration, ''1.0''), (''m/s^2'', Acceleration, ''1000.0''),
      (''s'', Time, ''1.0''), (''ms'', Time, ''0.001''), (''us'', Time, ''0.000001''), (''min'', Time, ''60.0''),
      (''W'', Power, ''1.0''), (''kW'', Power, ''1000.0''), (''V'', Voltage, ''1.0''), (''mV'', Voltage, ''0.001''),
      (''A'', Current, ''1.0''), (''mA'', Current, ''0.001''),
      (''Hz'', Frequency, ''1.0''), (''kHz'', Frequency, ''1000.0''), (''MHz'', Frequency, ''1000000.0''),
      (''C'', Temperature, ''1.0''), (''Ohm'', Resistance, ''1.0''), (''kOhm'', Resistance, ''1000.0''),
      (''B'', Memory, ''1.0''), (''KiB'', Memory, ''1024.0''), (''MiB'', Memory, ''1048576.0'')]"

datatype QuantityError =
    MissingUnit
  | BadNumber string
  | UnknownUnit string
  | WrongDimension Dimension Dimension \<comment> \<open>expected, got\<close>

fun dimension_name :: "Dimension \<Rightarrow> string" where
  "dimension_name Length = ''Length''" | "dimension_name Velocity = ''Velocity''"
| "dimension_name Acceleration = ''Acceleration''" | "dimension_name Time = ''Time''"
| "dimension_name Power = ''Power''" | "dimension_name Voltage = ''Voltage''"
| "dimension_name Current = ''Current''" | "dimension_name Frequency = ''Frequency''"
| "dimension_name Temperature = ''Temperature''" | "dimension_name Resistance = ''Resistance''"
| "dimension_name Memory = ''Memory''"

fun quantity_error_text :: "QuantityError \<Rightarrow> string" where
  "quantity_error_text MissingUnit =
     ''quantity requires an explicit unit (e.g. '' @ [CHR 0x22] @ ''300 mm/s'' @ [CHR 0x22] @ '')''"
| "quantity_error_text (BadNumber s) = quoted s @ '' is not a finite number''"
| "quantity_error_text (UnknownUnit u) = ''unknown unit '' @ quoted u"
| "quantity_error_text (WrongDimension expected got) =
     ''expected a '' @ dimension_name expected @ '' quantity, got '' @ dimension_name got"

definition number_char :: "char \<Rightarrow> bool" where
  "number_char c \<longleftrightarrow> is_digit c \<or> c = CHR ''.'' \<or> c = CHR ''-'' \<or> c = CHR ''+''"

definition quantity_parse :: "('f, 'z) text_float_ops_scheme \<Rightarrow> string \<Rightarrow> QuantityError + 'f Quantity" where
  "quantity_parse fo raw =
     (let raw_trimmed = trim raw; num = takeWhile number_char raw_trimmed in
      if num = raw_trimmed then Inl MissingUnit else
      let unit_text = trim (drop (length num) raw_trimmed) in
      if num = [] \<or> unit_text = [] then Inl MissingUnit else
      and_then (ok_or (fo_parse fo num) (BadNumber num)) (\<lambda>val.
      if \<not> fo_is_finite fo val then Inl (BadNumber num) else
      and_then (ok_or (List.find (\<lambda>(u, _, _). u = unit_text) UNIT_TABLE) (UnknownUnit unit_text))
        (\<lambda>(_, dimension, scale).
      Inr \<lparr>q_value = fo_mul fo val (fo_literal fo scale), q_dimension = dimension, q_raw = raw_trimmed\<rparr>)))"

definition parse_as ::
  "('f, 'z) text_float_ops_scheme \<Rightarrow> string \<Rightarrow> Dimension \<Rightarrow> QuantityError + 'f Quantity" where
  "parse_as fo raw expected =
     and_then (quantity_parse fo raw) (\<lambda>q.
     if q_dimension q \<noteq> expected then Inl (WrongDimension expected (q_dimension q)) else Inr q)"

lemma parse_as_dimension: "parse_as fo raw d = Inr q \<Longrightarrow> q_dimension q = d"
  by (auto simp: parse_as_def split: if_splits)

section \<open>The machine document\<close>

record Metadata =
  md_name :: string
  md_description :: "string option"

record SchemaTransport =
  tp_kind :: string
  tp_parent :: "string option"

record MachineController =
  mc_board :: string
  mc_transport :: SchemaTransport

record 'v Component =
  co_kind :: string
  co_attributes :: "(string, 'v) btree"

record Kinematics =
  km_kind :: string
  km_limits :: "(string, string) btree"

record Safety =
  sf_profile :: string

record Calibration =
  ca_source :: string

record 'v WorkflowInvocation =
  wi_package :: string
  wi_parameters :: "(string, 'v) btree"

datatype 'v WorkflowRef = WorkflowSimple string | WorkflowInvoked "'v WorkflowInvocation"

definition workflow_package :: "'v WorkflowRef \<Rightarrow> string" where
  "workflow_package self = (case self of WorkflowSimple raw \<Rightarrow> raw | WorkflowInvoked invoked \<Rightarrow> wi_package invoked)"

definition workflow_parameters :: "'v WorkflowRef \<Rightarrow> (string, 'v) btree option" where
  "workflow_parameters self =
     (case self of
        WorkflowSimple _ \<Rightarrow> None
      | WorkflowInvoked invoked \<Rightarrow> if wi_parameters invoked = [] then None else Some (wi_parameters invoked))"

record 'v MachineDoc =
  doc_api_version :: string
  doc_kind :: string
  doc_metadata :: Metadata
  doc_packages :: "string list"
  doc_controllers :: "(string, MachineController) btree"
  doc_components :: "(string, 'v Component) btree"
  doc_kinematics :: Kinematics
  doc_safety :: Safety
  doc_workflows :: "(string, 'v WorkflowRef) btree"
  doc_calibration :: "Calibration option"

end
