(* ===== verification/Packages.thy ===== *)
theory Packages
  imports Schema
begin

text \<open>
  The package payloads the resolver reads, \<^verbatim>\<open>crates/package-model/src\<close>: boards with their connectors,
  chips with their peripherals and pin functions, device requirements, safety policies.  Reading the
  files and the YAML in them is outside the model; semantic versions are the type \<^verbatim>\<open>'ver\<close>.
\<close>

section \<open>Identity\<close>

datatype PackageKind =
    Chip | Board | Device | Machine | Workflow | SafetyProfile | KinematicsPackage | HostExtension
  | FirmwareExtension

record 'ver PackageIdentity =
  pi_namespace :: string
  pi_name :: string
  pi_version :: 'ver
  pi_kind :: PackageKind

section \<open>Boards\<close>

record Hardware =
  hw_manufacturer :: "string option"
  hw_model :: "string option"
  hw_revision :: "string option"

record Connector =
  cn_kind :: string
  cn_pins :: "(string, string) btree"
  cn_pin :: "string option"
  cn_voltage_domain :: "string option"
  cn_max_current :: "string option"
  cn_supply :: "string option"
  cn_pullup :: "string option"

record BoardTransport =
  bt_peripheral :: "string option"

record UsbSelector =
  us_usb_vid :: u16
  us_usb_pid :: u16
  us_serial_number :: "string option"
  us_manufacturer :: "string option"
  us_product :: "string option"

record FlashMethod =
  fm_transport :: string
  fm_select :: UsbSelector
  fm_enter_bootloader :: "string list"
  fm_verify :: string
  fm_recovery :: "string list"

record FlashConfig =
  fl_default_method :: string
  fl_methods :: "(string, FlashMethod) btree"

record 'ver BoardPackageFile =
  bp_package :: "'ver PackageIdentity"
  bp_chip :: "string option"
  bp_hardware :: "Hardware option"
  bp_connectors :: "(string, Connector) btree"
  bp_transports :: "(string, BoardTransport) btree"
  bp_flash :: "FlashConfig option"

section \<open>Chips\<close>

record MemoryLayout =
  ml_flash :: string
  ml_ram :: string

record BootConfig =
  bc_default_bootloader_offset :: u64

record FirmwareTarget =
  ft_target_triple :: string
  ft_toolchain :: string
  ft_build_profile :: string
  ft_protocol_version :: string
  ft_abi_version :: string
  ft_features :: "string list"

record Timer =
  tm_id :: string
  tm_channels :: u32

record Bus =
  bus_id :: string
  bus_max_frequency :: "string option"
  bus_worst_case_latency :: "string option"
  bus_worst_case_jitter :: "string option"

record DmaChannel =
  dc_id :: string
  dc_routes :: "string list"

record Adc =
  adc_id :: string
  adc_channels :: "u32 option"

record Peripherals =
  pe_timers :: "Timer list"
  pe_spi :: "Bus list"
  pe_i2c :: "Bus list"
  pe_uart :: "Bus list"
  pe_adc :: "Adc list"
  pe_dma :: "DmaChannel list"

record 'ver ChipPackageFile =
  cp_package :: "'ver PackageIdentity"
  cp_memory :: "MemoryLayout option"
  cp_boot :: "BootConfig option"
  cp_firmware :: "FirmwareTarget option"
  cp_peripherals :: Peripherals
  cp_pin_functions :: "(string, string list) btree"

definition buses :: "'ver ChipPackageFile \<Rightarrow> Bus list" where
  "buses self = pe_spi (cp_peripherals self) @ pe_i2c (cp_peripherals self) @ pe_uart (cp_peripherals self)"

text \<open>\<^verbatim>\<open>Iterator::min_by\<close> keeps the first of equal minima.\<close>

fun first_min :: "('a \<Rightarrow> 'k :: linorder) \<Rightarrow> 'a list \<Rightarrow> 'a option" where
  "first_min key [] = None"
| "first_min key (x # xs) =
     (case first_min key xs of
        None \<Rightarrow> Some x
      | Some y \<Rightarrow> if key y < key x then Some y else Some x)"

definition dma_channel_for_route :: "string \<Rightarrow> 'ver ChipPackageFile \<Rightarrow> DmaChannel option" where
  "dma_channel_for_route route self =
     first_min dc_id (filter (\<lambda>channel. route \<in> set (dc_routes channel)) (pe_dma (cp_peripherals self)))"

section \<open>Devices\<close>

record BusReq =
  br_kind :: string
  br_min_frequency :: "string option"
  br_dma_signals :: "string list"
  br_max_latency :: "string option"
  br_max_jitter :: "string option"

record Requires =
  rq_connector :: "string option"
  rq_voltage_domains :: "string list"
  rq_bus :: "BusReq option"

record DeviceInfo =
  di_class :: "string option"
  di_model :: "string option"

record 'ver DevicePackageFile =
  dp_package :: "'ver PackageIdentity"
  dp_device :: "DeviceInfo option"
  dp_requires :: "Requires option"
  dp_capabilities :: "string list"

section \<open>References, manifests and the registry\<close>

text \<open>What the sources use of semantic versions; their order is that of the type \<^verbatim>\<open>'ver\<close>.\<close>

record ('ver, 'req) semver_ops =
  sv_parse_version :: "string \<Rightarrow> string + 'ver"
  sv_parse_req :: "string \<Rightarrow> string + 'req"
  sv_matches :: "'req \<Rightarrow> 'ver \<Rightarrow> bool"
  sv_version_text :: "'ver \<Rightarrow> string"
  sv_req_text :: "'req \<Rightarrow> string"

record 'ver PackageRef =
  pr_namespace :: string
  pr_name :: string
  pr_version :: 'ver

definition package_ref_text :: "('ver, 'req) semver_ops \<Rightarrow> 'ver PackageRef \<Rightarrow> string" where
  "package_ref_text sv self =
     pr_namespace self @ ''/'' @ pr_name self @ ''@'' @ sv_version_text sv (pr_version self)"

definition package_ref_parse :: "('ver, 'req) semver_ops \<Rightarrow> string \<Rightarrow> string + 'ver PackageRef" where
  "package_ref_parse sv s =
     and_then (ok_or (split_once (CHR ''@'') s) (quoted s @ '' is missing '' @ quoted ''@version'')) (\<lambda>(path, version).
     and_then (ok_or (split_once (CHR ''/'') path) (quoted s @ '' is missing '' @ quoted ''namespace/''))
       (\<lambda>(namespace, name).
     if \<not> valid_identifier namespace \<or> \<not> valid_identifier name
     then Inl (quoted path @ '' must be lowercase identifiers '' @ quoted ''namespace/name'') else
     and_then (map_err (\<lambda>e. quoted version @ '' is not semver: '' @ e) (sv_parse_version sv version)) (\<lambda>v.
     Inr \<lparr>pr_namespace = namespace, pr_name = name, pr_version = v\<rparr>)))"

definition ref_parse_error_text :: "string \<Rightarrow> string" where
  "ref_parse_error_text e = ''invalid package reference: '' @ e"

record Dependency =
  dep_version :: string

definition replace_commas :: "string \<Rightarrow> string" where
  "replace_commas s = concat (map (\<lambda>c. if c = CHR '','' then '', '' else [c]) s)"

definition dependency_requirement :: "('ver, 'req) semver_ops \<Rightarrow> Dependency \<Rightarrow> string + 'req" where
  "dependency_requirement sv self = sv_parse_req sv (replace_commas (dep_version self))"

record 'ver Manifest =
  mf_package :: "'ver PackageIdentity"
  mf_dependencies :: "(string, Dependency) btree"

record 'ver LoadedPackage =
  lp_reference :: "'ver PackageRef"
  lp_kind :: PackageKind
  lp_dir :: string
  lp_manifest :: "'ver Manifest"

definition REGISTRY_SOURCE_SCHEMA :: string where
  "REGISTRY_SOURCE_SCHEMA = ''dryer.registry-source/v1''"

record RegistrySource =
  rs_schema :: string
  rs_id :: string
  rs_uri :: string
  rs_descriptor_hash :: string

definition ascii_whitespace :: "char \<Rightarrow> bool" where
  "ascii_whitespace c \<longleftrightarrow> (of_char c :: nat) \<in> {9, 10, 12, 13, 32}"

definition scheme_byte :: "nat \<Rightarrow> char \<Rightarrow> bool" where
  "scheme_byte index c \<longleftrightarrow>
     is_lower c \<or> (is_digit c \<or> c = CHR ''+'' \<or> c = CHR ''-'' \<or> c = CHR ''.'') \<and> index > 0"

definition portable_registry_uri :: "string \<Rightarrow> bool" where
  "portable_registry_uri uri =
     (if uri = [] \<or> trim uri \<noteq> uri \<or> list_ex ascii_whitespace uri \<or> CHR 0x5C \<in> set uri then False
      else
        (case split_once (CHR '':'') uri of
           None \<Rightarrow> False
         | Some (scheme, location) \<Rightarrow>
             location \<noteq> [] \<and> scheme \<noteq> ''file'' \<and> list_all (\<lambda>(i, c). scheme_byte i c) (enumerate 0 scheme)))"

definition valid_sha256 :: "string \<Rightarrow> bool" where
  "valid_sha256 s =
     (if starts_with s ''sha256:''
      then let digest = drop 7 s in
        length digest = 64 \<and> list_all (\<lambda>c. is_digit c \<or> 97 \<le> (of_char c :: nat) \<and> (of_char c :: nat) \<le> 102) digest
      else False)"

definition registry_source_validate :: "RegistrySource \<Rightarrow> string + unit" where
  "registry_source_validate self =
     (if rs_schema self \<noteq> REGISTRY_SOURCE_SCHEMA
      then Inl (''registry source schema '' @ quoted (rs_schema self) @ '' is not '' @ quoted REGISTRY_SOURCE_SCHEMA)
      else if \<not> valid_identifier (rs_id self)
      then Inl (''registry source id '' @ quoted (rs_id self) @ '' is not a valid identifier'')
      else if \<not> portable_registry_uri (rs_uri self)
      then Inl (''registry source URI '' @ quoted (rs_uri self) @ '' is not a portable absolute URI'')
      else if \<not> valid_sha256 (rs_descriptor_hash self)
      then Inl ''registry descriptor_hash is not a lowercase sha256 digest''
      else Inr ())"

record 'ver LocalRegistry =
  lr_source :: "RegistrySource option"
  lr_packages :: "'ver LoadedPackage list"
  lr_diagnostics :: "Diagnostic list"

definition named :: "string \<Rightarrow> string \<Rightarrow> 'ver LoadedPackage \<Rightarrow> bool" where
  "named namespace name p \<longleftrightarrow> pr_namespace (lp_reference p) = namespace \<and> pr_name (lp_reference p) = name"

text \<open>\<^verbatim>\<open>Iterator::max_by\<close> keeps the last of equal maxima.\<close>

fun last_max :: "('a \<Rightarrow> 'k :: linorder) \<Rightarrow> 'a list \<Rightarrow> 'a option" where
  "last_max key [] = None"
| "last_max key (x # xs) =
     (case last_max key xs of
        None \<Rightarrow> Some x
      | Some y \<Rightarrow> if key x \<le> key y then Some y else Some x)"

definition registry_find :: "string \<Rightarrow> string \<Rightarrow> ('ver :: linorder) LocalRegistry \<Rightarrow> 'ver LoadedPackage option" where
  "registry_find namespace name self =
     last_max (\<lambda>p. pr_version (lp_reference p)) (filter (named namespace name) (lr_packages self))"

definition find_version ::
  "string \<Rightarrow> string \<Rightarrow> 'ver :: linorder \<Rightarrow> 'ver LocalRegistry \<Rightarrow> 'ver LoadedPackage option" where
  "find_version namespace name version self =
     List.find (\<lambda>p. named namespace name p \<and> pr_version (lp_reference p) = version) (lr_packages self)"

definition versions :: "string \<Rightarrow> string \<Rightarrow> ('ver :: linorder) LocalRegistry \<Rightarrow> 'ver list" where
  "versions namespace name self =
     sort (map (\<lambda>p. pr_version (lp_reference p)) (filter (named namespace name) (lr_packages self)))"

section \<open>Facts\<close>

lemma first_min_None [simp]: "first_min key xs = None \<longleftrightarrow> xs = []"
  by (induction key xs rule: first_min.induct) (auto split: option.splits)

lemma first_min_Some:
  "first_min key xs = Some x \<Longrightarrow> x \<in> set xs \<and> (\<forall>y\<in>set xs. key x \<le> key y)"
proof (induction key xs arbitrary: x rule: first_min.induct)
  case (2 key a xs)
  show ?case
  proof (cases "first_min key xs")
    case (Some y)
    then show ?thesis using 2 by (fastforce split: if_splits)
  qed (use 2 in simp)
qed simp

lemma find_version_iff:
  "(\<exists>p. find_version namespace name v reg = Some p) \<longleftrightarrow> v \<in> set (versions namespace name reg)"
  by (auto simp: find_version_def versions_def find_Some_iff2 find_None_iff not_None_eq [symmetric]
      simp del: not_None_eq)

end
