(* ===== verification/Registry.thy ===== *)
theory Registry
  imports Packages "HOL-Library.Product_Lexorder" "HOL-Library.Multiset"
begin

text \<open>
  The part of \<^verbatim>\<open>crates/package-model/src/lib.rs\<close> that reads directories: the index of a local registry,
  the snapshot of a package and the digest of its content.  A directory is a value of the type
  \<^verbatim>\<open>fs_node\<close>, with the entries in the order the system lists them and an error where reading fails; the
  parsers of the two YAML files, the digest and the replacement of invalid UTF-8 are arguments.
\<close>

section \<open>Directories\<close>

datatype fs_node =
    FsDir "string option" "(string \<times> fs_node) list"
  | FsFile "string option" "u8 list"
  | FsLink "fs_node option"
  | FsOther

text \<open>What a path denotes, symbolic links followed; and the entry of a directory.\<close>

fun follow :: "fs_node \<Rightarrow> fs_node option" where
  "follow (FsLink None) = None"
| "follow (FsLink (Some t)) = follow t"
| "follow t = Some t"

definition fs_child :: "fs_node \<Rightarrow> string \<Rightarrow> fs_node option" where
  "fs_child t name = (case follow t of Some (FsDir e entries) \<Rightarrow> map_of entries name | _ \<Rightarrow> None)"

definition is_dir :: "fs_node \<Rightarrow> bool" where
  "is_dir t = (case follow t of Some (FsDir e entries) \<Rightarrow> True | _ \<Rightarrow> False)"

definition is_file :: "fs_node option \<Rightarrow> bool" where
  "is_file t = (case Option.bind t follow of Some (FsFile e content) \<Rightarrow> True | _ \<Rightarrow> False)"

definition not_found :: string where "not_found = ''No such file or directory (os error 2)''"

definition read_dir :: "fs_node \<Rightarrow> string + (string \<times> fs_node) list" where
  "read_dir t =
     (case follow t of
        None \<Rightarrow> Inl not_found
      | Some (FsDir (Some e) entries) \<Rightarrow> Inl e
      | Some (FsDir None entries) \<Rightarrow> Inr entries
      | Some _ \<Rightarrow> Inl ''Not a directory (os error 20)'')"

definition read_file :: "fs_node option \<Rightarrow> string + u8 list" where
  "read_file t =
     (case Option.bind t follow of
        None \<Rightarrow> Inl not_found
      | Some (FsFile (Some e) content) \<Rightarrow> Inl e
      | Some (FsFile None content) \<Rightarrow> Inr content
      | Some (FsDir e entries) \<Rightarrow> Inl ''Is a directory (os error 21)''
      | Some _ \<Rightarrow> Inl ''No such device or address (os error 6)'')"

definition read_to_string :: "fs_node option \<Rightarrow> string + string" where
  "read_to_string t =
     and_then (read_file t) (\<lambda>bytes. ok_or (from_utf8 bytes) ''stream did not contain valid UTF-8'')"

definition path_join :: "string \<Rightarrow> string \<Rightarrow> string" where
  "path_join dir name = (if dir = [] \<or> List.last dir = CHR ''/'' then dir @ name else dir @ ''/'' @ name)"

section \<open>Provenance\<close>

record RegistryDescriptor =
  rgd_schema :: string
  rgd_id :: string
  rgd_uri :: string

record 'ver registry_env =
  ge_lossy :: "string \<Rightarrow> string"
  ge_descriptor :: "u8 list \<Rightarrow> string + RegistryDescriptor"
  ge_manifest :: "string \<Rightarrow> string + 'ver Manifest"
  ge_hex :: "u8 list \<Rightarrow> string"

definition REGISTRY_DESCRIPTOR_SCHEMA :: string where
  "REGISTRY_DESCRIPTOR_SCHEMA = ''dryer.registry/v1''"

definition sha256_text :: "(u8 list \<Rightarrow> string) \<Rightarrow> u8 list \<Rightarrow> string" where
  "sha256_text hex bytes = ''sha256:'' @ hex bytes"

definition registry_source :: "'ver registry_env \<Rightarrow> string \<Rightarrow> fs_node \<Rightarrow> Diagnostic + RegistrySource" where
  "registry_source env root_path root =
     (let path = ge_lossy env (path_join root_path ''registry.yaml'') in
      and_then (map_err (\<lambda>e. diag_error ''E0607'' (''cannot read registry descriptor '' @ path @ '': '' @ e))
        (read_file (fs_child root ''registry.yaml''))) (\<lambda>bytes.
      and_then (map_err (\<lambda>e. diag_error ''E0608'' (''registry descriptor '' @ path @ '' does not parse: '' @ e))
        (ge_descriptor env bytes)) (\<lambda>descriptor.
      if rgd_schema descriptor \<noteq> REGISTRY_DESCRIPTOR_SCHEMA
      then Inl (diag_error ''E0609'' (''registry descriptor schema '' @ quoted (rgd_schema descriptor) @ '' is not ''
        @ quoted REGISTRY_DESCRIPTOR_SCHEMA))
      else
        let source = \<lparr>rs_schema = REGISTRY_SOURCE_SCHEMA, rs_id = rgd_id descriptor, rs_uri = rgd_uri descriptor,
              rs_descriptor_hash = sha256_text (ge_hex env) bytes\<rparr> in
        and_then (map_err (diag_error ''E0609'') (registry_source_validate source)) (\<lambda>_. Inr source))))"

section \<open>Snapshots of a package\<close>

record PackageSnapshot =
  psn_files :: "(string, u8 list) btree"

definition manifest_bytes :: "PackageSnapshot \<Rightarrow> string + u8 list" where
  "manifest_bytes self =
     ok_or (bt_get (psn_files self) ''package.yaml'') ''package snapshot contains no package.yaml''"

definition CONTENT_HASH_DOMAIN :: "u8 list" where
  "CONTENT_HASH_DOMAIN = as_bytes (''dryer-package-content-v1'' @ [CHR 0x00])"

definition be_length :: "'a list \<Rightarrow> u8 list" where
  "be_length xs = rev (le_bytes 8 (of_nat (length xs) :: u64))"

text \<open>The bytes that are hashed: a domain, and every path and file with its length in front.\<close>

definition content_entry :: "string \<times> u8 list \<Rightarrow> u8 list" where
  "content_entry = (\<lambda>(relative, bytes). be_length relative @ as_bytes relative @ be_length bytes @ bytes)"

definition content_bytes :: "PackageSnapshot \<Rightarrow> u8 list" where
  "content_bytes self = CONTENT_HASH_DOMAIN @ concat (map content_entry (psn_files self))"

definition content_hash :: "(u8 list \<Rightarrow> string) \<Rightarrow> PackageSnapshot \<Rightarrow> string" where
  "content_hash hex self = sha256_text hex (content_bytes self)"

definition portable_relative_path :: "string \<Rightarrow> string list \<Rightarrow> string + string" where
  "portable_relative_path shown components =
     (if list_all rust_string components then Inr (join ''/'' components)
      else Inl (''package path '' @ quoted shown @ '' is not valid UTF-8''))"

fun append_results :: "('e + 'a list) list \<Rightarrow> 'e + 'a list" where
  "append_results [] = Inr []"
| "append_results (r # rs) = and_then r (\<lambda>xs. and_then (append_results rs) (\<lambda>ys. Inr (xs @ ys)))"

text \<open>The files below a directory with their paths below it; links and other entries are errors.\<close>

fun collect_content_files ::
  "(string \<Rightarrow> string) \<Rightarrow> string \<Rightarrow> string list \<Rightarrow> fs_node \<Rightarrow> string + (string \<times> fs_node) list" where
  "collect_content_files lossy root_path upper (FsDir (Some e) entries) = Inl e"
| "collect_content_files lossy root_path upper (FsDir None entries) =
     append_results (map (\<lambda>(name, t).
       let components = upper @ [name]; shown = lossy (path_join root_path (join ''/'' components)) in
       case t of
         FsLink _ \<Rightarrow> Inl (''package content may not contain symlink '' @ quoted shown)
       | FsDir _ _ \<Rightarrow> collect_content_files lossy root_path components t
       | FsFile _ _ \<Rightarrow> and_then (portable_relative_path shown components) (\<lambda>relative. Inr [(relative, t)])
       | FsOther \<Rightarrow> Inl (''package content contains unsupported entry '' @ quoted shown)) entries)"
| "collect_content_files lossy root_path upper t = Inl ''Not a directory (os error 20)''"

fun read_files :: "(string \<times> fs_node) list \<Rightarrow> (string, u8 list) btree \<Rightarrow> string + (string, u8 list) btree" where
  "read_files [] snapshot = Inr snapshot"
| "read_files ((relative, t) # files) snapshot =
     and_then (read_file (Some t)) (\<lambda>bytes. read_files files (bt_insert relative bytes snapshot))"

definition read_package_tree ::
  "(string \<Rightarrow> string) \<Rightarrow> string \<Rightarrow> fs_node option \<Rightarrow> string + (string, u8 list) btree" where
  "read_package_tree lossy root_path root =
     (case root of
        None \<Rightarrow> Inl not_found
      | Some (FsDir e entries) \<Rightarrow>
          and_then (collect_content_files lossy root_path [] (FsDir e entries)) (\<lambda>files.
          read_files (sort_key fst files) bt_empty)
      | Some _ \<Rightarrow> Inl (''package root '' @ quoted (lossy root_path) @ '' must be a directory, not a symlink''))"

definition SNAPSHOT_VERIFY_RETRIES :: nat where "SNAPSHOT_VERIFY_RETRIES = 3"

text \<open>\<^verbatim>\<open>read k\<close> is what the \<^verbatim>\<open>k\<close>-th complete read gives, \<^verbatim>\<open>between_reads\<close> the hook of the tests.\<close>

fun verify_reads ::
  "string \<Rightarrow> (nat \<Rightarrow> string + unit) \<Rightarrow> (nat \<Rightarrow> string + (string, u8 list) btree) \<Rightarrow> nat list \<Rightarrow>
     (string, u8 list) btree \<Rightarrow> string + PackageSnapshot" where
  "verify_reads shown between_reads read [] observed =
     Inl (''package tree '' @ quoted shown @ '' remained unstable after '' @ dec_nat SNAPSHOT_VERIFY_RETRIES
       @ '' verification retries'')"
| "verify_reads shown between_reads read (attempt # attempts) observed =
     and_then (between_reads attempt) (\<lambda>_.
     and_then (read (attempt + 1)) (\<lambda>verified.
     if observed = verified then Inr \<lparr>psn_files = verified\<rparr>
     else verify_reads shown between_reads read attempts verified))"

definition package_snapshot_with_hook ::
  "(string \<Rightarrow> string) \<Rightarrow> string \<Rightarrow> (nat \<Rightarrow> string + unit) \<Rightarrow> (nat \<Rightarrow> fs_node option) \<Rightarrow> string + PackageSnapshot" where
  "package_snapshot_with_hook lossy root_path between_reads tree =
     (let read = (\<lambda>k. read_package_tree lossy root_path (tree k)) in
      and_then (read 0) (\<lambda>observed.
      verify_reads (lossy root_path) between_reads read [0..<SNAPSHOT_VERIFY_RETRIES + 1] observed))"

definition package_snapshot ::
  "(string \<Rightarrow> string) \<Rightarrow> string \<Rightarrow> (nat \<Rightarrow> fs_node option) \<Rightarrow> string + PackageSnapshot" where
  "package_snapshot lossy root_path tree = package_snapshot_with_hook lossy root_path (\<lambda>_. Inr ()) tree"

definition package_content_hash ::
  "'ver registry_env \<Rightarrow> string \<Rightarrow> (nat \<Rightarrow> fs_node option) \<Rightarrow> string + string" where
  "package_content_hash env root_path tree =
     and_then (package_snapshot (ge_lossy env) root_path tree) (\<lambda>s. Inr (content_hash (ge_hex env) s))"

section \<open>The index\<close>

definition push_registry_diagnostic :: "Diagnostic \<Rightarrow> 'ver LocalRegistry \<Rightarrow> 'ver LocalRegistry" where
  "push_registry_diagnostic d reg = reg\<lparr>lr_diagnostics := lr_diagnostics reg @ [d]\<rparr>"

definition no_manifest :: "string \<Rightarrow> Diagnostic" where
  "no_manifest shown =
     suggest ''every package requires package.yaml, README.md and LICENSE''
       (diag_error ''E0601'' (shown @ '' has no package.yaml''))"

text \<open>The packages and diagnostics one manifest adds.\<close>

definition manifest_findings ::
  "('ver, 'req) semver_ops \<Rightarrow> string \<Rightarrow> string \<Rightarrow> fs_node \<Rightarrow> string \<Rightarrow> string \<Rightarrow> string option \<Rightarrow> 'ver Manifest \<Rightarrow>
     'ver LoadedPackage option \<times> Diagnostic list" where
  "manifest_findings sv dir shown node ns name dir_version manifest =
     (let identity = mf_package manifest;
          missing = concat (map (\<lambda>required. if is_file (fs_child node required) then []
            else [diag_warning ''E0603'' (shown @ '': missing '' @ required)]) [''README.md'', ''LICENSE'']);
          declared = pi_namespace identity @ ''/'' @ pi_name identity;
          actual = ns @ ''/'' @ name in
      if declared \<noteq> actual
      then (None, missing @ [diag_error ''E0604'' (shown @ '': manifest declares '' @ quoted declared
             @ '' but lives at '' @ quoted actual)])
      else
        (case (case dir_version of
                 Some dv \<Rightarrow> if dv \<noteq> sv_version_text sv (pi_version identity) then Some dv else None
               | None \<Rightarrow> None) of
           Some dv \<Rightarrow>
             (None, missing @ [diag_error ''E0606'' (shown @ '': version directory '' @ quoted dv
                @ '' but the manifest declares '' @ sv_version_text sv (pi_version identity))])
         | None \<Rightarrow>
             (Some \<lparr>lp_reference = \<lparr>pr_namespace = pi_namespace identity, pr_name = pi_name identity,
                      pr_version = pi_version identity\<rparr>,
                    lp_kind = pi_kind identity, lp_dir = dir, lp_manifest = manifest\<rparr>,
              missing @ concat (map (\<lambda>(dep, d). case dependency_requirement sv d of
                  Inr _ \<Rightarrow> []
                | Inl e \<Rightarrow> [diag_error ''E0605'' (declared @ '': dependency '' @ quoted dep @ '' has invalid range ''
                    @ quoted (dep_version d) @ '': '' @ e)]) (mf_dependencies manifest)))))"

definition load_one ::
  "'ver registry_env \<Rightarrow> ('ver, 'req) semver_ops \<Rightarrow> string \<Rightarrow> string \<Rightarrow> string \<Rightarrow> string option \<Rightarrow> fs_node \<Rightarrow>
     'ver LocalRegistry \<Rightarrow> 'ver LocalRegistry" where
  "load_one env sv dir ns name dir_version node reg =
     (let shown = ge_lossy env dir in
      case read_to_string (fs_child node ''package.yaml'') of
        Inl _ \<Rightarrow> push_registry_diagnostic (no_manifest shown) reg
      | Inr source \<Rightarrow>
          (case ge_manifest env source of
             Inl e \<Rightarrow>
               push_registry_diagnostic (diag_error ''E0602'' (shown @ '': package.yaml does not parse: '' @ e)) reg
           | Inr manifest \<Rightarrow>
               (let (found, ds) = manifest_findings sv dir shown node ns name dir_version manifest in
                reg\<lparr>lr_packages := lr_packages reg @ (case found of None \<Rightarrow> [] | Some p \<Rightarrow> [p]),
                    lr_diagnostics := lr_diagnostics reg @ ds\<rparr>)))"

text \<open>The directories two levels below the root, with the names they are sorted by.\<close>

type_synonym name_dir = "(string \<times> string \<times> string \<times> string) \<times> fs_node"

definition name_dirs_of :: "(string \<Rightarrow> string) \<Rightarrow> string \<times> fs_node \<Rightarrow> name_dir list" where
  "name_dirs_of lossy = (\<lambda>(ns, t).
     if \<not> is_dir t then []
     else
       (case read_dir t of
          Inl _ \<Rightarrow> []
        | Inr pkgs \<Rightarrow>
            map (\<lambda>(name, p). ((lossy ns, lossy name, ns, name), p)) (filter (\<lambda>(name, p). is_dir p) pkgs)))"

definition load_dir ::
  "'ver registry_env \<Rightarrow> ('ver, 'req) semver_ops \<Rightarrow> string \<Rightarrow> name_dir \<Rightarrow> 'ver LocalRegistry \<Rightarrow> 'ver LocalRegistry" where
  "load_dir env sv root_path = (\<lambda>((ns, name, raw_ns, raw_name), t) reg.
     (let dir = path_join (path_join root_path raw_ns) raw_name in
      if is_file (fs_child t ''package.yaml'') then load_one env sv dir ns name None t reg
      else
        (case sort_key fst (filter (\<lambda>(v, p). is_dir p) (case read_dir t of Inl _ \<Rightarrow> [] | Inr es \<Rightarrow> es)) of
           [] \<Rightarrow> push_registry_diagnostic (no_manifest (ge_lossy env dir)) reg
         | vdirs \<Rightarrow>
             fold (\<lambda>(v, p). load_one env sv (path_join dir v) ns name (Some (ge_lossy env v)) p) vdirs reg)))"

definition reference_key :: "'ver LoadedPackage \<Rightarrow> string \<times> string \<times> 'ver" where
  "reference_key p = (pr_namespace (lp_reference p), pr_name (lp_reference p), pr_version (lp_reference p))"

definition load_registry ::
  "'ver registry_env \<Rightarrow> ('ver :: linorder, 'req) semver_ops \<Rightarrow> string \<Rightarrow> fs_node \<Rightarrow> 'ver LocalRegistry" where
  "load_registry env sv root_path root =
     (let start = \<lparr>lr_source = None, lr_packages = [], lr_diagnostics = []\<rparr> in
      case read_dir root of
        Inl e \<Rightarrow>
          push_registry_diagnostic (diag_error ''E0600'' (''cannot read registry root '' @ ge_lossy env root_path
            @ '': '' @ e)) start
      | Inr namespaces \<Rightarrow>
          (let sourced = (case registry_source env root_path root of
                 Inr source \<Rightarrow> start\<lparr>lr_source := Some source\<rparr>
               | Inl diagnostic \<Rightarrow> push_registry_diagnostic diagnostic start);
               name_dirs = sort_key fst (concat (map (name_dirs_of (ge_lossy env)) namespaces));
               reg = fold (load_dir env sv root_path) name_dirs sourced in
           reg\<lparr>lr_packages := sort_key reference_key (lr_packages reg)\<rparr>))"

section \<open>Order of the file system\<close>

text \<open>The same tree, its directories listed in any order; and names that are unique, as in a file system.\<close>

inductive reordered :: "fs_node \<Rightarrow> fs_node \<Rightarrow> bool" where
  reordered_dir: "list_all2 (\<lambda>x y. fst x = fst y \<and> reordered (snd x) (snd y)) es mid \<Longrightarrow> mset mid = mset es' \<Longrightarrow>
    reordered (FsDir e es) (FsDir e es')"
| reordered_file: "reordered (FsFile e c) (FsFile e c)"
| reordered_broken: "reordered (FsLink None) (FsLink None)"
| reordered_link: "reordered t t' \<Longrightarrow> reordered (FsLink (Some t)) (FsLink (Some t'))"
| reordered_other: "reordered FsOther FsOther"

fun fs_ok :: "fs_node \<Rightarrow> bool" where
  "fs_ok (FsDir e es) \<longleftrightarrow> distinct (map fst es) \<and> list_all (\<lambda>(n, t). fs_ok t) es"
| "fs_ok (FsLink (Some t)) \<longleftrightarrow> fs_ok t"
| "fs_ok t \<longleftrightarrow> True"

text \<open>Lists of keyed entries that differ in their order and in related values.\<close>

definition keyed :: "('a \<Rightarrow> 'b \<Rightarrow> bool) \<Rightarrow> 'k \<times> 'a \<Rightarrow> 'k \<times> 'b \<Rightarrow> bool" where
  "keyed R x y \<longleftrightarrow> fst x = fst y \<and> R (snd x) (snd y)"

definition rel_entries :: "('a \<Rightarrow> 'b \<Rightarrow> bool) \<Rightarrow> ('k \<times> 'a) list \<Rightarrow> ('k \<times> 'b) list \<Rightarrow> bool" where
  "rel_entries R xs ys \<longleftrightarrow> (\<exists>mid. list_all2 (keyed R) xs mid \<and> mset mid = mset ys)"

inductive_simps reordered_dir_iff: "reordered (FsDir e es) t"

lemma reordered_dirD: "reordered (FsDir e es) t \<Longrightarrow> \<exists>es'. t = FsDir e es' \<and> rel_entries reordered es es'"
  by (auto simp: reordered_dir_iff rel_entries_def keyed_def [abs_def])

lemma reordered_follow: "reordered t t' \<Longrightarrow> rel_option reordered (follow t) (follow t')"
  by (induction rule: reordered.induct) (auto intro: reordered.intros elim: list_all2_mono)

lemma reordered_followE:
  assumes "reordered t t'"
  obtains "follow t = None" "follow t' = None"
  | e es es' where "follow t = Some (FsDir e es)" "follow t' = Some (FsDir e es')" "rel_entries reordered es es'"
  | e c where "follow t = Some (FsFile e c)" "follow t' = Some (FsFile e c)"
  | "follow t = Some FsOther" "follow t' = Some FsOther"
  | l where "follow t = Some (FsLink l)"
proof -
  from reordered_follow [OF assms] show thesis
  proof (cases rule: option.rel_cases)
    case None
    then show ?thesis by (rule that(1))
  next
    case (Some u u')
    from this(3) show ?thesis
    proof (cases rule: reordered.cases)
      case (reordered_dir es mid es' e)
      then have "rel_entries reordered es es'" by (auto simp: rel_entries_def keyed_def [abs_def])
      with Some reordered_dir show ?thesis by (intro that(2)) auto
    qed (use Some that in auto)
  qed
qed

lemma follow_not_link [simp]: "follow t \<noteq> Some (FsLink l)"
  by (induction t rule: follow.induct) auto

lemma reordered_is_dir: "reordered t t' \<Longrightarrow> is_dir t = is_dir t'"
  by (erule reordered_followE) (simp_all add: is_dir_def)

lemma reordered_read_dir: "reordered t t' \<Longrightarrow> rel_sum (=) (rel_entries reordered) (read_dir t) (read_dir t')"
  by (erule reordered_followE) (auto simp: read_dir_def split: option.splits)

lemma reordered_read_file: "rel_option reordered x x' \<Longrightarrow> read_file x = read_file x'"
  by (erule option.rel_cases, simp, erule reordered_followE) (simp_all add: read_file_def)

lemma reordered_is_file: "rel_option reordered x x' \<Longrightarrow> is_file x = is_file x'"
  by (erule option.rel_cases, simp, erule reordered_followE) (simp_all add: is_file_def)

lemma keyed_keys: "list_all2 (keyed R) xs ys \<Longrightarrow> map fst ys = map fst xs"
  by (induction rule: list_all2_induct) (auto simp: keyed_def)

lemma map_of_mset:
  assumes "mset xs = mset ys" "distinct (map fst xs)" shows "map_of xs = map_of ys"
proof -
  have "distinct (map fst ys)" using assms by (metis mset_map mset_eq_imp_distinct_iff)
  then show ?thesis using assms by (metis map_of_inject_set mset_eq_setD)
qed

lemma rel_entries_map_of:
  assumes "rel_entries R xs ys" "distinct (map fst xs)" shows "rel_option R (map_of xs k) (map_of ys k)"
proof -
  obtain mid where mid: "list_all2 (keyed R) xs mid" "mset mid = mset ys" using assms(1) by (auto simp: rel_entries_def)
  have "rel_option R (map_of xs k) (map_of mid k)"
    using mid(1) by (induction rule: list_all2_induct) (auto simp: keyed_def)
  moreover have "map_of mid = map_of ys"
    using mid assms(2) by (intro map_of_mset) (simp_all add: keyed_keys)
  ultimately show ?thesis by simp
qed

lemma fs_ok_follow: "fs_ok t \<Longrightarrow> follow t = Some u \<Longrightarrow> fs_ok u"
  by (induction t rule: follow.induct) auto

lemma reordered_fs_child:
  assumes "reordered t t'" "fs_ok t" shows "rel_option reordered (fs_child t n) (fs_child t' n)"
  using assms(1)
proof (cases rule: reordered_followE)
  case (2 e es es')
  then show ?thesis
    using rel_entries_map_of [of reordered es es' n] fs_ok_follow [OF assms(2)] by (simp add: fs_child_def)
qed (simp_all add: fs_child_def)

lemma fs_ok_child: "fs_ok t \<Longrightarrow> read_dir t = Inr es \<Longrightarrow> distinct (map fst es) \<and> (\<forall>x\<in>set es. fs_ok (snd x))"
  using fs_ok_follow [of t]
  by (cases "follow t") (auto simp: read_dir_def list_all_iff split: fs_node.split_asm option.split_asm)

text \<open>Sorting by unique keys forgets the order.\<close>

lemma sort_key_keyed:
  assumes "list_all2 (keyed R) xs ys" shows "list_all2 (keyed R) (sort_key fst xs) (sort_key fst ys)"
  using assms
proof (induction rule: list_all2_induct)
  case (Cons x xs y ys)
  have "list_all2 (keyed R) (insort_key fst x as) (insort_key fst y bs)" if "list_all2 (keyed R) as bs" for as bs
    using that Cons.hyps(1) by (induction rule: list_all2_induct) (auto simp: keyed_def)
  then show ?case using Cons.IH by simp
qed simp

lemma sort_rel_entries:
  fixes xs :: "('k :: linorder \<times> 'a) list"
  assumes "rel_entries R xs ys" "distinct (map fst xs)"
  shows "list_all2 (keyed R) (sort_key fst xs) (sort_key fst ys)"
proof -
  obtain mid where mid: "list_all2 (keyed R) xs mid" "mset mid = mset ys" using assms(1) by (auto simp: rel_entries_def)
  have "distinct (map fst mid)" using mid(1) assms(2) by (simp add: keyed_keys)
  then have "sort_key fst mid = sort_key fst ys"
    using mid(2) by (intro sort_key_inj_key_eq) (simp_all add: distinct_map)
  then show ?thesis using sort_key_keyed [OF mid(1)] by simp
qed

lemma rel_entries_filter:
  assumes "rel_entries R xs ys" "\<And>a b. R a b \<Longrightarrow> P a = Q b"
  shows "rel_entries R (filter (\<lambda>(k, a). P a) xs) (filter (\<lambda>(k, b). Q b) ys)"
proof -
  obtain mid where mid: "list_all2 (keyed R) xs mid" "mset mid = mset ys" using assms(1) by (auto simp: rel_entries_def)
  have "list_all2 (keyed R) (filter (\<lambda>(k, a). P a) xs) (filter (\<lambda>(k, b). Q b) mid)"
    using mid(1) by (induction rule: list_all2_induct) (auto simp: keyed_def assms(2))
  moreover have "mset (filter (\<lambda>(k, b). Q b) mid) = mset (filter (\<lambda>(k, b). Q b) ys)"
    using mid(2) by simp
  ultimately show ?thesis by (auto simp: rel_entries_def)
qed

lemma fold_keyed:
  assumes "list_all2 (keyed R) xs ys" "\<And>k a b. (k, a) \<in> set xs \<Longrightarrow> R a b \<Longrightarrow> f (k, a) = g (k, b)"
  shows "fold f xs = fold g ys"
  using assms by (induction rule: list_all2_induct) (auto simp: keyed_def)

section \<open>The index does not depend on the order\<close>

abbreviation same_nodes :: "fs_node \<Rightarrow> fs_node \<Rightarrow> bool" where
  "same_nodes t t' \<equiv> fs_ok t \<and> reordered t t'"

lemma load_one_reordered:
  assumes "same_nodes t t'" shows "load_one env sv dir ns name dv t = load_one env sv dir ns name dv t'"
proof -
  note child = reordered_fs_child [OF conjunct2 [OF assms] conjunct1 [OF assms]]
  have "read_to_string (fs_child t n) = read_to_string (fs_child t' n)" "is_file (fs_child t n) = is_file (fs_child t' n)" for n
    using reordered_read_file [OF child] reordered_is_file [OF child] by (simp_all add: read_to_string_def)
  then have "read_to_string (fs_child t ''package.yaml'') = read_to_string (fs_child t' ''package.yaml'')"
    "manifest_findings sv dir shown t ns name dv m = manifest_findings sv dir shown t' ns name dv m" for shown m
    by (simp_all add: manifest_findings_def)
  then show ?thesis by (simp add: fun_eq_iff load_one_def Let_def split: sum.split)
qed

lemma read_dir_entries:
  assumes "same_nodes t t'"
  shows "rel_sum (=) (rel_entries same_nodes) (read_dir t) (read_dir t')"
  using reordered_read_dir [OF conjunct2 [OF assms]]
proof (cases rule: rel_sum.cases)
  case (2 es es')
  then obtain mid where mid: "list_all2 (keyed reordered) es mid" "mset mid = mset es'" by (auto simp: rel_entries_def)
  have "list_all2 (keyed same_nodes) es mid"
    using mid(1) conjunct2 [OF fs_ok_child [OF conjunct1 [OF assms] 2(1)]]
    by (induction rule: list_all2_induct) (auto simp: keyed_def)
  then show ?thesis using 2 mid(2) by (auto simp: rel_entries_def)
qed simp

lemma load_dir_reordered:
  assumes "same_nodes t t'" shows "load_dir env sv root_path (k, t) = load_dir env sv root_path (k, t')"
proof -
  obtain ns name raw_ns raw_name where k: "k = (ns, name, raw_ns, raw_name)" by (metis prod_cases4)
  have manifest: "is_file (fs_child t n) = is_file (fs_child t' n)" for n
    using assms by (intro reordered_is_file reordered_fs_child) simp_all
  let ?es = "\<lambda>t. case read_dir t of Inl _ \<Rightarrow> [] | Inr es \<Rightarrow> es"
  let ?vs = "\<lambda>t. sort_key fst (filter (\<lambda>(v, p). is_dir p) (?es t))"
  have "rel_entries same_nodes (?es t) (?es t')"
    using read_dir_entries [OF assms] by (cases rule: rel_sum.cases) (auto simp: rel_entries_def)
  then have "rel_entries same_nodes (filter (\<lambda>(v, p). is_dir p) (?es t)) (filter (\<lambda>(v, p). is_dir p) (?es t'))"
    by (rule rel_entries_filter) (auto dest: reordered_is_dir)
  moreover have "distinct (map fst (filter (\<lambda>(v, p). is_dir p) (?es t)))"
    using fs_ok_child [of t] assms by (auto intro: distinct_map_filter split: sum.split)
  ultimately have vs: "list_all2 (keyed same_nodes) (?vs t) (?vs t')" by (rule sort_rel_entries)
  have folds: "fold (\<lambda>(v, p). load_one env sv (dir v) ns name (w v) p) (?vs t) =
      fold (\<lambda>(v, p). load_one env sv (dir v) ns name (w v) p) (?vs t')" for dir w
    using vs by (rule fold_keyed) (simp add: load_one_reordered)
  have none: "?vs t = [] \<longleftrightarrow> ?vs t' = []" using list_all2_lengthD [OF vs] by (metis length_0_conv)
  let ?dir = "path_join (path_join root_path raw_ns) raw_name"
  have load: "load_dir env sv root_path (k, u) = (\<lambda>reg.
      if is_file (fs_child u ''package.yaml'') then load_one env sv ?dir ns name None u reg
      else if ?vs u = [] then push_registry_diagnostic (no_manifest (ge_lossy env ?dir)) reg
      else fold (\<lambda>(v, p). load_one env sv (path_join ?dir v) ns name (Some (ge_lossy env v)) p) (?vs u) reg)" for u
    by (rule ext) (simp add: load_dir_def k Let_def split: list.split)
  show ?thesis
    unfolding load folds none manifest load_one_reordered [OF assms] by (rule refl)
qed

lemma rel_entries_concat:
  assumes "rel_entries R xs ys" "\<And>x y. x \<in> set xs \<Longrightarrow> keyed R x y \<Longrightarrow> rel_entries S (f x) (g y)"
  shows "rel_entries S (concat (map f xs)) (concat (map g ys))"
proof -
  obtain mid where mid: "list_all2 (keyed R) xs mid" "mset mid = mset ys" using assms(1) by (auto simp: rel_entries_def)
  have "rel_entries S (concat (map f xs)) (concat (map g mid))"
    using mid(1) assms(2)
  proof (induction rule: list_all2_induct)
    case Nil
    show ?case by (simp add: rel_entries_def)
  next
    case (Cons x xs y ys)
    obtain as where "list_all2 (keyed S) (f x) as" "mset as = mset (g y)"
      using Cons.prems [of x y] Cons.hyps(1) by (auto simp: rel_entries_def)
    moreover obtain bs where "list_all2 (keyed S) (concat (map f xs)) bs" "mset bs = mset (concat (map g ys))"
      using Cons.IH Cons.prems by (auto simp: rel_entries_def)
    ultimately show ?case
      unfolding rel_entries_def by (intro exI [of _ "as @ bs"]) (auto intro: list_all2_appendI)
  qed
  moreover have "mset (concat (map g mid)) = mset (concat (map g ys))"
    using arg_cong [OF mid(2), of "\<lambda>m. \<Sum>\<^sub># (image_mset (\<lambda>x. mset (g x)) m)"]
    by (simp add: mset_concat comp_def flip: sum_mset_sum_list)
  ultimately show ?thesis by (auto simp: rel_entries_def)
qed

lemma name_dirs_keys: "k \<in> fst ` set (name_dirs_of lossy (ns, t)) \<Longrightarrow> fst (snd (snd k)) = ns"
  by (auto simp: name_dirs_of_def split: sum.split_asm if_splits)

lemma distinct_name_dirs:
  assumes "distinct (map fst es)" "\<forall>x\<in>set es. fs_ok (snd x)"
  shows "distinct (map fst (concat (map (name_dirs_of lossy) es)))"
  using assms
proof (induction es)
  case (Cons x es)
  obtain ns t where x: "x = (ns, t)" by fastforce
  have "distinct (map fst (name_dirs_of lossy x))"
    using fs_ok_child [of t] Cons.prems(2)
    by (auto simp: x name_dirs_of_def comp_def distinct_map inj_on_def split: sum.split) force
  moreover have "fst ` set (name_dirs_of lossy x) \<inter> fst ` set (name_dirs_of lossy y) = {}" if "y \<in> set es" for y
  proof -
    obtain ns' t' where y: "y = (ns', t')" by fastforce
    have "ns \<noteq> ns'" using Cons.prems(1) that by (force simp: x y)
    then show ?thesis using name_dirs_keys [of _ lossy ns t] name_dirs_keys [of _ lossy ns' t'] unfolding x y by blast
  qed
  ultimately show ?case using Cons.IH Cons.prems by auto
qed simp

lemma name_dirs_reordered:
  assumes "keyed same_nodes x y"
  shows "rel_entries same_nodes (name_dirs_of lossy x) (name_dirs_of lossy y)"
proof -
  obtain ns t t' where xy: "x = (ns, t)" "y = (ns, t')" "same_nodes t t'"
    using assms by (cases x; cases y) (auto simp: keyed_def)
  let ?pick = "\<lambda>t. case read_dir t of Inl _ \<Rightarrow> [] | Inr es \<Rightarrow> filter (\<lambda>(n, p). is_dir p) es"
  let ?key = "\<lambda>(n, p). ((lossy ns, lossy n, ns, n), p)"
  have "rel_entries same_nodes (?pick t) (?pick t')"
    using read_dir_entries [OF xy(3)]
    by (cases rule: rel_sum.cases) (auto simp: rel_entries_def [of _ "[]"] dest: reordered_is_dir intro!: rel_entries_filter)
  then obtain mid where mid: "list_all2 (keyed same_nodes) (?pick t) mid" "mset mid = mset (?pick t')"
    by (auto simp: rel_entries_def)
  have "list_all2 (keyed same_nodes) (map ?key (?pick t)) (map ?key mid)"
    using mid(1) by (induction rule: list_all2_induct) (auto simp: keyed_def split: prod.split)
  moreover have "mset (map ?key mid) = mset (map ?key (?pick t'))" using mid(2) by simp
  moreover have "name_dirs_of lossy (ns, u) = (if is_dir u then map ?key (?pick u) else [])" for u
    by (simp add: name_dirs_of_def split: sum.split)
  moreover have "is_dir t = is_dir t'" using reordered_is_dir xy(3) by simp
  ultimately show ?thesis by (auto simp: xy rel_entries_def)
qed

text \<open>
  Claim C6: the index of a registry does not depend on the order in which the file system lists directories, at
  any depth: packages, diagnostics and provenance are the same.
\<close>

theorem index_order_independent:
  assumes "fs_ok root" "reordered root root'"
  shows "load_registry env sv root_path root = load_registry env sv root_path root'"
proof -
  have same: "same_nodes root root'" using assms by simp
  have source: "registry_source env root_path root = registry_source env root_path root'"
    using reordered_read_file [OF reordered_fs_child [OF assms(2,1)]] by (simp add: registry_source_def)
  from read_dir_entries [OF same] show ?thesis
  proof (cases rule: rel_sum.cases)
    case (1 e e')
    then show ?thesis by (simp add: load_registry_def)
  next
    case (2 es es')
    let ?dirs = "\<lambda>es. concat (map (name_dirs_of (ge_lossy env)) es)"
    have "rel_entries same_nodes (?dirs es) (?dirs es')"
      using 2(3) by (rule rel_entries_concat) (rule name_dirs_reordered)
    moreover have "distinct (map fst (?dirs es))"
      using fs_ok_child [OF assms(1) 2(1)] by (intro distinct_name_dirs) auto
    ultimately have "list_all2 (keyed same_nodes) (sort_key fst (?dirs es)) (sort_key fst (?dirs es'))"
      by (rule sort_rel_entries)
    then have "fold (load_dir env sv root_path) (sort_key fst (?dirs es)) =
        fold (load_dir env sv root_path) (sort_key fst (?dirs es'))"
      by (rule fold_keyed) (rule load_dir_reordered)
    then show ?thesis by (simp add: load_registry_def 2 source)
  qed
qed

definition demo_tree :: "(string \<times> fs_node) list \<Rightarrow> fs_node" where
  "demo_tree es = FsDir None ((''registry.yaml'', FsFile None []) # es)"

definition demo_registry_env :: "nat registry_env" where
  "demo_registry_env =
     \<lparr>ge_lossy = id, ge_descriptor = (\<lambda>_. Inl ''no descriptor''), ge_manifest = (\<lambda>_. Inl ''no manifest''),
      ge_hex = (\<lambda>b. dec_nat (length b))\<rparr>"

definition demo_semver :: "(nat, nat) semver_ops" where
  "demo_semver =
     \<lparr>sv_parse_version = (\<lambda>s. Inr (length s)), sv_parse_req = (\<lambda>s. Inr (length s)), sv_matches = (=),
      sv_version_text = dec_nat, sv_req_text = dec_nat\<rparr>"

lemma index_order_independent_witness:
  "load_registry demo_registry_env demo_semver ''r'' (demo_tree [(''a'', FsDir None []), (''b'', FsOther)]) =
   load_registry demo_registry_env demo_semver ''r'' (demo_tree [(''b'', FsOther), (''a'', FsDir None [])])"
proof (rule index_order_independent)
  have refl: "reordered t t" if "t \<in> {FsDir None [], FsOther, FsFile None []}" for t
    using that by (auto intro: reordered.intros)
  show "reordered (demo_tree [(''a'', FsDir None []), (''b'', FsOther)]) (demo_tree [(''b'', FsOther), (''a'', FsDir None [])])"
    unfolding demo_tree_def
    by (rule reordered_dir [where mid = "[(''registry.yaml'', FsFile None []), (''a'', FsDir None []), (''b'', FsOther)]"])
      (simp_all add: refl)
qed (simp add: demo_tree_def)

section \<open>The digest of a package\<close>

definition sized :: "PackageSnapshot \<Rightarrow> bool" where
  "sized s \<longleftrightarrow> list_all (\<lambda>(p, b). length p < 2 ^ 64 \<and> length b < 2 ^ 64) (psn_files s)"

lemma length_be_length [simp]: "length (be_length xs) = 8"
  by (simp add: be_length_def)

lemma be_length_inj:
  assumes "be_length xs = be_length ys" "length xs < 2 ^ 64" "length ys < 2 ^ 64"
  shows "length xs = length ys"
proof -
  have "(of_nat (length xs) :: u64) = of_nat (length ys)"
    using assms(1) le_roundtrip(3) unfolding be_length_def rev_is_rev_conv by metis
  then have "unat (of_nat (length xs) :: u64) = unat (of_nat (length ys) :: u64)" by simp
  then show ?thesis using assms(2,3) by (simp add: unat_of_nat)
qed

lemma as_bytes_inj: "as_bytes s = as_bytes t \<Longrightarrow> s = t"
  unfolding as_bytes_def by (erule map_injective) (rule injI, metis char_of_of_char_u8)

lemma content_entry_split:
  assumes "content_entry (p, b) @ r = content_entry (p', b') @ r'"
    and "length p < 2 ^ 64" "length b < 2 ^ 64" "length p' < 2 ^ 64" "length b' < 2 ^ 64"
  shows "p = p' \<and> b = b' \<and> r = r'"
proof -
  have 1: "be_length p = be_length p'" "as_bytes p @ be_length b @ b @ r = as_bytes p' @ be_length b' @ b' @ r'"
    using assms(1) by (auto simp: content_entry_def append_eq_append_conv)
  have 2: "as_bytes p = as_bytes p'" "be_length b @ b @ r = be_length b' @ b' @ r'"
    using 1(2) be_length_inj [OF 1(1) assms(2,4)] by (auto simp: append_eq_append_conv)
  have 3: "be_length b = be_length b'" "b @ r = b' @ r'"
    using 2(2) by (auto simp: append_eq_append_conv)
  show ?thesis
    using 3(2) be_length_inj [OF 3(1) assms(3,5)] as_bytes_inj [OF 2(1)] by (auto simp: append_eq_append_conv)
qed

lemma content_entry_nonempty: "content_entry x @ r \<noteq> []"
proof -
  have "length (content_entry x) > 0" by (cases x) (simp add: content_entry_def)
  then show ?thesis by auto
qed

lemma content_files_inj:
  assumes "concat (map content_entry xs) = concat (map content_entry ys)"
    and "list_all (\<lambda>(p, b). length p < 2 ^ 64 \<and> length b < 2 ^ 64) xs"
    and "list_all (\<lambda>(p, b). length p < 2 ^ 64 \<and> length b < 2 ^ 64) ys"
  shows "xs = ys"
  using assms
proof (induction xs arbitrary: ys)
  case Nil
  then show ?case using content_entry_nonempty by (cases ys) (force, metis concat.simps(2) list.simps(8,9) concat.simps(1))
next
  case (Cons x xs)
  show ?case
  proof (cases ys)
    case Nil
    then show ?thesis using Cons.prems(1) content_entry_nonempty by (metis concat.simps list.simps(8,9))
  next
    case (Cons y ys')
    obtain p b p' b' where xy: "x = (p, b)" "y = (p', b')" by fastforce
    have "content_entry (p, b) @ concat (map content_entry xs) = content_entry (p', b') @ concat (map content_entry ys')"
      using Cons.prems(1) by (simp add: Cons xy)
    from content_entry_split [OF this] Cons.prems(2,3) show ?thesis
      using Cons.IH [of ys'] by (simp add: Cons xy)
  qed
qed

text \<open>
  Claim C7: the content digest commits to the whole package: two snapshots (of files below 2^64 bytes) with the
  same digest have the same paths and the same bytes, unless two different byte sequences collide under the hash.
\<close>

theorem content_digest_commits:
  assumes "sized s" "sized s'" "content_hash hex s = content_hash hex s'"
  shows "s = s' \<or> (\<exists>b b'. b \<noteq> b' \<and> hex b = hex b')"
proof (cases "content_bytes s = content_bytes s'")
  case True
  then have "psn_files s = psn_files s'"
    using assms(1,2) by (intro content_files_inj) (simp_all add: content_bytes_def sized_def)
  then show ?thesis by (cases s; cases s') simp
next
  case False
  then show ?thesis using assms(3) by (auto simp: content_hash_def sha256_text_def)
qed

definition demo_snapshot :: PackageSnapshot where
  "demo_snapshot = \<lparr>psn_files = [(''a'', [1]), (''b'', [])]\<rparr>"

definition other_snapshot :: PackageSnapshot where
  "other_snapshot = \<lparr>psn_files = [(''a'', [2]), (''b'', [])]\<rparr>"

text \<open>A hash that only counts bytes takes two packages for one, and then two sequences of bytes collide.\<close>

lemma content_digest_commits_witness:
  "demo_snapshot \<noteq> other_snapshot \<and>
   content_hash (\<lambda>b. dec_nat (length b)) demo_snapshot = content_hash (\<lambda>b. dec_nat (length b)) other_snapshot \<and>
   (\<exists>b b' :: u8 list. b \<noteq> b' \<and> dec_nat (length b) = dec_nat (length b'))"
proof -
  have eq: "content_hash (\<lambda>b. dec_nat (length b)) demo_snapshot = content_hash (\<lambda>b. dec_nat (length b)) other_snapshot"
    by code_simp
  have "sized demo_snapshot" "sized other_snapshot" by (simp_all add: sized_def demo_snapshot_def other_snapshot_def)
  note collides = content_digest_commits [OF this eq]
  moreover have "demo_snapshot \<noteq> other_snapshot" by (simp add: demo_snapshot_def other_snapshot_def)
  ultimately show ?thesis using eq by blast
qed

lemma verify_reads_Inr:
  "verify_reads shown hook read ks observed = Inr s \<Longrightarrow> ks = [i..<n] \<Longrightarrow> read i = Inr observed \<Longrightarrow>
     \<exists>k. i \<le> k \<and> k < n \<and> read k = Inr (psn_files s) \<and> read (k + 1) = Inr (psn_files s)"
proof (induction ks arbitrary: observed i)
  case (Cons k ks)
  have k: "k = i" "ks = [Suc i..<n]" "i < n"
    using Cons.prems(2) by (auto simp: upt_eq_Cons_conv [THEN eq_reflection] eq_commute [of "_ # _"])
  obtain verified where v: "read (i + 1) = Inr verified"
    "(if observed = verified then Inr \<lparr>psn_files = verified\<rparr> else verify_reads shown hook read ks verified) = Inr s"
    using Cons.prems(1) by (auto simp: k(1) result_simps)
  show ?case
  proof (cases "observed = verified")
    case True
    then show ?thesis using v Cons.prems(3) k(3) by auto
  next
    case False
    then have "\<exists>k. Suc i \<le> k \<and> k < n \<and> read k = Inr (psn_files s) \<and> read (k + 1) = Inr (psn_files s)"
      using v k(2) by (intro Cons.IH) simp_all
    then show ?thesis using Suc_leD by blast
  qed
qed simp

text \<open>
  A snapshot is a state of the package that two consecutive complete reads agree on; at most
  five reads are made, and a tree that changes before each of them gives an error.
\<close>

theorem snapshot_stable:
  assumes "package_snapshot_with_hook lossy root_path hook tree = Inr s"
  shows "\<exists>k<4. read_package_tree lossy root_path (tree k) = Inr (psn_files s) \<and>
     read_package_tree lossy root_path (tree (k + 1)) = Inr (psn_files s)"
proof -
  obtain observed where "read_package_tree lossy root_path (tree 0) = Inr observed"
    "verify_reads (lossy root_path) hook (\<lambda>k. read_package_tree lossy root_path (tree k)) [0..<4] observed = Inr s"
    using assms by (auto simp: package_snapshot_with_hook_def SNAPSHOT_VERIFY_RETRIES_def Let_def result_simps)
  from verify_reads_Inr [OF this(2) refl this(1)] show ?thesis by auto
qed

definition demo_reads :: "nat \<Rightarrow> fs_node option" where
  "demo_reads k = Some (FsDir None [(''f'', FsFile None (if k = 0 then [1] else [2]))])"

lemma snapshot_stable_witness:
  "\<exists>k<4. read_package_tree id ''p'' (demo_reads k) = Inr [(''f'', [2])]"
proof -
  have "package_snapshot_with_hook id ''p'' (\<lambda>_. Inr ()) demo_reads = Inr \<lparr>psn_files = [(''f'', [2])]\<rparr>" by code_simp
  from snapshot_stable [OF this] show ?thesis by auto
qed

section \<open>References\<close>

lemma identifier_no_separator: "valid_identifier s \<Longrightarrow> CHR ''/'' \<notin> set s \<and> CHR ''@'' \<notin> set s"
  by (auto simp: valid_identifier_def is_lower_def is_digit_def list_all_iff split: list.splits)

text \<open>
  A package reference prints to a text that parses to it, for identifiers and versions that do.
\<close>

theorem reference_roundtrip:
  assumes "valid_identifier (pr_namespace r)" "valid_identifier (pr_name r)"
    and "sv_parse_version sv (sv_version_text sv (pr_version r)) = Inr (pr_version r)"
  shows "package_ref_parse sv (package_ref_text sv r) = Inr r"
proof -
  let ?path = "pr_namespace r @ CHR ''/'' # pr_name r"
  have "split_once (CHR ''@'') (?path @ CHR ''@'' # sv_version_text sv (pr_version r)) =
      Some (?path, sv_version_text sv (pr_version r))"
    using assms(1,2) by (intro split_once_append) (auto dest: identifier_no_separator)
  moreover have "split_once (CHR ''/'') ?path = Some (pr_namespace r, pr_name r)"
    using assms(1) by (intro split_once_append) (auto dest: identifier_no_separator)
  ultimately show ?thesis
    using assms by (simp add: package_ref_parse_def package_ref_text_def)
qed

text \<open>A URI whose scheme is empty counts as portable and absolute.\<close>

lemma empty_scheme_portable: "portable_registry_uri '':x''"
  by code_simp

end
