(* ===== verification/Payloads.thy ===== *)
theory Payloads
  imports Packages Codec
begin

text \<open>
  The payloads of the packages, \<^verbatim>\<open>crates/package-model/src/board.rs\<close>, \<^verbatim>\<open>chip.rs\<close>, \<^verbatim>\<open>device.rs\<close>, \<^verbatim>\<open>machine.rs\<close>,
  \<^verbatim>\<open>safety.rs\<close> and \<^verbatim>\<open>workflow.rs\<close>: what is checked of a package after its file was read and parsed, and the
  translation of a workflow step to a command.  The file and its YAML come from the argument \<^verbatim>\<open>files\<close>.
\<close>

section \<open>Safety profiles, machine templates, workflows\<close>

datatype SafeState = SafeOff | SafeDisabled

definition safe_state_text :: "SafeState \<Rightarrow> string" where
  "safe_state_text self = (case self of SafeOff \<Rightarrow> ''off'' | SafeDisabled \<Rightarrow> ''disabled'')"

record ClassPolicy =
  po_safe_state :: SafeState
  po_heartbeat_timeout :: "string option"
  po_requires_sensor :: bool

record 'ver SafetyProfileFile =
  sp_package :: "'ver PackageIdentity"
  sp_classes :: "(string, ClassPolicy) btree"

record TemplateKinematics =
  tk_kind :: "string option"
  tk_limits :: "(string, string) btree"

record 'v Template =
  te_components :: "(string, 'v Component) btree"
  te_kinematics :: "TemplateKinematics option"

record ('v, 'ver) MachinePackageFile =
  mp_package :: "'ver PackageIdentity"
  mp_template :: "'v Template option"

record WorkflowParameter =
  wp_type :: "string option"
  wp_unit :: "string option"

record WorkflowRequires =
  wr_capabilities :: "string list"

record 'v WorkflowStep =
  sw_call :: "string option"
  sw_with_arguments :: "(string, 'v) btree"

record ('v, 'ver) WorkflowPackageFile =
  wf_package :: "'ver PackageIdentity"
  wf_api_version :: "string option"
  wf_parameters :: "(string, WorkflowParameter) btree"
  wf_requires :: "WorkflowRequires option"
  wf_locks :: "string list"
  wf_steps :: "'v WorkflowStep list"
  wf_on_cancel :: "'v WorkflowStep list"

section \<open>Reading a payload\<close>

text \<open>The text of the \<^verbatim>\<open>package.yaml\<close> of a directory, or the error; what the text parses to, or the error.\<close>

record ('v, 'ver) package_files =
  pf_read :: "string \<Rightarrow> string + string"
  pf_board :: "string \<Rightarrow> string + 'ver BoardPackageFile"
  pf_chip :: "string \<Rightarrow> string + 'ver ChipPackageFile"
  pf_device :: "string \<Rightarrow> string + 'ver DevicePackageFile"
  pf_machine :: "string \<Rightarrow> string + ('v, 'ver) MachinePackageFile"
  pf_safety :: "string \<Rightarrow> string + 'ver SafetyProfileFile"
  pf_workflow :: "string \<Rightarrow> string + ('v, 'ver) WorkflowPackageFile"

fun kind_name :: "PackageKind \<Rightarrow> string" where
  "kind_name Chip = ''Chip''" | "kind_name Board = ''Board''" | "kind_name Device = ''Device''"
| "kind_name Machine = ''Machine''" | "kind_name Workflow = ''Workflow''"
| "kind_name SafetyProfile = ''SafetyProfile''" | "kind_name KinematicsPackage = ''KinematicsPackage''"
| "kind_name HostExtension = ''HostExtension''" | "kind_name FirmwareExtension = ''FirmwareExtension''"

text \<open>The three errors every payload function starts with: the kind, the file, the YAML.\<close>

definition open_payload ::
  "('ver, 'req) semver_ops \<Rightarrow> (string \<Rightarrow> string + string) \<Rightarrow> (string \<Rightarrow> string + 'p) \<Rightarrow> PackageKind \<Rightarrow>
     string \<times> string \<times> string \<Rightarrow> string \<Rightarrow> string \<Rightarrow> 'ver LoadedPackage \<Rightarrow> Diagnostic list + 'p" where
  "open_payload sv read parse kind codes article noun self =
     (case codes of (kind_code, read_code, parse_code) \<Rightarrow>
      let reference = package_ref_text sv (lp_reference self) in
      if lp_kind self \<noteq> kind
      then Inl [diag_error kind_code (reference @ '' is a '' @ kind_name (lp_kind self) @ '' package, not '' @ article)]
      else
        and_then (map_err (\<lambda>e. [diag_error read_code (reference @ '': cannot read package.yaml: '' @ e)])
            (read (lp_dir self))) (\<lambda>source.
        map_err (\<lambda>e. [diag_error parse_code (reference @ '': '' @ noun @ '' payload does not parse: '' @ e)])
          (parse source)))"

definition checked_payload :: "('p \<Rightarrow> Diagnostic list) \<Rightarrow> 'p \<Rightarrow> Diagnostic list + 'p" where
  "checked_payload check payload = (if check payload = [] then Inr payload else Inl (check payload))"

text \<open>What is not valid in a list, or repeats what is valid before it.\<close>

fun invalid_or_repeated :: "(string \<Rightarrow> bool) \<Rightarrow> string list \<Rightarrow> string list \<Rightarrow> string list" where
  "invalid_or_repeated ok seen [] = []"
| "invalid_or_repeated ok seen (x # xs) =
     (if \<not> ok x \<or> x \<in> set seen then x # invalid_or_repeated ok seen xs
      else invalid_or_repeated ok (x # seen) xs)"

section \<open>Boards\<close>

definition quantity_diagnostics ::
  "('f, 'z) text_float_ops_scheme \<Rightarrow> string \<Rightarrow> string \<Rightarrow> Dimension \<Rightarrow> string option \<Rightarrow> Diagnostic list" where
  "quantity_diagnostics fo code prefix dimension raw =
     (case raw of
        None \<Rightarrow> []
      | Some q \<Rightarrow>
          (case parse_as fo q dimension of
             Inl e \<Rightarrow> [diag_error code (prefix @ '': '' @ quantity_error_text e)] | Inr _ \<Rightarrow> []))"

definition connector_diagnostics ::
  "('f, 'z) text_float_ops_scheme \<Rightarrow> string \<Rightarrow> string \<times> Connector \<Rightarrow> Diagnostic list" where
  "connector_diagnostics fo reference = (\<lambda>(cid, c).
     (if valid_identifier cid then []
      else [diag_error ''E0613'' (reference @ '': connector '' @ quoted cid @ '' is not a valid identifier'')]) @
     quantity_diagnostics fo ''E0614'' (reference @ '': connector '' @ quoted cid @ '' max_current'') Current
       (cn_max_current c) @
     quantity_diagnostics fo ''E0614'' (reference @ '': connector '' @ quoted cid @ '' pullup'') Resistance (cn_pullup c))"

definition method_diagnostics :: "string \<Rightarrow> string \<times> FlashMethod \<Rightarrow> Diagnostic list" where
  "method_diagnostics reference = (\<lambda>(method_id, m).
     let prefix = reference @ '': flash method '' @ quoted method_id;
         blank = (\<lambda>s. trim s = []) in
     (if valid_identifier method_id then [] else [diag_error ''E0615'' (prefix @ '' is not a valid identifier'')]) @
     (if fm_transport m = ''usb'' then []
      else [diag_error ''E0617''
        (prefix @ '' uses unsupported transport '' @ quoted (fm_transport m) @ '' (v0 supports usb)'')]) @
     (if fm_verify m = ''sha256'' then []
      else [diag_error ''E0618''
        (prefix @ '' uses unsupported verification '' @ quoted (fm_verify m) @ '' (v0 supports sha256)'')]) @
     concat (map (\<lambda>(field, val). if (case val of Some v \<Rightarrow> blank v | None \<Rightarrow> False)
         then [diag_error ''E0619'' (prefix @ '' select.'' @ field @ '' must not be empty'')] else [])
       [(''serial_number'', us_serial_number (fm_select m)), (''manufacturer'', us_manufacturer (fm_select m)),
        (''product'', us_product (fm_select m))]) @
     (if list_ex blank (fm_enter_bootloader m) \<or> list_ex blank (fm_recovery m)
      then [diag_error ''E0619'' (prefix @ '' instructions must not be empty'')] else []) @
     (if fm_recovery m = [] then [diag_error ''E0619'' (prefix @ '' must provide recovery instructions'')] else []))"

definition validate_flash :: "string \<Rightarrow> FlashConfig \<Rightarrow> Diagnostic list" where
  "validate_flash reference flash =
     (if valid_identifier (fl_default_method flash) then []
      else [diag_error ''E0615'' (reference @ '': flash.default_method '' @ quoted (fl_default_method flash)
        @ '' is not a valid identifier'')]) @
     (if bt_get (fl_methods flash) (fl_default_method flash) \<noteq> None then []
      else [diag_error ''E0616'' (reference @ '': flash.default_method '' @ quoted (fl_default_method flash)
        @ '' has no matching method'')]) @
     concat (map (method_diagnostics reference) (fl_methods flash))"

definition board_check :: "('f, 'z) text_float_ops_scheme \<Rightarrow> string \<Rightarrow> 'ver BoardPackageFile \<Rightarrow> Diagnostic list" where
  "board_check fo reference board =
     concat (map (connector_diagnostics fo reference) (bp_connectors board)) @
     (case bp_flash board of None \<Rightarrow> [] | Some flash \<Rightarrow> validate_flash reference flash)"

definition board_payload ::
  "('f, 'z) text_float_ops_scheme \<Rightarrow> ('ver, 'req) semver_ops \<Rightarrow> ('v, 'ver) package_files \<Rightarrow> 'ver LoadedPackage \<Rightarrow>
     Diagnostic list + 'ver BoardPackageFile" where
  "board_payload fo sv files self =
     and_then (open_payload sv (pf_read files) (pf_board files) Board (''E0610'', ''E0611'', ''E0612'') ''a board'' ''board'' self)
       (checked_payload (board_check fo (package_ref_text sv (lp_reference self))))"

section \<open>Chips\<close>

definition declared_ids :: "'ver ChipPackageFile \<Rightarrow> string list" where
  "declared_ids self =
     (let p = cp_peripherals self in
      map tm_id (pe_timers p) @ map bus_id (pe_spi p) @ map bus_id (pe_i2c p) @ map bus_id (pe_uart p) @
      map adc_id (pe_adc p))"

text \<open>Bytes as a whole number in 64 bits; \<^verbatim>\<open>u64::MAX as f64\<close> is the conversion of that integer.\<close>

definition u64_max_float :: "('f, 'z) text_float_ops_scheme \<Rightarrow> 'f" where
  "u64_max_float fo = fo_of_int fo (2 ^ 64 - 1)"

definition memory_bytes :: "('f, 'z) text_float_ops_scheme \<Rightarrow> string \<Rightarrow> u64 option" where
  "memory_bytes fo raw =
     (case parse_as fo raw Memory of
        Inl _ \<Rightarrow> None
      | Inr q \<Rightarrow>
          let bytes = q_value q; rounded = fo_round fo bytes in
          if fo_less fo (fo_literal fo ''0.0'') bytes \<and> fo_le fo rounded (u64_max_float fo) \<and>
             fo_le fo (fo_abs fo (fo_sub fo bytes rounded)) (fo_literal fo ''1e-6'')
          then Some (of_nat (fo_trunc_u64 fo rounded)) else None)"

definition flash_bytes :: "('f, 'z) text_float_ops_scheme \<Rightarrow> MemoryLayout \<Rightarrow> u64 option" where
  "flash_bytes fo self = memory_bytes fo (ml_flash self)"

definition ram_bytes :: "('f, 'z) text_float_ops_scheme \<Rightarrow> MemoryLayout \<Rightarrow> u64 option" where
  "ram_bytes fo self = memory_bytes fo (ml_ram self)"

definition nonempty_unpadded :: "string \<Rightarrow> bool" where
  "nonempty_unpadded val \<longleftrightarrow> val \<noteq> [] \<and> trim val = val"

definition versioned_interface :: "string \<Rightarrow> bool" where
  "versioned_interface val =
     (case split_once_str ''/v'' val of
        None \<Rightarrow> False
      | Some (name, version) \<Rightarrow>
          name \<noteq> [] \<and> list_all (\<lambda>c. is_lower c \<or> c = CHR ''.'') name \<and>
          (case version of [] \<Rightarrow> False | d # _ \<Rightarrow> is_digit d \<and> d \<noteq> CHR ''0'') \<and>
          list_all is_digit version \<and> int (dec_value version) < 2 ^ 32)"

definition time_bound_diagnostics ::
  "('f, 'z) text_float_ops_scheme \<Rightarrow> string \<Rightarrow> string \<Rightarrow> string option \<Rightarrow> Diagnostic list" where
  "time_bound_diagnostics fo code prefix raw =
     (case raw of
        None \<Rightarrow> []
      | Some raw \<Rightarrow>
          (case parse_as fo raw Time of
             Inr q \<Rightarrow>
               if fo_le fo (fo_literal fo ''0.0'') (q_value q) then []
               else [diag_error code (prefix @ '' must be non-negative'')]
           | Inl e \<Rightarrow> [diag_error code (prefix @ '': '' @ quantity_error_text e)]))"

definition pin_function_diagnostics :: "string \<Rightarrow> 'ver ChipPackageFile \<Rightarrow> Diagnostic list" where
  "pin_function_diagnostics reference chip =
     concat (map (\<lambda>(pin, funcs). concat (map (\<lambda>f.
         let base = before (CHR ''.'') f in
         if base \<noteq> ''gpio'' \<and> base \<notin> set (declared_ids chip)
         then [diag_error ''E0653'' (reference @ '': pin '' @ pin @ '' claims '' @ quoted f @ '' but no peripheral ''
           @ quoted base @ '' is declared'')]
         else []) funcs)) (cp_pin_functions chip))"

definition bus_entry_diagnostics :: "('f, 'z) text_float_ops_scheme \<Rightarrow> string \<Rightarrow> Bus \<Rightarrow> Diagnostic list" where
  "bus_entry_diagnostics fo reference b =
     (let prefix = reference @ '': bus '' @ quoted (bus_id b) in
      quantity_diagnostics fo ''E0654'' (prefix @ '' max_frequency'') Frequency (bus_max_frequency b) @
      time_bound_diagnostics fo ''E0655'' (prefix @ '' worst_case_latency'') (bus_worst_case_latency b) @
      time_bound_diagnostics fo ''E0656'' (prefix @ '' worst_case_jitter'') (bus_worst_case_jitter b))"

definition memory_diagnostics ::
  "('f, 'z) text_float_ops_scheme \<Rightarrow> string \<Rightarrow> 'ver ChipPackageFile \<Rightarrow> Diagnostic list" where
  "memory_diagnostics fo reference chip =
     (case cp_memory chip of
        None \<Rightarrow> []
      | Some memory \<Rightarrow>
          concat (map (\<lambda>(region, raw). if memory_bytes fo raw = None
              then [diag_error ''E0659'' (reference @ '': memory.'' @ region @ '' must be a positive whole-byte quantity'')]
              else []) [(''flash'', ml_flash memory), (''ram'', ml_ram memory)]) @
          (case (flash_bytes fo memory, cp_boot chip) of
             (Some flash, Some boot) \<Rightarrow>
               if bc_default_bootloader_offset boot \<ge> flash
               then [diag_error ''E0660'' (reference @ '': boot.default_bootloader_offset ''
                 @ dec_nat (unat (bc_default_bootloader_offset boot)) @ '' must leave space within ''
                 @ dec_nat (unat flash) @ '' flash bytes'')]
               else []
           | _ \<Rightarrow> []))"

definition firmware_diagnostics :: "string \<Rightarrow> FirmwareTarget \<Rightarrow> Diagnostic list" where
  "firmware_diagnostics reference firmware =
     concat (map (\<lambda>(field, val). if nonempty_unpadded val then []
         else [diag_error ''E0661'' (reference @ '': firmware.'' @ field @ '' must be non-empty and unpadded'')])
       [(''target_triple'', ft_target_triple firmware), (''toolchain'', ft_toolchain firmware),
        (''build_profile'', ft_build_profile firmware)]) @
     concat (map (\<lambda>(field, val). if versioned_interface val then []
         else [diag_error ''E0661'' (reference @ '': firmware.'' @ field @ '' must use a ''
           @ quoted ''<name>/v<positive integer>'' @ '' identifier'')])
       [(''protocol_version'', ft_protocol_version firmware), (''abi_version'', ft_abi_version firmware)]) @
     map (\<lambda>feature. diag_error ''E0662'' (reference @ '': firmware feature '' @ quoted feature
         @ '' must be a unique identifier'')) (invalid_or_repeated valid_identifier [] (ft_features firmware))"

definition valid_channel_id :: "string \<Rightarrow> bool" where
  "valid_channel_id ident =
     (case split_once (CHR ''.'') ident of
        None \<Rightarrow> False | Some (controller, sub) \<Rightarrow> valid_identifier controller \<and> valid_identifier sub)"

definition route_diagnostics :: "string \<Rightarrow> string list \<Rightarrow> DmaChannel \<Rightarrow> Diagnostic list" where
  "route_diagnostics reference bus_ids channel =
     concat (map (\<lambda>route.
       if (case split_once (CHR ''.'') route of
             None \<Rightarrow> False | Some (bus, signal) \<Rightarrow> bus \<in> set bus_ids \<and> valid_identifier signal)
       then []
       else [diag_error ''E0658'' (reference @ '': DMA channel '' @ quoted (dc_id channel) @ '' route '' @ quoted route
         @ '' must name a declared bus signal'')]) (dc_routes channel))"

fun dma_diagnostics :: "string \<Rightarrow> string list \<Rightarrow> string list \<Rightarrow> DmaChannel list \<Rightarrow> Diagnostic list" where
  "dma_diagnostics reference bus_ids seen [] = []"
| "dma_diagnostics reference bus_ids seen (channel # channels) =
     (let bad = \<not> valid_channel_id (dc_id channel) \<or> dc_id channel \<in> set seen in
      (if bad
       then [diag_error ''E0657'' (reference @ '': DMA channel id '' @ quoted (dc_id channel) @ '' must be a unique ''
         @ quoted ''<controller>.<channel>'' @ '' identifier'')]
       else []) @
      route_diagnostics reference bus_ids channel @
      dma_diagnostics reference bus_ids (if bad then seen else dc_id channel # seen) channels)"

definition chip_check :: "('f, 'z) text_float_ops_scheme \<Rightarrow> string \<Rightarrow> 'ver ChipPackageFile \<Rightarrow> Diagnostic list" where
  "chip_check fo reference chip =
     pin_function_diagnostics reference chip @
     concat (map (bus_entry_diagnostics fo reference) (buses chip)) @
     memory_diagnostics fo reference chip @
     (case cp_firmware chip of None \<Rightarrow> [] | Some firmware \<Rightarrow> firmware_diagnostics reference firmware) @
     dma_diagnostics reference (map bus_id (buses chip)) [] (pe_dma (cp_peripherals chip))"

definition chip_payload ::
  "('f, 'z) text_float_ops_scheme \<Rightarrow> ('ver, 'req) semver_ops \<Rightarrow> ('v, 'ver) package_files \<Rightarrow> 'ver LoadedPackage \<Rightarrow>
     Diagnostic list + 'ver ChipPackageFile" where
  "chip_payload fo sv files self =
     and_then (open_payload sv (pf_read files) (pf_chip files) Chip (''E0650'', ''E0651'', ''E0652'') ''a chip'' ''chip'' self)
       (checked_payload (chip_check fo (package_ref_text sv (lp_reference self))))"

section \<open>Devices and machines\<close>

definition device_check :: "('f, 'z) text_float_ops_scheme \<Rightarrow> string \<Rightarrow> 'ver DevicePackageFile \<Rightarrow> Diagnostic list" where
  "device_check fo reference dev =
     (case Option.bind (dp_requires dev) rq_bus of
        None \<Rightarrow> []
      | Some bus \<Rightarrow>
          let prefix = reference @ '': requires.bus.'' in
          quantity_diagnostics fo ''E0623'' (prefix @ ''min_frequency'') Frequency (br_min_frequency bus) @
          time_bound_diagnostics fo ''E0624'' (prefix @ ''max_latency'') (br_max_latency bus) @
          time_bound_diagnostics fo ''E0625'' (prefix @ ''max_jitter'') (br_max_jitter bus) @
          map (\<lambda>signal. diag_error ''E0626'' (prefix @ ''dma_signals entries must be unique identifiers; got ''
              @ quoted signal)) (invalid_or_repeated valid_identifier [] (br_dma_signals bus)))"

definition device_payload ::
  "('f, 'z) text_float_ops_scheme \<Rightarrow> ('ver, 'req) semver_ops \<Rightarrow> ('v, 'ver) package_files \<Rightarrow> 'ver LoadedPackage \<Rightarrow>
     Diagnostic list + 'ver DevicePackageFile" where
  "device_payload fo sv files self =
     and_then (open_payload sv (pf_read files) (pf_device files) Device (''E0620'', ''E0621'', ''E0622'') ''a device'' ''device'' self)
       (checked_payload (device_check fo (package_ref_text sv (lp_reference self))))"

definition machine_payload ::
  "('ver, 'req) semver_ops \<Rightarrow> ('v, 'ver) package_files \<Rightarrow> 'ver LoadedPackage \<Rightarrow>
     Diagnostic list + ('v, 'ver) MachinePackageFile" where
  "machine_payload sv files self =
     open_payload sv (pf_read files) (pf_machine files) Machine (''E0640'', ''E0641'', ''E0642'') ''a machine'' ''machine'' self"

section \<open>Safety profiles\<close>

definition quantize_timeout_micros :: "('f, 'z) text_float_ops_scheme \<Rightarrow> 'f Quantity \<Rightarrow> u64 option" where
  "quantize_timeout_micros fo q =
     (let micros = fo_mul fo (q_value q) (fo_literal fo ''1000000.0''); rounded = fo_round fo micros in
      if fo_less fo (fo_literal fo ''0.0'') (q_value q) \<and> fo_le fo (fo_literal fo ''1.0'') rounded \<and>
         fo_le fo rounded (u64_max_float fo) \<and>
         fo_le fo (fo_abs fo (fo_sub fo micros rounded)) (fo_literal fo ''1e-6'')
      then Some (of_nat (fo_trunc_u64 fo rounded)) else None)"

definition heartbeat_timeout_us :: "('f, 'z) text_float_ops_scheme \<Rightarrow> ClassPolicy \<Rightarrow> u64 option" where
  "heartbeat_timeout_us fo self =
     Option.bind (po_heartbeat_timeout self) (\<lambda>raw.
     (case parse_as fo raw Time of Inl _ \<Rightarrow> None | Inr q \<Rightarrow> quantize_timeout_micros fo q))"

definition safety_check :: "('f, 'z) text_float_ops_scheme \<Rightarrow> string \<Rightarrow> 'ver SafetyProfileFile \<Rightarrow> Diagnostic list" where
  "safety_check fo reference profile =
     concat (map (\<lambda>(cls, policy).
       let prefix = reference @ '': class '' @ quoted cls @ '' heartbeat_timeout'' in
       (case po_heartbeat_timeout policy of
          None \<Rightarrow> []
        | Some hb \<Rightarrow>
            (case parse_as fo hb Time of
               Inl e \<Rightarrow> [diag_error ''E0633'' (prefix @ '': '' @ quantity_error_text e)]
             | Inr q \<Rightarrow>
                 if fo_le fo (q_value q) (fo_literal fo ''0.0'')
                 then [diag_error ''E0634'' (prefix @ '' must be positive'')]
                 else if quantize_timeout_micros fo q = None
                 then [diag_error ''E0635'' (prefix @ '' must fit the 1 us controller time quantum'')]
                 else []))) (sp_classes profile))"

definition safety_profile_payload ::
  "('f, 'z) text_float_ops_scheme \<Rightarrow> ('ver, 'req) semver_ops \<Rightarrow> ('v, 'ver) package_files \<Rightarrow> 'ver LoadedPackage \<Rightarrow>
     Diagnostic list + 'ver SafetyProfileFile" where
  "safety_profile_payload fo sv files self =
     and_then (open_payload sv (pf_read files) (pf_safety files) SafetyProfile (''E0630'', ''E0631'', ''E0632'')
         ''a safety-profile'' ''safety'' self)
       (checked_payload (safety_check fo (package_ref_text sv (lp_reference self))))"

section \<open>Workflows\<close>

definition valid_action_name :: "string \<Rightarrow> bool" where
  "valid_action_name raw =
     (if raw = [] \<or> ends_with raw ''.'' \<or> starts_with raw ''.'' then False
      else list_all valid_identifier (split_char (CHR ''.'') raw))"

definition validate_step :: "string \<Rightarrow> string \<Rightarrow> 'v WorkflowStep \<Rightarrow> Diagnostic list" where
  "validate_step reference context step =
     (let prefix = reference @ '': workflow '' @ context in
      (case sw_call step of
         Some call \<Rightarrow>
           if valid_action_name call then []
           else [diag_error ''E0657'' (prefix @ '' call '' @ quoted call @ '' is not a valid action name'')]
       | None \<Rightarrow> [diag_error ''E0658'' (prefix @ '' entry is missing '' @ quoted ''call'')]) @
      concat (map (\<lambda>argument. if valid_identifier argument then []
          else [diag_error ''E0659'' (prefix @ '' argument '' @ quoted argument @ '' is not a valid identifier'')])
        (bt_keys (sw_with_arguments step))))"

definition workflow_check :: "string \<Rightarrow> ('v, 'ver) WorkflowPackageFile \<Rightarrow> Diagnostic list" where
  "workflow_check reference workflow =
     (case wf_api_version workflow of
        None \<Rightarrow> []
      | Some api_version \<Rightarrow>
          if starts_with api_version ''forge.workflow/v'' then []
          else [diag_error ''E0653'' (reference @ '': workflow api_version '' @ quoted api_version
            @ '' is not forge.workflow/vN'')]) @
     concat (map (\<lambda>name. if valid_identifier name then []
         else [diag_error ''E0654'' (reference @ '': workflow parameter '' @ quoted name @ '' is not a valid identifier'')])
       (bt_keys (wf_parameters workflow))) @
     concat (map (validate_step reference ''steps'') (wf_steps workflow)) @
     concat (map (validate_step reference ''on_cancel'') (wf_on_cancel workflow)) @
     concat (map (\<lambda>capability. if valid_action_name capability then []
         else [diag_error ''E0655'' (reference @ '': workflow requires capability '' @ quoted capability
           @ '' is not a valid identifier'')])
       (case wf_requires workflow of None \<Rightarrow> [] | Some req \<Rightarrow> wr_capabilities req)) @
     concat (map (\<lambda>lock. if valid_action_name lock then []
         else [diag_error ''E0656'' (reference @ '': workflow lock '' @ quoted lock @ '' is not a valid identifier'')])
       (wf_locks workflow))"

definition workflow_payload ::
  "('ver, 'req) semver_ops \<Rightarrow> ('v, 'ver) package_files \<Rightarrow> 'ver LoadedPackage \<Rightarrow>
     Diagnostic list + ('v, 'ver) WorkflowPackageFile" where
  "workflow_payload sv files self =
     and_then (open_payload sv (pf_read files) (pf_workflow files) Workflow (''E0650'', ''E0651'', ''E0652'') ''a workflow'' ''workflow'' self)
       (checked_payload (workflow_check (package_ref_text sv (lp_reference self))))"

datatype StepLoweringError =
    NoCallAction
  | UnknownAction string
  | MissingArgument string string \<comment> \<open>action, argument\<close>
  | InvalidArgumentType string string

text \<open>What the sources ask of a YAML value.\<close>

record 'v yaml_ops =
  y_str :: "'v \<Rightarrow> string option"
  y_i64 :: "'v \<Rightarrow> i64 option"
  y_u64 :: "'v \<Rightarrow> u64 option"

definition extract_arg ::
  "('v \<Rightarrow> 'a option) \<Rightarrow> (string, 'v) btree \<Rightarrow> string \<Rightarrow> string \<Rightarrow> StepLoweringError + 'a" where
  "extract_arg read args action name =
     and_then (ok_or (bt_get args name) (MissingArgument action name)) (\<lambda>val.
     ok_or (read val) (InvalidArgumentType action name))"

definition lower_step :: "'v yaml_ops \<Rightarrow> 'v WorkflowStep \<Rightarrow> StepLoweringError + Command" where
  "lower_step yaml self =
     (let args = sw_with_arguments self in
      case sw_call self of
        None \<Rightarrow> Inl NoCallAction
      | Some call \<Rightarrow>
          if call = ''heartbeat'' \<or> call = ''system.heartbeat'' then Inr Heartbeat
          else if call = ''heater.set_target''
          then and_then (extract_arg (y_str yaml) args call ''heater'') (\<lambda>heater.
               and_then (extract_arg (y_i64 yaml) args call ''target_milli_c'') (\<lambda>target_milli_c.
               Inr (SetHeaterTarget heater target_milli_c)))
          else if call = ''motion.home''
          then and_then (extract_arg (y_str yaml) args call ''axis'') (\<lambda>axis.
               and_then (extract_arg (y_u64 yaml) args call ''rate_um_s'') (\<lambda>rate_um_s. Inr (Home axis rate_um_s)))
          else if call = ''motion.move''
          then and_then (extract_arg (y_str yaml) args call ''axis'') (\<lambda>axis.
               and_then (extract_arg (y_i64 yaml) args call ''distance_um'') (\<lambda>distance_um.
               and_then (extract_arg (y_u64 yaml) args call ''rate_um_s'') (\<lambda>rate_um_s.
               Inr (Move axis distance_um rate_um_s))))
          else Inl (UnknownAction call))"

end
