(* ===== verification/Capability.thy ===== *)
theory Capability
  imports Payloads
begin

text \<open>
  \<^verbatim>\<open>crates/machine-resolver/src/model.rs\<close> and \<^verbatim>\<open>capability.rs\<close>: the resolved graph, and the matching of
  connectors, chips and devices: which functions the pins of a connector have, whether they give the
  bus a device needs, which resources a component controls.  \<^verbatim>\<open>as_str\<close> reads a YAML value that is a
  string, \<^verbatim>\<open>fo\<close> computes with quantities.
\<close>

section \<open>The resolved graph\<close>

datatype Phase =
    Parse | SchemaValidation | PackageDependencies | PackageLoading | GraphExpansion | CapabilityMatching
  | ResourceAllocation | ElectricalValidation | SafetyValidation | FirmwarePartitioning | ArtifactPlanning

type_synonym ResourceId = string

type_synonym capabilities = "(string, string list) btree"

record Assignment =
  as_requested_by :: string
  as_via :: string
  as_resource :: ResourceId
  as_connector_kind :: string
  as_candidates_considered :: "string list"
  as_constraints_applied :: "string list"
  as_pin_capabilities :: capabilities

record ControllerSafeState =
  ss_component :: string
  ss_class :: string
  ss_resource :: ResourceId
  ss_state :: SafeState
  ss_heartbeat_timeout_us :: "u64 option"
  ss_sensor :: "ResourceId option"

record ControllerBuildPlan =
  bl_board :: string
  bl_chip :: string
  bl_target_triple :: string
  bl_toolchain :: string
  bl_build_profile :: string
  bl_protocol_version :: string
  bl_abi_version :: string
  bl_flash_bytes :: u64
  bl_ram_bytes :: u64
  bl_bootloader_offset_bytes :: u64
  bl_features :: "string list"
  bl_native_drivers :: "string list"

record ResolvedGraph =
  rg_assignments :: "(string, Assignment list) btree"
  rg_controller_safety :: "(string, ControllerSafeState list) btree"
  rg_controller_build_plans :: "(string, ControllerBuildPlan) btree"
  rg_packages :: "string list"

record BusMatch =
  bm_instance :: string
  bm_latency :: "string option"
  bm_jitter :: "string option"
  bm_dma_routes :: "(string, string) btree"

text \<open>The texts that record why a bus was accepted.\<close>

definition bus_constraints :: "BusReq \<Rightarrow> BusMatch \<Rightarrow> string list" where
  "bus_constraints requirement self =
     [br_kind requirement @ '' bus via '' @ bm_instance self @
        (case br_min_frequency requirement of None \<Rightarrow> [] | Some f \<Rightarrow> '' (>= '' @ f @ '')'')] @
     (case (bm_latency self, br_max_latency requirement) of
        (Some actual, Some limit) \<Rightarrow> [''worst-case bus latency '' @ actual @ '' <= '' @ limit] | _ \<Rightarrow> []) @
     (case (bm_jitter self, br_max_jitter requirement) of
        (Some actual, Some limit) \<Rightarrow> [''worst-case bus jitter '' @ actual @ '' <= '' @ limit] | _ \<Rightarrow> []) @
     map (\<lambda>(signal, channel). ''DMA route '' @ bm_instance self @ ''.'' @ signal @ '' via '' @ channel)
       (bm_dma_routes self)"

section \<open>Pins and buses\<close>

definition claim_kind :: "string \<Rightarrow> string option" where
  "claim_kind attr =
     (if attr = ''connected_to'' then Some ''stepper_driver_socket''
      else if attr = ''output'' then Some ''power_output''
      else if attr = ''input'' then Some ''analog_input''
      else None)"

definition derive_pin_capabilities :: "'ver ChipPackageFile option \<Rightarrow> Connector \<Rightarrow> capabilities" where
  "derive_pin_capabilities chip connector =
     (case chip of
        None \<Rightarrow> bt_empty
      | Some chip \<Rightarrow>
          if cp_pin_functions chip = [] then bt_empty
          else
            let out = fold (\<lambda>(signal, pin) out.
                  (case bt_get (cp_pin_functions chip) pin of Some f \<Rightarrow> bt_insert signal f out | None \<Rightarrow> out))
                  (cn_pins connector) bt_empty in
            (case cn_pin connector of
               None \<Rightarrow> out
             | Some pin \<Rightarrow>
                 (case bt_get (cp_pin_functions chip) pin of
                    Some f \<Rightarrow> bt_insert ''pin'' f out | None \<Rightarrow> out)))"

definition trim_end_digits :: "string \<Rightarrow> string" where
  "trim_end_digits s = rev (dropWhile is_digit (rev s))"

text \<open>The first function on any pin whose peripheral belongs to the bus family: that peripheral.\<close>

definition bus_instance :: "string \<Rightarrow> capabilities \<Rightarrow> string option" where
  "bus_instance kind caps =
     List.find (\<lambda>inst. trim_end_digits inst = kind) (map (before (CHR ''.'')) (concat (bt_values caps)))"

definition check_time ::
  "('f, 'z) text_float_ops_scheme \<Rightarrow> string \<Rightarrow> string \<Rightarrow> string option \<Rightarrow> string option \<Rightarrow>
     string + string option" where
  "check_time fo inst field actual limit =
     (case limit of
        None \<Rightarrow> Inr None
      | Some limit \<Rightarrow>
          and_then (ok_or actual (''bus '' @ quoted inst @ '' declares no '' @ field @ '' (required <= '' @ limit @ '')''))
            (\<lambda>actual.
          and_then (map_err quantity_error_text (parse_as fo actual Time)) (\<lambda>actual_quantity.
          and_then (map_err quantity_error_text (parse_as fo limit Time)) (\<lambda>limit_quantity.
          if fo_less fo (q_value limit_quantity) (q_value actual_quantity)
          then Inl (''bus '' @ quoted inst @ '' '' @ field @ '' '' @ actual @ '' > required maximum '' @ limit)
          else Inr (Some actual)))))"

definition check_frequency ::
  "('f, 'z) text_float_ops_scheme \<Rightarrow> string \<Rightarrow> string option \<Rightarrow> string option \<Rightarrow> string + unit" where
  "check_frequency fo inst max_frequency min_frequency =
     (case min_frequency of
        None \<Rightarrow> Inr ()
      | Some min_raw \<Rightarrow>
          and_then (map_err quantity_error_text (parse_as fo min_raw Frequency)) (\<lambda>min_quantity.
          and_then (ok_or max_frequency
              (''bus '' @ quoted inst @ '' declares no max_frequency (required >= '' @ min_raw @ '')''))
            (\<lambda>frequency.
          and_then (map_err quantity_error_text (parse_as fo frequency Frequency)) (\<lambda>actual.
          if fo_less fo (q_value actual) (q_value min_quantity)
          then Inl (''bus '' @ quoted inst @ '' max_frequency '' @ frequency @ '' < required '' @ min_raw)
          else Inr ()))))"

text \<open>One DMA channel for every signal that needs one.\<close>

fun route_dma ::
  "'ver ChipPackageFile \<Rightarrow> string \<Rightarrow> string list \<Rightarrow> (string, string) btree \<Rightarrow> string + (string, string) btree" where
  "route_dma chip inst [] routes = Inr routes"
| "route_dma chip inst (signal # signals) routes =
     (let route = inst @ ''.'' @ signal in
      and_then (ok_or (dma_channel_for_route route chip) (''no DMA channel routes '' @ quoted route)) (\<lambda>channel.
      route_dma chip inst signals (bt_insert signal (dc_id channel) routes)))"

definition needs_metadata :: "BusReq \<Rightarrow> bool" where
  "needs_metadata req \<longleftrightarrow> br_min_frequency req \<noteq> None \<or> br_max_latency req \<noteq> None \<or> br_max_jitter req \<noteq> None \<or>
     br_dma_signals req \<noteq> []"

definition declared_bus :: "'ver ChipPackageFile option \<Rightarrow> string \<Rightarrow> Bus option" where
  "declared_bus chip inst = Option.bind chip (\<lambda>chip. List.find (\<lambda>bus. bus_id bus = inst) (buses chip))"

definition bus_satisfied ::
  "('f, 'z) text_float_ops_scheme \<Rightarrow> 'ver ChipPackageFile option \<Rightarrow> capabilities \<Rightarrow> BusReq \<Rightarrow> string + BusMatch" where
  "bus_satisfied fo chip caps req =
     and_then (ok_or (bus_instance (br_kind req) caps) (''no '' @ br_kind req @ '' function on any connector pin''))
       (\<lambda>inst.
     let declared = declared_bus chip inst in
     if needs_metadata req \<and> declared = None
     then Inl (''bus '' @ quoted inst @ '' has no declared capability metadata'') else
     and_then (check_frequency fo inst (Option.bind declared bus_max_frequency) (br_min_frequency req)) (\<lambda>_.
     and_then (check_time fo inst ''worst_case_latency'' (Option.bind declared bus_worst_case_latency)
         (br_max_latency req)) (\<lambda>latency.
     and_then (check_time fo inst ''worst_case_jitter'' (Option.bind declared bus_worst_case_jitter)
         (br_max_jitter req)) (\<lambda>jitter.
     and_then
       (if br_dma_signals req = [] then Inr bt_empty
        else and_then (ok_or chip ''no chip table to verify DMA routing against'') (\<lambda>chip.
             route_dma chip inst (br_dma_signals req) bt_empty))
       (\<lambda>dma_routes.
     Inr \<lparr>bm_instance = inst, bm_latency = latency, bm_jitter = jitter, bm_dma_routes = dma_routes\<rparr>)))))"

section \<open>The resources of a component\<close>

definition str_attribute :: "('v \<Rightarrow> string option) \<Rightarrow> string \<Rightarrow> 'v Component \<Rightarrow> string option" where
  "str_attribute as_str name component = Option.bind (bt_get (co_attributes component) name) as_str"

definition assignments_of :: "ResolvedGraph \<Rightarrow> string \<Rightarrow> Assignment list" where
  "assignments_of resolved name = (case bt_get (rg_assignments resolved) name of Some l \<Rightarrow> l | None \<Rightarrow> [])"

definition sorted_resources :: "Assignment list \<Rightarrow> ResourceId list" where
  "sorted_resources assignments = remdups_adj (sort (map as_resource assignments))"

definition safety_target_resources ::
  "('v \<Rightarrow> string option) \<Rightarrow> ResolvedGraph \<Rightarrow> string \<Rightarrow> 'v Component \<Rightarrow> string + ResourceId list" where
  "safety_target_resources as_str resolved component_name component =
     (if assignments_of resolved component_name \<noteq> []
      then Inr (sorted_resources (assignments_of resolved component_name))
      else
        (case str_attribute as_str ''driver'' component of
           None \<Rightarrow> Inr []
         | Some raw \<Rightarrow>
             let driver = trim raw in
             if driver = [] then Inl (''component '' @ quoted component_name @ '' driver attribute cannot be empty'')
             else
               let assignments = assignments_of resolved driver in
               if assignments = [] then Inr []
               else
                 (case List.find (\<lambda>a. as_connector_kind a \<noteq> ''stepper_driver_socket'') assignments of
                    Some a \<Rightarrow>
                      Inl (''component '' @ quoted component_name @ '' names '' @ quoted driver @ '' as its driver, but ''
                        @ quoted (as_resource a) @ '' is a '' @ quoted (as_connector_kind a)
                        @ '' connector rather than a stepper driver socket'')
                  | None \<Rightarrow> Inr (sorted_resources assignments))))"

definition is_sensor_connector_kind :: "string \<Rightarrow> bool" where
  "is_sensor_connector_kind kind \<longleftrightarrow> kind = ''analog_input'' \<or> kind = ''digital_input''"

definition sensor_resource_on_controller ::
  "('v \<Rightarrow> string option) \<Rightarrow> ResolvedGraph \<Rightarrow> 'v Component \<Rightarrow> string \<Rightarrow> ResourceId option" where
  "sensor_resource_on_controller as_str resolved component controller =
     Option.bind (str_attribute as_str ''sensor'' component) (\<lambda>sensor.
     map_option as_resource
       (List.find (\<lambda>a. is_sensor_connector_kind (as_connector_kind a) \<and>
          (case split_once (CHR ''.'') (as_resource a) of Some (c, _) \<Rightarrow> c = controller | None \<Rightarrow> False))
          (assignments_of resolved sensor)))"

end
