(* ===== verification/Allocation.thy ===== *)
theory Allocation
  imports Capability
begin

text \<open>
  \<^verbatim>\<open>crates/machine-resolver/src/allocation.rs\<close> with \<^verbatim>\<open>diagnostics.rs\<close> and the device requirements of
  \<^verbatim>\<open>requirements.rs\<close>: every component of a machine gets the connectors it claims, or the first free
  connector its device can use.  Claims are exclusive, and so are the timer channels of step pins when
  the machine declares a step rate.  The texts of diagnostics are those of the source; \<^verbatim>\<open>debug\<close> is the
  debug text of a list of strings, which depends on the tables of Unicode.
\<close>

section \<open>Where a diagnostic points\<close>

text \<open>The path up to the last dot or bracket.\<close>

definition parent_path :: "string \<Rightarrow> string option" where
  "parent_path path =
     (case dropWhile (\<lambda>c. c \<noteq> CHR ''.'' \<and> c \<noteq> CHR ''['') (rev path) of
        [] \<Rightarrow> None
      | _ # r \<Rightarrow> Some (rev r))"

lemma parent_path_shorter: "parent_path path = Some p \<Longrightarrow> length p < length path"
proof -
  assume "parent_path path = Some p"
  then obtain c r where d: "dropWhile (\<lambda>c. c \<noteq> CHR ''.'' \<and> c \<noteq> CHR ''['') (rev path) = c # r" "p = rev r"
    by (auto simp: parent_path_def split: list.splits)
  have "length (c # r) \<le> length (rev path)" using length_dropWhile_le unfolding d(1) [symmetric] .
  then show ?thesis using d(2) by simp
qed

function expanded_source :: "(string, SourceSpan) btree \<Rightarrow> string \<Rightarrow> SourceSpan option" where
  "expanded_source sources candidate =
     (case bt_get sources candidate of
        Some source \<Rightarrow> Some source
      | None \<Rightarrow> (case parent_path candidate of None \<Rightarrow> None | Some p \<Rightarrow> expanded_source sources p))"
  by auto
termination
  by (relation "measure (length \<circ> snd)") (auto dest: parent_path_shorter)

declare expanded_source.simps [simp del]

definition diagnostic_at_source :: "Diagnostic \<Rightarrow> string \<Rightarrow> SourceSpan option \<Rightarrow> Diagnostic" where
  "diagnostic_at_source diagnostic path source =
     (case source of
        Some source \<Rightarrow> with_source source (diag_at path diagnostic)
      | None \<Rightarrow> diag_at path diagnostic)"

definition related_to_claim :: "Diagnostic \<Rightarrow> string \<Rightarrow> string \<Rightarrow> SourceSpan option \<Rightarrow> Diagnostic" where
  "related_to_claim diagnostic message path source =
     (case source of
        Some source \<Rightarrow> related_source message source diagnostic
      | None \<Rightarrow> related_at message path diagnostic)"

lemma diagnostic_at_source_simps [simp]:
  "is_error (diagnostic_at_source d p s) \<longleftrightarrow> is_error d" "is_error (related_to_claim d m p s) \<longleftrightarrow> is_error d"
  "dg_code (diagnostic_at_source d p s) = dg_code d" "dg_code (related_to_claim d m p s) = dg_code d"
  by (simp_all add: diagnostic_at_source_def related_to_claim_def split: option.split)

text \<open>A dash between spaces, in UTF-8.\<close>

definition em_dash :: string where
  "em_dash = '' '' @ [CHR 0xE2, CHR 0x80, CHR 0x94] @ '' ''"

section \<open>Inputs and working state\<close>

record DeviceRequirement =
  dr_reference :: string
  dr_connector :: "string option"
  dr_domains :: "string list"
  dr_bus :: "BusReq option"

record ResourceClaim =
  rcl_component :: string
  rcl_path :: string
  rcl_source :: "SourceSpan option"

record TimerClaim =
  tcl_component :: string
  tcl_pin :: string
  tcl_path :: string
  tcl_source :: "SourceSpan option"

record ('v, 'ver) AllocInputs =
  in_doc :: "'v MachineDoc"
  in_expanded_sources :: "(string, SourceSpan) btree"
  in_device_reqs :: "(string, DeviceRequirement) btree"
  in_boards :: "(string, 'ver BoardPackageFile) btree"
  in_chips :: "(string, 'ver ChipPackageFile) btree"
  in_closure_refs :: "string list"

text \<open>The local variables of \<^verbatim>\<open>allocate\<close>.\<close>

record AllocWork =
  wk_diagnostics :: "Diagnostic list"
  wk_claims :: "(string, ResourceClaim) btree"
  wk_timer_claims :: "(string, TimerClaim) btree"
  wk_assignments :: "(string, Assignment list) btree"

definition push_diagnostic :: "Diagnostic \<Rightarrow> AllocWork \<Rightarrow> AllocWork" where
  "push_diagnostic d w = w\<lparr>wk_diagnostics := wk_diagnostics w @ [d]\<rparr>"

definition step_rate_declared :: "('f, 'z) text_float_ops_scheme \<Rightarrow> 'v MachineDoc \<Rightarrow> bool" where
  "step_rate_declared fo doc =
     (case bt_get (km_limits (doc_kinematics doc)) ''max_step_rate'' of
        None \<Rightarrow> False | Some v \<Rightarrow> is_ok (parse_as fo v Frequency))"

text \<open>The timer function of a step pin, where there is one.\<close>

definition timer_token :: "string list \<Rightarrow> string option" where
  "timer_token funcs = List.find (\<lambda>f. starts_with f ''tim'') funcs"

text \<open>What a component is given: the connector, the functions of its pins, the reasons, a timer channel.\<close>

record Placement =
  pl_target :: string
  pl_kind :: string
  pl_via :: string
  pl_candidates :: "string list"
  pl_constraints :: "string list"
  pl_capabilities :: capabilities
  pl_path :: string
  pl_source :: "SourceSpan option"
  pl_timer :: "(string \<times> string) option" \<comment> \<open>channel, step pin\<close>

definition placed_assignment :: "string \<Rightarrow> Placement \<Rightarrow> Assignment" where
  "placed_assignment cname p =
     \<lparr>as_requested_by = cname, as_via = pl_via p, as_resource = pl_target p, as_connector_kind = pl_kind p,
      as_candidates_considered = pl_candidates p, as_constraints_applied = pl_constraints p,
      as_pin_capabilities = pl_capabilities p\<rparr>"

definition commit :: "string \<Rightarrow> Placement \<Rightarrow> AllocWork \<Rightarrow> AllocWork" where
  "commit cname p w =
     w\<lparr>wk_timer_claims :=
         (case pl_timer p of
            None \<Rightarrow> wk_timer_claims w
          | Some (key, pin) \<Rightarrow>
              bt_insert key \<lparr>tcl_component = cname, tcl_pin = pin, tcl_path = pl_path p, tcl_source = pl_source p\<rparr>
                (wk_timer_claims w)),
       wk_claims :=
         bt_insert (pl_target p) \<lparr>rcl_component = cname, rcl_path = pl_path p, rcl_source = pl_source p\<rparr> (wk_claims w),
       wk_assignments :=
         bt_insert cname
           ((case bt_get (wk_assignments w) cname of Some l \<Rightarrow> l | None \<Rightarrow> []) @ [placed_assignment cname p])
           (wk_assignments w)\<rparr>"

definition component_path :: "string \<Rightarrow> string" where
  "component_path cname = ''components.'' @ cname"

definition attribute_path :: "string \<Rightarrow> string \<Rightarrow> string" where
  "attribute_path cname attr = ''components.'' @ cname @ ''.'' @ attr"

section \<open>Explicit claims\<close>

definition device_of :: "('v, 'ver) AllocInputs \<Rightarrow> 'v Component \<Rightarrow> DeviceRequirement option" where
  "device_of inp cmp = bt_get (in_device_reqs inp) (co_kind cmp)"

definition expected_kind :: "('v, 'ver) AllocInputs \<Rightarrow> 'v Component \<Rightarrow> string \<Rightarrow> string" where
  "expected_kind inp cmp table_kind =
     (case Option.bind (device_of inp cmp) dr_connector of Some k \<Rightarrow> k | None \<Rightarrow> table_kind)"

text \<open>The conflict of a claim with an earlier one, with the free connectors of the same kind.\<close>

definition claim_conflict ::
  "string \<Rightarrow> string \<Rightarrow> string \<Rightarrow> string \<Rightarrow> 'ver BoardPackageFile \<Rightarrow> ResourceClaim \<Rightarrow> string \<Rightarrow> SourceSpan option \<Rightarrow>
     AllocWork \<Rightarrow> Diagnostic" where
  "claim_conflict cname target ctrl kind board prev claim_path claim_source w =
     (let free = map (\<lambda>(ident, _). ctrl @ ''.'' @ ident)
            (filter (\<lambda>(ident, c). cn_kind c = kind \<and> bt_get (wk_claims w) (ctrl @ ''.'' @ ident) = None)
              (bp_connectors board));
          d = diagnostic_at_source
            (diag_error ''E1200'' (''connector conflict: '' @ quoted target @ '' is claimed by both ''
               @ quoted (rcl_component prev) @ '' and '' @ quoted cname)) claim_path claim_source;
          d1 = related_to_claim d (quoted (rcl_component prev) @ '' first claimed '' @ quoted target @ '' here'')
            (rcl_path prev) (rcl_source prev) in
      if free = [] then suggest (''no free '' @ kind @ '' connectors remain on '' @ quoted ctrl) d1
      else suggest (''move '' @ quoted cname @ '' to one of: '' @ join '', '' free) d1)"

text \<open>The step pin of an explicit claim and its timer channel.\<close>

definition explicit_timer ::
  "string \<Rightarrow> string \<Rightarrow> string \<Rightarrow> Connector \<Rightarrow> capabilities \<Rightarrow> string \<Rightarrow> SourceSpan option \<Rightarrow> AllocWork \<Rightarrow>
     Diagnostic + (string \<times> string) option \<times> string list" where
  "explicit_timer cname target ctrl connector caps claim_path claim_source w =
     (case bt_get caps ''step'' of
        None \<Rightarrow> Inr (None, [])
      | Some step_funcs \<Rightarrow>
          let step_pin = (case bt_get (cn_pins connector) ''step'' of Some p \<Rightarrow> p | None \<Rightarrow> []) in
          (case timer_token step_funcs of
             None \<Rightarrow>
               Inl (diagnostic_at_source
                 (diag_error ''E1310'' (''component '' @ quoted cname @ '': max_step_rate is declared, but ''
                    @ quoted target @ '' step pin '' @ step_pin @ '' has no timer function (capabilities: ''
                    @ join '', '' step_funcs @ '')'')) claim_path claim_source)
           | Some tok \<Rightarrow>
               let key = ctrl @ ''.'' @ tok in
               (case bt_get (wk_timer_claims w) key of
                  Some other \<Rightarrow>
                    Inl (related_to_claim
                      (diagnostic_at_source
                        (diag_error ''E1314'' (''timer conflict: '' @ quoted cname @ '' (pin '' @ step_pin @ '') and ''
                           @ quoted (tcl_component other) @ '' (pin '' @ tcl_pin other @ '') both need '' @ tok
                           @ '' on '' @ quoted ctrl)) claim_path claim_source)
                      (quoted (tcl_component other) @ '' reserved '' @ tok @ '' here'') (tcl_path other) (tcl_source other))
                | None \<Rightarrow>
                    Inr (Some (key, step_pin), [''step pin on free timer channel '' @ tok @ '' (max_step_rate)'']))))"

text \<open>One claiming attribute: the diagnostic that refuses it, or the placement.\<close>

definition explicit_placement ::
  "('f, 'z) text_float_ops_scheme \<Rightarrow> (string list \<Rightarrow> string) \<Rightarrow> ('v, 'ver) AllocInputs \<Rightarrow> string \<Rightarrow> 'v Component \<Rightarrow>
     string \<Rightarrow> string \<Rightarrow> string \<Rightarrow> AllocWork \<Rightarrow> Diagnostic + Placement" where
  "explicit_placement fo debug inp cname cmp attr table_kind target w =
     (let kind = expected_kind inp cmp table_kind;
          claim_path = attribute_path cname attr;
          claim_source = expanded_source (in_expanded_sources inp) claim_path;
          err = (\<lambda>code message. diagnostic_at_source (diag_error code message) claim_path claim_source) in
      case split_once (CHR ''.'') target of
        None \<Rightarrow> Inl (err ''E1206'' (''component '' @ quoted cname @ '': '' @ quoted target
                   @ '' must name a controller port as '' @ quoted ''controller.port''))
      | Some (ctrl, port) \<Rightarrow>
      and_then (ok_or (bt_get (in_boards inp) ctrl)
          (err ''E1206'' (''component '' @ quoted cname @ '': unknown controller '' @ quoted ctrl @ '' in '' @ quoted target)))
        (\<lambda>board.
      and_then (ok_or (bt_get (bp_connectors board) port)
          (diagnostic_at_source
            (suggest (''available connectors: '' @ debug (bt_keys (bp_connectors board)))
              (diag_error ''E1201'' (''component '' @ quoted cname @ '': controller '' @ quoted ctrl
                @ '' has no connector '' @ quoted port))) claim_path claim_source))
        (\<lambda>connector.
      if cn_kind connector \<noteq> kind
      then Inl (err ''E1202'' (''component '' @ quoted cname @ '': '' @ quoted target @ '' is a '' @ cn_kind connector
             @ '' connector, but '' @ quoted attr @ '' requires '' @ kind))
      else
      (case bt_get (wk_claims w) target of
         Some prev \<Rightarrow> Inl (claim_conflict cname target ctrl kind board prev claim_path claim_source w)
       | None \<Rightarrow>
      let caps = derive_pin_capabilities (bt_get (in_chips inp) ctrl) connector in
      and_then
        (case Option.bind (device_of inp cmp) dr_bus of
           None \<Rightarrow> Inr []
         | Some bus \<Rightarrow>
             (case bus_satisfied fo (bt_get (in_chips inp) ctrl) caps bus of
                Inr matched \<Rightarrow> Inr (bus_constraints bus matched)
              | Inl reason \<Rightarrow> Inl (err ''E1315'' (''component '' @ quoted cname @ '': device requires a '' @ br_kind bus
                    @ '' bus on '' @ quoted target @ em_dash @ reason))))
        (\<lambda>bus_texts.
      and_then
        (if step_rate_declared fo (in_doc inp) \<and> kind = ''stepper_driver_socket''
         then explicit_timer cname target ctrl connector caps claim_path claim_source w
         else Inr (None, []))
        (\<lambda>(timer, timer_texts).
      Inr \<lparr>pl_target = target, pl_kind = cn_kind connector, pl_via = attr, pl_candidates = [target],
           pl_constraints = [''explicit claim of '' @ quoted target, ''connector kind == '' @ kind, ''exclusive ownership'']
             @ bus_texts @ timer_texts,
           pl_capabilities = caps, pl_path = claim_path, pl_source = claim_source, pl_timer = timer\<rparr>))))))"

definition explicit_claim ::
  "('f, 'z) text_float_ops_scheme \<Rightarrow> ('v \<Rightarrow> string option) \<Rightarrow> (string list \<Rightarrow> string) \<Rightarrow> ('v, 'ver) AllocInputs \<Rightarrow>
     string \<Rightarrow> 'v Component \<Rightarrow> string \<times> 'v \<Rightarrow> AllocWork \<Rightarrow> AllocWork" where
  "explicit_claim fo as_str debug inp cname cmp = (\<lambda>(attr, val) w.
     case (as_str val, claim_kind attr) of
       (Some target, Some table_kind) \<Rightarrow>
         (case explicit_placement fo debug inp cname cmp attr table_kind target w of
            Inl d \<Rightarrow> push_diagnostic d w
          | Inr p \<Rightarrow> commit cname p w)
     | _ \<Rightarrow> w)"

definition explicit_pass ::
  "('f, 'z) text_float_ops_scheme \<Rightarrow> ('v \<Rightarrow> string option) \<Rightarrow> (string list \<Rightarrow> string) \<Rightarrow> ('v, 'ver) AllocInputs \<Rightarrow>
     AllocWork \<Rightarrow> AllocWork" where
  "explicit_pass fo as_str debug inp w =
     fold (\<lambda>(cname, cmp). fold (explicit_claim fo as_str debug inp cname cmp) (co_attributes cmp))
       (doc_components (in_doc inp)) w"

section \<open>Search\<close>

definition claims_explicitly :: "('v \<Rightarrow> string option) \<Rightarrow> 'v Component \<Rightarrow> bool" where
  "claims_explicitly as_str cmp \<longleftrightarrow>
     list_ex (\<lambda>(attr, v). claim_kind attr \<noteq> None \<and> as_str v \<noteq> None) (co_attributes cmp)"

text \<open>The controller to search: the one named, or the only one.\<close>

definition search_controller ::
  "('v \<Rightarrow> string option) \<Rightarrow> ('v, 'ver) AllocInputs \<Rightarrow> string \<Rightarrow> 'v Component \<Rightarrow> string \<Rightarrow> Diagnostic + string" where
  "search_controller as_str inp cname cmp kind =
     (let controllers = doc_controllers (in_doc inp) in
      case str_attribute as_str ''controller'' cmp of
        Some c \<Rightarrow> Inr c
      | None \<Rightarrow>
          if length controllers = 1 then Inr (hd (bt_keys controllers))
          else Inl (diag_at (component_path cname)
            (diag_error ''E1203'' (''component '' @ quoted cname @ '' needs a '' @ kind @ '' but the machine has ''
              @ dec_nat (length controllers) @ '' controllers'' @ em_dash @ ''add '' @ quoted ''controller: <name>''
              @ '' to disambiguate''))))"

text \<open>The connector a candidate names on the board that is searched, with the part in front of the dot.\<close>

definition candidate_connector :: "'ver BoardPackageFile \<Rightarrow> string \<Rightarrow> (string \<times> Connector) option" where
  "candidate_connector board target =
     Option.bind (split_once (CHR ''.'') target) (\<lambda>(c, port).
     map_option (\<lambda>connector. (c, connector)) (bt_get (bp_connectors board) port))"

definition domain_ok :: "'ver BoardPackageFile \<Rightarrow> string list \<Rightarrow> string \<Rightarrow> bool" where
  "domain_ok board domains target \<longleftrightarrow>
     domains = [] \<or>
     (case Option.bind (candidate_connector board target) (\<lambda>(_, c). cn_voltage_domain c) of
        None \<Rightarrow> False | Some d \<Rightarrow> d \<in> set domains)"

definition timing_ok ::
  "('f, 'z) text_float_ops_scheme \<Rightarrow> ('v, 'ver) AllocInputs \<Rightarrow> 'ver BoardPackageFile \<Rightarrow> string \<Rightarrow> AllocWork \<Rightarrow> string \<Rightarrow> bool" where
  "timing_ok fo inp board kind w target =
     (if \<not> step_rate_declared fo (in_doc inp) \<or> kind \<noteq> ''stepper_driver_socket'' then True
      else
        (case candidate_connector board target of
           None \<Rightarrow> True
         | Some (c, connector) \<Rightarrow>
             (case bt_get (derive_pin_capabilities (bt_get (in_chips inp) c) connector) ''step'' of
                None \<Rightarrow> True
              | Some funcs \<Rightarrow>
                  (case timer_token funcs of
                     None \<Rightarrow> False
                   | Some tok \<Rightarrow> bt_get (wk_timer_claims w) (c @ ''.'' @ tok) = None))))"

definition bus_ok ::
  "('f, 'z) text_float_ops_scheme \<Rightarrow> ('v, 'ver) AllocInputs \<Rightarrow> 'ver BoardPackageFile \<Rightarrow> BusReq option \<Rightarrow> string \<Rightarrow> bool" where
  "bus_ok fo inp board required target =
     (case required of
        None \<Rightarrow> True
      | Some bus \<Rightarrow>
          (case candidate_connector board target of
             None \<Rightarrow> False
           | Some (c, connector) \<Rightarrow>
               is_ok (bus_satisfied fo (bt_get (in_chips inp) c)
                 (derive_pin_capabilities (bt_get (in_chips inp) c) connector) bus)))"

definition search_candidates :: "string \<Rightarrow> 'ver BoardPackageFile \<Rightarrow> string \<Rightarrow> string list" where
  "search_candidates ctrl board kind =
     map (\<lambda>(ident, _). ctrl @ ''.'' @ ident) (filter (\<lambda>(_, c). cn_kind c = kind) (bp_connectors board))"

definition eligible ::
  "('f, 'z) text_float_ops_scheme \<Rightarrow> ('v, 'ver) AllocInputs \<Rightarrow> 'ver BoardPackageFile \<Rightarrow> DeviceRequirement \<Rightarrow> string \<Rightarrow>
     AllocWork \<Rightarrow> string \<Rightarrow> bool" where
  "eligible fo inp board dreq kind w t \<longleftrightarrow>
     bt_get (wk_claims w) t = None \<and> domain_ok board (dr_domains dreq) t \<and> timing_ok fo inp board kind w t \<and>
     bus_ok fo inp board (dr_bus dreq) t"

text \<open>The placement of a component on the connector that was found.\<close>

definition search_placed ::
  "('f, 'z) text_float_ops_scheme \<Rightarrow> ('v, 'ver) AllocInputs \<Rightarrow> 'ver BoardPackageFile \<Rightarrow> DeviceRequirement \<Rightarrow> string \<Rightarrow>
     string \<Rightarrow> string \<Rightarrow> string list \<Rightarrow> string \<Rightarrow> Placement" where
  "search_placed fo inp board dreq cname kind ctrl candidates target =
     (let path = component_path cname;
          connector = candidate_connector board target;
          caps = (case connector of
                    None \<Rightarrow> bt_empty
                  | Some (c, conn) \<Rightarrow> derive_pin_capabilities (bt_get (in_chips inp) c) conn);
          bus_texts = (case dr_bus dreq of
                    None \<Rightarrow> []
                  | Some bus \<Rightarrow>
                      (case bus_satisfied fo (bt_get (in_chips inp) ctrl) caps bus of
                         Inr matched \<Rightarrow> bus_constraints bus matched | Inl _ \<Rightarrow> []));
          tok = (if step_rate_declared fo (in_doc inp) \<and> kind = ''stepper_driver_socket''
                 then Option.bind (bt_get caps ''step'') timer_token else None);
          pin = (case Option.bind connector (\<lambda>(_, conn). bt_get (cn_pins conn) ''step'') of Some p \<Rightarrow> p | None \<Rightarrow> []) in
      \<lparr>pl_target = target, pl_kind = kind, pl_via = ''requires.connector ('' @ dr_reference dreq @ '')'',
       pl_candidates = candidates,
       pl_constraints =
         [''connector kind == '' @ kind, ''first free candidate in stable connector order'', ''exclusive ownership''] @
         (if dr_domains dreq = [] then [] else [''voltage domain in ['' @ join '', '' (dr_domains dreq) @ '']'']) @
         bus_texts @
         (case tok of None \<Rightarrow> [] | Some tok \<Rightarrow> [''step pin on free timer channel '' @ tok @ '' (max_step_rate)'']),
       pl_capabilities = caps, pl_path = path, pl_source = expanded_source (in_expanded_sources inp) path,
       pl_timer = map_option (\<lambda>tok. (before (CHR ''.'') target @ ''.'' @ tok, pin)) tok\<rparr>)"

definition search_placement ::
  "('f, 'z) text_float_ops_scheme \<Rightarrow> ('v \<Rightarrow> string option) \<Rightarrow> ('v, 'ver) AllocInputs \<Rightarrow> string \<Rightarrow> 'v Component \<Rightarrow>
     DeviceRequirement \<Rightarrow> string \<Rightarrow> AllocWork \<Rightarrow> Diagnostic + Placement" where
  "search_placement fo as_str inp cname cmp dreq kind w =
     and_then (search_controller as_str inp cname cmp kind) (\<lambda>ctrl.
     and_then (ok_or (bt_get (in_boards inp) ctrl)
         (diag_at (attribute_path cname ''controller'')
           (diag_error ''E1204'' (''component '' @ quoted cname @ '': unknown controller '' @ quoted ctrl))))
       (\<lambda>board.
     let candidates = search_candidates ctrl board kind in
     and_then (ok_or (List.find (eligible fo inp board dreq kind w) candidates)
         (diag_at (component_path cname)
           (diag_error ''E1205'' (''component '' @ quoted cname @ '': no free '' @ kind @ '' connector on ''
             @ quoted ctrl @ '' (considered: ''
             @ (if candidates = [] then ''none of that kind'' else join '', '' candidates) @ '')''))))
       (\<lambda>target.
     Inr (search_placed fo inp board dreq cname kind ctrl candidates target))))"

definition search_one ::
  "('f, 'z) text_float_ops_scheme \<Rightarrow> ('v \<Rightarrow> string option) \<Rightarrow> ('v, 'ver) AllocInputs \<Rightarrow> string \<times> 'v Component \<Rightarrow>
     AllocWork \<Rightarrow> AllocWork" where
  "search_one fo as_str inp = (\<lambda>(cname, cmp) w.
     if claims_explicitly as_str cmp then w
     else
       (case device_of inp cmp of
          None \<Rightarrow> w
        | Some dreq \<Rightarrow>
            (case dr_connector dreq of
               None \<Rightarrow> w
             | Some kind \<Rightarrow>
                 (case search_placement fo as_str inp cname cmp dreq kind w of
                    Inl d \<Rightarrow> push_diagnostic d w
                  | Inr p \<Rightarrow> commit cname p w))))"

definition search_pass ::
  "('f, 'z) text_float_ops_scheme \<Rightarrow> ('v \<Rightarrow> string option) \<Rightarrow> ('v, 'ver) AllocInputs \<Rightarrow> AllocWork \<Rightarrow> AllocWork" where
  "search_pass fo as_str inp w = fold (search_one fo as_str inp) (doc_components (in_doc inp)) w"

definition allocate ::
  "('f, 'z) text_float_ops_scheme \<Rightarrow> ('v \<Rightarrow> string option) \<Rightarrow> (string list \<Rightarrow> string) \<Rightarrow> ('v, 'ver) AllocInputs \<Rightarrow>
     Diagnostic list \<Rightarrow> Phase list \<Rightarrow> ResolvedGraph option \<times> Diagnostic list \<times> Phase list" where
  "allocate fo as_str debug inp diagnostics phases_run =
     (let w = search_pass fo as_str inp (explicit_pass fo as_str debug inp
            \<lparr>wk_diagnostics = diagnostics, wk_claims = bt_empty, wk_timer_claims = bt_empty, wk_assignments = bt_empty\<rparr>) in
      (if list_ex is_error (wk_diagnostics w) then None
       else Some \<lparr>rg_assignments = wk_assignments w, rg_controller_safety = bt_empty,
                  rg_controller_build_plans = bt_empty, rg_packages = in_closure_refs inp\<rparr>,
       wk_diagnostics w, phases_run @ [CapabilityMatching, ResourceAllocation]))"

end
