(* ===== verification/Allocated.thy ===== *)
theory Allocated
  imports Allocation "HOL-Library.Multiset"
begin

text \<open>
  What an allocation guarantees.  Both of its passes are sequences of two kinds of steps, on whose
  working state an invariant holds: every assignment is on a connector its component can use, no
  connector and no timer channel is given twice.  Then what each component gets.
\<close>

section \<open>The steps of an allocation\<close>

text \<open>
  Both passes go through the same two steps: refuse with an error, or place on a connector that nobody
  has, with a timer channel that nobody has.
\<close>

definition timer_key ::
  "('f, 'z) text_float_ops_scheme \<Rightarrow> ('v, 'ver) AllocInputs \<Rightarrow> string \<Rightarrow> string \<Rightarrow> capabilities \<Rightarrow> string option" where
  "timer_key fo inp kind ctrl caps =
     (if step_rate_declared fo (in_doc inp) \<and> kind = ''stepper_driver_socket''
      then map_option (\<lambda>tok. ctrl @ ''.'' @ tok) (Option.bind (bt_get caps ''step'') timer_token) else None)"

text \<open>A component demands a connector through a claiming attribute or through its device.\<close>

definition demanded ::
  "('v \<Rightarrow> string option) \<Rightarrow> ('v, 'ver) AllocInputs \<Rightarrow> 'v Component \<Rightarrow> string \<Rightarrow> string \<Rightarrow> Connector \<Rightarrow> bool" where
  "demanded as_str inp cmp via target connector \<longleftrightarrow>
     (if claims_explicitly as_str cmp
      then \<exists>v table_kind. (via, v) \<in> set (co_attributes cmp) \<and> as_str v = Some target \<and>
             claim_kind via = Some table_kind \<and> cn_kind connector = expected_kind inp cmp table_kind
      else \<exists>dreq. device_of inp cmp = Some dreq \<and> dr_connector dreq = Some (cn_kind connector) \<and>
             (dr_domains dreq = [] \<or> cn_voltage_domain connector \<in> Some ` set (dr_domains dreq)))"

definition bus_fits ::
  "('f, 'z) text_float_ops_scheme \<Rightarrow> 'ver ChipPackageFile option \<Rightarrow> capabilities \<Rightarrow> BusReq option \<Rightarrow> bool" where
  "bus_fits fo chip caps req \<longleftrightarrow> (case req of None \<Rightarrow> True | Some bus \<Rightarrow> is_ok (bus_satisfied fo chip caps bus))"

definition well_placed ::
  "('f, 'z) text_float_ops_scheme \<Rightarrow> ('v \<Rightarrow> string option) \<Rightarrow> ('v, 'ver) AllocInputs \<Rightarrow> Assignment \<Rightarrow> bool" where
  "well_placed fo as_str inp a \<longleftrightarrow>
     (\<exists>cmp ctrl port board connector.
        (as_requested_by a, cmp) \<in> set (doc_components (in_doc inp)) \<and>
        split_once (CHR ''.'') (as_resource a) = Some (ctrl, port) \<and>
        bt_get (in_boards inp) ctrl = Some board \<and> bt_get (bp_connectors board) port = Some connector \<and>
        as_connector_kind a = cn_kind connector \<and>
        as_pin_capabilities a = derive_pin_capabilities (bt_get (in_chips inp) ctrl) connector \<and>
        demanded as_str inp cmp (as_via a) (as_resource a) connector \<and>
        bus_fits fo (bt_get (in_chips inp) ctrl) (as_pin_capabilities a) (Option.bind (device_of inp cmp) dr_bus))"

definition timer_of ::
  "('f, 'z) text_float_ops_scheme \<Rightarrow> ('v, 'ver) AllocInputs \<Rightarrow> Assignment \<Rightarrow> string option" where
  "timer_of fo inp a =
     timer_key fo inp (as_connector_kind a) (before (CHR ''.'') (as_resource a)) (as_pin_capabilities a)"

inductive alloc_step ::
  "('f, 'z) text_float_ops_scheme \<Rightarrow> ('v \<Rightarrow> string option) \<Rightarrow> ('v, 'ver) AllocInputs \<Rightarrow> AllocWork \<Rightarrow> AllocWork \<Rightarrow> bool"
  for fo :: "('f, 'z) text_float_ops_scheme" and as_str :: "'v \<Rightarrow> string option" and inp :: "('v, 'ver) AllocInputs"
where
  refuse: "is_error d \<Longrightarrow> alloc_step fo as_str inp w (push_diagnostic d w)"
| place: "bt_get (wk_claims w) (pl_target p) = None \<Longrightarrow>
    map_option fst (pl_timer p) = timer_of fo inp (placed_assignment cname p) \<Longrightarrow>
    (\<forall>key\<in>set_option (timer_of fo inp (placed_assignment cname p)). bt_get (wk_timer_claims w) key = None) \<Longrightarrow>
    well_placed fo as_str inp (placed_assignment cname p) \<Longrightarrow>
    alloc_step fo as_str inp w (commit cname p w)"

inductive_cases alloc_stepE: "alloc_step fo as_str inp w w'"

definition all_assignments :: "AllocWork \<Rightarrow> Assignment list" where
  "all_assignments w = concat (bt_values (wk_assignments w))"

lemma mset_bt_values_insert:
  "bt_inv m \<Longrightarrow> mset (concat (bt_values (bt_insert k ((case bt_get m k of Some l \<Rightarrow> l | None \<Rightarrow> []) @ [x]) m))) =
     add_mset x (mset (concat (bt_values m)))"
proof (induction m)
  case (Cons e m)
  obtain a l where e: "e = (a, l)" by (cases e)
  have below: "bt_get m k = None" if "k < a"
    using Cons.prems that unfolding e bt_inv_Cons by (intro bt_get_below) auto
  show ?case
    using Cons below by (auto simp: e bt_values_def bt_inv_Cons)
qed (simp add: bt_values_def)

text \<open>What holds of the working state at every moment.\<close>

definition work_ok ::
  "('f, 'z) text_float_ops_scheme \<Rightarrow> ('v \<Rightarrow> string option) \<Rightarrow> ('v, 'ver) AllocInputs \<Rightarrow> AllocWork \<Rightarrow> bool" where
  "work_ok fo as_str inp w \<longleftrightarrow>
     bt_inv (wk_assignments w) \<and>
     (\<forall>(c, l)\<in>set (wk_assignments w). \<forall>a\<in>set l. as_requested_by a = c) \<and>
     (\<forall>a\<in>set (all_assignments w). well_placed fo as_str inp a \<and> bt_get (wk_claims w) (as_resource a) \<noteq> None \<and>
        (\<forall>key\<in>set_option (timer_of fo inp a). bt_get (wk_timer_claims w) key \<noteq> None)) \<and>
     distinct (map as_resource (all_assignments w)) \<and>
     distinct (List.map_filter (timer_of fo inp) (all_assignments w))"

lemma distinct_map_mset: "mset ys = add_mset x (mset xs) \<Longrightarrow> distinct (map f ys) \<longleftrightarrow> distinct (map f (x # xs))"
  by (intro mset_eq_imp_distinct_iff) simp

lemma distinct_map_filter_mset:
  assumes "mset ys = add_mset x (mset xs)"
  shows "distinct (List.map_filter f ys) \<longleftrightarrow> distinct (List.map_filter f (x # xs))"
proof (intro mset_eq_imp_distinct_iff)
  have "mset (filter (\<lambda>z. f z \<noteq> None) ys) = mset (filter (\<lambda>z. f z \<noteq> None) (x # xs))"
    using assms by (simp add: mset_filter)
  then show "mset (List.map_filter f ys) = mset (List.map_filter f (x # xs))"
    unfolding List.map_filter_def by (metis mset_map)
qed

lemma set_map_filter_iff: "y \<in> set (List.map_filter f xs) \<longleftrightarrow> (\<exists>x\<in>set xs. f x = Some y)"
  by (auto simp: List.map_filter_def image_iff)

lemma set_bt_insert_subset: "set (bt_insert k v m) \<subseteq> insert (k, v) (set m)"
  by (induction k v m rule: bt_insert.induct) auto

lemma mset_all_commit:
  "bt_inv (wk_assignments w) \<Longrightarrow>
     mset (all_assignments (commit cname p w)) = add_mset (placed_assignment cname p) (mset (all_assignments w))"
  by (simp add: all_assignments_def commit_def mset_bt_values_insert)

lemma commit_claims:
  "bt_get (wk_claims (commit cname p w)) t =
     (if t = pl_target p then Some \<lparr>rcl_component = cname, rcl_path = pl_path p, rcl_source = pl_source p\<rparr>
      else bt_get (wk_claims w) t)"
  by (simp add: commit_def bt_get_insert)

lemma commit_timers:
  "bt_get (wk_timer_claims (commit cname p w)) key \<noteq> None \<longleftrightarrow>
     key \<in> fst ` set_option (pl_timer p) \<or> bt_get (wk_timer_claims w) key \<noteq> None"
  by (auto simp: commit_def bt_get_insert split: option.splits)

lemma work_ok_commit:
  assumes ok: "work_ok fo as_str inp w"
    and free: "bt_get (wk_claims w) (pl_target p) = None"
    and key: "map_option fst (pl_timer p) = timer_of fo inp (placed_assignment cname p)"
    and timer: "\<forall>key\<in>set_option (timer_of fo inp (placed_assignment cname p)). bt_get (wk_timer_claims w) key = None"
    and good: "well_placed fo as_str inp (placed_assignment cname p)"
  shows "work_ok fo as_str inp (commit cname p w)"
proof -
  let ?a = "placed_assignment cname p" and ?w = "commit cname p w" and ?f = "timer_of fo inp"
  have inv: "bt_inv (wk_assignments w)" using ok by (simp add: work_ok_def)
  have old: "\<forall>a\<in>set (all_assignments w). well_placed fo as_str inp a \<and> bt_get (wk_claims w) (as_resource a) \<noteq> None \<and>
        (\<forall>key\<in>set_option (?f a). bt_get (wk_timer_claims w) key \<noteq> None)"
    and dist: "distinct (map as_resource (all_assignments w))" "distinct (List.map_filter ?f (all_assignments w))"
    using ok unfolding work_ok_def by blast+
  note m = mset_all_commit [OF inv, of cname p]
  have all: "set (all_assignments ?w) = insert ?a (set (all_assignments w))"
    using m by (metis set_mset_add_mset_insert set_mset_mset)
  have res: "as_resource ?a = pl_target p" "as_requested_by ?a = cname" by (simp_all add: placed_assignment_def)
  have tkey: "fst ` set_option (pl_timer p) = set_option (?f ?a)"
    unfolding key [symmetric] by (cases "pl_timer p") simp_all
  have 1: "bt_inv (wk_assignments ?w)"
    using inv by (simp add: commit_def bt_inv_insert)
  have 2: "\<forall>(c, l)\<in>set (wk_assignments ?w). \<forall>a\<in>set l. as_requested_by a = c"
  proof -
    obtain old where old: "(case bt_get (wk_assignments w) cname of Some l \<Rightarrow> l | None \<Rightarrow> []) = old" by blast
    have prev: "as_requested_by a = c" if "(c, l) \<in> set (wk_assignments w)" "a \<in> set l" for c l a
      using ok that unfolding work_ok_def by blast
    have sub: "set (wk_assignments ?w) \<subseteq> insert (cname, old @ [?a]) (set (wk_assignments w))"
      using set_bt_insert_subset by (simp add: commit_def old)
    have l: "as_requested_by a = cname" if "a \<in> set old" for a
      using that prev bt_get_Some_in [of "wk_assignments w" cname] old by (cases "bt_get (wk_assignments w) cname") auto
    show ?thesis
    proof safe
      fix c l a assume "(c, l) \<in> set (wk_assignments ?w)" "a \<in> set l"
      then consider "(c, l) = (cname, old @ [?a])" "a \<in> set l" | "(c, l) \<in> set (wk_assignments w)" "a \<in> set l"
        using sub by blast
      then show "as_requested_by a = c" using prev l res(2) by cases (simp, auto)
    qed
  qed
  have 3: "\<forall>a\<in>set (all_assignments ?w). well_placed fo as_str inp a \<and> bt_get (wk_claims ?w) (as_resource a) \<noteq> None \<and>
        (\<forall>key\<in>set_option (?f a). bt_get (wk_timer_claims ?w) key \<noteq> None)"
  proof
    fix a assume "a \<in> set (all_assignments ?w)"
    then consider "a = ?a" | "a \<in> set (all_assignments w)" using all by blast
    then show "well_placed fo as_str inp a \<and> bt_get (wk_claims ?w) (as_resource a) \<noteq> None \<and>
        (\<forall>key\<in>set_option (?f a). bt_get (wk_timer_claims ?w) key \<noteq> None)"
    proof cases
      case 1
      have "\<forall>key\<in>set_option (?f ?a). bt_get (wk_timer_claims ?w) key \<noteq> None"
        unfolding commit_timers tkey by blast
      then show ?thesis using good res(1) 1 by (simp add: commit_claims)
    next
      case 2
      with old have "well_placed fo as_str inp a" "bt_get (wk_claims w) (as_resource a) \<noteq> None"
        "\<forall>key\<in>set_option (?f a). bt_get (wk_timer_claims w) key \<noteq> None" by blast+
      then show ?thesis unfolding commit_timers by (simp add: commit_claims)
    qed
  qed
  have "as_resource ?a \<notin> as_resource ` set (all_assignments w)"
    using old free res(1) by fastforce
  then have 4: "distinct (map as_resource (all_assignments ?w))"
    using distinct_map_mset [OF m, of as_resource] dist by simp
  have "\<forall>key\<in>set_option (?f ?a). key \<notin> set (List.map_filter ?f (all_assignments w))"
    using old timer unfolding set_map_filter_iff by (metis option.set_intros)
  then have 5: "distinct (List.map_filter ?f (all_assignments ?w))"
    using distinct_map_filter_mset [OF m, of ?f] dist by (simp add: map_filter_simps split: option.split)
  show ?thesis unfolding work_ok_def using 1 2 3 4 5 by blast
qed

lemma work_ok_step: "alloc_step fo as_str inp w w' \<Longrightarrow> work_ok fo as_str inp w \<Longrightarrow> work_ok fo as_str inp w'"
proof (induction rule: alloc_step.induct)
  case (refuse d w)
  then show ?case by (simp add: work_ok_def push_diagnostic_def all_assignments_def)
next
  case (place w p cname)
  then show ?case by (intro work_ok_commit)
qed

abbreviation alloc_steps ::
  "('f, 'z) text_float_ops_scheme \<Rightarrow> ('v \<Rightarrow> string option) \<Rightarrow> ('v, 'ver) AllocInputs \<Rightarrow> AllocWork \<Rightarrow> AllocWork \<Rightarrow> bool"
  where "alloc_steps fo as_str inp \<equiv> (alloc_step fo as_str inp)\<^sup>*\<^sup>*"

lemma work_ok_steps: "alloc_steps fo as_str inp w w' \<Longrightarrow> work_ok fo as_str inp w \<Longrightarrow> work_ok fo as_str inp w'"
  by (induction rule: rtranclp_induct) (blast intro: work_ok_step)+

lemma fold_steps: "(\<And>x w. x \<in> set xs \<Longrightarrow> R\<^sup>*\<^sup>* w (g x w)) \<Longrightarrow> R\<^sup>*\<^sup>* w (fold g xs w)"
  by (induction xs arbitrary: w) (auto intro: rtranclp_trans)

section \<open>The passes are such steps\<close>

lemma claim_conflict_error [simp]: "is_error (claim_conflict c t ctrl k b prev p s w)"
  by (simp add: claim_conflict_def Let_def)

lemma explicit_timer_result:
  "case explicit_timer cname target ctrl connector caps claim_path claim_source w of
     Inl d \<Rightarrow> is_error d
   | Inr (timer, _) \<Rightarrow>
       map_option fst timer = map_option (\<lambda>tok. ctrl @ ''.'' @ tok) (Option.bind (bt_get caps ''step'') timer_token) \<and>
       (\<forall>key\<in>fst ` set_option timer. bt_get (wk_timer_claims w) key = None)"
  by (simp add: explicit_timer_def Let_def split: option.split)

lemma explicit_placement_Inl:
  assumes "explicit_placement fo debug inp cname cmp attr table_kind target w = Inl d"
  shows "is_error d"
proof -
  have "is_error d" if "explicit_timer cname target ctrl connector caps claim_path claim_source w = Inl d"
    for ctrl connector caps claim_path claim_source
    using that explicit_timer_result [where cname = cname and target = target and ctrl = ctrl and connector = connector
        and caps = caps and claim_path = claim_path and claim_source = claim_source and w = w] by simp
  then show ?thesis
    using assms unfolding explicit_placement_def Let_def
    by (auto simp: and_then_def ok_or_def split: option.splits sum.splits if_splits prod.splits)
qed

lemma explicit_placement_Inr:
  assumes "explicit_placement fo debug inp cname cmp attr table_kind target w = Inr p"
  obtains ctrl port board connector where
    "split_once (CHR ''.'') target = Some (ctrl, port)" "bt_get (in_boards inp) ctrl = Some board"
    "bt_get (bp_connectors board) port = Some connector" "cn_kind connector = expected_kind inp cmp table_kind"
    "bt_get (wk_claims w) target = None"
    "pl_target p = target" "pl_kind p = cn_kind connector" "pl_via p = attr"
    "pl_capabilities p = derive_pin_capabilities (bt_get (in_chips inp) ctrl) connector"
    "bus_fits fo (bt_get (in_chips inp) ctrl) (pl_capabilities p) (Option.bind (device_of inp cmp) dr_bus)"
    "map_option fst (pl_timer p) = timer_key fo inp (cn_kind connector) ctrl (pl_capabilities p)"
    "\<forall>key\<in>fst ` set_option (pl_timer p). bt_get (wk_timer_claims w) key = None"
proof -
  obtain ctrl port where s: "split_once (CHR ''.'') target = Some (ctrl, port)"
    using assms by (auto simp: explicit_placement_def Let_def split: option.splits)
  obtain board where b: "bt_get (in_boards inp) ctrl = Some board"
    using assms s by (auto simp: explicit_placement_def Let_def ok_or_def and_then_def split: option.splits)
  obtain connector where c: "bt_get (bp_connectors board) port = Some connector"
    using assms s b by (auto simp: explicit_placement_def Let_def ok_or_def and_then_def split: option.splits)
  have k: "cn_kind connector = expected_kind inp cmp table_kind"
    using assms s b c by (auto simp: explicit_placement_def Let_def split: if_splits)
  have n: "bt_get (wk_claims w) target = None"
    using assms s b c k by (auto simp: explicit_placement_def Let_def split: option.splits)
  let ?caps = "derive_pin_capabilities (bt_get (in_chips inp) ctrl) connector"
  let ?timer = "if step_rate_declared fo (in_doc inp) \<and> cn_kind connector = ''stepper_driver_socket''
     then explicit_timer cname target ctrl connector ?caps (attribute_path cname attr)
        (expanded_source (in_expanded_sources inp) (attribute_path cname attr)) w
     else Inr (None, [])"
  have bus: "bus_fits fo (bt_get (in_chips inp) ctrl) ?caps (Option.bind (device_of inp cmp) dr_bus)"
    using assms s b c k n
    by (auto simp: bus_fits_def explicit_placement_def Let_def split: option.splits sum.splits)
  obtain timer texts where t: "?timer = Inr (timer, texts)"
    and p: "pl_target p = target" "pl_kind p = cn_kind connector" "pl_via p = attr" "pl_capabilities p = ?caps"
      "pl_timer p = timer"
    using assms s b c k n
    by (auto simp: explicit_placement_def Let_def and_then_def split: option.splits sum.splits if_splits)
  have "map_option fst timer = timer_key fo inp (cn_kind connector) ctrl ?caps \<and>
      (\<forall>key\<in>fst ` set_option timer. bt_get (wk_timer_claims w) key = None)"
    using t explicit_timer_result [where cname = cname and target = target and ctrl = ctrl and connector = connector
        and caps = ?caps and claim_path = "attribute_path cname attr" and w = w
        and claim_source = "expanded_source (in_expanded_sources inp) (attribute_path cname attr)"]
    by (auto simp: timer_key_def split: if_splits)
  then show thesis
    using that [OF s b c k n p(1-4)] bus unfolding p(4,5) by blast
qed

lemma explicit_step:
  assumes cmp: "(cname, cmp) \<in> set (doc_components (in_doc inp))" and av: "(attr, val) \<in> set (co_attributes cmp)"
  shows "alloc_steps fo as_str inp w (explicit_claim fo as_str debug inp cname cmp (attr, val) w)"
proof (cases "as_str val = None \<or> claim_kind attr = None")
  case True
  then show ?thesis by (auto simp: explicit_claim_def split: option.split)
next
  case False
  then obtain target table_kind where t: "as_str val = Some target" "claim_kind attr = Some table_kind" by auto
  have explicit: "claims_explicitly as_str cmp"
    using av t by (auto simp: claims_explicitly_def list_ex_iff)
  let ?r = "explicit_placement fo debug inp cname cmp attr table_kind target w"
  have "alloc_step fo as_str inp w (case ?r of Inl d \<Rightarrow> push_diagnostic d w | Inr p \<Rightarrow> commit cname p w)"
  proof (cases ?r)
    case (Inl d)
    then show ?thesis using explicit_placement_Inl [OF Inl] by (simp add: refuse)
  next
    case (Inr p)
    from explicit_placement_Inr [OF Inr] obtain ctrl port board connector where r:
      "split_once (CHR ''.'') target = Some (ctrl, port)" "bt_get (in_boards inp) ctrl = Some board"
      "bt_get (bp_connectors board) port = Some connector" "cn_kind connector = expected_kind inp cmp table_kind"
      "bt_get (wk_claims w) target = None"
      "pl_target p = target" "pl_kind p = cn_kind connector" "pl_via p = attr"
      "pl_capabilities p = derive_pin_capabilities (bt_get (in_chips inp) ctrl) connector"
      "bus_fits fo (bt_get (in_chips inp) ctrl) (pl_capabilities p) (Option.bind (device_of inp cmp) dr_bus)"
      "map_option fst (pl_timer p) = timer_key fo inp (cn_kind connector) ctrl (pl_capabilities p)"
      "\<forall>key\<in>fst ` set_option (pl_timer p). bt_get (wk_timer_claims w) key = None" .
    have key: "map_option fst (pl_timer p) = timer_of fo inp (placed_assignment cname p)"
      using r(1,6,7,11) by (simp add: timer_of_def placed_assignment_def before_def)
    have timer: "\<forall>key\<in>set_option (timer_of fo inp (placed_assignment cname p)). bt_get (wk_timer_claims w) key = None"
      using r(12) unfolding key [symmetric] by (simp add: option.set_map)
    have demand: "demanded as_str inp cmp attr target connector"
      using explicit av t r(4) unfolding demanded_def by auto
    have "well_placed fo as_str inp (placed_assignment cname p)"
      unfolding well_placed_def placed_assignment_def
      using cmp r(1-3,6-10) demand by (auto intro!: exI [of _ cmp] exI [of _ board] exI [of _ connector])
    then show ?thesis using place [OF _ key timer] r(5,6) Inr by simp
  qed
  then show ?thesis using t by (auto simp: explicit_claim_def)
qed

lemma explicit_pass_steps: "alloc_steps fo as_str inp w (explicit_pass fo as_str debug inp w)"
  unfolding explicit_pass_def by (intro fold_steps) (auto intro!: fold_steps explicit_step)

text \<open>What the parsers ensure: maps have ordered keys, and names of controllers have no dot.\<close>

definition boards_ok :: "('v, 'ver) AllocInputs \<Rightarrow> bool" where
  "boards_ok inp \<longleftrightarrow>
     (\<forall>(ctrl, board)\<in>set (in_boards inp). CHR ''.'' \<notin> set ctrl \<and> bt_inv (bp_connectors board))"

lemma find_SomeD: "List.find P xs = Some x \<Longrightarrow> x \<in> set xs \<and> P x"
  by (auto simp: find_Some_iff)

lemma search_candidate:
  assumes ok: "boards_ok inp" and board: "bt_get (in_boards inp) ctrl = Some board"
    and t: "target \<in> set (search_candidates ctrl board kind)"
  obtains port connector where "split_once (CHR ''.'') target = Some (ctrl, port)"
    "bt_get (bp_connectors board) port = Some connector" "cn_kind connector = kind"
    "candidate_connector board target = Some (ctrl, connector)"
proof -
  have b: "CHR ''.'' \<notin> set ctrl" "bt_inv (bp_connectors board)"
    using ok bt_get_Some_in [OF board] by (auto simp: boards_ok_def)
  obtain port connector where p: "target = ctrl @ ''.'' @ port" "(port, connector) \<in> set (bp_connectors board)"
    "cn_kind connector = kind"
    using t by (auto simp: search_candidates_def)
  have "split_once (CHR ''.'') target = Some (ctrl, port)" using p(1) b(1) by simp
  moreover have "bt_get (bp_connectors board) port = Some connector"
    using bt.get_iff [OF b(2)] p(2) by blast
  ultimately show thesis using that p(3) by (simp add: candidate_connector_def)
qed

lemma search_placement_Inl: "search_placement fo as_str inp cname cmp dreq kind w = Inl e \<Longrightarrow> is_error e"
  by (auto simp: search_placement_def search_controller_def Let_def and_then_def ok_or_def
      split: option.splits sum.splits if_splits)

lemma search_placement_Inr:
  assumes ok: "boards_ok inp" and pl: "search_placement fo as_str inp cname cmp dreq kind w = Inr p"
  obtains ctrl port board connector where
    "split_once (CHR ''.'') (pl_target p) = Some (ctrl, port)" "bt_get (in_boards inp) ctrl = Some board"
    "bt_get (bp_connectors board) port = Some connector" "cn_kind connector = kind"
    "List.find (eligible fo inp board dreq kind w) (search_candidates ctrl board kind) = Some (pl_target p)"
    "pl_kind p = kind" "pl_via p = ''requires.connector ('' @ dr_reference dreq @ '')''"
    "pl_capabilities p = derive_pin_capabilities (bt_get (in_chips inp) ctrl) connector"
    "candidate_connector board (pl_target p) = Some (ctrl, connector)"
    "map_option fst (pl_timer p) = timer_key fo inp kind ctrl (pl_capabilities p)"
proof -
  obtain ctrl board target where r: "bt_get (in_boards inp) ctrl = Some board"
    "List.find (eligible fo inp board dreq kind w) (search_candidates ctrl board kind) = Some target"
    "p = search_placed fo inp board dreq cname kind ctrl (search_candidates ctrl board kind) target"
    using pl by (auto simp: search_placement_def Let_def result_simps)
  obtain port connector where c: "split_once (CHR ''.'') target = Some (ctrl, port)"
    "bt_get (bp_connectors board) port = Some connector" "cn_kind connector = kind"
    "candidate_connector board target = Some (ctrl, connector)"
    using search_candidate [OF ok r(1)] find_SomeD [OF r(2)] by blast
  have p: "pl_target p = target" "pl_kind p = kind" "pl_via p = ''requires.connector ('' @ dr_reference dreq @ '')''"
    "pl_capabilities p = derive_pin_capabilities (bt_get (in_chips inp) ctrl) connector"
    unfolding r(3) search_placed_def Let_def using c(4) by simp_all
  have "map_option fst (pl_timer p) = timer_key fo inp kind ctrl (pl_capabilities p)"
    unfolding r(3) search_placed_def Let_def timer_key_def using c(1,4)
    by (simp add: before_def option.map_comp comp_def)
  then show thesis using that c r(1,2) p by simp
qed

lemma search_step:
  assumes cmp: "(cname, cmp) \<in> set (doc_components (in_doc inp))" and ok: "boards_ok inp"
  shows "alloc_steps fo as_str inp w (search_one fo as_str inp (cname, cmp) w)"
proof (cases "claims_explicitly as_str cmp \<or> Option.bind (device_of inp cmp) dr_connector = None")
  case True
  then show ?thesis by (auto simp: search_one_def split: option.split)
next
  case False
  then obtain dreq kind where d: "\<not> claims_explicitly as_str cmp" "device_of inp cmp = Some dreq"
    "dr_connector dreq = Some kind" by (auto simp: bind_eq_Some_conv)
  let ?r = "search_placement fo as_str inp cname cmp dreq kind w"
  have "alloc_step fo as_str inp w (case ?r of Inl d \<Rightarrow> push_diagnostic d w | Inr p \<Rightarrow> commit cname p w)"
  proof (cases ?r)
    case (Inl e)
    then show ?thesis using search_placement_Inl [OF Inl] by (simp add: refuse)
  next
    case (Inr p)
    from search_placement_Inr [OF ok Inr] obtain ctrl port board connector where r:
      "split_once (CHR ''.'') (pl_target p) = Some (ctrl, port)" "bt_get (in_boards inp) ctrl = Some board"
      "bt_get (bp_connectors board) port = Some connector" "cn_kind connector = kind"
      "List.find (eligible fo inp board dreq kind w) (search_candidates ctrl board kind) = Some (pl_target p)"
      "pl_kind p = kind" "pl_via p = ''requires.connector ('' @ dr_reference dreq @ '')''"
      "pl_capabilities p = derive_pin_capabilities (bt_get (in_chips inp) ctrl) connector"
      "candidate_connector board (pl_target p) = Some (ctrl, connector)"
      "map_option fst (pl_timer p) = timer_key fo inp kind ctrl (pl_capabilities p)" .
    have e: "eligible fo inp board dreq kind w (pl_target p)" using find_SomeD [OF r(5)] by blast
    have key: "map_option fst (pl_timer p) = timer_of fo inp (placed_assignment cname p)"
      using r(1,6,10) by (simp add: timer_of_def placed_assignment_def before_def)
    have timer: "\<forall>key\<in>set_option (timer_of fo inp (placed_assignment cname p)). bt_get (wk_timer_claims w) key = None"
      using e r(9) unfolding key [symmetric] r(10) timer_key_def
      by (auto simp: eligible_def timing_ok_def r(8) bind_eq_Some_conv split: if_splits)
    have demand: "demanded as_str inp cmp (pl_via p) (pl_target p) connector"
      using e r(4,9) d unfolding demanded_def eligible_def domain_ok_def by (auto split: option.splits)
    have bus: "bus_fits fo (bt_get (in_chips inp) ctrl) (pl_capabilities p) (Option.bind (device_of inp cmp) dr_bus)"
      using e r(8,9) d(2) by (auto simp: bus_fits_def eligible_def bus_ok_def split: option.splits)
    have "well_placed fo as_str inp (placed_assignment cname p)"
      unfolding well_placed_def placed_assignment_def
      using cmp r(1-4,6-8) demand bus by (auto intro!: exI [of _ cmp] exI [of _ board] exI [of _ connector])
    then show ?thesis using place [OF _ key timer] e Inr by (simp add: eligible_def)
  qed
  then show ?thesis using d by (simp add: search_one_def)
qed

lemma search_pass_steps: "boards_ok inp \<Longrightarrow> alloc_steps fo as_str inp w (search_pass fo as_str inp w)"
  unfolding search_pass_def by (intro fold_steps) (auto intro!: search_step)

lemma work_ok_start:
  "work_ok fo as_str inp \<lparr>wk_diagnostics = ds, wk_claims = bt_empty, wk_timer_claims = bt_empty, wk_assignments = bt_empty\<rparr>"
  by (simp add: work_ok_def all_assignments_def bt_empty_def bt_values_def bt_inv_def map_filter_simps)

lemma allocate_work_ok:
  assumes "boards_ok inp" "allocate fo as_str debug inp ds ps = (Some g, r)"
  obtains w where "work_ok fo as_str inp w" "rg_assignments g = wk_assignments w"
proof -
  let ?w0 = "\<lparr>wk_diagnostics = ds, wk_claims = bt_empty, wk_timer_claims = bt_empty, wk_assignments = bt_empty\<rparr>"
  let ?w = "search_pass fo as_str inp (explicit_pass fo as_str debug inp ?w0)"
  have "work_ok fo as_str inp ?w"
    using work_ok_steps [OF search_pass_steps [OF assms(1)] work_ok_steps [OF explicit_pass_steps work_ok_start]] .
  moreover have "rg_assignments g = wk_assignments ?w"
    using assms(2) by (auto simp: allocate_def Let_def split: if_splits)
  ultimately show thesis by (rule that)
qed

section \<open>What each component gets\<close>

text \<open>The connectors of a component, each with the attribute or requirement it came from.\<close>

definition given :: "(string, Assignment list) btree \<Rightarrow> string \<Rightarrow> (string \<times> string) list" where
  "given assignments c =
     (case bt_get assignments c of None \<Rightarrow> [] | Some l \<Rightarrow> map (\<lambda>a. (as_via a, as_resource a)) l)"

definition claim_of :: "('v \<Rightarrow> string option) \<Rightarrow> string \<times> 'v \<Rightarrow> (string \<times> string) option" where
  "claim_of as_str = (\<lambda>(attr, v). if claim_kind attr = None then None else map_option (Pair attr) (as_str v))"

definition claims_of :: "('v \<Rightarrow> string option) \<Rightarrow> 'v Component \<Rightarrow> (string \<times> string) list" where
  "claims_of as_str cmp = List.map_filter (claim_of as_str) (co_attributes cmp)"

definition no_error :: "AllocWork \<Rightarrow> bool" where
  "no_error w \<longleftrightarrow> \<not> list_ex is_error (wk_diagnostics w)"

lemma given_commit:
  "given (wk_assignments (commit cname p w)) c =
     given (wk_assignments w) c @ (if c = cname then [(pl_via p, pl_target p)] else [])"
  by (auto simp: given_def commit_def bt_get_insert placed_assignment_def split: option.split)

lemma no_error_simps [simp]:
  "no_error (push_diagnostic d w) \<longleftrightarrow> no_error w \<and> \<not> is_error d" "no_error (commit cname p w) = no_error w"
  by (auto simp: no_error_def push_diagnostic_def commit_def)

lemma given_push [simp]: "given (wk_assignments (push_diagnostic d w)) c = given (wk_assignments w) c"
  by (simp add: push_diagnostic_def)

lemma explicit_claim_gives:
  assumes "no_error (explicit_claim fo as_str debug inp cname cmp av w)"
  shows "no_error w \<and>
    given (wk_assignments (explicit_claim fo as_str debug inp cname cmp av w)) c =
      given (wk_assignments w) c @ (if c = cname then List.map_filter (claim_of as_str) [av] else [])"
proof (cases "claim_of as_str av")
  case None
  then show ?thesis
    using assms by (cases av) (auto simp: explicit_claim_def claim_of_def map_filter_simps split: option.splits if_splits)
next
  case (Some r)
  then obtain attr val target table_kind where av: "av = (attr, val)" "as_str val = Some target"
    "claim_kind attr = Some table_kind" "r = (attr, target)"
    by (cases av) (auto simp: claim_of_def split: if_splits)
  show ?thesis
  proof (cases "explicit_placement fo debug inp cname cmp attr table_kind target w")
    case (Inl d)
    then show ?thesis using assms explicit_placement_Inl [OF Inl] av by (simp add: explicit_claim_def)
  next
    case (Inr p)
    have "pl_target p = target \<and> pl_via p = attr" by (rule explicit_placement_Inr [OF Inr]) blast
    then show ?thesis using assms Inr av Some by (simp add: explicit_claim_def given_commit map_filter_simps)
  qed
qed

text \<open>A fold whose steps append to a view, while nothing is wrong.\<close>

lemma fold_gives:
  assumes "\<And>x w. x \<in> set xs \<Longrightarrow> P (g x w) \<Longrightarrow> P w \<and> view (g x w) = view w @ h x"
    and "P (fold g xs w)"
  shows "P w \<and> view (fold g xs w) = view w @ concat (map h xs)"
  using assms
proof (induction xs arbitrary: w)
  case (Cons x xs)
  have tail: "P (g x w) \<and> view (fold g xs (g x w)) = view (g x w) @ concat (map h xs)"
  proof (rule Cons.IH)
    show "P v \<and> view (g y v) = view v @ h y" if "y \<in> set xs" "P (g y v)" for y v
      using that by (intro Cons.prems(1)) simp_all
    show "P (fold g xs (g x w))" using Cons.prems(2) by simp
  qed
  have "P w \<and> view (g x w) = view w @ h x"
    using tail by (intro Cons.prems(1)) simp_all
  then show ?case using tail by simp
qed simp

lemma map_filter_concat: "List.map_filter f xs = concat (map (\<lambda>x. List.map_filter f [x]) xs)"
  by (induction xs) (auto simp: map_filter_simps split: option.split)

lemma explicit_attributes_give:
  assumes "no_error (fold (explicit_claim fo as_str debug inp cname cmp) avs w)"
  shows "no_error w \<and>
    given (wk_assignments (fold (explicit_claim fo as_str debug inp cname cmp) avs w)) c =
      given (wk_assignments w) c @ (if c = cname then List.map_filter (claim_of as_str) avs else [])"
proof -
  have "no_error w \<and>
    given (wk_assignments (fold (explicit_claim fo as_str debug inp cname cmp) avs w)) c =
      given (wk_assignments w) c @ concat (map (\<lambda>av. if c = cname then List.map_filter (claim_of as_str) [av] else []) avs)"
    using explicit_claim_gives assms by (rule fold_gives [where view = "\<lambda>w. given (wk_assignments w) c"])
  then show ?thesis
    by (cases "c = cname") (simp_all add: map_filter_concat [of _ avs] concat_eq_Nil_conv)
qed

lemma concat_lookup:
  assumes "bt_inv m"
  shows "concat (map (\<lambda>(k, v). if c = k then h v else []) m) = (case bt_get m c of None \<Rightarrow> [] | Some v \<Rightarrow> h v)"
  using assms
proof (induction m)
  case (Cons e m)
  have below: "bt_get m (fst e) = None"
    using Cons.prems by (intro bt_get_below) (cases e, auto simp: bt_inv_Cons)
  show ?case
    using Cons below by (cases e) (auto simp: bt_inv_Cons)
qed simp

lemma explicit_pass_gives:
  assumes "bt_inv (doc_components (in_doc inp))" "no_error (explicit_pass fo as_str debug inp w)"
  shows "no_error w \<and> given (wk_assignments (explicit_pass fo as_str debug inp w)) c =
    given (wk_assignments w) c @
      (case bt_get (doc_components (in_doc inp)) c of None \<Rightarrow> [] | Some cmp \<Rightarrow> claims_of as_str cmp)"
proof -
  have "no_error w \<and> given (wk_assignments (explicit_pass fo as_str debug inp w)) c =
    given (wk_assignments w) c @ concat (map (\<lambda>(k, cmp). if c = k then claims_of as_str cmp else [])
      (doc_components (in_doc inp)))"
    using assms(2) unfolding explicit_pass_def
    by (intro fold_gives [where view = "\<lambda>w. given (wk_assignments w) c" and P = no_error])
      (auto simp: claims_of_def dest: explicit_attributes_give [where c = c])
  then show ?thesis unfolding concat_lookup [OF assms(1)] .
qed

definition search_via :: "('v \<Rightarrow> string option) \<Rightarrow> ('v, 'ver) AllocInputs \<Rightarrow> 'v Component \<Rightarrow> string list" where
  "search_via as_str inp cmp =
     (if claims_explicitly as_str cmp then []
      else
        (case device_of inp cmp of
           None \<Rightarrow> []
         | Some dreq \<Rightarrow>
             if dr_connector dreq = None then [] else [''requires.connector ('' @ dr_reference dreq @ '')'']))"

lemma search_one_gives:
  assumes "boards_ok inp" "no_error (search_one fo as_str inp (cname, cmp) w)"
  shows "no_error w" "c \<noteq> cname \<or> search_via as_str inp cmp = [] \<Longrightarrow>
      given (wk_assignments (search_one fo as_str inp (cname, cmp) w)) c = given (wk_assignments w) c"
    and "map fst (given (wk_assignments (search_one fo as_str inp (cname, cmp) w)) c) =
      map fst (given (wk_assignments w) c) @ (if c = cname then search_via as_str inp cmp else [])"
proof -
  have "no_error w \<and> (c \<noteq> cname \<or> search_via as_str inp cmp = [] \<longrightarrow>
      given (wk_assignments (search_one fo as_str inp (cname, cmp) w)) c = given (wk_assignments w) c) \<and>
    map fst (given (wk_assignments (search_one fo as_str inp (cname, cmp) w)) c) =
      map fst (given (wk_assignments w) c) @ (if c = cname then search_via as_str inp cmp else [])"
  proof (cases "claims_explicitly as_str cmp \<or> Option.bind (device_of inp cmp) dr_connector = None")
    case True
    then show ?thesis using assms by (auto simp: search_one_def search_via_def split: option.splits)
  next
    case False
    then obtain dreq kind where d: "\<not> claims_explicitly as_str cmp" "device_of inp cmp = Some dreq"
      "dr_connector dreq = Some kind" by (auto simp: bind_eq_Some_conv)
    show ?thesis
    proof (cases "search_placement fo as_str inp cname cmp dreq kind w")
      case (Inl e)
      then show ?thesis using assms(2) search_placement_Inl [OF Inl] d by (simp add: search_one_def)
    next
      case (Inr p)
      have "pl_via p = ''requires.connector ('' @ dr_reference dreq @ '')''"
        by (rule search_placement_Inr [OF assms(1) Inr])
      then show ?thesis using assms(2) Inr d by (simp add: search_one_def search_via_def given_commit)
    qed
  qed
  then show "no_error w" "c \<noteq> cname \<or> search_via as_str inp cmp = [] \<Longrightarrow>
      given (wk_assignments (search_one fo as_str inp (cname, cmp) w)) c = given (wk_assignments w) c"
    "map fst (given (wk_assignments (search_one fo as_str inp (cname, cmp) w)) c) =
      map fst (given (wk_assignments w) c) @ (if c = cname then search_via as_str inp cmp else [])" by blast+
qed

lemma search_pass_gives:
  assumes ok: "boards_ok inp" "bt_inv (doc_components (in_doc inp))" and fine: "no_error (search_pass fo as_str inp w)"
    and c: "bt_get (doc_components (in_doc inp)) c = Some cmp"
  shows "no_error w"
    and "search_via as_str inp cmp = [] \<Longrightarrow>
      given (wk_assignments (search_pass fo as_str inp w)) c = given (wk_assignments w) c"
    and "map fst (given (wk_assignments (search_pass fo as_str inp w)) c) =
      map fst (given (wk_assignments w) c) @ search_via as_str inp cmp"
proof -
  have via: "no_error w \<and> map fst (given (wk_assignments (search_pass fo as_str inp w)) c) =
    map fst (given (wk_assignments w) c) @
      concat (map (\<lambda>(k, cmp). if c = k then search_via as_str inp cmp else []) (doc_components (in_doc inp)))"
    using fine unfolding search_pass_def
    by (intro fold_gives [where view = "\<lambda>w. map fst (given (wk_assignments w) c)" and P = no_error])
      (auto simp: search_one_gives [OF ok(1)])
  then show "no_error w" "map fst (given (wk_assignments (search_pass fo as_str inp w)) c) =
      map fst (given (wk_assignments w) c) @ search_via as_str inp cmp"
    unfolding concat_lookup [OF ok(2)] c by simp_all
  assume none: "search_via as_str inp cmp = []"
  have same: "cmp' = cmp" if "(c, cmp') \<in> set (doc_components (in_doc inp))" for cmp'
    using that c bt.get_iff [OF ok(2)] by (metis option.inject)
  have "no_error w \<and> given (wk_assignments (search_pass fo as_str inp w)) c =
    given (wk_assignments w) c @ concat (map (\<lambda>_. []) (doc_components (in_doc inp)))"
    using fine unfolding search_pass_def
    by (intro fold_gives [where view = "\<lambda>w. given (wk_assignments w) c" and P = no_error])
      (use same none in \<open>auto simp: search_one_gives(1) [OF ok(1)] intro!: search_one_gives(2) [OF ok(1)]\<close>)
  then show "given (wk_assignments (search_pass fo as_str inp w)) c = given (wk_assignments w) c" by simp
qed

section \<open>A machine\<close>

text \<open>One board with two stepper sockets and a power output, a claimed socket, and a heater to be placed.\<close>

definition demo_connector :: "string \<Rightarrow> (string, string) btree \<Rightarrow> string option \<Rightarrow> Connector" where
  "demo_connector kind pins domain =
     \<lparr>cn_kind = kind, cn_pins = pins, cn_pin = None, cn_voltage_domain = domain, cn_max_current = Some ''5'',
      cn_supply = None, cn_pullup = None\<rparr>"

definition demo_identity :: "PackageKind \<Rightarrow> unit PackageIdentity" where
  "demo_identity kind = \<lparr>pi_namespace = ''n'', pi_name = ''p'', pi_version = (), pi_kind = kind\<rparr>"

definition demo_board :: "unit BoardPackageFile" where
  "demo_board =
     \<lparr>bp_package = demo_identity Board, bp_chip = None, bp_hardware = None,
      bp_connectors = [(''h0'', demo_connector ''power_output'' [] (Some ''v24'')),
        (''m0'', demo_connector ''stepper_driver_socket'' [(''step'', ''pa0'')] None),
        (''m1'', demo_connector ''stepper_driver_socket'' [(''step'', ''pa1'')] None)],
      bp_transports = [], bp_flash = None\<rparr>"

definition demo_chip :: "unit ChipPackageFile" where
  "demo_chip =
     \<lparr>cp_package = demo_identity Chip, cp_memory = None, cp_boot = None, cp_firmware = None,
      cp_peripherals = \<lparr>pe_timers = [], pe_spi = [], pe_i2c = [], pe_uart = [], pe_adc = [], pe_dma = []\<rparr>,
      cp_pin_functions = [(''pa0'', [''gpio'', ''tim1.ch1'']), (''pa1'', [''tim1.ch2''])]\<rparr>"

definition demo_inputs :: "(string \<times> string Component) list \<Rightarrow> (string, unit) AllocInputs" where
  "demo_inputs components =
     \<lparr>in_doc = \<lparr>doc_api_version = ''dryer.machine/v0.1'', doc_kind = ''Machine'',
        doc_metadata = \<lparr>md_name = ''demo'', md_description = None\<rparr>, doc_packages = [],
        doc_controllers = [(''b'', \<lparr>mc_board = ''boards/b'', mc_transport = \<lparr>tp_kind = ''usb'', tp_parent = None\<rparr>\<rparr>)],
        doc_components = components,
        doc_kinematics = \<lparr>km_kind = ''cartesian'', km_limits = [(''max_step_rate'', ''5Hz'')]\<rparr>,
        doc_safety = \<lparr>sf_profile = ''s/p''\<rparr>, doc_workflows = [], doc_calibration = None\<rparr>,
      in_expanded_sources = [],
      in_device_reqs = [(''heater'', \<lparr>dr_reference = ''d/h'', dr_connector = Some ''power_output'',
        dr_domains = [''v24''], dr_bus = None\<rparr>)],
      in_boards = [(''b'', demo_board)], in_chips = [(''b'', demo_chip)], in_closure_refs = []\<rparr>"

definition demo_components :: "(string \<times> string Component) list" where
  "demo_components =
     [(''hot'', \<lparr>co_kind = ''heater'', co_attributes = []\<rparr>),
      (''x'', \<lparr>co_kind = ''axis'', co_attributes = [(''connected_to'', ''b.m0'')]\<rparr>)]"

definition demo_result :: "ResolvedGraph option \<times> Diagnostic list \<times> Phase list" where
  "demo_result = allocate int_text_ops Some concat (demo_inputs demo_components) [] []"

lemma demo_ok: "boards_ok (demo_inputs components)"
proof -
  have "bt_inv (bp_connectors demo_board)" by code_simp
  then show ?thesis by (simp add: boards_ok_def demo_inputs_def)
qed

lemma demo_result_value:
  "map_option (\<lambda>g. map (\<lambda>(c, l). (c, map as_resource l)) (rg_assignments g)) (fst demo_result) =
     Some [(''hot'', [''b.h0'']), (''x'', [''b.m0''])]"
  by code_simp

lemma demo_some: obtains g r where "demo_result = (Some g, r)"
proof -
  obtain a r where d: "demo_result = (a, r)" by (rule prod.exhaust)
  then have "a \<noteq> None" using demo_result_value unfolding d by (cases a) simp_all
  then show thesis using that d by blast
qed

lemma allocation_well_placed_all:
  assumes "boards_ok inp" "allocate fo as_str debug inp ds ps = (Some g, r)"
  shows "\<forall>(c, l)\<in>set (rg_assignments g). \<forall>a\<in>set l. as_requested_by a = c \<and> well_placed fo as_str inp a"
proof -
  obtain w where w: "work_ok fo as_str inp w" "rg_assignments g = wk_assignments w"
    by (rule allocate_work_ok [OF assms])
  have "a \<in> set (all_assignments w)" if "(c, l) \<in> set (wk_assignments w)" "a \<in> set l" for c l a
    using that by (force simp: all_assignments_def bt_values_def)
  moreover have "\<forall>(c, l)\<in>set (wk_assignments w). \<forall>a\<in>set l. as_requested_by a = c"
    "\<forall>a\<in>set (all_assignments w). well_placed fo as_str inp a"
    using w(1) unfolding work_ok_def by blast+
  ultimately show ?thesis unfolding w(2) by (clarify, blast)
qed

section \<open>Properties\<close>

text \<open>
  Claim C30: an allocation gives nothing twice.  In its result no two assignments, of whatever
  components, name the same connector, and with a declared step rate no two step pins share a timer
  channel.
\<close>
theorem allocation_exclusive:
  assumes "boards_ok inp" "allocate fo as_str debug inp ds ps = (Some g, r)"
  shows "distinct (map as_resource (concat (bt_values (rg_assignments g)))) \<and>
    distinct (List.map_filter (timer_of fo inp) (concat (bt_values (rg_assignments g))))"
proof -
  obtain w where "work_ok fo as_str inp w" "rg_assignments g = wk_assignments w"
    by (rule allocate_work_ok [OF assms])
  then show ?thesis unfolding work_ok_def all_assignments_def by simp
qed

theorem allocation_exclusive_witness:
  "case demo_result of (Some g, _) \<Rightarrow> distinct (map as_resource (concat (bt_values (rg_assignments g)))) | _ \<Rightarrow> False"
proof -
  obtain g r where g: "demo_result = (Some g, r)" by (rule demo_some)
  show ?thesis unfolding g using allocation_exclusive [OF demo_ok g [unfolded demo_result_def]] by simp
qed

text \<open>
  Claim C31: an allocation is well typed.  Every assignment belongs to a component of the machine and
  names a connector that exists on the board of a known controller; the recorded kind and pin
  functions are those of that connector; the kind is the one the claim or the device demands, the
  voltage domain fits where the connector was searched for, and the device's bus is satisfied.
\<close>
theorem allocation_well_placed:
  assumes "boards_ok inp" "allocate fo as_str debug inp ds ps = (Some g, r)"
  shows "\<forall>(c, l)\<in>set (rg_assignments g). \<forall>a\<in>set l. as_requested_by a = c \<and> well_placed fo as_str inp a"
  by (rule allocation_well_placed_all [OF assms])

theorem allocation_well_placed_witness:
  "case demo_result of (Some g, _) \<Rightarrow>
       \<forall>a\<in>set (case bt_get (rg_assignments g) ''x'' of Some l \<Rightarrow> l | None \<Rightarrow> []).
         well_placed int_text_ops Some (demo_inputs demo_components) a
   | _ \<Rightarrow> False"
proof -
  obtain g r where g: "demo_result = (Some g, r)" by (rule demo_some)
  have "well_placed int_text_ops Some (demo_inputs demo_components) a"
    if "bt_get (rg_assignments g) ''x'' = Some l" "a \<in> set l" for a l
    using allocation_well_placed [OF demo_ok g [unfolded demo_result_def]] bt_get_Some_in [OF that(1)] that(2) by blast
  then show ?thesis unfolding g by (cases "bt_get (rg_assignments g) ''x''") auto
qed

text \<open>
  Claim C32: a successful allocation is complete.  A component with claiming attributes has exactly the
  connectors it claims, in the order of its attributes; a component without them whose device needs a
  connector has exactly one; any other component has none.
\<close>
theorem allocation_complete:
  assumes "boards_ok inp" "bt_inv (doc_components (in_doc inp))"
    and "allocate fo as_str debug inp ds ps = (Some g, r)"
    and "bt_get (doc_components (in_doc inp)) c = Some cmp"
  shows "if claims_explicitly as_str cmp then given (rg_assignments g) c = claims_of as_str cmp
    else map fst (given (rg_assignments g) c) = search_via as_str inp cmp"
proof -
  let ?w0 = "\<lparr>wk_diagnostics = ds, wk_claims = bt_empty, wk_timer_claims = bt_empty, wk_assignments = bt_empty\<rparr>"
  let ?w1 = "explicit_pass fo as_str debug inp ?w0" let ?w = "search_pass fo as_str inp ?w1"
  have g: "no_error ?w" "rg_assignments g = wk_assignments ?w"
    using assms(3) by (auto simp: allocate_def Let_def no_error_def split: if_splits)
  note search = search_pass_gives [OF assms(1,2) g(1) assms(4)]
  have one: "given (wk_assignments ?w1) c = claims_of as_str cmp"
    using explicit_pass_gives [OF assms(2) search(1), of c] assms(4) by (simp add: given_def bt_empty_def)
  have none: "claims_of as_str cmp = []" if "\<not> claims_explicitly as_str cmp"
    using that by (force simp: claims_explicitly_def claims_of_def claim_of_def List.map_filter_def list_ex_iff
        filter_empty_conv split: if_splits)
  show ?thesis
    using search(2,3) one none g(2) by (auto simp: search_via_def)
qed

theorem allocation_complete_witness:
  "case demo_result of (Some g, _) \<Rightarrow>
       given (rg_assignments g) ''x'' = [(''connected_to'', ''b.m0'')] \<and>
       map fst (given (rg_assignments g) ''hot'') = [''requires.connector (d/h)'']
   | _ \<Rightarrow> False"
proof -
  obtain g r where g: "demo_result = (Some g, r)" by (rule demo_some)
  have inv: "bt_inv (doc_components (in_doc (demo_inputs demo_components)))" by code_simp
  note c = allocation_complete [OF demo_ok inv g [unfolded demo_result_def]]
  have "given (rg_assignments g) ''x'' = [(''connected_to'', ''b.m0'')]"
    using c [of "''x''" "\<lparr>co_kind = ''axis'', co_attributes = [(''connected_to'', ''b.m0'')]\<rparr>"]
    by (simp add: demo_inputs_def demo_components_def claims_explicitly_def claims_of_def claim_of_def claim_kind_def
        map_filter_simps)
  moreover have "map fst (given (rg_assignments g) ''hot'') = [''requires.connector (d/h)'']"
    using c [of "''hot''" "\<lparr>co_kind = ''heater'', co_attributes = []\<rparr>"]
    by (simp add: demo_inputs_def demo_components_def claims_explicitly_def search_via_def device_of_def)
  ultimately show ?thesis unfolding g by simp
qed

end
