(* ===== verification/Electrical.thy ===== *)
theory Electrical
  imports Allocated
begin

text \<open>
  \<^verbatim>\<open>crates/machine-resolver/src/electrical.rs\<close>: the checks after an allocation, that the voltage domain
  and the bus of every assigned connector satisfy the device and that a declared current fits.  After a
  successful allocation some of them cannot fail any more, which is proved here.
\<close>

definition connector_of :: "('v, 'ver) AllocInputs \<Rightarrow> string \<Rightarrow> string \<Rightarrow> Connector option" where
  "connector_of inp ctrl port =
     Option.bind (bt_get (in_boards inp) ctrl) (\<lambda>b. bt_get (bp_connectors b) port)"

definition domain_diagnostics ::
  "('v, 'ver) AllocInputs \<Rightarrow> string \<Rightarrow> DeviceRequirement \<Rightarrow> Assignment \<Rightarrow> string \<Rightarrow> string \<Rightarrow> Diagnostic list" where
  "domain_diagnostics inp cname dreq a ctrl port =
     (if dr_domains dreq = [] then []
      else
        let connector_domain = Option.bind (connector_of inp ctrl port) cn_voltage_domain in
        if (case connector_domain of Some d \<Rightarrow> d \<in> set (dr_domains dreq) | None \<Rightarrow> False) then []
        else [diag_at (component_path cname)
          (diag_error ''E1302'' (''component '' @ quoted cname @ '': device '' @ quoted (dr_reference dreq)
            @ '' requires voltage domain ['' @ join '', '' (dr_domains dreq) @ ''] but '' @ quoted (as_resource a)
            @ '' declares '' @ (case connector_domain of Some d \<Rightarrow> d | None \<Rightarrow> ''none'')))])"

definition bus_diagnostics ::
  "('f, 'z) text_float_ops_scheme \<Rightarrow> ('v, 'ver) AllocInputs \<Rightarrow> string \<Rightarrow> DeviceRequirement \<Rightarrow> Assignment \<Rightarrow> string \<Rightarrow>
     Diagnostic list" where
  "bus_diagnostics fo inp cname dreq a ctrl =
     (case dr_bus dreq of
        None \<Rightarrow> []
      | Some bus \<Rightarrow>
          (case bus_satisfied fo (bt_get (in_chips inp) ctrl) (as_pin_capabilities a) bus of
             Inr _ \<Rightarrow> []
           | Inl reason \<Rightarrow>
               [diag_at (component_path cname)
                 (diag_error ''E1315'' (''component '' @ quoted cname @ '': device '' @ quoted (dr_reference dreq)
                   @ '' requires a '' @ br_kind bus @ '' bus''
                   @ (case br_min_frequency bus of Some f \<Rightarrow> '' (>= '' @ f @ '')'' | None \<Rightarrow> [])
                   @ '' on '' @ quoted (as_resource a) @ em_dash @ reason))]))"

definition requirement_diagnostics ::
  "('f, 'z) text_float_ops_scheme \<Rightarrow> ('v, 'ver) AllocInputs \<Rightarrow> ResolvedGraph \<Rightarrow> string \<times> 'v Component \<Rightarrow>
     Diagnostic list" where
  "requirement_diagnostics fo inp resolved = (\<lambda>(cname, cmp).
     (case device_of inp cmp of
        None \<Rightarrow> []
      | Some dreq \<Rightarrow>
          concat (map (\<lambda>a.
            (case split_once (CHR ''.'') (as_resource a) of
               None \<Rightarrow> []
             | Some (ctrl, port) \<Rightarrow>
                 domain_diagnostics inp cname dreq a ctrl port @ bus_diagnostics fo inp cname dreq a ctrl))
            (assignments_of resolved cname))))"

text \<open>The current drawn from one connector.\<close>

definition current_diagnostic ::
  "('f, 'z) text_float_ops_scheme \<Rightarrow> ('v, 'ver) AllocInputs \<Rightarrow> string \<Rightarrow> string \<Rightarrow> 'f \<Rightarrow> Assignment \<Rightarrow> Diagnostic list" where
  "current_diagnostic fo inp cname draw_raw draw a =
     (case Option.bind (split_once (CHR ''.'') (as_resource a)) (\<lambda>(ctrl, port).
             Option.bind (connector_of inp ctrl port) cn_max_current) of
        None \<Rightarrow> []
      | Some limit_raw \<Rightarrow>
          (case parse_as fo limit_raw Current of
             Inl _ \<Rightarrow> []
           | Inr limit \<Rightarrow>
               if fo_less fo (q_value limit) draw
               then [diag_at (attribute_path cname ''current'')
                 (diag_error ''E1300'' (''component '' @ quoted cname @ '' draws '' @ draw_raw @ '' but ''
                   @ quoted (as_resource a) @ '' allows at most '' @ limit_raw))]
               else []))"

definition current_diagnostics ::
  "('f, 'z) text_float_ops_scheme \<Rightarrow> ('v \<Rightarrow> string option) \<Rightarrow> ('v, 'ver) AllocInputs \<Rightarrow> ResolvedGraph \<Rightarrow>
     string \<times> 'v Component \<Rightarrow> Diagnostic list" where
  "current_diagnostics fo as_str inp resolved = (\<lambda>(cname, cmp).
     (case str_attribute as_str ''current'' cmp of
        None \<Rightarrow> []
      | Some draw_raw \<Rightarrow>
          (case parse_as fo draw_raw Current of
             Inl e \<Rightarrow>
               [diag_at (attribute_path cname ''current'')
                 (diag_error ''E1301'' (''component '' @ quoted cname @ '' current: '' @ quantity_error_text e))]
           | Inr draw \<Rightarrow>
               concat (map (current_diagnostic fo inp cname draw_raw (q_value draw)) (assignments_of resolved cname)))))"

definition electrical_validate ::
  "('f, 'z) text_float_ops_scheme \<Rightarrow> ('v \<Rightarrow> string option) \<Rightarrow> ('v, 'ver) AllocInputs \<Rightarrow> ResolvedGraph \<Rightarrow>
     Diagnostic list \<Rightarrow> Diagnostic list" where
  "electrical_validate fo as_str inp resolved diagnostics =
     diagnostics @ concat (map (requirement_diagnostics fo inp resolved) (doc_components (in_doc inp))) @
     concat (map (current_diagnostics fo as_str inp resolved) (doc_components (in_doc inp)))"

section \<open>After an allocation\<close>

lemma well_placed_requirements:
  assumes inv: "bt_inv (doc_components (in_doc inp))" and a: "well_placed fo as_str inp a" "as_requested_by a = c"
    and c: "(c, cmp) \<in> set (doc_components (in_doc inp))" and d: "device_of inp cmp = Some dreq"
  obtains ctrl port connector where "split_once (CHR ''.'') (as_resource a) = Some (ctrl, port)"
    "connector_of inp ctrl port = Some connector" "bus_diagnostics fo inp c dreq a ctrl = []"
    "\<not> claims_explicitly as_str cmp \<Longrightarrow> domain_diagnostics inp c dreq a ctrl port = []"
proof -
  from a obtain cmp' ctrl port board connector where w: "(c, cmp') \<in> set (doc_components (in_doc inp))"
    "split_once (CHR ''.'') (as_resource a) = Some (ctrl, port)"
    "bt_get (in_boards inp) ctrl = Some board" "bt_get (bp_connectors board) port = Some connector"
    "demanded as_str inp cmp' (as_via a) (as_resource a) connector"
    "bus_fits fo (bt_get (in_chips inp) ctrl) (as_pin_capabilities a) (Option.bind (device_of inp cmp') dr_bus)"
    unfolding well_placed_def by auto
  have "cmp' = cmp" using w(1) c bt.get_iff [OF inv] by (metis option.inject)
  note w = w [unfolded this]
  have con: "connector_of inp ctrl port = Some connector" using w(3,4) by (simp add: connector_of_def)
  have "bus_diagnostics fo inp c dreq a ctrl = []"
    using w(6) d by (auto simp: bus_diagnostics_def bus_fits_def is_ok_iff split: option.split)
  moreover have "domain_diagnostics inp c dreq a ctrl port = []" if "\<not> claims_explicitly as_str cmp"
    using w(5) d that con by (auto simp: demanded_def domain_diagnostics_def Let_def)
  ultimately show thesis using that w(2) con by blast
qed

lemma assignments_of_set: "a \<in> set (assignments_of g c) \<Longrightarrow> \<exists>l. (c, l) \<in> set (rg_assignments g) \<and> a \<in> set l"
  using bt_get_Some_in [of "rg_assignments g" c]
  by (cases "bt_get (rg_assignments g) c") (auto simp: assignments_of_def)

text \<open>
  Claim C33: what the electrical phase can still find after a successful allocation.  A component that
  was placed by search never violates its voltage domain or its bus requirement; one that claimed its
  connectors never violates its bus requirement, and only its voltage domain can be refused.
\<close>
theorem electrical_after_allocation:
  assumes "boards_ok inp" "bt_inv (doc_components (in_doc inp))"
    and "allocate fo as_str debug inp ds ps = (Some g, r)"
    and "(c, cmp) \<in> set (doc_components (in_doc inp))"
  shows "list_all (\<lambda>d. dg_code d = ''E1302'') (requirement_diagnostics fo inp g (c, cmp)) \<and>
    (\<not> claims_explicitly as_str cmp \<longrightarrow> requirement_diagnostics fo inp g (c, cmp) = [])"
proof (cases "device_of inp cmp")
  case (Some dreq)
  have a: "well_placed fo as_str inp a \<and> as_requested_by a = c" if "a \<in> set (assignments_of g c)" for a
    using assignments_of_set [OF that] allocation_well_placed_all [OF assms(1,3)] by blast
  let ?ds = "\<lambda>a. case split_once (CHR ''.'') (as_resource a) of None \<Rightarrow> []
     | Some (ctrl, port) \<Rightarrow> domain_diagnostics inp c dreq a ctrl port @ bus_diagnostics fo inp c dreq a ctrl"
  have "list_all (\<lambda>d. dg_code d = ''E1302'') (?ds a) \<and> (\<not> claims_explicitly as_str cmp \<longrightarrow> ?ds a = [])"
    if mem: "a \<in> set (assignments_of g c)" for a
  proof -
    obtain ctrl port connector where w: "split_once (CHR ''.'') (as_resource a) = Some (ctrl, port)"
      "bus_diagnostics fo inp c dreq a ctrl = []"
      "\<not> claims_explicitly as_str cmp \<Longrightarrow> domain_diagnostics inp c dreq a ctrl port = []"
      using well_placed_requirements [OF assms(2) _ _ assms(4) Some] a [OF mem] by metis
    have "list_all (\<lambda>d. dg_code d = ''E1302'') (domain_diagnostics inp c dreq a ctrl port)"
      by (simp add: domain_diagnostics_def Let_def)
    then show ?thesis using w by simp
  qed
  then show ?thesis
    by (simp add: requirement_diagnostics_def Some list_all_iff)
qed (simp add: requirement_diagnostics_def)

theorem electrical_after_allocation_witness:
  "case demo_result of (Some g, _) \<Rightarrow>
       requirement_diagnostics int_text_ops (demo_inputs demo_components) g
         (''hot'', \<lparr>co_kind = ''heater'', co_attributes = []\<rparr>) = []
   | _ \<Rightarrow> False"
proof -
  obtain g r where g: "demo_result = (Some g, r)" by (rule demo_some)
  have inv: "bt_inv (doc_components (in_doc (demo_inputs demo_components)))" by code_simp
  show ?thesis unfolding g
    using electrical_after_allocation [OF demo_ok inv g [unfolded demo_result_def],
        of "''hot''" "\<lparr>co_kind = ''heater'', co_attributes = []\<rparr>"]
    by (simp add: demo_inputs_def demo_components_def claims_explicitly_def)
qed

end
