(* ===== verification/Selection.thy ===== *)
theory Selection
  imports Capability
begin

text \<open>
  \<^verbatim>\<open>crates/machine-resolver/src/packages.rs\<close>: the package closure of a machine.  Starting from the pins
  and the implicit roots, rounds choose for every path the highest version that satisfies all the
  requirements of the previous round and collect the requirements of what was chosen, until nothing
  changes, at most 64 times.  \<^verbatim>\<open>locate\<close> finds a path in the source of a package, which is read from disk.
\<close>

record 'req RequirementConstraint =
  cst_required_by :: string
  cst_requirement :: 'req
  cst_source :: "SourceSpan option"

type_synonym 'req constraints = "(string, 'req RequirementConstraint list) btree"

text \<open>A set of strings in order, as \<^verbatim>\<open>BTreeSet\<close> iterates it.\<close>

definition bset :: "string list \<Rightarrow> string list" where
  "bset xs = bt_keys (fold (\<lambda>x. bt_insert x ()) xs bt_empty)"

fun pins_of ::
  "('ver, 'req) semver_ops \<Rightarrow> nat \<Rightarrow> string list \<Rightarrow> (string, 'ver) btree \<times> (string, string) btree \<Rightarrow>
     (string, 'ver) btree \<times> (string, string) btree" where
  "pins_of sv index [] r = r"
| "pins_of sv index (pkg # pkgs) (pins, pin_paths) =
     pins_of sv (Suc index) pkgs
       (case package_ref_parse sv pkg of
          Inl _ \<Rightarrow> (pins, pin_paths)
        | Inr reference \<Rightarrow>
            let path = pr_namespace reference @ ''/'' @ pr_name reference in
            (bt_insert path (pr_version reference) pins,
             bt_insert path (''packages['' @ dec_nat index @ '']'') pin_paths))"

definition implicit_roots :: "'v MachineDoc \<Rightarrow> string list" where
  "implicit_roots doc =
     bset (filter valid_package_ref_name
       (map mc_board (bt_values (doc_controllers doc)) @ [sf_profile (doc_safety doc)] @
        map workflow_package (bt_values (doc_workflows doc))))"

section \<open>One round\<close>

definition pin_path :: "(string, string) btree \<Rightarrow> string \<Rightarrow> string" where
  "pin_path pin_paths path = (case bt_get pin_paths path of Some p \<Rightarrow> p | None \<Rightarrow> ''packages'')"

text \<open>A requirement that a pin does not satisfy.\<close>

definition excluded_diagnostic ::
  "('ver, 'req) semver_ops \<Rightarrow> (string, string) btree \<Rightarrow> string \<Rightarrow> 'ver \<Rightarrow> 'req RequirementConstraint \<Rightarrow> Diagnostic" where
  "excluded_diagnostic sv pin_paths path pin c =
     (let d = diag_at (pin_path pin_paths path)
        (diag_error ''E1103'' (quoted (cst_required_by c) @ '' requires '' @ quoted path @ '' ''
          @ sv_req_text sv (cst_requirement c) @ '' but the machine pins '' @ sv_version_text sv pin)) in
      case cst_source c of
        Some source \<Rightarrow> related_source (''requirement from '' @ quoted (cst_required_by c) @ '' declared here'') source d
      | None \<Rightarrow> d)"

text \<open>The sources of the requirements: the first one is the place of the diagnostic, the others are related.\<close>

fun attach_sources ::
  "('ver, 'req) semver_ops \<Rightarrow> string \<Rightarrow> bool \<Rightarrow> 'req RequirementConstraint list \<Rightarrow> Diagnostic \<Rightarrow> Diagnostic" where
  "attach_sources sv path has_primary [] d = d"
| "attach_sources sv path has_primary (c # cs) d =
     (case cst_source c of
        None \<Rightarrow> attach_sources sv path has_primary cs d
      | Some source \<Rightarrow>
          if has_primary
          then attach_sources sv path True cs
            (related_source (quoted (cst_required_by c) @ '' requires '' @ quoted path @ '' ''
               @ sv_req_text sv (cst_requirement c)) source d)
          else attach_sources sv path True cs (with_source source d))"

definition unsatisfiable_diagnostic ::
  "('ver, 'req) semver_ops \<Rightarrow> string \<Rightarrow> 'req RequirementConstraint list \<Rightarrow> 'ver list \<Rightarrow> Diagnostic" where
  "unsatisfiable_diagnostic sv path requirements available =
     attach_sources sv path False requirements
       (diag_error ''E1104'' (''no version of '' @ quoted path @ '' satisfies ''
         @ join '' and '' (map (\<lambda>c. quoted (cst_required_by c) @ '' ('' @ sv_req_text sv (cst_requirement c) @ '')'') requirements)
         @ ''; available: '' @ join '', '' (map (sv_version_text sv) available)))"

text \<open>What a round decides about one path: errors, warnings, the version.\<close>

definition choose_version ::
  "('ver :: linorder, 'req) semver_ops \<Rightarrow> 'ver LocalRegistry \<Rightarrow> (string, 'ver) btree \<Rightarrow> (string, string) btree \<Rightarrow>
     string list \<Rightarrow> 'req constraints \<Rightarrow> string \<Rightarrow> Diagnostic list \<times> Diagnostic list \<times> 'ver option" where
  "choose_version sv registry pins pin_paths roots constraints path =
     (case split_once (CHR ''/'') path of
        None \<Rightarrow> ([], [], None)
      | Some (namespace, name) \<Rightarrow>
          let available = versions namespace name registry in
          if available = []
          then ([diag_at ''packages'' (diag_error ''E1100'' (''package '' @ quoted path @ '' is not in the registry''))], [], None)
          else
            let requirements = (case bt_get constraints path of Some l \<Rightarrow> l | None \<Rightarrow> []) in
            (case bt_get pins path of
               Some pin \<Rightarrow>
                 if pin \<notin> set available
                 then ([diag_at (pin_path pin_paths path)
                     (diag_error ''E1101'' (''package '' @ quoted path @ '' pinned at '' @ sv_version_text sv pin
                       @ '' but the registry has '' @ join '', '' (map (sv_version_text sv) available)))], [], None)
                 else
                   let excluding = filter (\<lambda>c. \<not> sv_matches sv (cst_requirement c) pin) requirements in
                   (map (excluded_diagnostic sv pin_paths path pin) excluding, [],
                    if excluding = [] then Some pin else None)
             | None \<Rightarrow>
                 (case filter (\<lambda>v. list_all (\<lambda>c. sv_matches sv (cst_requirement c) v) requirements) available of
                    [] \<Rightarrow> ([unsatisfiable_diagnostic sv path requirements available], [], None)
                  | vs \<Rightarrow>
                      ([],
                       if requirements = [] \<and> path \<in> set roots
                       then [diag_warning ''E1106'' (quoted path @ '' is not version-pinned; selected ''
                               @ sv_version_text sv (List.last vs) @ '' (highest available)'')]
                       else [],
                       Some (List.last vs)))))"

definition round_paths :: "(string, 'ver) btree \<Rightarrow> string list \<Rightarrow> 'req constraints \<Rightarrow> string list" where
  "round_paths pins roots constraints = bset (bt_keys pins @ roots @ bt_keys constraints)"

text \<open>The requirements of one chosen package, added to those collected so far.\<close>

definition add_requirements ::
  "('ver :: linorder, 'req) semver_ops \<Rightarrow> 'ver LocalRegistry \<Rightarrow> (string \<Rightarrow> string \<Rightarrow> SourceSpan option) \<Rightarrow>
     string \<times> 'ver \<Rightarrow> 'req constraints \<Rightarrow> 'req constraints" where
  "add_requirements sv registry locate = (\<lambda>(path, version) constraints.
     case Option.bind (split_once (CHR ''/'') path) (\<lambda>(namespace, name). find_version namespace name version registry) of
       None \<Rightarrow> constraints
     | Some package \<Rightarrow>
         fold (\<lambda>(dependency, declaration) constraints.
           (case dependency_requirement sv declaration of
              Inl _ \<Rightarrow> constraints
            | Inr requirement \<Rightarrow>
                bt_insert dependency
                  ((case bt_get constraints dependency of Some l \<Rightarrow> l | None \<Rightarrow> []) @
                   [\<lparr>cst_required_by = path, cst_requirement = requirement,
                     cst_source = locate (package_ref_text sv (lp_reference package)) (''dependencies.'' @ dependency)\<rparr>])
                  constraints))
           (mf_dependencies (lp_manifest package)) constraints)"

definition resolve_round ::
  "('ver :: linorder, 'req) semver_ops \<Rightarrow> 'ver LocalRegistry \<Rightarrow> (string \<Rightarrow> string \<Rightarrow> SourceSpan option) \<Rightarrow>
     (string, 'ver) btree \<Rightarrow> (string, string) btree \<Rightarrow> string list \<Rightarrow> 'req constraints \<Rightarrow>
     (string, 'ver) btree \<times> 'req constraints \<times> Diagnostic list \<times> Diagnostic list" where
  "resolve_round sv registry locate pins pin_paths roots constraints =
     (let paths = round_paths pins roots constraints;
          decide = choose_version sv registry pins pin_paths roots constraints;
          next_chosen = fold (\<lambda>path m. case decide path of (_, _, Some v) \<Rightarrow> bt_insert path v m | _ \<Rightarrow> m) paths bt_empty in
      (next_chosen, fold (add_requirements sv registry locate) next_chosen bt_empty,
       concat (map (\<lambda>path. fst (decide path)) paths), concat (map (\<lambda>path. fst (snd (decide path))) paths)))"

section \<open>The rounds\<close>

text \<open>The loop: whether it became stable, and the state it left.\<close>

fun resolve_rounds ::
  "('ver :: linorder, 'req) semver_ops \<Rightarrow> 'ver LocalRegistry \<Rightarrow> (string \<Rightarrow> string \<Rightarrow> SourceSpan option) \<Rightarrow>
     (string, 'ver) btree \<Rightarrow> (string, string) btree \<Rightarrow> string list \<Rightarrow> nat \<Rightarrow>
     (string, 'ver) btree \<times> 'req constraints \<times> Diagnostic list \<times> Diagnostic list \<Rightarrow>
     bool \<times> (string, 'ver) btree \<times> 'req constraints \<times> Diagnostic list \<times> Diagnostic list" where
  "resolve_rounds sv registry locate pins pin_paths roots 0 st = (False, st)"
| "resolve_rounds sv registry locate pins pin_paths roots (Suc n) (chosen, constraints, _) =
     (case resolve_round sv registry locate pins pin_paths roots constraints of
        (next_chosen, new_constraints, errs, warns) \<Rightarrow>
          if next_chosen = chosen \<and> new_constraints = constraints
          then (True, next_chosen, new_constraints, errs, warns)
          else resolve_rounds sv registry locate pins pin_paths roots n (next_chosen, new_constraints, errs, warns))"

record 'ver PackageSelection =
  ps_registry :: "'ver LocalRegistry"
  ps_chosen :: "(string, 'ver) btree"
  ps_closure_refs :: "string list"

definition resolve_packages ::
  "('ver :: linorder, 'req) semver_ops \<Rightarrow> (string \<Rightarrow> string \<Rightarrow> SourceSpan option) \<Rightarrow> 'v MachineDoc \<Rightarrow>
     'ver LocalRegistry \<Rightarrow> Diagnostic list \<Rightarrow> 'ver PackageSelection \<times> Diagnostic list" where
  "resolve_packages sv locate doc registry diagnostics =
     (case pins_of sv 0 (doc_packages doc) (bt_empty, bt_empty) of
        (pins, pin_paths) \<Rightarrow>
          (case resolve_rounds sv registry locate pins pin_paths (implicit_roots doc) 64 (bt_empty, bt_empty, [], []) of
             (converged, chosen, constraints, errs, warns) \<Rightarrow>
               let errs1 = (if \<not> converged \<and> errs = []
                    then [diag_error ''E1107'' ''dependency resolution did not converge (cyclic version constraints?)'']
                    else errs) in
               (\<lparr>ps_registry = registry, ps_chosen = chosen,
                 ps_closure_refs = map (\<lambda>(path, version). path @ ''@'' @ sv_version_text sv version) chosen\<rparr>,
                diagnostics @ warns @ errs1)))"

definition select :: "('ver :: linorder) PackageSelection \<Rightarrow> string \<Rightarrow> 'ver LoadedPackage option" where
  "select self path =
     Option.bind (split_once (CHR ''/'') path) (\<lambda>(namespace, name).
     case bt_get (ps_chosen self) path of
       Some version \<Rightarrow> find_version namespace name version (ps_registry self)
     | None \<Rightarrow> registry_find namespace name (ps_registry self))"

definition selection_paths :: "'ver PackageSelection \<Rightarrow> string list" where
  "selection_paths self = bt_keys (ps_chosen self)"

definition selection_contains :: "'ver PackageSelection \<Rightarrow> string \<Rightarrow> bool" where
  "selection_contains self path \<longleftrightarrow> bt_get (ps_chosen self) path \<noteq> None"

definition selection_version :: "'ver PackageSelection \<Rightarrow> string \<Rightarrow> 'ver option" where
  "selection_version self path = bt_get (ps_chosen self) path"

end
