(* ===== verification/Closure.thy ===== *)
theory Closure
  imports Selection
begin

text \<open>
  What a resolved package closure guarantees: it contains the roots and what its packages require, every
  version satisfies all the requirements of the closure, pins are kept and other versions are the highest
  possible.  Then an example of a closure that contains more than its roots need.
\<close>

lemma bt_keys_fold_insert: "set (bt_keys (fold (\<lambda>x. bt_insert x ()) xs m)) = set (bt_keys m) \<union> set xs"
  by (induction xs arbitrary: m) (auto simp: bt_keys_def set_bt_insert)

lemma set_bset [simp]: "set (bset xs) = set xs"
  by (simp add: bset_def bt_keys_fold_insert) (simp add: bt_keys_def bt_empty_def)

text \<open>A map built by a loop that inserts what a function gives for each key.\<close>

lemma fold_insert_get:
  "bt_get (fold (\<lambda>path m. case f path of (_, _, Some v) \<Rightarrow> bt_insert path v m | _ \<Rightarrow> m) paths m) p =
     (if p \<in> set paths \<and> snd (snd (f p)) \<noteq> None then snd (snd (f p)) else bt_get m p)"
  by (induction paths arbitrary: m) (auto simp: bt_get_insert split: prod.splits option.splits)

lemma fold_insert_inv:
  "bt_inv m \<Longrightarrow> bt_inv (fold (\<lambda>path m. case f path of (_, _, Some v) \<Rightarrow> bt_insert path v m | _ \<Rightarrow> m) paths m)"
  by (induction paths arbitrary: m) (auto simp: bt_inv_insert split: prod.splits option.splits)

lemma bt_inv_empty [simp]: "bt_inv bt_empty"
  by (rule bt.inv_empty)

section \<open>One path\<close>

lemma attach_sources_error [simp]: "is_error (attach_sources sv path b cs d) \<longleftrightarrow> is_error d"
  by (induction sv path b cs d rule: attach_sources.induct) (auto split: option.splits)

lemma excluded_error [simp]: "is_error (excluded_diagnostic sv pp path pin c)"
  by (simp add: excluded_diagnostic_def Let_def split: option.split)

lemma choose_version_errors: "list_all is_error (fst (choose_version sv registry pins pin_paths roots constraints path))"
  by (auto simp: choose_version_def Let_def unsatisfiable_diagnostic_def list_all_iff split: option.split list.split)

text \<open>The highest of the versions that pass a test.\<close>

lemma sorted_last: "sorted xs \<Longrightarrow> x \<in> set xs \<Longrightarrow> x \<le> List.last xs" for x :: "'a :: linorder"
  by (induction xs) auto

lemma last_sorted_filter:
  assumes "sorted xs" "filter P xs \<noteq> []"
  shows "List.last (filter P xs) \<in> set xs \<and> P (List.last (filter P xs)) \<and>
    (\<forall>x\<in>set xs. P x \<longrightarrow> x \<le> List.last (filter P xs))"
proof -
  have "List.last (filter P xs) \<in> set (filter P xs)" using assms(2) by (rule last_in_set)
  moreover have "x \<le> List.last (filter P xs)" if x: "x \<in> set xs" "P x" for x
  proof -
    have "sorted (filter P xs)" using assms(1) by (rule sorted_wrt_filter)
    moreover have "x \<in> set (filter P xs)" using x by simp
    ultimately show ?thesis by (rule sorted_last)
  qed
  ultimately show ?thesis by auto
qed

definition fits :: "('ver, 'req) semver_ops \<Rightarrow> 'req constraints \<Rightarrow> string \<Rightarrow> 'ver \<Rightarrow> bool" where
  "fits sv constraints path v \<longleftrightarrow>
     (\<forall>l. bt_get constraints path = Some l \<longrightarrow> (\<forall>c\<in>set l. sv_matches sv (cst_requirement c) v))"

lemma choose_version_fine:
  assumes "fst (choose_version sv registry pins pin_paths roots constraints path) = []"
    and "split_once (CHR ''/'') path = Some (namespace, name)"
  obtains v where "snd (snd (choose_version sv registry pins pin_paths roots constraints path)) = Some v"
    "v \<in> set (versions namespace name registry)" "fits sv constraints path v"
    "\<And>pin. bt_get pins path = Some pin \<Longrightarrow> v = pin"
    "\<And>u. bt_get pins path = None \<Longrightarrow> u \<in> set (versions namespace name registry) \<Longrightarrow> fits sv constraints path u \<Longrightarrow> u \<le> v"
proof -
  let ?avail = "versions namespace name registry"
  let ?reqs = "case bt_get constraints path of Some l \<Rightarrow> l | None \<Rightarrow> []"
  let ?P = "\<lambda>v. list_all (\<lambda>c. sv_matches sv (cst_requirement c) v) ?reqs"
  have P: "?P v \<longleftrightarrow> fits sv constraints path v" for v
    by (cases "bt_get constraints path") (auto simp: fits_def list_all_iff)
  have avail: "?avail \<noteq> []" using assms by (auto simp: choose_version_def Let_def)
  show thesis
  proof (cases "bt_get pins path")
    case (Some pin)
    then have "pin \<in> set ?avail" "filter (\<lambda>c. \<not> sv_matches sv (cst_requirement c) pin) ?reqs = []"
      using assms avail by (auto simp: choose_version_def Let_def split: if_splits)
    note pin = this
    have f: "fits sv constraints path pin"
      unfolding P [symmetric] using pin(2) by (simp add: filter_empty_conv list_all_iff)
    have "snd (snd (choose_version sv registry pins pin_paths roots constraints path)) = Some pin"
      unfolding choose_version_def Let_def assms(2) Some by (simp add: avail pin)
    then show thesis
    proof (rule that)
      show "pin \<in> set ?avail" by (rule pin(1))
      show "pin = q" if "bt_get pins path = Some q" for q using that Some by simp
      show "u \<le> pin" if "bt_get pins path = None" for u using that Some by simp
    qed (rule f)
  next
    case None
    have ne: "filter ?P ?avail \<noteq> []"
    proof
      assume e: "filter ?P ?avail = []"
      have "fst (choose_version sv registry pins pin_paths roots constraints path) \<noteq> []"
        unfolding choose_version_def Let_def assms(2) None by (simp add: avail e)
      then show False using assms(1) by simp
    qed
    have s: "sorted ?avail" by (simp add: versions_def)
    have "snd (snd (choose_version sv registry pins pin_paths roots constraints path)) = Some (List.last (filter ?P ?avail))"
      unfolding choose_version_def Let_def assms(2) None using avail ne by (simp split: list.split)
    then show thesis
    proof (rule that)
      note l = last_sorted_filter [OF s ne]
      show "List.last (filter ?P ?avail) \<in> set ?avail" using l by blast
      show "fits sv constraints path (List.last (filter ?P ?avail))" unfolding P [symmetric] using l by blast
      show "List.last (filter ?P ?avail) = q" if "bt_get pins path = Some q" for q using that None by simp
      show "u \<le> List.last (filter ?P ?avail)"
        if "u \<in> set ?avail" "fits sv constraints path u" for u using that l unfolding P [symmetric] by blast
    qed
  qed
qed

lemma choose_version_no_slash:
  "split_once (CHR ''/'') path = None \<Longrightarrow>
     snd (snd (choose_version sv registry pins pin_paths roots constraints path)) = None"
  by (simp add: choose_version_def)

section \<open>The requirements of the chosen packages\<close>

text \<open>A map of constraints as the set of who requires what of whom.\<close>

definition demands :: "'req constraints \<Rightarrow> (string \<times> string \<times> 'req) set" where
  "demands m = {(dep, cst_required_by c, cst_requirement c) | dep l c. bt_get m dep = Some l \<and> c \<in> set l}"

definition demands_of ::
  "('ver :: linorder, 'req) semver_ops \<Rightarrow> 'ver LocalRegistry \<Rightarrow> string \<times> 'ver \<Rightarrow> (string \<times> string \<times> 'req) set" where
  "demands_of sv registry = (\<lambda>(path, v).
     {(dep, path, r) | dep r namespace name package decl.
        split_once (CHR ''/'') path = Some (namespace, name) \<and> find_version namespace name v registry = Some package \<and>
        (dep, decl) \<in> set (mf_dependencies (lp_manifest package)) \<and> dependency_requirement sv decl = Inr r})"

lemma demands_iff: "(dep, p, r) \<in> demands m \<longleftrightarrow>
    (\<exists>c. c \<in> set (case bt_get m dep of Some l \<Rightarrow> l | None \<Rightarrow> []) \<and> p = cst_required_by c \<and> r = cst_requirement c)"
  by (cases "bt_get m dep") (auto simp: demands_def)

lemma demands_insert:
  "demands (bt_insert dep ((case bt_get m dep of Some l \<Rightarrow> l | None \<Rightarrow> []) @ [c]) m) =
     insert (dep, cst_required_by c, cst_requirement c) (demands m)" (is "?L = ?R")
proof (rule set_eqI)
  fix t :: "string \<times> string \<times> 'a"
  obtain d p r where t: "t = (d, p, r)" by (cases t)
  show "t \<in> ?L \<longleftrightarrow> t \<in> ?R"
    unfolding t demands_iff insert_iff bt_get_insert by (cases "d = dep") auto
qed

lemma fold_union: "(\<And>x m. T (g x m) = T m \<union> A x) \<Longrightarrow> T (fold g xs m) = T m \<union> (\<Union>x\<in>set xs. A x)"
  by (induction xs arbitrary: m) auto

lemma demands_add: "demands (add_requirements sv registry locate pv m) = demands m \<union> demands_of sv registry pv"
proof -
  obtain path v where pv: "pv = (path, v)" by (cases pv)
  show ?thesis
  proof (cases "Option.bind (split_once (CHR ''/'') path) (\<lambda>(namespace, name). find_version namespace name v registry)")
    case None
    then show ?thesis by (auto simp: pv add_requirements_def demands_of_def)
  next
    case (Some package)
    then obtain namespace name where s: "split_once (CHR ''/'') path = Some (namespace, name)"
      "find_version namespace name v registry = Some package" by (auto simp: bind_eq_Some_conv)
    let ?A = "\<lambda>(dep, decl). case dependency_requirement sv decl of Inl _ \<Rightarrow> {} | Inr r \<Rightarrow> {(dep, path, r)}"
    let ?g = "\<lambda>(dependency, declaration) constraints.
           (case dependency_requirement sv declaration of
              Inl _ \<Rightarrow> constraints
            | Inr requirement \<Rightarrow>
                bt_insert dependency
                  ((case bt_get constraints dependency of Some l \<Rightarrow> l | None \<Rightarrow> []) @
                   [\<lparr>cst_required_by = path, cst_requirement = requirement,
                     cst_source = locate (package_ref_text sv (lp_reference package)) (''dependencies.'' @ dependency)\<rparr>])
                  constraints)"
    have "demands (fold ?g (mf_dependencies (lp_manifest package)) m) =
        demands m \<union> (\<Union>x\<in>set (mf_dependencies (lp_manifest package)). ?A x)"
    proof (rule fold_union)
      show "demands (?g x m) = demands m \<union> ?A x" for x m
        by (cases x) (auto simp: demands_insert split: sum.split)
    qed
    moreover have "(\<Union>x\<in>set (mf_dependencies (lp_manifest package)). ?A x) = demands_of sv registry (path, v)"
      using s by (auto simp: demands_of_def split: sum.splits)
    ultimately show ?thesis using Some by (simp add: pv add_requirements_def)
  qed
qed

section \<open>The fixed point\<close>

lemma rounds_converged:
  "resolve_rounds sv registry locate pins pin_paths roots n st = (True, chosen, constraints, errs, warns) \<Longrightarrow>
     resolve_round sv registry locate pins pin_paths roots constraints = (chosen, constraints, errs, warns)"
  by (induction sv registry locate pins pin_paths roots n st
      rule: resolve_rounds.induct) (auto split: prod.splits if_splits)

lemma rounds_errors:
  "resolve_rounds sv registry locate pins pin_paths roots n st = (converged, chosen, constraints, errs, warns) \<Longrightarrow>
     list_all is_error (fst (snd (snd st))) \<Longrightarrow> list_all is_error errs"
proof (induction sv registry locate pins pin_paths roots n st rule: resolve_rounds.induct)
  case (2 sv registry locate pins pin_paths roots n cho con ew)
  obtain c1 k1 e1 w1 where r: "resolve_round sv registry locate pins pin_paths roots con = (c1, k1, e1, w1)"
    by (metis prod_cases4)
  have e: "list_all is_error e1"
    using r choose_version_errors [of sv registry pins pin_paths roots con]
    by (auto simp: resolve_round_def Let_def list_all_iff)
  show ?case
  proof (cases "c1 = cho \<and> k1 = con")
    case True
    then show ?thesis using "2.prems" r e by simp
  next
    case False
    then show ?thesis using "2.prems" r e "2.IH" [OF r [symmetric] refl refl] by auto
  qed
qed simp

definition machine_pins :: "('ver :: linorder, 'req) semver_ops \<Rightarrow> 'v MachineDoc \<Rightarrow> (string, 'ver) btree" where
  "machine_pins sv doc = fst (pins_of sv 0 (doc_packages doc) (bt_empty, bt_empty))"

text \<open>A selection without an error is what one more round makes of its own requirements.\<close>

lemma selection_fixpoint:
  assumes "resolve_packages sv locate doc registry diagnostics = (selection, out)" "filter is_error out = []"
  obtains pin_paths constraints warns where
    "resolve_round sv registry locate (machine_pins sv doc) pin_paths (implicit_roots doc) constraints =
       (ps_chosen selection, constraints, [], warns)"
proof -
  obtain pins pin_paths where p: "pins_of sv 0 (doc_packages doc) (bt_empty, bt_empty) = (pins, pin_paths)"
    by fastforce
  obtain converged chosen constraints errs warns where
    r: "resolve_rounds sv registry locate pins pin_paths (implicit_roots doc) 64 (bt_empty, bt_empty, [], []) =
       (converged, chosen, constraints, errs, warns)"
    by (metis prod_cases5)
  have out: "out = diagnostics @ warns @ (if \<not> converged \<and> errs = []
       then [diag_error ''E1107'' ''dependency resolution did not converge (cyclic version constraints?)'']
       else errs)" and chosen: "ps_chosen selection = chosen"
    using assms(1) by (auto simp: resolve_packages_def p r)
  have "list_all is_error errs" by (rule rounds_errors [OF r]) simp
  then have "errs = []" using assms(2) out by (cases errs) auto
  moreover have converged using assms(2) out calculation by (auto split: if_splits)
  ultimately show thesis using that rounds_converged r p chosen by (simp add: machine_pins_def) blast
qed

text \<open>Who requires what among the packages of the selection.\<close>

definition requirements_on ::
  "('ver :: linorder, 'req) semver_ops \<Rightarrow> 'ver PackageSelection \<Rightarrow> string \<Rightarrow> 'req set" where
  "requirements_on sv selection path =
     {r. \<exists>pv\<in>set (ps_chosen selection). \<exists>q. (path, q, r) \<in> demands_of sv (ps_registry selection) pv}"

lemma fits_demands: "fits sv m path v \<longleftrightarrow> (\<forall>q r. (path, q, r) \<in> demands m \<longrightarrow> sv_matches sv r v)"
  by (cases "bt_get m path") (auto simp: fits_def demands_def)

lemma demands_empty [simp]: "demands bt_empty = {}"
  by (simp add: demands_def bt_empty_def)

text \<open>What a round gives, path by path.\<close>

lemma round_choice:
  assumes "resolve_round sv registry locate pins pin_paths roots constraints = (chosen, constraints', [], warns)"
  shows "bt_inv chosen"
    and "demands constraints' = (\<Union>pv\<in>set chosen. demands_of sv registry pv)"
    and "bt_get chosen path = (if path \<in> set (bt_keys pins) \<union> set roots \<union> set (bt_keys constraints)
         then snd (snd (choose_version sv registry pins pin_paths roots constraints path)) else None)"
    and "path \<in> set (bt_keys pins) \<union> set roots \<union> set (bt_keys constraints) \<Longrightarrow>
         fst (choose_version sv registry pins pin_paths roots constraints path) = []"
proof -
  have paths: "set (round_paths pins roots constraints) = set (bt_keys pins) \<union> set roots \<union> set (bt_keys constraints)"
    by (auto simp: round_paths_def)
  have c: "chosen = fold (\<lambda>path m. case choose_version sv registry pins pin_paths roots constraints path of
        (_, _, Some v) \<Rightarrow> bt_insert path v m | _ \<Rightarrow> m) (round_paths pins roots constraints) bt_empty"
    and k: "constraints' = fold (add_requirements sv registry locate) chosen bt_empty"
    and e: "concat (map (\<lambda>path. fst (choose_version sv registry pins pin_paths roots constraints path))
        (round_paths pins roots constraints)) = []"
    using assms by (auto simp: resolve_round_def Let_def)
  show "bt_inv chosen" unfolding c by (rule fold_insert_inv) simp
  show "demands constraints' = (\<Union>pv\<in>set chosen. demands_of sv registry pv)"
    unfolding k by (subst fold_union [where A = "demands_of sv registry"]) (simp_all add: demands_add)
  show "bt_get chosen path = (if path \<in> set (bt_keys pins) \<union> set roots \<union> set (bt_keys constraints)
         then snd (snd (choose_version sv registry pins pin_paths roots constraints path)) else None)"
    unfolding c fold_insert_get paths by (auto simp: bt.get_empty)
  show "path \<in> set (bt_keys pins) \<union> set roots \<union> set (bt_keys constraints) \<Longrightarrow>
         fst (choose_version sv registry pins pin_paths roots constraints path) = []"
    using e unfolding paths [symmetric] by simp
qed

lemma demanded_key: "(dep, q, r) \<in> demands m \<Longrightarrow> dep \<in> set (bt_keys m)"
  by (force simp: demands_def bt_keys_def dest: bt_get_Some_in)

text \<open>Every path that a round considers and that names a namespace is chosen, at a version that fits.\<close>

lemma selection_choice:
  assumes "resolve_packages sv locate doc registry diagnostics = (selection, out)" "filter is_error out = []"
  shows "path \<in> set (bt_keys (machine_pins sv doc)) \<union> set (implicit_roots doc) \<or> requirements_on sv selection path \<noteq> {} \<Longrightarrow>
      split_once (CHR ''/'') path = Some (namespace, name) \<Longrightarrow> selection_contains selection path"
    and "selection_version selection path = Some v \<Longrightarrow>
      \<exists>namespace name. split_once (CHR ''/'') path = Some (namespace, name) \<and>
        v \<in> set (versions namespace name registry) \<and>
        (\<forall>r\<in>requirements_on sv selection path. sv_matches sv r v) \<and>
        (\<forall>pin. bt_get (machine_pins sv doc) path = Some pin \<longrightarrow> v = pin) \<and>
        (bt_get (machine_pins sv doc) path = None \<longrightarrow> (\<forall>u\<in>set (versions namespace name registry).
           (\<forall>r\<in>requirements_on sv selection path. sv_matches sv r u) \<longrightarrow> u \<le> v))"
proof -
  obtain pin_paths constraints warns where
    r: "resolve_round sv registry locate (machine_pins sv doc) pin_paths (implicit_roots doc) constraints =
       (ps_chosen selection, constraints, [], warns)"
    using selection_fixpoint [OF assms] .
  have reg: "ps_registry selection = registry"
    using assms(1) by (auto simp: resolve_packages_def split: prod.splits)
  note c = round_choice [OF r]
  have on: "q \<in> requirements_on sv selection path \<longleftrightarrow> (\<exists>p. (path, p, q) \<in> demands constraints)" for q path
    by (auto simp: requirements_on_def c(2) reg)
  have fits: "fits sv constraints path u \<longleftrightarrow> (\<forall>q\<in>requirements_on sv selection path. sv_matches sv q u)" for u path
    by (auto simp: fits_demands on)
  let ?paths = "set (bt_keys (machine_pins sv doc)) \<union> set (implicit_roots doc) \<union> set (bt_keys constraints)"
  show "selection_contains selection path"
    if p: "path \<in> set (bt_keys (machine_pins sv doc)) \<union> set (implicit_roots doc) \<or> requirements_on sv selection path \<noteq> {}"
      and s: "split_once (CHR ''/'') path = Some (namespace, name)"
  proof -
    have "path \<in> ?paths" using p
    proof
      assume "requirements_on sv selection path \<noteq> {}"
      then obtain q t where "(path, q, t) \<in> demands constraints" using on by blast
      then show ?thesis by (simp add: demanded_key)
    qed simp
    then show ?thesis using choose_version_fine [OF c(4) s] c(3) unfolding selection_contains_def
      by (metis option.distinct(1))
  qed
  show "\<exists>namespace name. split_once (CHR ''/'') path = Some (namespace, name) \<and>
        v \<in> set (versions namespace name registry) \<and>
        (\<forall>r\<in>requirements_on sv selection path. sv_matches sv r v) \<and>
        (\<forall>pin. bt_get (machine_pins sv doc) path = Some pin \<longrightarrow> v = pin) \<and>
        (bt_get (machine_pins sv doc) path = None \<longrightarrow> (\<forall>u\<in>set (versions namespace name registry).
           (\<forall>r\<in>requirements_on sv selection path. sv_matches sv r u) \<longrightarrow> u \<le> v))"
    if v: "selection_version selection path = Some v"
  proof -
    have path: "path \<in> ?paths"
      and ch: "snd (snd (choose_version sv registry (machine_pins sv doc) pin_paths (implicit_roots doc) constraints path)) = Some v"
      using v c(3) by (auto simp: selection_version_def split: if_splits)
    have "split_once (CHR ''/'') path \<noteq> None"
    proof
      assume "split_once (CHR ''/'') path = None"
      then show False using ch by (simp add: choose_version_no_slash)
    qed
    then obtain namespace name where s: "split_once (CHR ''/'') path = Some (namespace, name)" by auto
    from choose_version_fine [OF c(4) [OF path] s] ch show ?thesis unfolding fits by (simp add: s) blast
  qed
qed

section \<open>Pins and roots have a namespace\<close>

lemma split_once_sep: "CHR ''/'' \<in> set path \<Longrightarrow> \<exists>namespace name. split_once (CHR ''/'') path = Some (namespace, name)"
  by (induction path) auto

lemma pins_of_slash:
  "(\<And>path. bt_get (fst r) path \<noteq> None \<Longrightarrow> CHR ''/'' \<in> set path) \<Longrightarrow>
     bt_get (fst (pins_of sv index pkgs r)) path \<noteq> None \<Longrightarrow> CHR ''/'' \<in> set path"
proof (induction sv index pkgs r arbitrary: path rule: pins_of.induct)
  case (2 sv index pkg pkgs pins pin_paths)
  show ?case
    by (rule "2.IH" [OF _ "2.prems"(2) [unfolded pins_of.simps]])
      (use "2.prems"(1) in \<open>auto simp: bt_get_insert Let_def split: sum.splits if_splits\<close>)
qed simp

lemma machine_pin_slash: "bt_get (machine_pins sv doc) path = Some pin \<Longrightarrow> CHR ''/'' \<in> set path"
  unfolding machine_pins_def by (rule pins_of_slash [where path = path]) (auto simp: bt.get_empty)

lemma package_ref_name_slash: "valid_package_ref_name path \<Longrightarrow> CHR ''/'' \<in> set path"
  by (auto simp: valid_package_ref_name_def split_once_Some_iff split: option.splits)

lemma root_slash: "path \<in> set (implicit_roots doc) \<Longrightarrow> CHR ''/'' \<in> set path"
  by (rule package_ref_name_slash) (auto simp: implicit_roots_def split: if_splits)

lemma bt_get_in_keys: "bt_get m k = Some v \<Longrightarrow> k \<in> set (bt_keys m)"
  by (force simp: bt_keys_def dest: bt_get_Some_in)

section \<open>Examples\<close>

text \<open>Versions and bounds of one digit, to evaluate the resolver.\<close>

definition digit_of :: "string \<Rightarrow> string + nat" where
  "digit_of s = (case s of [c] \<Rightarrow> Inr (of_char c - 48) | _ \<Rightarrow> Inl ''not a digit'')"

definition digit_versions :: "(nat, nat) semver_ops" where
  "digit_versions = \<lparr>sv_parse_version = digit_of, sv_parse_req = digit_of, sv_matches = (\<lambda>r v. v < r),
     sv_version_text = (\<lambda>v. [char_of (48 + v)]), sv_req_text = (\<lambda>r. [char_of (48 + r)])\<rparr>"

definition demo_package :: "string \<Rightarrow> nat \<Rightarrow> (string \<times> string) list \<Rightarrow> nat LoadedPackage" where
  "demo_package name version dependencies =
     \<lparr>lp_reference = \<lparr>pr_namespace = ''p'', pr_name = name, pr_version = version\<rparr>,
      lp_kind = SafetyProfile, lp_dir = [],
      lp_manifest = \<lparr>mf_package = \<lparr>pi_namespace = ''p'', pi_name = name, pi_version = version, pi_kind = SafetyProfile\<rparr>,
        mf_dependencies = map (\<lambda>(d, r). (d, \<lparr>dep_version = r\<rparr>)) dependencies\<rparr>\<rparr>"

definition demo_registry :: "nat LoadedPackage list \<Rightarrow> nat LocalRegistry" where
  "demo_registry packages = \<lparr>lr_source = None, lr_packages = packages, lr_diagnostics = []\<rparr>"

definition demo_machine :: "string list \<Rightarrow> string \<Rightarrow> unit MachineDoc" where
  "demo_machine packages profile =
     \<lparr>doc_api_version = [], doc_kind = [], doc_metadata = \<lparr>md_name = [], md_description = None\<rparr>,
      doc_packages = packages, doc_controllers = [], doc_components = [],
      doc_kinematics = \<lparr>km_kind = [], km_limits = []\<rparr>, doc_safety = \<lparr>sf_profile = profile\<rparr>,
      doc_workflows = [], doc_calibration = None\<rparr>"

definition demo_selection :: "string list \<Rightarrow> nat LoadedPackage list \<Rightarrow> (string \<times> nat) list \<times> bool" where
  "demo_selection pins packages =
     (case resolve_packages digit_versions (\<lambda>_ _. None) (demo_machine pins ''p/r'') (demo_registry packages) [] of
        (selection, out) \<Rightarrow> (ps_chosen selection, filter is_error out = []))"

text \<open>
  A root needs a library below version 3: of the versions 1, 2 and 3 the second is taken; and if the machine
  pins the first, that one.
\<close>

lemma demo_highest:
  "demo_selection [] [demo_package ''r'' 1 [(''p/l'', ''3'')], demo_package ''l'' 1 [], demo_package ''l'' 2 [],
     demo_package ''l'' 3 []] = ([(''p/l'', 2), (''p/r'', 1)], True)"
  by code_simp

lemma demo_pinned:
  "demo_selection [''p/l@1''] [demo_package ''r'' 1 [(''p/l'', ''3'')], demo_package ''l'' 1 [], demo_package ''l'' 2 [],
     demo_package ''l'' 3 []] = ([(''p/l'', 1), (''p/r'', 1)], True)"
  by code_simp

text \<open>
  Requirements outlive the version that brought them in when the packages they chose require each other: the
  second version of the root required \<^verbatim>\<open>a\<close>, which excludes it, and \<^verbatim>\<open>a\<close> and \<^verbatim>\<open>b\<close> keep each other
  in the closure although nothing that the machine needs requires them.
\<close>

lemma demo_stale_cycle:
  "demo_selection [] [demo_package ''r'' 1 [], demo_package ''r'' 2 [(''p/a'', ''9'')],
     demo_package ''a'' 1 [(''p/b'', ''9''), (''p/r'', ''2'')], demo_package ''b'' 1 [(''p/a'', ''9'')]] =
     ([(''p/a'', 1), (''p/b'', 1), (''p/r'', 1)], True)"
  by code_simp

text \<open>A dependency without a namespace is neither resolved nor reported.\<close>

lemma demo_unnamed_dependency:
  "demo_selection [] [demo_package ''r'' 1 [(''l'', ''3'')]] = ([(''p/r'', 1)], True)"
  by code_simp

section \<open>The closure\<close>

text \<open>
  Claim C34:  a machine whose packages resolve without an error gets a closure that is consistent: every version
  of the closure is in the registry, satisfies the requirements of every package of the closure, equals the
  pin of the machine where there is one, and is otherwise the highest version that satisfies them.
\<close>

theorem closure_consistent:
  assumes "resolve_packages sv locate doc registry diagnostics = (selection, out)" "filter is_error out = []"
    and "selection_version selection path = Some v"
  shows "\<exists>namespace name. split_once (CHR ''/'') path = Some (namespace, name) \<and>
      v \<in> set (versions namespace name registry) \<and>
      (\<forall>r\<in>requirements_on sv selection path. sv_matches sv r v) \<and>
      (\<forall>pin. bt_get (machine_pins sv doc) path = Some pin \<longrightarrow> v = pin) \<and>
      (bt_get (machine_pins sv doc) path = None \<longrightarrow> (\<forall>u\<in>set (versions namespace name registry).
         (\<forall>r\<in>requirements_on sv selection path. sv_matches sv r u) \<longrightarrow> u \<le> v))"
  by (rule selection_choice(2) [OF assms])

text \<open>
  Claim C35: and the closure is complete: it holds, for every path the machine pins, the version it pins last;
  every board, safety profile and workflow package the machine names; and for every requirement that a package
  of the closure places on a name with a namespace, a version that satisfies it.  Requirements on a name without
  a namespace are not covered, as the code does not look at them.
\<close>

theorem closure_complete:
  assumes "resolve_packages sv locate doc registry diagnostics = (selection, out)" "filter is_error out = []"
  shows "(\<forall>path pin. bt_get (machine_pins sv doc) path = Some pin \<longrightarrow> selection_version selection path = Some pin) \<and>
    (\<forall>path\<in>set (implicit_roots doc). selection_contains selection path) \<and>
    (\<forall>path r. r \<in> requirements_on sv selection path \<longrightarrow> CHR ''/'' \<in> set path \<longrightarrow>
       (\<exists>v. selection_version selection path = Some v \<and> sv_matches sv r v))"
proof -
  have in_closure: "\<exists>v. selection_version selection path = Some v"
    if slash: "CHR ''/'' \<in> set path"
      and why: "path \<in> set (bt_keys (machine_pins sv doc)) \<union> set (implicit_roots doc) \<or> requirements_on sv selection path \<noteq> {}" for path
  proof -
    obtain namespace name where "split_once (CHR ''/'') path = Some (namespace, name)"
      using split_once_sep [OF slash] by blast
    have "selection_contains selection path"
      by (rule selection_choice(1) [OF assms why \<open>split_once (CHR ''/'') path = Some (namespace, name)\<close>])
    then show ?thesis unfolding selection_contains_def selection_version_def by blast
  qed
  show ?thesis
  proof (intro conjI allI ballI impI)
    fix path pin
    assume p: "bt_get (machine_pins sv doc) path = Some pin"
    have "path \<in> set (bt_keys (machine_pins sv doc))" using p by (rule bt_get_in_keys)
    then obtain v where v: "selection_version selection path = Some v"
      using in_closure [OF machine_pin_slash [OF p]] by auto
    then show "selection_version selection path = Some pin" using selection_choice(2) [OF assms v] p by auto
  next
    fix path
    assume p: "path \<in> set (implicit_roots doc)"
    then show "selection_contains selection path"
      using in_closure [OF root_slash [OF p]] by (auto simp: selection_contains_def selection_version_def)
  next
    fix path r
    assume r: "r \<in> requirements_on sv selection path" "CHR ''/'' \<in> set path"
    then obtain v where v: "selection_version selection path = Some v" using in_closure [OF r(2)] by auto
    then show "\<exists>v. selection_version selection path = Some v \<and> sv_matches sv r v"
      using selection_choice(2) [OF assms v] r by blast
  qed
qed

text \<open>Both at the machine that pins nothing and the one that pins a library.\<close>

definition demo_libraries :: "nat LoadedPackage list" where
  "demo_libraries = [demo_package ''r'' 1 [(''p/l'', ''3'')], demo_package ''l'' 1 [], demo_package ''l'' 2 [],
     demo_package ''l'' 3 []]"

definition demo_resolved :: "string list \<Rightarrow> nat PackageSelection \<times> Diagnostic list" where
  "demo_resolved pins = resolve_packages digit_versions (\<lambda>_ _. None) (demo_machine pins ''p/r'')
     (demo_registry demo_libraries) []"

lemma demo_resolved_pair:
  "resolve_packages digit_versions (\<lambda>_ _. None) (demo_machine pins ''p/r'') (demo_registry demo_libraries) [] =
     (fst (demo_resolved pins), snd (demo_resolved pins))"
  by (simp add: demo_resolved_def)

lemma demo_resolved_fine:
  "filter is_error (snd (demo_resolved [])) = []"
  "filter is_error (snd (demo_resolved [''p/l@1''])) = []"
  "selection_version (fst (demo_resolved [])) ''p/l'' = Some 2"
  by code_simp+

theorem closure_consistent_witness:
  "selection_version (fst (demo_resolved [])) ''p/l'' = Some 2 \<and> 2 \<in> set (versions ''p'' ''l'' (demo_registry demo_libraries))"
proof -
  have "split_once (CHR ''/'') ''p/l'' = Some (''p'', ''l'')" by code_simp
  then show ?thesis
    using closure_consistent [OF demo_resolved_pair demo_resolved_fine(1,3)] demo_resolved_fine(3) by simp
qed

theorem closure_complete_witness:
  "selection_version (fst (demo_resolved [''p/l@1''])) ''p/l'' = Some 1 \<and>
     selection_contains (fst (demo_resolved [''p/l@1''])) ''p/r''"
proof -
  have "bt_get (machine_pins digit_versions (demo_machine [''p/l@1''] ''p/r'')) ''p/l'' = Some 1"
    "''p/r'' \<in> set (implicit_roots (demo_machine [''p/l@1''] ''p/r''))"
    by code_simp+
  then show ?thesis using closure_complete [OF demo_resolved_pair demo_resolved_fine(2)] by blast
qed

end
