(* ===== verification/Targets.thy ===== *)
theory Targets
  imports Closure Allocation
begin

text \<open>
  \<^verbatim>\<open>crates/machine-resolver/src/targets.rs\<close>, \<^verbatim>\<open>expansion.rs\<close> and \<^verbatim>\<open>requirements.rs\<close>: the boards and chips of the
  controllers, the expansion of the machine by the templates of its packages, and what its devices
  require.  \<^verbatim>\<open>spans\<close> finds a path in the source of a package.
\<close>

section \<open>Boards and chips\<close>

record 'ver ControllerTargets =
  ct_boards :: "(string, 'ver BoardPackageFile) btree"
  ct_chips :: "(string, 'ver ChipPackageFile) btree"
  ct_chip_refs :: "(string, string) btree"

definition controller_path :: "string \<Rightarrow> string \<Rightarrow> string" where
  "controller_path name field = ''controllers.'' @ name @ ''.'' @ field"

text \<open>The pins of a board that its chip does not have.\<close>

definition unwired_pins ::
  "string \<Rightarrow> string \<Rightarrow> 'ver ChipPackageFile \<Rightarrow> (string, Connector) btree \<Rightarrow> Diagnostic list" where
  "unwired_pins board chip_reference chip connectors =
     (if cp_pin_functions chip = [] then []
      else concat (map (\<lambda>(connector_id, c).
        concat (map (\<lambda>pin. if bt_get (cp_pin_functions chip) pin \<noteq> None then []
            else [diag_error ''E1312'' (''board '' @ quoted board @ '' connector '' @ quoted connector_id @ '' wires pin ''
              @ pin @ '', which chip '' @ quoted chip_reference @ '' does not declare'')])
          (bt_values (cn_pins c) @ (case cn_pin c of None \<Rightarrow> [] | Some p \<Rightarrow> [p])))) connectors))"

text \<open>The chip of a board: the targets and the diagnostics it adds.\<close>

definition load_chip ::
  "('f, 'z) text_float_ops_scheme \<Rightarrow> ('ver :: linorder, 'req) semver_ops \<Rightarrow> ('v, 'ver) package_files \<Rightarrow>
     'ver PackageSelection \<Rightarrow> string \<Rightarrow> string \<Rightarrow> 'ver BoardPackageFile \<Rightarrow>
     'ver ControllerTargets \<times> Diagnostic list \<Rightarrow> 'ver ControllerTargets \<times> Diagnostic list" where
  "load_chip fo sv files packages controller_name board payload = (\<lambda>(targets, diagnostics).
     case bp_chip payload of
       None \<Rightarrow> (targets, diagnostics)
     | Some chip_reference \<Rightarrow>
         (case select packages chip_reference of
            None \<Rightarrow>
              (targets, diagnostics @ [diag_error ''E1313'' (''board '' @ quoted board @ '' references chip ''
                 @ quoted chip_reference @ '', which is not in the registry'')])
          | Some chip_package \<Rightarrow>
              let diagnostics1 = diagnostics @
                    (if selection_contains packages chip_reference then []
                     else [diag_warning ''E1311'' (''board '' @ quoted board @ '' chip '' @ quoted chip_reference
                       @ '' is not in the dependency closure; using ''
                       @ sv_version_text sv (pr_version (lp_reference chip_package)) @ '' (highest available)'')]) in
              (case chip_payload fo sv files chip_package of
                 Inl errors \<Rightarrow> (targets, diagnostics1 @ errors)
               | Inr chip \<Rightarrow>
                   (targets\<lparr>ct_chips := bt_insert controller_name chip (ct_chips targets),
                            ct_chip_refs := bt_insert controller_name (package_ref_text sv (lp_reference chip_package))
                              (ct_chip_refs targets)\<rparr>,
                    diagnostics1 @ unwired_pins board chip_reference chip (bp_connectors payload)))))"

definition load_controller ::
  "('f, 'z) text_float_ops_scheme \<Rightarrow> ('ver :: linorder, 'req) semver_ops \<Rightarrow> ('v, 'ver) package_files \<Rightarrow>
     'ver PackageSelection \<Rightarrow> string \<times> MachineController \<Rightarrow>
     'ver ControllerTargets \<times> Diagnostic list \<Rightarrow> 'ver ControllerTargets \<times> Diagnostic list" where
  "load_controller fo sv files packages = (\<lambda>(controller_name, controller) (targets, diagnostics).
     let board = mc_board controller;
         board_error = (\<lambda>code message. diag_at (controller_path controller_name ''board'')
           (diag_error code (''controller '' @ quoted controller_name @ '': '' @ message))) in
     if split_once (CHR ''/'') board = None
     then (targets, diagnostics @ [board_error ''E1110'' (''board '' @ quoted board @ '' must be '' @ quoted ''namespace/name'')])
     else
       (case select packages board of
          None \<Rightarrow>
            (targets, diagnostics @ [board_error ''E1111'' (''board package '' @ quoted board @ '' is not in the registry'')])
        | Some package \<Rightarrow>
            (case board_payload fo sv files package of
               Inl errors \<Rightarrow> (targets, diagnostics @ errors)
             | Inr payload \<Rightarrow>
                 let kind = tp_kind (mc_transport controller);
                     diagnostics1 = diagnostics @
                       (if bt_get (bp_transports payload) kind \<noteq> None then []
                        else [diag_at (controller_path controller_name ''transport'')
                          (diag_error ''E1120'' (''controller '' @ quoted controller_name @ '': board '' @ quoted board
                            @ '' has no '' @ quoted kind @ '' transport''))]) in
                 (case load_chip fo sv files packages controller_name board payload (targets, diagnostics1) of
                    (targets1, diagnostics2) \<Rightarrow>
                      (targets1\<lparr>ct_boards := bt_insert controller_name payload (ct_boards targets1)\<rparr>, diagnostics2)))))"

definition load_targets ::
  "('f, 'z) text_float_ops_scheme \<Rightarrow> ('ver :: linorder, 'req) semver_ops \<Rightarrow> ('v, 'ver) package_files \<Rightarrow> 'v MachineDoc \<Rightarrow>
     'ver PackageSelection \<Rightarrow> Diagnostic list \<Rightarrow> 'ver ControllerTargets \<times> Diagnostic list" where
  "load_targets fo sv files doc packages diagnostics =
     fold (load_controller fo sv files packages) (doc_controllers doc)
       (\<lparr>ct_boards = bt_empty, ct_chips = bt_empty, ct_chip_refs = bt_empty\<rparr>, diagnostics)"

section \<open>Expansion\<close>

record 'v ExpandedGraph =
  eg_doc :: "'v MachineDoc"
  eg_sources :: "(string, SourceSpan) btree"

definition insert_source :: "string \<Rightarrow> SourceSpan option \<Rightarrow> (string, SourceSpan) btree \<Rightarrow> (string, SourceSpan) btree" where
  "insert_source path source sources = (case source of None \<Rightarrow> sources | Some s \<Rightarrow> bt_insert path s sources)"

definition component_sources ::
  "(string \<Rightarrow> SourceSpan option) \<Rightarrow> string \<Rightarrow> 'v Component \<Rightarrow> (string, SourceSpan) btree \<Rightarrow> (string, SourceSpan) btree" where
  "component_sources get_span component_id cmp sources =
     fold (\<lambda>attribute. insert_source (attribute_path component_id attribute)
         (get_span (''template.components.'' @ component_id @ ''.'' @ attribute)))
       (bt_keys (co_attributes cmp))
       (insert_source (component_path component_id) (get_span (''template.components.'' @ component_id)) sources)"

definition added_component :: "string \<Rightarrow> string \<Rightarrow> Diagnostic" where
  "added_component component_id path =
     diag_info ''I1133'' (''component '' @ quoted component_id @ '' expanded from '' @ quoted path)"

text \<open>One component of a template: invalid, shadowed by the machine, or added.\<close>

definition expand_component ::
  "(string \<Rightarrow> SourceSpan option) \<Rightarrow> string \<Rightarrow> string \<times> 'v Component \<Rightarrow>
     'v ExpandedGraph \<times> Diagnostic list \<Rightarrow> 'v ExpandedGraph \<times> Diagnostic list" where
  "expand_component get_span path = (\<lambda>(component_id, cmp) (graph, diagnostics).
     if \<not> valid_identifier component_id
     then (graph, diagnostics @ [diag_error ''E1131'' (''template component '' @ quoted component_id @ '' from ''
            @ quoted path @ '' is not a valid identifier'')])
     else if bt_get (doc_components (eg_doc graph)) component_id \<noteq> None
     then (graph, diagnostics @ [diag_info ''I1132'' (''source component '' @ quoted component_id
            @ '' shadows the template from '' @ quoted path)])
     else
       (graph\<lparr>eg_doc := (eg_doc graph)\<lparr>doc_components := bt_insert component_id cmp (doc_components (eg_doc graph))\<rparr>,
              eg_sources := component_sources get_span component_id cmp (eg_sources graph)\<rparr>,
        diagnostics @ [added_component component_id path]))"

definition added_limit :: "string \<Rightarrow> string \<Rightarrow> Diagnostic" where
  "added_limit limit path =
     diag_info ''I1133'' (''kinematics limit '' @ quoted limit @ '' defaulted from '' @ quoted path)"

definition limits_of :: "'v ExpandedGraph \<Rightarrow> (string, string) btree" where
  "limits_of graph = km_limits (doc_kinematics (eg_doc graph))"

definition set_limit :: "string \<Rightarrow> string \<Rightarrow> 'v ExpandedGraph \<Rightarrow> 'v ExpandedGraph" where
  "set_limit limit val graph =
     graph\<lparr>eg_doc := (eg_doc graph)\<lparr>doc_kinematics := (doc_kinematics (eg_doc graph))
       \<lparr>km_limits := bt_insert limit val (limits_of graph)\<rparr>\<rparr>\<rparr>"

definition expand_limit ::
  "('f, 'z) text_float_ops_scheme \<Rightarrow> string \<Rightarrow> string \<times> string \<Rightarrow>
     'v ExpandedGraph \<times> Diagnostic list \<Rightarrow> 'v ExpandedGraph \<times> Diagnostic list" where
  "expand_limit fo path = (\<lambda>(limit, val) (graph, diagnostics).
     if bt_get (limits_of graph) limit \<noteq> None then (graph, diagnostics)
     else if \<not> is_ok (quantity_parse fo val)
     then (graph, diagnostics @ [diag_error ''E1134'' (''template limit '' @ quoted limit @ '' from '' @ quoted path
            @ '': '' @ quoted val @ '' is not a valid quantity'')])
     else (set_limit limit val graph,
           diagnostics @ [added_limit limit path]))"

definition expand_kinematics ::
  "('f, 'z) text_float_ops_scheme \<Rightarrow> string \<Rightarrow> TemplateKinematics \<Rightarrow>
     'v ExpandedGraph \<times> Diagnostic list \<Rightarrow> 'v ExpandedGraph \<times> Diagnostic list" where
  "expand_kinematics fo path kinematics = (\<lambda>(graph, diagnostics).
     let declared = km_kind (doc_kinematics (eg_doc graph)) in
     fold (expand_limit fo path) (tk_limits kinematics)
       (graph, diagnostics @
          (case tk_kind kinematics of
             None \<Rightarrow> []
           | Some kind \<Rightarrow>
               if kind \<noteq> declared
               then [diag_warning ''E1130'' (''machine class '' @ quoted path @ '' assumes '' @ kind
                 @ '' kinematics but the source declares '' @ declared)]
               else [])))"

definition expand_package ::
  "('f, 'z) text_float_ops_scheme \<Rightarrow> ('ver :: linorder, 'req) semver_ops \<Rightarrow> ('v, 'ver) package_files \<Rightarrow>
     (string \<Rightarrow> string \<Rightarrow> SourceSpan option) \<Rightarrow> 'ver PackageSelection \<Rightarrow> string \<Rightarrow>
     'v ExpandedGraph \<times> Diagnostic list \<Rightarrow> 'v ExpandedGraph \<times> Diagnostic list" where
  "expand_package fo sv files spans packages path = (\<lambda>(graph, diagnostics).
     case select packages path of
       None \<Rightarrow> (graph, diagnostics)
     | Some package \<Rightarrow>
         if lp_kind package \<noteq> Machine then (graph, diagnostics)
         else
           (case machine_payload sv files package of
              Inl errors \<Rightarrow> (graph, diagnostics @ errors)
            | Inr payload \<Rightarrow>
                (case mp_template payload of
                   None \<Rightarrow> (graph, diagnostics)
                 | Some template \<Rightarrow>
                     let expanded = fold (expand_component (spans (package_ref_text sv (lp_reference package))) path)
                           (te_components template) (graph, diagnostics) in
                     (case te_kinematics template of
                        None \<Rightarrow> expanded
                      | Some kinematics \<Rightarrow> expand_kinematics fo path kinematics expanded))))"

definition expand ::
  "('f, 'z) text_float_ops_scheme \<Rightarrow> ('ver :: linorder, 'req) semver_ops \<Rightarrow> ('v, 'ver) package_files \<Rightarrow>
     (string \<Rightarrow> string \<Rightarrow> SourceSpan option) \<Rightarrow> 'v MachineDoc \<Rightarrow> 'ver PackageSelection \<Rightarrow> Diagnostic list \<Rightarrow>
     'v ExpandedGraph \<times> Diagnostic list" where
  "expand fo sv files spans doc packages diagnostics =
     fold (expand_package fo sv files spans packages) (selection_paths packages)
       (\<lparr>eg_doc = doc, eg_sources = bt_empty\<rparr>, diagnostics)"

section \<open>Device requirements\<close>

definition device_requirement ::
  "('ver, 'req) semver_ops \<Rightarrow> 'ver LoadedPackage \<Rightarrow> 'ver DevicePackageFile \<Rightarrow> DeviceRequirement" where
  "device_requirement sv dev payload =
     \<lparr>dr_reference = package_ref_text sv (lp_reference dev),
      dr_connector = Option.bind (dp_requires payload) rq_connector,
      dr_domains = (case dp_requires payload of None \<Rightarrow> [] | Some r \<Rightarrow> rq_voltage_domains r),
      dr_bus = Option.bind (dp_requires payload) rq_bus\<rparr>"

definition collect_one ::
  "('f, 'z) text_float_ops_scheme \<Rightarrow> ('ver :: linorder, 'req) semver_ops \<Rightarrow> ('v, 'ver) package_files \<Rightarrow>
     'ver PackageSelection \<Rightarrow> 'v Component \<Rightarrow> (string, DeviceRequirement) btree \<Rightarrow> (string, DeviceRequirement) btree" where
  "collect_one fo sv files packages cmp device_reqs =
     (if bt_get device_reqs (co_kind cmp) \<noteq> None then device_reqs
      else
        (case select packages (''devices/'' @ co_kind cmp) of
           None \<Rightarrow> device_reqs
         | Some dev \<Rightarrow>
             (case device_payload fo sv files dev of
                Inl _ \<Rightarrow> device_reqs
              | Inr payload \<Rightarrow> bt_insert (co_kind cmp) (device_requirement sv dev payload) device_reqs)))"

definition collect ::
  "('f, 'z) text_float_ops_scheme \<Rightarrow> ('ver :: linorder, 'req) semver_ops \<Rightarrow> ('v, 'ver) package_files \<Rightarrow> 'v MachineDoc \<Rightarrow>
     'ver PackageSelection \<Rightarrow> (string, DeviceRequirement) btree" where
  "collect fo sv files doc packages =
     fold (collect_one fo sv files packages) (bt_values (doc_components doc)) bt_empty"

section \<open>The machine wins over its templates\<close>

lemma fold_related:
  assumes "\<And>s. R s s" "\<And>s t u. R s t \<Longrightarrow> R t u \<Longrightarrow> R s u" "\<And>x s. R s (g x s)"
  shows "R s (fold g xs s)"
proof (induction xs arbitrary: s)
  case (Cons x xs)
  have "R s (fold g xs (g x s))" by (rule assms(2) [OF assms(3) Cons.IH])
  then show ?case by simp
qed (simp add: assms(1))

text \<open>The diagnostics that announce what a template adds.\<close>

definition component_announced :: "Diagnostic list \<Rightarrow> string \<Rightarrow> bool" where
  "component_announced ds n \<longleftrightarrow>
     (\<exists>path. added_component n path \<in> set ds)"

definition limit_announced :: "Diagnostic list \<Rightarrow> string \<Rightarrow> bool" where
  "limit_announced ds l \<longleftrightarrow>
     (\<exists>path. added_limit l path \<in> set ds)"

text \<open>A map that keeps its entries, and whose new entries satisfy a condition.\<close>

definition grows :: "('k \<Rightarrow> 'a \<Rightarrow> bool) \<Rightarrow> ('k :: linorder, 'a) btree \<Rightarrow> ('k, 'a) btree \<Rightarrow> bool" where
  "grows P m n \<longleftrightarrow> (\<forall>k v. bt_get m k = Some v \<longrightarrow> bt_get n k = Some v) \<and>
     (\<forall>k v. bt_get m k = None \<and> bt_get n k = Some v \<longrightarrow> P k v) \<and> (bt_inv m \<longrightarrow> bt_inv n)"

lemma grows_refl [simp]: "grows P m m"
  by (auto simp: grows_def)

lemma grows_trans:
  assumes "grows P m n" "grows P n k" shows "grows P m k"
proof -
  have "P x v" if "bt_get m x = None" "bt_get k x = Some v" for x v
    using assms that by (cases "bt_get n x") (auto simp: grows_def)
  then show ?thesis using assms by (auto simp: grows_def)
qed

lemma grows_insert: "bt_get m k = None \<Longrightarrow> P k v \<Longrightarrow> grows P m (bt_insert k v m)"
  by (auto simp: grows_def bt_get_insert bt_inv_insert)

lemma grows_mono: "grows P m n \<Longrightarrow> (\<And>k v. P k v \<Longrightarrow> Q k v) \<Longrightarrow> grows Q m n"
  by (auto simp: grows_def)

text \<open>Documents that differ in components and limits only.\<close>

definition same_rest :: "'v MachineDoc \<Rightarrow> 'v MachineDoc \<Rightarrow> bool" where
  "same_rest doc doc1 \<longleftrightarrow> (\<exists>cs ls. doc1 = doc\<lparr>doc_components := cs,
     doc_kinematics := (doc_kinematics doc)\<lparr>km_limits := ls\<rparr>\<rparr>)"

lemma same_rest_refl [simp]: "same_rest doc doc"
  unfolding same_rest_def
  by (rule exI [where x = "doc_components doc"], rule exI [where x = "km_limits (doc_kinematics doc)"]) simp

lemma same_rest_trans: "same_rest a b \<Longrightarrow> same_rest b c \<Longrightarrow> same_rest a c"
  unfolding same_rest_def by (elim exE) (rule exI, rule exI, simp)

lemma same_rest_component: "same_rest doc (doc\<lparr>doc_components := cs\<rparr>)"
  unfolding same_rest_def
  by (rule exI [where x = cs], rule exI [where x = "km_limits (doc_kinematics doc)"]) simp

lemma same_rest_limit: "same_rest doc (doc\<lparr>doc_kinematics := (doc_kinematics doc)\<lparr>km_limits := ls\<rparr>\<rparr>)"
  unfolding same_rest_def
  by (rule exI [where x = "doc_components doc"], rule exI [where x = ls]) simp

text \<open>The step from one graph with its diagnostics to another in which the machine wins.\<close>

definition expands ::
  "('f, 'z) text_float_ops_scheme \<Rightarrow> 'v ExpandedGraph \<times> Diagnostic list \<Rightarrow> 'v ExpandedGraph \<times> Diagnostic list \<Rightarrow> bool" where
  "expands fo = (\<lambda>(g, d) (g1, d1).
     set d \<subseteq> set d1 \<and>
     grows (\<lambda>n c. valid_identifier n \<and> component_announced d1 n) (doc_components (eg_doc g)) (doc_components (eg_doc g1)) \<and>
     grows (\<lambda>l v. is_ok (quantity_parse fo v) \<and> limit_announced d1 l) (limits_of g) (limits_of g1) \<and>
     same_rest (eg_doc g) (eg_doc g1))"

lemma announced_mono:
  "set d \<subseteq> set d1 \<Longrightarrow> component_announced d n \<Longrightarrow> component_announced d1 n"
  "set d \<subseteq> set d1 \<Longrightarrow> limit_announced d n \<Longrightarrow> limit_announced d1 n"
  by (auto simp: component_announced_def limit_announced_def)

lemma expands_refl: "expands fo s s"
  by (cases s) (simp add: expands_def)

lemma expands_more: "expands fo (g, d) (g, d @ ds)"
  using expands_refl [of fo "(g, d)"] by (auto simp: expands_def)

lemma expands_trans:
  assumes "expands fo s t" "expands fo t u" shows "expands fo s u"
proof -
  obtain g d g1 d1 g2 d2 where s: "s = (g, d)" "t = (g1, d1)" "u = (g2, d2)" by (metis surj_pair)
  have sub: "set d1 \<subseteq> set d2" "set d \<subseteq> set d1" using assms by (auto simp: s expands_def)
  have "grows (\<lambda>n c. valid_identifier n \<and> component_announced d2 n) (doc_components (eg_doc g)) (doc_components (eg_doc g2))"
  proof (rule grows_trans)
    show "grows (\<lambda>n c. valid_identifier n \<and> component_announced d2 n) (doc_components (eg_doc g)) (doc_components (eg_doc g1))"
      using assms(1) announced_mono(1) [OF sub(1)] by (auto simp: s expands_def elim!: grows_mono)
  qed (use assms(2) in \<open>simp add: s expands_def\<close>)
  moreover have "grows (\<lambda>l v. is_ok (quantity_parse fo v) \<and> limit_announced d2 l) (limits_of g) (limits_of g2)"
  proof (rule grows_trans)
    show "grows (\<lambda>l v. is_ok (quantity_parse fo v) \<and> limit_announced d2 l) (limits_of g) (limits_of g1)"
      using assms(1) announced_mono(2) [OF sub(1)] by (auto simp: s expands_def elim!: grows_mono)
  qed (use assms(2) in \<open>simp add: s expands_def\<close>)
  moreover have "same_rest (eg_doc g) (eg_doc g2)"
    using assms by (auto simp: s expands_def intro: same_rest_trans)
  ultimately show ?thesis using sub by (auto simp: s expands_def)
qed

lemma expand_component_expands: "expands fo s (expand_component get_span path c s)"
proof -
  obtain g d n cmp where s: "s = (g, d)" "c = (n, cmp)" by (metis surj_pair)
  show ?thesis
  proof (cases "valid_identifier n \<and> bt_get (doc_components (eg_doc g)) n = None")
    case False
    then show ?thesis by (auto simp: s expand_component_def expands_more)
  next
    case True
    let ?d = "d @ [added_component n path]"
    have "component_announced ?d n" by (auto simp: component_announced_def)
    with True show ?thesis
      by (auto simp: s expand_component_def expands_def grows_insert limits_of_def same_rest_component)
  qed
qed

lemma expand_limit_expands: "expands fo s (expand_limit fo path l s)"
proof -
  obtain g d n v where s: "s = (g, d)" "l = (n, v)" by (metis surj_pair)
  show ?thesis
  proof (cases "is_ok (quantity_parse fo v) \<and> bt_get (limits_of g) n = None")
    case False
    then show ?thesis by (auto simp: s expand_limit_def expands_more expands_refl)
  next
    case True
    let ?d = "d @ [added_limit n path]"
    have "limit_announced ?d n" by (auto simp: limit_announced_def)
    moreover have "limits_of (set_limit n v g) = bt_insert n v (limits_of g)"
      "doc_components (eg_doc (set_limit n v g)) = doc_components (eg_doc g)"
      "same_rest (eg_doc g) (eg_doc (set_limit n v g))"
      by (simp_all add: set_limit_def limits_of_def same_rest_limit)
    ultimately show ?thesis using True
      by (auto simp: s expand_limit_def expands_def grows_insert)
  qed
qed

lemma expand_package_expands: "expands fo s (expand_package fo sv files spans packages path s)"
proof -
  obtain g d where s: "s = (g, d)" by (metis surj_pair)
  have comps: "expands fo s (fold (expand_component get_span path) cs s)" for get_span cs
    by (rule fold_related [where R = "expands fo"]) (blast intro: expands_refl expands_trans expand_component_expands)+
  have kin: "expands fo t (expand_kinematics fo path k t)" for k t
  proof -
    obtain g1 d1 where t: "t = (g1, d1)" by (metis surj_pair)
    have "expands fo (g1, d1 @ ds) (fold (expand_limit fo path) ls (g1, d1 @ ds))" for ds ls
      by (rule fold_related [where R = "expands fo"]) (blast intro: expands_refl expands_trans expand_limit_expands)+
    from expands_trans [OF expands_more this] show ?thesis
      by (simp add: t expand_kinematics_def Let_def)
  qed
  show ?thesis
    using comps expands_trans [OF comps kin]
    by (auto simp: s expand_package_def expands_refl expands_more Let_def split: option.split sum.split)
qed

lemma expand_expands: "expands fo (\<lparr>eg_doc = doc, eg_sources = bt_empty\<rparr>, diagnostics)
    (expand fo sv files spans doc packages diagnostics)"
  unfolding expand_def
  by (rule fold_related [where R = "expands fo"]) (blast intro: expands_refl expands_trans expand_package_expands)+

section \<open>Properties\<close>

text \<open>
  Claim C40: the machine wins over the templates of its packages: expansion changes no component and no limit
  that the machine declares and nothing else of it, and every component or limit it adds has a valid name or a
  valid quantity and is announced in the diagnostics.
\<close>
theorem machine_wins:
  assumes "expand fo sv files spans doc packages diagnostics = (graph, out)"
  shows "(\<forall>n c. bt_get (doc_components doc) n = Some c \<longrightarrow> bt_get (doc_components (eg_doc graph)) n = Some c) \<and>
    (\<forall>l v. bt_get (km_limits (doc_kinematics doc)) l = Some v \<longrightarrow> bt_get (limits_of graph) l = Some v) \<and>
    (\<forall>n c. bt_get (doc_components doc) n = None \<longrightarrow> bt_get (doc_components (eg_doc graph)) n = Some c \<longrightarrow>
       valid_identifier n \<and> (\<exists>path. added_component n path \<in> set out)) \<and>
    (\<forall>l v. bt_get (km_limits (doc_kinematics doc)) l = None \<longrightarrow> bt_get (limits_of graph) l = Some v \<longrightarrow>
       is_ok (quantity_parse fo v) \<and> (\<exists>path. added_limit l path \<in> set out)) \<and>
    same_rest doc (eg_doc graph)"
  using expand_expands [of fo doc diagnostics sv files spans packages] assms
  by (auto simp: expands_def grows_def limits_of_def component_announced_def limit_announced_def)

definition demo_template :: "unit Template" where
  "demo_template = \<lparr>te_components = [(''b'', \<lparr>co_kind = ''k'', co_attributes = []\<rparr>), (''f'', \<lparr>co_kind = ''k'', co_attributes = []\<rparr>)],
     te_kinematics = Some \<lparr>tk_kind = None, tk_limits = [(''v'', ''3 mm'')]\<rparr>\<rparr>"

definition demo_files :: "(unit, nat) package_files" where
  "demo_files = \<lparr>pf_read = Inr, pf_board = (\<lambda>_. Inl []), pf_chip = (\<lambda>_. Inl []), pf_device = (\<lambda>_. Inl []),
     pf_machine = (\<lambda>_. Inr \<lparr>mp_package = \<lparr>pi_namespace = ''p'', pi_name = ''m'', pi_version = 1, pi_kind = Machine\<rparr>,
       mp_template = Some demo_template\<rparr>),
     pf_safety = (\<lambda>_. Inl []), pf_workflow = (\<lambda>_. Inl [])\<rparr>"

definition demo_expanded :: "unit ExpandedGraph \<times> Diagnostic list" where
  "demo_expanded = expand int_text_ops digit_versions demo_files (\<lambda>_ _. None)
     ((demo_machine [] ''p/r'')\<lparr>doc_components := [(''f'', \<lparr>co_kind = ''own'', co_attributes = []\<rparr>)]\<rparr>)
     \<lparr>ps_registry = demo_registry [(demo_package ''m'' 1 [])\<lparr>lp_kind := Machine\<rparr>],
      ps_chosen = [(''p/m'', 1)], ps_closure_refs = []\<rparr> []"

theorem machine_wins_witness:
  "map_option co_kind (bt_get (doc_components (eg_doc (fst demo_expanded))) ''f'') = Some ''own'' \<and>
     (\<exists>path. added_component ''b'' path \<in> set (snd demo_expanded))"
proof -
  let ?doc = "(demo_machine [] ''p/r'')\<lparr>doc_components := [(''f'', \<lparr>co_kind = ''own'', co_attributes = []\<rparr>)]\<rparr>"
  have e: "expand int_text_ops digit_versions demo_files (\<lambda>_ _. None) ?doc
     \<lparr>ps_registry = demo_registry [(demo_package ''m'' 1 [])\<lparr>lp_kind := Machine\<rparr>],
      ps_chosen = [(''p/m'', 1)], ps_closure_refs = []\<rparr> [] = (fst demo_expanded, snd demo_expanded)"
    by (simp add: demo_expanded_def)
  have "bt_get (doc_components (eg_doc (fst demo_expanded))) ''b'' = Some \<lparr>co_kind = ''k'', co_attributes = []\<rparr>"
    "bt_get (doc_components ?doc) ''b'' = None"
    "bt_get (doc_components ?doc) ''f'' = Some \<lparr>co_kind = ''own'', co_attributes = []\<rparr>"
    by code_simp+
  then show ?thesis using machine_wins [OF e] by fastforce
qed

end
