(* ===== verification/Safety.thy ===== *)
theory Safety
  imports Allocated Targets "HOL-Library.Product_Lexorder"
begin

text \<open>
  \<^verbatim>\<open>crates/machine-resolver/src/safety.rs\<close>: the safety profile of a machine covers every component with a
  hazardous output, and its policies become safe states of concrete resources on the controller that owns
  them.  \<^verbatim>\<open>as_str\<close> reads a YAML value that is a string.
\<close>

section \<open>Validation\<close>

definition driver_backed :: "('v \<Rightarrow> string option) \<Rightarrow> ResolvedGraph \<Rightarrow> string \<times> 'v Component \<Rightarrow> bool" where
  "driver_backed as_str resolved = (\<lambda>(cname, cmp).
     assignments_of resolved cname = [] \<and> str_attribute as_str ''driver'' cmp \<noteq> None)"

definition hazardous :: "ResolvedGraph \<Rightarrow> string \<Rightarrow> bool" where
  "hazardous resolved cname \<longleftrightarrow> list_ex (\<lambda>a. as_connector_kind a = ''power_output'') (assignments_of resolved cname)"

text \<open>Every controller of a target needs the sensor; \<^verbatim>\<open>seen\<close> holds the controllers already looked at.\<close>

fun edge_diagnostics ::
  "('v \<Rightarrow> string option) \<Rightarrow> ResolvedGraph \<Rightarrow> string \<Rightarrow> 'v Component \<Rightarrow> string \<Rightarrow> string list \<Rightarrow> ResourceId list \<Rightarrow>
     Diagnostic list" where
  "edge_diagnostics as_str resolved cname cmp sensor_name seen [] = []"
| "edge_diagnostics as_str resolved cname cmp sensor_name seen (target # targets) =
     (case split_once (CHR ''.'') target of
        None \<Rightarrow> edge_diagnostics as_str resolved cname cmp sensor_name seen targets
      | Some (controller, _) \<Rightarrow>
          (if controller \<notin> set seen \<and> sensor_resource_on_controller as_str resolved cmp controller = None
           then [diag_at (attribute_path cname ''sensor'')
             (diag_error ''E1504'' (''component '' @ quoted cname @ '' and required sensor '' @ quoted sensor_name
               @ '' must resolve on the same controller as '' @ quoted target))]
           else []) @
          edge_diagnostics as_str resolved cname cmp sensor_name (controller # seen) targets)"

definition sensor_diagnostics ::
  "('v \<Rightarrow> string option) \<Rightarrow> ResolvedGraph \<Rightarrow> string \<Rightarrow> 'v Component \<Rightarrow> ResourceId list \<Rightarrow> Diagnostic list" where
  "sensor_diagnostics as_str resolved cname cmp targets =
     (case str_attribute as_str ''sensor'' cmp of
        Some sensor_name \<Rightarrow>
          if trim sensor_name = []
          then [suggest (''add '' @ quoted ''sensor: <component>'' @ '' referencing a sensor component'')
             (diag_at (component_path cname)
               (diag_error ''E1502'' (''class '' @ quoted (co_kind cmp) @ '' requires a sensor, but component ''
                 @ quoted cname @ '' declares none'')))]
          else if assignments_of resolved sensor_name = []
          then [diag_at (attribute_path cname ''sensor'')
             (diag_error ''E1503'' (''component '' @ quoted cname @ '' requires sensor '' @ quoted sensor_name
               @ '', but that sensor has no resolved controller resource''))]
          else if \<not> list_ex (\<lambda>a. is_sensor_connector_kind (as_connector_kind a)) (assignments_of resolved sensor_name)
          then [diag_at (attribute_path cname ''sensor'')
             (diag_error ''E1507'' (''component '' @ quoted cname @ '' requires sensor '' @ quoted sensor_name
               @ '', but its resolved resource is not a sensor input''))]
          else edge_diagnostics as_str resolved cname cmp sensor_name [] targets
      | None \<Rightarrow>
          [suggest (''add '' @ quoted ''sensor: <component>'' @ '' referencing a sensor component'')
             (diag_at (component_path cname)
               (diag_error ''E1502'' (''class '' @ quoted (co_kind cmp) @ '' requires a sensor, but component ''
                 @ quoted cname @ '' declares none'')))])"

definition uncovered_diagnostic ::
  "string \<Rightarrow> bool \<Rightarrow> string \<Rightarrow> 'v Component \<Rightarrow> Diagnostic" where
  "uncovered_diagnostic profile_name backed cname cmp =
     suggest (''add a '' @ quoted (co_kind cmp) @ '' class to the safety profile or use a covered class'')
       (diag_at (component_path cname)
         (diag_error ''E1501'' (''component '' @ quoted cname @ '' ''
           @ (if backed then ''delegates an actuator output to a driver'' else ''drives a power output'')
           @ '' but class '' @ quoted (co_kind cmp) @ '' has no policy in '' @ quoted profile_name)))"

definition component_safety ::
  "('v \<Rightarrow> string option) \<Rightarrow> string \<Rightarrow> (string, ClassPolicy) btree \<Rightarrow> ResolvedGraph \<Rightarrow> string \<times> 'v Component \<Rightarrow>
     Diagnostic list" where
  "component_safety as_str profile_name classes resolved = (\<lambda>(cname, cmp).
     (case safety_target_resources as_str resolved cname cmp of
        Inl message \<Rightarrow> [diag_at (attribute_path cname ''driver'') (diag_error ''E1506'' message)]
      | Inr targets \<Rightarrow>
          let backed = driver_backed as_str resolved (cname, cmp) in
          (case bt_get classes (co_kind cmp) of
             None \<Rightarrow>
               if hazardous resolved cname \<or> backed then [uncovered_diagnostic profile_name backed cname cmp] else []
           | Some policy \<Rightarrow>
               if targets = []
               then [diag_at (component_path cname)
                 (diag_error ''E1505'' (''component '' @ quoted cname @ '' has class '' @ quoted (co_kind cmp)
                   @ '' safety policy but no concrete controller resource''))]
               else if po_requires_sensor policy then sensor_diagnostics as_str resolved cname cmp targets
               else [])))"

definition safety_validate ::
  "('f, 'z) text_float_ops_scheme \<Rightarrow> ('ver :: linorder, 'req) semver_ops \<Rightarrow> ('v, 'ver) package_files \<Rightarrow>
     ('v \<Rightarrow> string option) \<Rightarrow> 'v MachineDoc \<Rightarrow> ResolvedGraph \<Rightarrow> 'ver PackageSelection \<Rightarrow> Diagnostic list \<Rightarrow>
     'ver SafetyProfileFile option \<times> Diagnostic list" where
  "safety_validate fo sv files as_str doc resolved packages diagnostics =
     (let profile_name = sf_profile (doc_safety doc);
          profile_error = (\<lambda>message. diag_at ''safety.profile''
            (diag_error ''E1500'' (''safety profile '' @ quoted profile_name @ message))) in
      if \<not> valid_package_ref_name profile_name
      then (None, diagnostics @ [profile_error ('' must be '' @ quoted ''namespace/name'')])
      else
        (case select packages profile_name of
           None \<Rightarrow> (None, diagnostics @ [profile_error '' is not in the registry''])
         | Some pkg \<Rightarrow>
             (case safety_profile_payload fo sv files pkg of
                Inl errs \<Rightarrow> (None, diagnostics @ errs)
              | Inr profile \<Rightarrow>
                  (Some profile, diagnostics @
                     concat (map (component_safety as_str profile_name (sp_classes profile) resolved) (doc_components doc))))))"

section \<open>Partitioning\<close>

record PartitionWork =
  pw_owners :: "(ResourceId, string) btree"
  pw_safety :: "(string, ControllerSafeState list) btree"
  pw_diagnostics :: "Diagnostic list"

definition safe_binding ::
  "('f, 'z) text_float_ops_scheme \<Rightarrow> ('v \<Rightarrow> string option) \<Rightarrow> ResolvedGraph \<Rightarrow> string \<Rightarrow> 'v Component \<Rightarrow> ClassPolicy \<Rightarrow>
     string \<Rightarrow> ResourceId \<Rightarrow> ControllerSafeState" where
  "safe_binding fo as_str resolved cname cmp policy controller resource =
     \<lparr>ss_component = cname, ss_class = co_kind cmp, ss_resource = resource, ss_state = po_safe_state policy,
      ss_heartbeat_timeout_us = heartbeat_timeout_us fo policy,
      ss_sensor = (if po_requires_sensor policy then sensor_resource_on_controller as_str resolved cmp controller
                   else None)\<rparr>"

definition partition_resource ::
  "('f, 'z) text_float_ops_scheme \<Rightarrow> ('v \<Rightarrow> string option) \<Rightarrow> ResolvedGraph \<Rightarrow> string \<Rightarrow> 'v Component \<Rightarrow> ClassPolicy \<Rightarrow>
     ResourceId \<Rightarrow> PartitionWork \<Rightarrow> PartitionWork" where
  "partition_resource fo as_str resolved cname cmp policy resource w =
     (case split_once (CHR ''.'') resource of
        None \<Rightarrow> w
      | Some (controller, _) \<Rightarrow>
          (case bt_get (pw_owners w) resource of
             Some existing \<Rightarrow>
               w\<lparr>pw_diagnostics := pw_diagnostics w @
                 [diag_at (component_path cname)
                   (diag_error ''E1508'' (''components '' @ quoted existing @ '' and '' @ quoted cname
                     @ '' both define safety actions for physical resource '' @ quoted resource))]\<rparr>
           | None \<Rightarrow>
               w\<lparr>pw_owners := bt_insert resource cname (pw_owners w),
                 pw_safety := bt_insert controller
                   ((case bt_get (pw_safety w) controller of Some l \<Rightarrow> l | None \<Rightarrow> []) @
                    [safe_binding fo as_str resolved cname cmp policy controller resource]) (pw_safety w)\<rparr>))"

definition partition_component ::
  "('f, 'z) text_float_ops_scheme \<Rightarrow> ('v \<Rightarrow> string option) \<Rightarrow> ResolvedGraph \<Rightarrow> (string, ClassPolicy) btree \<Rightarrow>
     string \<times> 'v Component \<Rightarrow> PartitionWork \<Rightarrow> PartitionWork" where
  "partition_component fo as_str resolved classes = (\<lambda>(cname, cmp) w.
     case (bt_get classes (co_kind cmp), safety_target_resources as_str resolved cname cmp) of
       (Some policy, Inr resources) \<Rightarrow> fold (partition_resource fo as_str resolved cname cmp policy) resources w
     | _ \<Rightarrow> w)"

definition sort_bindings :: "ControllerSafeState list \<Rightarrow> ControllerSafeState list" where
  "sort_bindings = sort_key (\<lambda>b. (ss_component b, ss_resource b))"

definition partition_safety ::
  "('f, 'z) text_float_ops_scheme \<Rightarrow> ('v \<Rightarrow> string option) \<Rightarrow> 'v MachineDoc \<Rightarrow> ResolvedGraph \<Rightarrow>
     'ver SafetyProfileFile option \<Rightarrow> Diagnostic list \<Rightarrow> ResolvedGraph \<times> Diagnostic list" where
  "partition_safety fo as_str doc resolved profile diagnostics =
     (case profile of
        None \<Rightarrow> (resolved, diagnostics)
      | Some profile \<Rightarrow>
          let w = fold (partition_component fo as_str resolved (sp_classes profile)) (doc_components doc)
                \<lparr>pw_owners = bt_empty, pw_safety = rg_controller_safety resolved, pw_diagnostics = diagnostics\<rparr> in
          (resolved\<lparr>rg_controller_safety := map (\<lambda>(controller, bindings). (controller, sort_bindings bindings)) (pw_safety w)\<rparr>,
           pw_diagnostics w))"

section \<open>What a partition gives each controller\<close>

definition bindings_at :: "(string, ControllerSafeState list) btree \<Rightarrow> string \<Rightarrow> ControllerSafeState list" where
  "bindings_at safety controller = (case bt_get safety controller of Some l \<Rightarrow> l | None \<Rightarrow> [])"

text \<open>The controller of a resource is the part in front of the dot.\<close>

definition on_controller :: "string \<Rightarrow> ResourceId \<Rightarrow> bool" where
  "on_controller controller resource \<longleftrightarrow> (\<exists>port. split_once (CHR ''.'') resource = Some (controller, port))"

definition component_bindings ::
  "('f, 'z) text_float_ops_scheme \<Rightarrow> ('v \<Rightarrow> string option) \<Rightarrow> ResolvedGraph \<Rightarrow> (string, ClassPolicy) btree \<Rightarrow> string \<Rightarrow>
     string \<times> 'v Component \<Rightarrow> ControllerSafeState list" where
  "component_bindings fo as_str resolved classes controller = (\<lambda>(cname, cmp).
     case (bt_get classes (co_kind cmp), safety_target_resources as_str resolved cname cmp) of
       (Some policy, Inr resources) \<Rightarrow>
         map (safe_binding fo as_str resolved cname cmp policy controller) (filter (on_controller controller) resources)
     | _ \<Rightarrow> [])"

definition partition_fine :: "PartitionWork \<Rightarrow> bool" where
  "partition_fine w \<longleftrightarrow> \<not> list_ex is_error (pw_diagnostics w)"

lemma partition_resource_gives:
  assumes "partition_fine (partition_resource fo as_str resolved cname cmp policy resource w)"
  shows "partition_fine w \<and>
    bindings_at (pw_safety (partition_resource fo as_str resolved cname cmp policy resource w)) controller =
      bindings_at (pw_safety w) controller @
      (if on_controller controller resource
       then [safe_binding fo as_str resolved cname cmp policy controller resource] else [])"
  using assms
  by (auto simp: partition_resource_def partition_fine_def on_controller_def bindings_at_def bt_get_insert
      split: option.splits)

lemma partition_component_gives:
  assumes "partition_fine (partition_component fo as_str resolved classes c w)"
  shows "partition_fine w \<and>
    bindings_at (pw_safety (partition_component fo as_str resolved classes c w)) controller =
      bindings_at (pw_safety w) controller @ component_bindings fo as_str resolved classes controller c"
proof -
  obtain cname cmp where c: "c = (cname, cmp)" by (cases c)
  show ?thesis
  proof (cases "bt_get classes (co_kind cmp) = None \<or> (\<exists>m. safety_target_resources as_str resolved cname cmp = Inl m)")
    case True
    then show ?thesis
      using assms by (auto simp: c partition_component_def component_bindings_def split: option.split)
  next
    case False
    then obtain policy resources where r: "bt_get classes (co_kind cmp) = Some policy"
      "safety_target_resources as_str resolved cname cmp = Inr resources"
      by (cases "safety_target_resources as_str resolved cname cmp") auto
    have "partition_fine w \<and>
      bindings_at (pw_safety (fold (partition_resource fo as_str resolved cname cmp policy) resources w)) controller =
        bindings_at (pw_safety w) controller @
        concat (map (\<lambda>r. if on_controller controller r
          then [safe_binding fo as_str resolved cname cmp policy controller r] else []) resources)"
    proof (rule fold_gives [where view = "\<lambda>w. bindings_at (pw_safety w) controller"])
      show "partition_fine (fold (partition_resource fo as_str resolved cname cmp policy) resources w)"
        using assms by (simp add: c partition_component_def r)
    qed (rule partition_resource_gives)
    moreover have "concat (map (\<lambda>r. if on_controller controller r
          then [safe_binding fo as_str resolved cname cmp policy controller r] else []) rs) =
        map (safe_binding fo as_str resolved cname cmp policy controller) (filter (on_controller controller) rs)" for rs
      by (induction rs) auto
    ultimately show ?thesis by (simp add: c partition_component_def component_bindings_def r)
  qed
qed

text \<open>The safety configuration of a controller, exactly.\<close>

lemma partition_gives:
  assumes "partition_safety fo as_str doc resolved (Some profile) diagnostics = (g, out)" "filter is_error out = []"
  shows "bindings_at (rg_controller_safety g) controller =
    sort_bindings (bindings_at (rg_controller_safety resolved) controller @
      concat (map (component_bindings fo as_str resolved (sp_classes profile) controller) (doc_components doc)))"
proof -
  let ?start = "\<lparr>pw_owners = bt_empty, pw_safety = rg_controller_safety resolved, pw_diagnostics = diagnostics\<rparr>"
  let ?w = "fold (partition_component fo as_str resolved (sp_classes profile)) (doc_components doc) ?start"
  have fine: "partition_fine ?w"
    using assms by (auto simp: partition_safety_def Let_def partition_fine_def list_ex_iff filter_empty_conv)
  have "bindings_at (pw_safety ?w) controller = bindings_at (pw_safety ?start) controller @
      concat (map (component_bindings fo as_str resolved (sp_classes profile) controller) (doc_components doc))"
  proof -
    have "partition_fine ?start \<and> bindings_at (pw_safety ?w) controller = bindings_at (pw_safety ?start) controller @
      concat (map (component_bindings fo as_str resolved (sp_classes profile) controller) (doc_components doc))"
      by (rule fold_gives [where view = "\<lambda>w. bindings_at (pw_safety w) controller"])
        (rule partition_component_gives, assumption, rule fine)
    then show ?thesis by simp
  qed
  moreover have "bindings_at (map (\<lambda>(controller, bindings). (controller, sort_bindings bindings)) m) controller =
      sort_bindings (bindings_at m controller)" for m
    by (induction m) (auto simp: bindings_at_def sort_bindings_def)
  ultimately show ?thesis
    using assms by (auto simp: partition_safety_def Let_def)
qed

section \<open>No resource has two safe states\<close>

definition all_bindings :: "(string, ControllerSafeState list) btree \<Rightarrow> ControllerSafeState list" where
  "all_bindings safety = concat (bt_values safety)"

definition partition_ok :: "PartitionWork \<Rightarrow> bool" where
  "partition_ok w \<longleftrightarrow> bt_inv (pw_safety w) \<and> distinct (map ss_resource (all_bindings (pw_safety w))) \<and>
     (\<forall>b\<in>set (all_bindings (pw_safety w)). bt_get (pw_owners w) (ss_resource b) \<noteq> None)"

lemma partition_resource_ok:
  assumes "partition_ok w" shows "partition_ok (partition_resource fo as_str resolved cname cmp policy resource w)"
proof (cases "split_once (CHR ''.'') resource = None \<or> bt_get (pw_owners w) resource \<noteq> None")
  case True
  then show ?thesis using assms by (auto simp: partition_resource_def partition_ok_def split: option.split)
next
  case False
  then obtain controller port where s: "split_once (CHR ''.'') resource = Some (controller, port)"
    and free: "bt_get (pw_owners w) resource = None" by auto
  let ?b = "safe_binding fo as_str resolved cname cmp policy controller resource"
  let ?m = "bt_insert controller ((case bt_get (pw_safety w) controller of Some l \<Rightarrow> l | None \<Rightarrow> []) @ [?b]) (pw_safety w)"
  have inv: "bt_inv (pw_safety w)" using assms by (simp add: partition_ok_def)
  have m: "mset (all_bindings ?m) = add_mset ?b (mset (all_bindings (pw_safety w)))"
    unfolding all_bindings_def by (rule mset_bt_values_insert [OF inv])
  have res: "ss_resource ?b = resource" by (simp add: safe_binding_def)
  have set: "set (all_bindings ?m) = insert ?b (set (all_bindings (pw_safety w)))"
    using m by (metis set_mset_add_mset_insert set_mset_mset)
  have "resource \<notin> ss_resource ` set (all_bindings (pw_safety w))"
    using assms free by (auto simp: partition_ok_def)
  then have "distinct (map ss_resource (all_bindings ?m))"
    using distinct_map_mset [OF m, of ss_resource] assms res by (simp add: partition_ok_def)
  moreover have "\<forall>b\<in>set (all_bindings ?m). bt_get (bt_insert resource cname (pw_owners w)) (ss_resource b) \<noteq> None"
    using assms res unfolding set by (auto simp: partition_ok_def bt_get_insert)
  ultimately show ?thesis
    using inv s free by (simp add: partition_resource_def partition_ok_def bt_inv_insert)
qed

lemma fold_keeps: "(\<And>x w. P w \<Longrightarrow> P (g x w)) \<Longrightarrow> P w \<Longrightarrow> P (fold g xs w)"
  by (induction xs arbitrary: w) auto

lemma partition_component_ok: "partition_ok w \<Longrightarrow> partition_ok (partition_component fo as_str resolved classes c w)"
  unfolding partition_component_def
  by (auto split: option.split sum.split prod.split intro: fold_keeps partition_resource_ok)

lemma partition_distinct:
  assumes "partition_safety fo as_str doc resolved (Some profile) diagnostics = (g, out)"
    and "rg_controller_safety resolved = bt_empty"
  shows "distinct (map ss_resource (all_bindings (rg_controller_safety g)))"
proof -
  let ?start = "\<lparr>pw_owners = bt_empty, pw_safety = rg_controller_safety resolved, pw_diagnostics = diagnostics\<rparr>"
  let ?w = "fold (partition_component fo as_str resolved (sp_classes profile)) (doc_components doc) ?start"
  have ok: "partition_ok ?w"
    by (rule fold_keeps, rule partition_component_ok)
      (simp_all add: partition_ok_def assms(2) all_bindings_def bt_values_def bt_empty_def bt_inv_def)
  have sorted: "mset (all_bindings (map (\<lambda>(c, bs). (c, sort_bindings bs)) m)) = mset (all_bindings m)" for m
    by (induction m) (auto simp: all_bindings_def bt_values_def sort_bindings_def)
  have "rg_controller_safety g = map (\<lambda>(c, bs). (c, sort_bindings bs)) (pw_safety ?w)"
    using assms(1) by (auto simp: partition_safety_def Let_def)
  then have "mset (map ss_resource (all_bindings (rg_controller_safety g))) = mset (map ss_resource (all_bindings (pw_safety ?w)))"
    by (simp add: sorted)
  from mset_eq_imp_distinct_iff [OF this] show ?thesis using ok by (simp add: partition_ok_def)
qed

section \<open>What validation gives\<close>

lemma edge_diagnostics_errors: "list_all is_error (edge_diagnostics as_str resolved cname cmp sensor_name seen targets)"
  by (induction as_str resolved cname cmp sensor_name seen targets rule: edge_diagnostics.induct)
    (auto split: option.split)

lemma component_safety_errors: "list_all is_error (component_safety as_str profile_name classes resolved c)"
proof -
  have u: "is_error (uncovered_diagnostic profile_name backed cname cmp)" for backed cname and cmp :: "'a Component"
    by (simp add: uncovered_diagnostic_def)
  have s: "list_all is_error (sensor_diagnostics as_str resolved cname cmp targets)" for cname cmp targets
    by (simp add: sensor_diagnostics_def edge_diagnostics_errors split: option.split)
  show ?thesis
    unfolding component_safety_def Let_def by (simp add: u s split: prod.split sum.split option.split)
qed

lemma edge_diagnostics_fine:
  "edge_diagnostics as_str resolved cname cmp sensor_name seen targets = [] \<Longrightarrow>
     (\<forall>c\<in>set seen. sensor_resource_on_controller as_str resolved cmp c \<noteq> None) \<Longrightarrow>
     target \<in> set targets \<Longrightarrow> split_once (CHR ''.'') target = Some (controller, port) \<Longrightarrow>
     sensor_resource_on_controller as_str resolved cmp controller \<noteq> None"
  by (induction as_str resolved cname cmp sensor_name seen targets rule: edge_diagnostics.induct)
    (auto split: option.splits if_splits)

lemma sensor_diagnostics_fine:
  assumes "sensor_diagnostics as_str resolved cname cmp targets = []"
    and "target \<in> set targets" "split_once (CHR ''.'') target = Some (controller, port)"
  shows "sensor_resource_on_controller as_str resolved cmp controller \<noteq> None"
  using assms edge_diagnostics_fine [where seen = "[]"]
  by (auto simp: sensor_diagnostics_def split: option.splits if_splits)

lemma set_sorted_resources: "set (sorted_resources as) = as_resource ` set as"
  by (simp add: sorted_resources_def)

text \<open>A hazardous component that passes has a policy, and the sensor the policy wants.\<close>

lemma component_safety_fine:
  assumes "component_safety as_str profile_name classes resolved (c, cmp) = []"
    and a: "a \<in> set (assignments_of resolved c)" "as_connector_kind a = ''power_output''"
  obtains policy where "bt_get classes (co_kind cmp) = Some policy"
    "safety_target_resources as_str resolved c cmp = Inr (sorted_resources (assignments_of resolved c))"
    "\<And>controller port. po_requires_sensor policy \<Longrightarrow> b \<in> set (assignments_of resolved c) \<Longrightarrow>
       split_once (CHR ''.'') (as_resource b) = Some (controller, port) \<Longrightarrow>
       sensor_resource_on_controller as_str resolved cmp controller \<noteq> None"
proof -
  have t: "safety_target_resources as_str resolved c cmp = Inr (sorted_resources (assignments_of resolved c))"
    using a by (auto simp: safety_target_resources_def)
  have h: "hazardous resolved c" using a by (auto simp: hazardous_def list_ex_iff)
  obtain policy where p: "bt_get classes (co_kind cmp) = Some policy"
    using assms(1) t h by (auto simp: component_safety_def Let_def split: option.splits)
  have s: "sensor_diagnostics as_str resolved c cmp (sorted_resources (assignments_of resolved c)) = []"
    if "po_requires_sensor policy"
    using assms(1) t p that by (auto simp: component_safety_def Let_def split: if_splits)
  have "sensor_resource_on_controller as_str resolved cmp controller \<noteq> None"
    if "po_requires_sensor policy" "b \<in> set (assignments_of resolved c)"
      "split_once (CHR ''.'') (as_resource b) = Some (controller, port)" for controller port
    using sensor_diagnostics_fine [OF s _ that(3)] that(1,2) by (simp add: set_sorted_resources)
  then show thesis by (rule that [OF p t])
qed

text \<open>Validation and partitioning together: every hazardous output has its safe state on its own controller.\<close>

lemma hazardous_outputs_covered:
  assumes valid: "component_safety as_str profile_name (sp_classes profile) resolved (c, cmp) = []"
    and part: "partition_safety fo as_str doc resolved (Some profile) diagnostics = (g, out)" "filter is_error out = []"
    and c: "(c, cmp) \<in> set (doc_components doc)"
    and a: "a \<in> set (assignments_of resolved c)" "as_connector_kind a = ''power_output''"
    and s: "split_once (CHR ''.'') (as_resource a) = Some (controller, port)"
  shows "\<exists>policy. bt_get (sp_classes profile) (co_kind cmp) = Some policy \<and>
    (\<exists>b\<in>set (bindings_at (rg_controller_safety g) controller).
       ss_component b = c \<and> ss_class b = co_kind cmp \<and> ss_resource b = as_resource a \<and>
       ss_state b = po_safe_state policy \<and>
       ss_heartbeat_timeout_us b = heartbeat_timeout_us fo policy \<and>
       (po_requires_sensor policy \<longrightarrow>
          ss_sensor b \<noteq> None \<and> ss_sensor b = sensor_resource_on_controller as_str resolved cmp controller))"
proof -
  obtain policy where p: "bt_get (sp_classes profile) (co_kind cmp) = Some policy"
    "safety_target_resources as_str resolved c cmp = Inr (sorted_resources (assignments_of resolved c))"
    "po_requires_sensor policy \<Longrightarrow> sensor_resource_on_controller as_str resolved cmp controller \<noteq> None"
    using component_safety_fine [OF valid a, of a thesis] a(1) s by blast
  let ?b = "safe_binding fo as_str resolved c cmp policy controller (as_resource a)"
  have "?b \<in> set (component_bindings fo as_str resolved (sp_classes profile) controller (c, cmp))"
    using p a(1) s by (auto simp: component_bindings_def on_controller_def set_sorted_resources)
  then have "?b \<in> set (bindings_at (rg_controller_safety g) controller)"
    unfolding partition_gives [OF part] using c by (force simp: sort_bindings_def)
  then show ?thesis using p(1,3) by (force simp: safe_binding_def)
qed

end
