(* ===== verification/Workflows.thy ===== *)
theory Workflows
  imports Targets
begin

text \<open>
  \<^verbatim>\<open>crates/machine-resolver/src/workflows.rs\<close> and \<^verbatim>\<open>artifacts.rs\<close>: whether the workflows of a machine can run
  on it, and what is built for each of its controllers.
\<close>

section \<open>Workflows\<close>

definition machine_supports_capability_family :: "'v MachineDoc \<Rightarrow> string \<Rightarrow> bool" where
  "machine_supports_capability_family doc family \<longleftrightarrow>
     list_ex (\<lambda>cmp. co_kind cmp = family \<or> starts_with (co_kind cmp) family \<or> ends_with (co_kind cmp) family \<or>
       (family = ''motion'' \<and> co_kind cmp = ''stepper_motor'')) (bt_values (doc_components doc))"

definition workflow_error :: "string \<Rightarrow> string \<Rightarrow> string \<Rightarrow> Diagnostic" where
  "workflow_error name code message =
     diag_at (''workflows.'' @ name) (diag_error code (''workflow '' @ quoted name @ '' '' @ message))"

definition parameter_diagnostics ::
  "('ver, 'req) semver_ops \<Rightarrow> string \<Rightarrow> 'ver LoadedPackage \<Rightarrow> ('v, 'ver) WorkflowPackageFile \<Rightarrow>
     (string, 'v) btree option \<Rightarrow> Diagnostic list" where
  "parameter_diagnostics sv name pkg payload params =
     concat (map (\<lambda>param. if bt_get (wf_parameters payload) param \<noteq> None then []
         else [diag_at (''workflows.'' @ name @ ''.parameters.'' @ param)
           (diag_error ''E1701'' (''workflow '' @ quoted name @ '' passed parameter '' @ quoted param
             @ '' which is not declared by '' @ quoted (package_ref_text sv (lp_reference pkg))))])
       (case params of None \<Rightarrow> [] | Some ps \<Rightarrow> bt_keys ps))"

definition required_capabilities :: "('v, 'ver) WorkflowPackageFile \<Rightarrow> string list" where
  "required_capabilities payload = (case wf_requires payload of None \<Rightarrow> [] | Some req \<Rightarrow> wr_capabilities req)"

definition capability_diagnostics :: "'v MachineDoc \<Rightarrow> string \<Rightarrow> string list \<Rightarrow> Diagnostic list" where
  "capability_diagnostics doc name capabilities =
     concat (map (\<lambda>cap.
       let family = before (CHR ''.'') cap in
       if machine_supports_capability_family doc family then []
       else [workflow_error name ''E1702'' (''requires capability '' @ quoted cap
         @ '', but the machine provides no matching '' @ quoted family @ '' component'')]) capabilities)"

definition resolved_resources :: "ResolvedGraph \<Rightarrow> string list" where
  "resolved_resources resolved = map as_resource (concat (bt_values (rg_assignments resolved)))"

definition lock_diagnostics :: "'v MachineDoc \<Rightarrow> ResolvedGraph \<Rightarrow> string \<Rightarrow> string list \<Rightarrow> Diagnostic list" where
  "lock_diagnostics doc resolved name locks =
     concat (map (\<lambda>lock.
       if lock \<in> set (resolved_resources resolved) \<or> bt_get (doc_components doc) lock \<noteq> None \<or>
          bt_get (doc_controllers doc) lock \<noteq> None
       then []
       else [workflow_error name ''E1703'' (''declares lock '' @ quoted lock
         @ '' which is not a resolved resource, component, or controller'')]) locks)"

definition step_diagnostics ::
  "'v MachineDoc \<Rightarrow> string \<Rightarrow> string list \<Rightarrow> string \<Rightarrow> 'v WorkflowStep \<Rightarrow> Diagnostic list" where
  "step_diagnostics doc name declared_capabilities context step =
     (case sw_call step of
        None \<Rightarrow> []
      | Some call \<Rightarrow>
          if call \<notin> set declared_capabilities \<and> \<not> machine_supports_capability_family doc (before (CHR ''.'') call)
          then [workflow_error name ''E1704'' (context @ '' step calls '' @ quoted call
            @ '', which is neither declared in requires.capabilities nor provided by the machine'')]
          else [])"

definition workflow_diagnostics ::
  "('ver :: linorder, 'req) semver_ops \<Rightarrow> ('v, 'ver) package_files \<Rightarrow> 'v MachineDoc \<Rightarrow> ResolvedGraph \<Rightarrow>
     'ver PackageSelection \<Rightarrow> string \<times> 'v WorkflowRef \<Rightarrow> Diagnostic list" where
  "workflow_diagnostics sv files doc resolved packages = (\<lambda>(name, workflow_ref).
     case select packages (workflow_package workflow_ref) of
       None \<Rightarrow>
         [workflow_error name ''E1700'' (''package '' @ quoted (workflow_package workflow_ref) @ '' is not in the registry'')]
     | Some pkg \<Rightarrow>
         (case workflow_payload sv files pkg of
            Inl errs \<Rightarrow> errs
          | Inr payload \<Rightarrow>
              let capabilities = required_capabilities payload in
              parameter_diagnostics sv name pkg payload (workflow_parameters workflow_ref) @
              capability_diagnostics doc name capabilities @
              lock_diagnostics doc resolved name (wf_locks payload) @
              concat (map (step_diagnostics doc name capabilities ''step'') (wf_steps payload)) @
              concat (map (step_diagnostics doc name capabilities ''on_cancel'') (wf_on_cancel payload))))"

definition workflows_validate ::
  "('ver :: linorder, 'req) semver_ops \<Rightarrow> ('v, 'ver) package_files \<Rightarrow> 'v MachineDoc \<Rightarrow> ResolvedGraph \<Rightarrow>
     'ver PackageSelection \<Rightarrow> Diagnostic list \<Rightarrow> Diagnostic list" where
  "workflows_validate sv files doc resolved packages diagnostics =
     diagnostics @ concat (map (workflow_diagnostics sv files doc resolved packages) (doc_workflows doc))"

section \<open>Firmware artifacts\<close>

record ('v, 'ver) ArtifactInputs =
  ai_doc :: "'v MachineDoc"
  ai_device_reqs :: "(string, DeviceRequirement) btree"
  ai_packages :: "'ver PackageSelection"
  ai_chips :: "(string, 'ver ChipPackageFile) btree"
  ai_chip_refs :: "(string, string) btree"

text \<open>The device packages of the components that have a resource on a controller.\<close>

definition native_drivers :: "('v, 'ver) ArtifactInputs \<Rightarrow> ResolvedGraph \<Rightarrow> string \<Rightarrow> string list" where
  "native_drivers inp resolved controller_name =
     bset (List.map_filter (\<lambda>(_, cmp). map_option dr_reference (bt_get (ai_device_reqs inp) (co_kind cmp)))
       (filter (\<lambda>(component_name, _).
          list_ex (\<lambda>a. case split_once (CHR ''.'') (as_resource a) of
              Some (candidate, _) \<Rightarrow> candidate = controller_name | None \<Rightarrow> False)
            (assignments_of resolved component_name)) (doc_components (ai_doc inp))))"

definition plan_controller ::
  "('f, 'z) text_float_ops_scheme \<Rightarrow> ('ver, 'req) semver_ops \<Rightarrow> ('v, 'ver) ArtifactInputs \<Rightarrow> ResolvedGraph \<Rightarrow> string \<Rightarrow>
     MachineController \<Rightarrow> Diagnostic + ControllerBuildPlan" where
  "plan_controller fo sv inp resolved controller_name controller =
     (let err = (\<lambda>code message. diag_at (controller_path controller_name ''board'')
            (diag_error code (''controller '' @ quoted controller_name @ message))) in
      and_then (ok_or (bt_get (ai_chips inp) controller_name)
          (err ''E1600'' '' has no resolved chip for firmware artifact planning'')) (\<lambda>chip.
      (case (cp_memory chip, cp_boot chip, cp_firmware chip, bt_get (ai_chip_refs inp) controller_name) of
         (Some memory, Some boot, Some firmware, Some chip_reference) \<Rightarrow>
           (case (flash_bytes fo memory, ram_bytes fo memory) of
              (Some flash, Some ram) \<Rightarrow>
                and_then (ok_or (selection_version (ai_packages inp) (mc_board controller))
                    (err ''E1602'' ('' board '' @ quoted (mc_board controller) @ '' has no exact selected version'')))
                  (\<lambda>board_version.
                Inr \<lparr>bl_board = mc_board controller @ ''@'' @ sv_version_text sv board_version,
                     bl_chip = chip_reference, bl_target_triple = ft_target_triple firmware,
                     bl_toolchain = ft_toolchain firmware, bl_build_profile = ft_build_profile firmware,
                     bl_protocol_version = ft_protocol_version firmware, bl_abi_version = ft_abi_version firmware,
                     bl_flash_bytes = flash, bl_ram_bytes = ram,
                     bl_bootloader_offset_bytes = bc_default_bootloader_offset boot,
                     bl_features = remdups_adj (sort (ft_features firmware)),
                     bl_native_drivers = native_drivers inp resolved controller_name\<rparr>)
            | _ \<Rightarrow> Inl (err ''E1601'' '' chip memory cannot compile to whole bytes''))
       | _ \<Rightarrow> Inl (err ''E1600'' '' chip package lacks memory, boot, or firmware target metadata''))))"

definition plan_one ::
  "('f, 'z) text_float_ops_scheme \<Rightarrow> ('ver, 'req) semver_ops \<Rightarrow> ('v, 'ver) ArtifactInputs \<Rightarrow>
     string \<times> MachineController \<Rightarrow> ResolvedGraph \<times> Diagnostic list \<Rightarrow> ResolvedGraph \<times> Diagnostic list" where
  "plan_one fo sv inp = (\<lambda>(controller_name, controller) (resolved, diagnostics).
     case plan_controller fo sv inp resolved controller_name controller of
       Inl d \<Rightarrow> (resolved, diagnostics @ [d])
     | Inr p \<Rightarrow>
         (resolved\<lparr>rg_controller_build_plans := bt_insert controller_name p (rg_controller_build_plans resolved)\<rparr>,
          diagnostics))"

definition plan_artifacts ::
  "('f, 'z) text_float_ops_scheme \<Rightarrow> ('ver, 'req) semver_ops \<Rightarrow> ('v, 'ver) ArtifactInputs \<Rightarrow> ResolvedGraph \<Rightarrow>
     Diagnostic list \<Rightarrow> ResolvedGraph \<times> Diagnostic list" where
  "plan_artifacts fo sv inp resolved diagnostics =
     fold (plan_one fo sv inp) (doc_controllers (ai_doc inp)) (resolved, diagnostics)"

section \<open>Facts\<close>

lemma plan_controller_Inl: "plan_controller fo sv inp resolved name controller = Inl d \<Longrightarrow> is_error d"
  by (auto simp: plan_controller_def Let_def and_then_def ok_or_def split: option.splits)

lemma plan_one_graph:
  "rg_assignments (fst (plan_one fo sv inp c s)) = rg_assignments (fst s) \<and>
   rg_controller_safety (fst (plan_one fo sv inp c s)) = rg_controller_safety (fst s) \<and>
   rg_packages (fst (plan_one fo sv inp c s)) = rg_packages (fst s)"
  by (cases s; cases c) (auto simp: plan_one_def split: sum.split)

lemma plan_artifacts_graph:
  "rg_assignments (fst (plan_artifacts fo sv inp resolved ds)) = rg_assignments resolved \<and>
   rg_controller_safety (fst (plan_artifacts fo sv inp resolved ds)) = rg_controller_safety resolved \<and>
   rg_packages (fst (plan_artifacts fo sv inp resolved ds)) = rg_packages resolved"
proof -
  have "rg_assignments (fst (fold (plan_one fo sv inp) cs s)) = rg_assignments (fst s) \<and>
     rg_controller_safety (fst (fold (plan_one fo sv inp) cs s)) = rg_controller_safety (fst s) \<and>
     rg_packages (fst (fold (plan_one fo sv inp) cs s)) = rg_packages (fst s)" for cs s
    using plan_one_graph [of fo sv inp] by (induction cs arbitrary: s) auto
  from this [of _ "(resolved, ds)"] show ?thesis by (simp add: plan_artifacts_def)
qed

end
