(* ===== verification/Resolver.thy ===== *)
theory Resolver
  imports Electrical Safety Workflows
begin

text \<open>
  \<^verbatim>\<open>crates/machine-resolver/src/lib.rs\<close>, with \<^verbatim>\<open>locate_diagnostics\<close> of \<^verbatim>\<open>diagnostics.rs\<close> and \<^verbatim>\<open>explain\<close> of
  \<^verbatim>\<open>model.rs\<close>: the phases of the resolution of a machine, one after the other, until one of them reports an
  error.  Parsing the machine file and finding paths in sources are arguments.
\<close>

section \<open>The phases\<close>

record ResolveOutcome =
  ro_resolved :: "ResolvedGraph option"
  ro_diagnostics :: "Diagnostic list"
  ro_phases_run :: "Phase list"

definition outcome_is_ok :: "ResolveOutcome \<Rightarrow> bool" where
  "outcome_is_ok self \<longleftrightarrow> ro_resolved self \<noteq> None \<and> \<not> list_ex is_error (ro_diagnostics self)"

definition fail :: "Diagnostic list \<Rightarrow> Phase list \<Rightarrow> ResolveOutcome" where
  "fail diagnostics phases_run = \<lparr>ro_resolved = None, ro_diagnostics = diagnostics, ro_phases_run = phases_run\<rparr>"

definition unless_errors :: "Diagnostic list \<Rightarrow> Phase list \<Rightarrow> ResolveOutcome \<Rightarrow> ResolveOutcome" where
  "unless_errors diagnostics phases_run next_phases =
     (if list_ex is_error diagnostics then fail diagnostics phases_run else next_phases)"

text \<open>What the resolver takes from outside: numbers, versions, files, YAML values, spans, debug texts.\<close>

record ('f, 'ver, 'req, 'v) environment =
  en_float :: "'f text_float_ops"
  en_semver :: "('ver, 'req) semver_ops"
  en_files :: "('v, 'ver) package_files"
  en_as_str :: "'v \<Rightarrow> string option"
  en_locate :: "string \<Rightarrow> string \<Rightarrow> SourceSpan option"
  en_spans :: "string \<Rightarrow> string \<Rightarrow> SourceSpan option"
  en_debug :: "string list \<Rightarrow> string"

definition alloc_inputs ::
  "('f, 'ver :: linorder, 'req, 'v) environment \<Rightarrow> 'v ExpandedGraph \<Rightarrow> 'ver ControllerTargets \<Rightarrow>
     'ver PackageSelection \<Rightarrow> ('v, 'ver) AllocInputs" where
  "alloc_inputs env graph targets packages =
     \<lparr>in_doc = eg_doc graph, in_expanded_sources = eg_sources graph,
      in_device_reqs = collect (en_float env) (en_semver env) (en_files env) (eg_doc graph) packages,
      in_boards = ct_boards targets, in_chips = ct_chips targets, in_closure_refs = ps_closure_refs packages\<rparr>"

definition artifact_inputs ::
  "('v, 'ver) AllocInputs \<Rightarrow> 'ver ControllerTargets \<Rightarrow> 'ver PackageSelection \<Rightarrow> ('v, 'ver) ArtifactInputs" where
  "artifact_inputs inp targets packages =
     \<lparr>ai_doc = in_doc inp, ai_device_reqs = in_device_reqs inp, ai_packages = packages, ai_chips = in_chips inp,
      ai_chip_refs = ct_chip_refs targets\<rparr>"

text \<open>The phases after allocation.\<close>

definition resolve_allocated ::
  "('f, 'ver :: linorder, 'req, 'v) environment \<Rightarrow> ('v, 'ver) AllocInputs \<Rightarrow> 'ver ControllerTargets \<Rightarrow>
     'ver PackageSelection \<Rightarrow> ResolvedGraph \<Rightarrow> Diagnostic list \<Rightarrow> Phase list \<Rightarrow> ResolveOutcome" where
  "resolve_allocated env inp targets packages resolved diagnostics phases_run =
     (let doc = in_doc inp;
          ph1 = phases_run @ [ElectricalValidation];
          ds1 = electrical_validate (en_float env) (en_as_str env) inp resolved diagnostics in
      unless_errors ds1 ph1
     (let ph2 = ph1 @ [SafetyValidation];
          (profile, ds2) = safety_validate (en_float env) (en_semver env) (en_files env) (en_as_str env) doc resolved packages ds1;
          ds3 = workflows_validate (en_semver env) (en_files env) doc resolved packages ds2 in
      unless_errors ds3 ph2
     (let ph3 = ph2 @ [FirmwarePartitioning];
          (resolved1, ds4) = partition_safety (en_float env) (en_as_str env) doc resolved profile ds3 in
      unless_errors ds4 ph3
     (let ph4 = ph3 @ [ArtifactPlanning];
          (resolved2, ds5) = plan_artifacts (en_float env) (en_semver env) (artifact_inputs inp targets packages) resolved1 ds4 in
      unless_errors ds5 ph4
        \<lparr>ro_resolved = Some resolved2, ro_diagnostics = ds5, ro_phases_run = ph4\<rparr>))))"

definition resolve_doc ::
  "('f, 'ver :: linorder, 'req, 'v) environment \<Rightarrow> 'v MachineDoc \<Rightarrow> 'ver LocalRegistry \<Rightarrow> Diagnostic list \<Rightarrow>
     Phase list \<Rightarrow> ResolveOutcome" where
  "resolve_doc env doc registry diagnostics phases_run =
     (let ph1 = phases_run @ [PackageDependencies];
          (packages, ds1) = resolve_packages (en_semver env) (en_locate env) doc registry diagnostics in
      unless_errors ds1 ph1
     (let ph2 = ph1 @ [PackageLoading];
          (targets, ds2) = load_targets (en_float env) (en_semver env) (en_files env) doc packages ds1 in
      unless_errors ds2 ph2
     (let ph3 = ph2 @ [GraphExpansion];
          (graph, ds3) = expand (en_float env) (en_semver env) (en_files env) (en_spans env) doc packages ds2 in
      unless_errors ds3 ph3
     (let inp = alloc_inputs env graph targets packages in
      case allocate (en_float env) (en_as_str env) (en_debug env) inp ds3 ph3 of
        (None, ds4, ph4) \<Rightarrow> fail ds4 ph4
      | (Some resolved, ds4, ph4) \<Rightarrow> resolve_allocated env inp targets packages resolved ds4 ph4))))"

section \<open>Where diagnostics point\<close>

definition locate_related :: "(string \<Rightarrow> SourceSpan option) \<Rightarrow> RelatedDiagnostic \<Rightarrow> RelatedDiagnostic" where
  "locate_related locate_span related =
     (case (rd_source related, rd_path related) of
        (None, Some path) \<Rightarrow> related\<lparr>rd_source := locate_span path\<rparr>
      | _ \<Rightarrow> related)"

definition locate_diagnostic :: "(string \<Rightarrow> SourceSpan option) \<Rightarrow> Diagnostic \<Rightarrow> Diagnostic" where
  "locate_diagnostic locate_span diagnostic =
     (let located =
        (case (dg_source diagnostic, Option.bind (dg_path diagnostic) locate_span) of
           (None, Some source) \<Rightarrow>
             diagnostic\<lparr>dg_line := Some (pos_line (sn_start source)), dg_column := Some (pos_column (sn_start source)),
               dg_source := Some source\<rparr>
         | _ \<Rightarrow> diagnostic) in
      located\<lparr>dg_related := map (locate_related locate_span) (dg_related diagnostic)\<rparr>)"

definition locate_diagnostics :: "(string \<Rightarrow> SourceSpan option) \<Rightarrow> Diagnostic list \<Rightarrow> Diagnostic list" where
  "locate_diagnostics locate_span diagnostics = map (locate_diagnostic locate_span) diagnostics"

text \<open>The outcome of parsing: the document if there is one, diagnostics, and the positions in the source.\<close>

record 'v ParseOutcome =
  pa_doc :: "'v MachineDoc option"
  pa_diagnostics :: "Diagnostic list"
  pa_spans :: "string \<Rightarrow> SourceSpan option"

definition resolve_source ::
  "(string \<Rightarrow> 'v ParseOutcome) \<Rightarrow> ('f, 'ver :: linorder, 'req, 'v) environment \<Rightarrow> string \<Rightarrow> 'ver LocalRegistry \<Rightarrow>
     ResolveOutcome" where
  "resolve_source parse_str env source registry =
     (let phases_run = [Parse, SchemaValidation]; parsed = parse_str source;
          outcome =
            (case pa_doc parsed of
               None \<Rightarrow> fail (pa_diagnostics parsed) phases_run
             | Some doc \<Rightarrow>
                 unless_errors (pa_diagnostics parsed) phases_run
                   (resolve_doc env doc registry (pa_diagnostics parsed) phases_run)) in
      outcome\<lparr>ro_diagnostics := locate_diagnostics (pa_spans parsed) (ro_diagnostics outcome)\<rparr>)"

section \<open>Explanations\<close>

definition newline :: string where "newline = [CHR 0x0A]"

definition explain_assignment :: "Assignment \<Rightarrow> string" where
  "explain_assignment a =
     as_requested_by a @ '' --'' @ as_via a @ ''--> '' @ as_resource a @ '' (kind '' @ as_connector_kind a @ '')'' @ newline @
     ''  candidates: '' @ join '', '' (as_candidates_considered a) @ newline @
     ''  constraints: '' @ join ''; '' (as_constraints_applied a) @ newline @
     concat (map (\<lambda>(signal, funcs). ''  '' @ signal @ '': '' @ join '' | '' funcs @ newline) (as_pin_capabilities a))"

definition explain_binding :: "ControllerSafeState \<Rightarrow> string" where
  "explain_binding binding =
     ss_component binding @ '' --safe_state--> '' @ ss_resource binding @ '' = '' @ safe_state_text (ss_state binding) @
     (case ss_heartbeat_timeout_us binding of
        None \<Rightarrow> [] | Some timeout \<Rightarrow> '' (heartbeat '' @ dec_nat (unat timeout) @ '' us)'') @
     (case ss_sensor binding of None \<Rightarrow> [] | Some sensor \<Rightarrow> '' (sensor '' @ sensor @ '')'') @ newline"

definition explain :: "ResolvedGraph \<Rightarrow> string \<Rightarrow> string option" where
  "explain self component =
     (let safety = filter (\<lambda>binding. ss_component binding = component) (concat (bt_values (rg_controller_safety self))) in
      if bt_get (rg_assignments self) component = None \<and> safety = [] then None
      else Some (concat (map explain_assignment (assignments_of self component)) @ concat (map explain_binding safety)))"

section \<open>What a resolved machine went through\<close>

lemma unless_errors_Some:
  "ro_resolved (unless_errors ds ph k) = Some g \<longleftrightarrow> \<not> list_ex is_error ds \<and> ro_resolved k = Some g"
  by (simp add: unless_errors_def fail_def)

lemma resolve_doc_resolved:
  assumes "ro_resolved (resolve_doc env doc registry ds ph) = Some g"
  obtains packages ds1 targets ds2 graph ds3 inp resolved ds4 ph4 ds5 profile ds6 ds7 g1 ds8 ds9 where
    "resolve_packages (en_semver env) (en_locate env) doc registry ds = (packages, ds1)"
    "load_targets (en_float env) (en_semver env) (en_files env) doc packages ds1 = (targets, ds2)"
    "expand (en_float env) (en_semver env) (en_files env) (en_spans env) doc packages ds2 = (graph, ds3)"
    "inp = alloc_inputs env graph targets packages"
    "allocate (en_float env) (en_as_str env) (en_debug env) inp ds3 (ph @ [PackageDependencies, PackageLoading, GraphExpansion]) =
       (Some resolved, ds4, ph4)"
    "ds5 = electrical_validate (en_float env) (en_as_str env) inp resolved ds4"
    "safety_validate (en_float env) (en_semver env) (en_files env) (en_as_str env) (eg_doc graph) resolved packages ds5 =
       (profile, ds6)"
    "ds7 = workflows_validate (en_semver env) (en_files env) (eg_doc graph) resolved packages ds6"
    "partition_safety (en_float env) (en_as_str env) (eg_doc graph) resolved profile ds7 = (g1, ds8)"
    "plan_artifacts (en_float env) (en_semver env) (artifact_inputs inp targets packages) g1 ds8 = (g, ds9)"
    "\<not> list_ex is_error ds1" "\<not> list_ex is_error ds2" "\<not> list_ex is_error ds3" "\<not> list_ex is_error ds5"
    "\<not> list_ex is_error ds7" "\<not> list_ex is_error ds8" "\<not> list_ex is_error ds9"
    "ro_diagnostics (resolve_doc env doc registry ds ph) = ds9"
    "ro_phases_run (resolve_doc env doc registry ds ph) =
       ph4 @ [ElectricalValidation, SafetyValidation, FirmwarePartitioning, ArtifactPlanning]"
proof -
  obtain packages ds1 where 1: "resolve_packages (en_semver env) (en_locate env) doc registry ds = (packages, ds1)" by fastforce
  obtain targets ds2 where 2: "load_targets (en_float env) (en_semver env) (en_files env) doc packages ds1 = (targets, ds2)" by fastforce
  obtain graph ds3 where 3: "expand (en_float env) (en_semver env) (en_files env) (en_spans env) doc packages ds2 = (graph, ds3)" by fastforce
  let ?inp = "alloc_inputs env graph targets packages"
  have front: "\<not> list_ex is_error ds1" "\<not> list_ex is_error ds2" "\<not> list_ex is_error ds3"
    using assms by (simp_all add: resolve_doc_def Let_def 1 2 3 unless_errors_Some)
  let ?ph3 = "ph @ [PackageDependencies, PackageLoading, GraphExpansion]"
  obtain r ds4 ph4 where a: "allocate (en_float env) (en_as_str env) (en_debug env) ?inp ds3 ?ph3 = (r, ds4, ph4)"
    by (metis prod_cases3)
  have d: "resolve_doc env doc registry ds ph =
      (case r of None \<Rightarrow> fail ds4 ph4 | Some resolved \<Rightarrow> resolve_allocated env ?inp targets packages resolved ds4 ph4)"
    using front a by (simp add: resolve_doc_def Let_def 1 2 3 unless_errors_def split: option.split)
  obtain resolved where r: "r = Some resolved"
    using assms unfolding d by (cases r) (simp_all add: fail_def)
  have rest: "ro_resolved (resolve_allocated env ?inp targets packages resolved ds4 ph4) = Some g"
    using assms unfolding d r by simp
  have doc: "in_doc ?inp = eg_doc graph" by (simp add: alloc_inputs_def)
  obtain ds5 where 5: "ds5 = electrical_validate (en_float env) (en_as_str env) ?inp resolved ds4" by simp
  obtain profile ds6 where 6: "safety_validate (en_float env) (en_semver env) (en_files env) (en_as_str env) (eg_doc graph) resolved packages ds5 =
       (profile, ds6)" by fastforce
  obtain ds7 where 7: "ds7 = workflows_validate (en_semver env) (en_files env) (eg_doc graph) resolved packages ds6" by simp
  obtain g1 ds8 where 8: "partition_safety (en_float env) (en_as_str env) (eg_doc graph) resolved profile ds7 = (g1, ds8)" by fastforce
  obtain g2 ds9 where 9: "plan_artifacts (en_float env) (en_semver env) (artifact_inputs ?inp targets packages) g1 ds8 = (g2, ds9)" by fastforce
  have e: "\<not> list_ex is_error ds5" "\<not> list_ex is_error ds7" "\<not> list_ex is_error ds8" "\<not> list_ex is_error ds9" "g2 = g"
    using rest by (simp_all add: resolve_allocated_def Let_def doc 5 [symmetric] 6 7 [symmetric] 8 9 unless_errors_Some)
  have o: "resolve_doc env doc registry ds ph = \<lparr>ro_resolved = Some g, ro_diagnostics = ds9,
      ro_phases_run = ph4 @ [ElectricalValidation, SafetyValidation, FirmwarePartitioning, ArtifactPlanning]\<rparr>"
    unfolding d r using e by (simp add: resolve_allocated_def Let_def doc 5 [symmetric] 6 7 [symmetric] 8 9 unless_errors_def)
  show thesis
    by (rule that [OF 1 2 3 refl a [unfolded r] 5 6 7 8 9 [unfolded e(5)] front e(1-4)]) (simp_all add: o)
qed

text \<open>What the parsers ensure: maps have ordered keys, and names of controllers have no dot.\<close>

definition machine_ok :: "'v MachineDoc \<Rightarrow> bool" where
  "machine_ok doc \<longleftrightarrow> bt_inv (doc_components doc) \<and> (\<forall>(n, _)\<in>set (doc_controllers doc). CHR ''.'' \<notin> set n)"

definition files_ok :: "('v, 'ver) package_files \<Rightarrow> bool" where
  "files_ok files \<longleftrightarrow> (\<forall>s b. pf_board files s = Inr b \<longrightarrow> bt_inv (bp_connectors b))"

definition all_entries :: "('k \<Rightarrow> 'a \<Rightarrow> bool) \<Rightarrow> ('k, 'a) btree \<Rightarrow> bool" where
  "all_entries P m \<longleftrightarrow> (\<forall>(k, v)\<in>set m. P k v)"

lemma all_entries_insert: "all_entries P m \<Longrightarrow> P k v \<Longrightarrow> all_entries P (bt_insert k v m)"
  using set_bt_insert_subset [of k v m] by (fastforce simp: all_entries_def)

lemma all_entries_get: "all_entries P m \<Longrightarrow> bt_get m k = Some v \<Longrightarrow> P k v"
  using bt_get_Some_in [of m k v] by (auto simp: all_entries_def)

definition targets_ok :: "'v MachineDoc \<Rightarrow> ('f, 'z) text_float_ops_scheme \<Rightarrow> 'ver ControllerTargets \<Rightarrow> bool" where
  "targets_ok doc fo targets \<longleftrightarrow>
     all_entries (\<lambda>n b. n \<in> fst ` set (doc_controllers doc) \<and> bt_inv (bp_connectors b)) (ct_boards targets) \<and>
     all_entries (\<lambda>n chip. \<exists>reference. chip_check fo reference chip = []) (ct_chips targets)"

lemma board_payload_ok: "files_ok files \<Longrightarrow> board_payload fo sv files p = Inr b \<Longrightarrow> bt_inv (bp_connectors b)"
  by (auto simp: files_ok_def board_payload_def checked_payload_def open_payload_def Let_def and_then_def map_err_def
      split: sum.splits if_splits)

lemma chip_payload_ok: "chip_payload fo sv files p = Inr chip \<Longrightarrow> \<exists>reference. chip_check fo reference chip = []"
  by (auto simp: chip_payload_def checked_payload_def and_then_def split: sum.splits if_splits)

lemma load_chip_ok:
  assumes "targets_ok doc fo (fst s)" shows "targets_ok doc fo (fst (load_chip fo sv files packages name board payload s))"
proof -
  obtain t ds where s: "s = (t, ds)" by (cases s)
  have "targets_ok doc fo (t\<lparr>ct_chips := bt_insert name chip (ct_chips t), ct_chip_refs := refs\<rparr>)"
    if "chip_payload fo sv files p = Inr chip" for p chip refs
    using assms chip_payload_ok [OF that] by (simp add: s targets_ok_def all_entries_insert)
  then show ?thesis using assms
    by (auto simp: s load_chip_def Let_def split: option.split sum.split)
qed

lemma load_controller_ok:
  assumes ok: "targets_ok doc fo (fst s)" and f: "files_ok files" and c: "c \<in> set (doc_controllers doc)"
  shows "targets_ok doc fo (fst (load_controller fo sv files packages c s))"
proof -
  obtain t ds name controller where s: "s = (t, ds)" "c = (name, controller)" by (metis surj_pair)
  show ?thesis
  proof (cases "select packages (mc_board controller)")
    case None
    then show ?thesis using ok by (simp add: s load_controller_def Let_def)
  next
    case (Some p)
    show ?thesis
    proof (cases "board_payload fo sv files p")
      case (Inl errs)
      then show ?thesis using ok Some by (simp add: s load_controller_def Let_def)
    next
      case (Inr b)
      define ds1 where "ds1 = ds @ (if bt_get (bp_transports b) (tp_kind (mc_transport controller)) \<noteq> None then []
                        else [diag_at (controller_path name ''transport'')
                          (diag_error ''E1120'' (''controller '' @ quoted name @ '': board '' @ quoted (mc_board controller)
                            @ '' has no '' @ quoted (tp_kind (mc_transport controller)) @ '' transport''))])"
      obtain t1 ds2 where l: "load_chip fo sv files packages name (mc_board controller) b (t, ds1) = (t1, ds2)" by fastforce
      have "targets_ok doc fo t1"
        using load_chip_ok [where s = "(t, ds1)", of doc fo sv files packages name "mc_board controller" b] ok l
        by (simp add: s)
      then have "targets_ok doc fo (t1\<lparr>ct_boards := bt_insert name b (ct_boards t1)\<rparr>)"
        using board_payload_ok [OF f Inr] c by (force simp: s targets_ok_def intro: all_entries_insert)
      then show ?thesis using ok Some Inr l
        by (simp add: s load_controller_def Let_def ds1_def)
    qed
  qed
qed

lemma load_targets_ok:
  assumes "files_ok files" shows "targets_ok doc fo (fst (load_targets fo sv files doc packages ds))"
proof -
  have start: "targets_ok doc fo (fst (\<lparr>ct_boards = bt_empty, ct_chips = bt_empty, ct_chip_refs = bt_empty\<rparr>, ds))"
    by (simp add: targets_ok_def all_entries_def bt_empty_def)
  show ?thesis
    unfolding load_targets_def
  proof (rule fold_invariant [where Q = "\<lambda>c. c \<in> set (doc_controllers doc)" and P = "\<lambda>s. targets_ok doc fo (fst s)", OF _ start])
    show "targets_ok doc fo (fst (load_controller fo sv files packages c s))"
      if "c \<in> set (doc_controllers doc)" "targets_ok doc fo (fst s)" for c s
      by (rule load_controller_ok [OF that(2) assms that(1)])
  qed
qed

lemma machine_boards_ok:
  assumes "machine_ok doc" "files_ok (en_files env)"
    and "load_targets (en_float env) (en_semver env) (en_files env) doc packages ds1 = (targets, ds2)"
  shows "boards_ok (alloc_inputs env graph targets packages)"
  using assms load_targets_ok [OF assms(2), of doc "en_float env" "en_semver env" packages ds1]
  by (fastforce simp: boards_ok_def alloc_inputs_def targets_ok_def machine_ok_def all_entries_def)

lemma expanded_machine_ok:
  assumes "machine_ok doc" "expand fo sv files spans doc packages ds = (graph, ds1)"
  shows "bt_inv (doc_components (eg_doc graph))" "doc_safety (eg_doc graph) = doc_safety doc"
    "doc_controllers (eg_doc graph) = doc_controllers doc"
  using expand_expands [of fo doc ds sv files spans packages] assms
  by (auto simp: expands_def grows_def machine_ok_def same_rest_def)

section \<open>Hazards\<close>

text \<open>The safety profile a machine resolves to.\<close>

definition machine_profile ::
  "('f, 'ver :: linorder, 'req, 'v) environment \<Rightarrow> 'v MachineDoc \<Rightarrow> 'ver LocalRegistry \<Rightarrow> Diagnostic list \<Rightarrow>
     'ver SafetyProfileFile option" where
  "machine_profile env doc registry ds =
     (case select (fst (resolve_packages (en_semver env) (en_locate env) doc registry ds)) (sf_profile (doc_safety doc)) of
        None \<Rightarrow> None
      | Some pkg \<Rightarrow>
          (case safety_profile_payload (en_float env) (en_semver env) (en_files env) pkg of
             Inl _ \<Rightarrow> None | Inr profile \<Rightarrow> Some profile))"

lemma sensor_on_controller:
  "sensor_resource_on_controller as_str resolved cmp controller = Some r \<Longrightarrow> on_controller controller r"
  by (auto simp: sensor_resource_on_controller_def on_controller_def bind_eq_Some_conv dest!: find_SomeD
      split: option.splits)

lemma open_payload_Inl: "open_payload sv rd prs kind codes article noun p = Inl errs \<Longrightarrow> errs \<noteq> [] \<and> list_all is_error errs"
  by (auto simp: open_payload_def Let_def and_then_def map_err_def split: prod.splits sum.splits if_splits)

lemma concat_errors: "(\<And>x. list_all is_error (f x)) \<Longrightarrow> list_all is_error (concat (map f xs))"
  by (induction xs) auto

lemma safety_check_errors: "list_all is_error (safety_check fo reference profile)"
  unfolding safety_check_def Let_def
  by (rule concat_errors) (simp split: prod.split option.split sum.split)

lemma safety_payload_Inl: "safety_profile_payload fo sv files p = Inl errs \<Longrightarrow> errs \<noteq> [] \<and> list_all is_error errs"
  using safety_check_errors open_payload_Inl
  by (fastforce simp: safety_profile_payload_def checked_payload_def and_then_def split: sum.splits if_splits)

lemma safety_validate_Some:
  assumes "safety_validate fo sv files as_str doc resolved packages ds = (profile, ds1)" "\<not> list_ex is_error ds1"
  obtains pkg p where "profile = Some p" "select packages (sf_profile (doc_safety doc)) = Some pkg"
    "safety_profile_payload fo sv files pkg = Inr p"
    "\<And>c. c \<in> set (doc_components doc) \<Longrightarrow> component_safety as_str (sf_profile (doc_safety doc)) (sp_classes p) resolved c = []"
proof -
  let ?check = "\<lambda>p. component_safety as_str (sf_profile (doc_safety doc)) (sp_classes p) resolved"
  have name: "valid_package_ref_name (sf_profile (doc_safety doc))"
    using assms by (auto simp: safety_validate_def Let_def split: if_splits)
  obtain pkg where pkg: "select packages (sf_profile (doc_safety doc)) = Some pkg"
    using assms name by (auto simp: safety_validate_def Let_def split: option.splits)
  show thesis
  proof (cases "safety_profile_payload fo sv files pkg")
    case (Inl errs)
    then have "ds1 = ds @ errs" using assms(1) name pkg by (simp add: safety_validate_def Let_def)
    moreover have "errs \<noteq> [] \<and> list_all is_error errs" by (rule safety_payload_Inl [OF Inl])
    ultimately show thesis using assms(2) by (cases errs) auto
  next
    case (Inr p)
    then have r: "profile = Some p" "ds1 = ds @ concat (map (?check p) (doc_components doc))"
      using assms(1) name pkg by (simp_all add: safety_validate_def Let_def)
    have "?check p c = []" if "c \<in> set (doc_components doc)" for c
    proof (cases "?check p c")
      case (Cons d l)
      then have "is_error d" using component_safety_errors [of as_str "sf_profile (doc_safety doc)" "sp_classes p" resolved c] by simp
      moreover have "d \<in> set ds1" using Cons that by (force simp: r(2))
      ultimately show ?thesis using assms(2) by (auto simp: list_ex_iff)
    qed
    then show thesis by (rule that [OF r(1) pkg Inr])
  qed
qed

lemma resolved_hazards:
  assumes ok: "machine_ok doc" "files_ok (en_files env)"
    and g: "ro_resolved (resolve_doc env doc registry ds ph) = Some g"
    and a: "(c, l) \<in> set (rg_assignments g)" "a \<in> set l" "as_connector_kind a = ''power_output''"
  shows "\<exists>controller port b profile policy.
      split_once (CHR ''.'') (as_resource a) = Some (controller, port) \<and>
      b \<in> set (bindings_at (rg_controller_safety g) controller) \<and> ss_component b = c \<and> ss_resource b = as_resource a \<and>
      machine_profile env doc registry ds = Some profile \<and> bt_get (sp_classes profile) (ss_class b) = Some policy \<and>
      ss_state b = po_safe_state policy \<and> ss_heartbeat_timeout_us b = heartbeat_timeout_us (en_float env) policy \<and>
      (po_requires_sensor policy \<longrightarrow> (\<exists>s. ss_sensor b = Some s \<and> on_controller controller s))"
  using g
proof (rule resolve_doc_resolved)
  fix packages ds1 targets ds2 graph ds3 inp resolved ds4 ph4 ds5 profile ds6 ds7 g1 ds8 ds9
  assume p: "resolve_packages (en_semver env) (en_locate env) doc registry ds = (packages, ds1)"
    and t: "load_targets (en_float env) (en_semver env) (en_files env) doc packages ds1 = (targets, ds2)"
    and x: "expand (en_float env) (en_semver env) (en_files env) (en_spans env) doc packages ds2 = (graph, ds3)"
    and inp: "inp = alloc_inputs env graph targets packages"
    and al: "allocate (en_float env) (en_as_str env) (en_debug env) inp ds3 (ph @ [PackageDependencies, PackageLoading, GraphExpansion]) =
       (Some resolved, ds4, ph4)"
    and v: "safety_validate (en_float env) (en_semver env) (en_files env) (en_as_str env) (eg_doc graph) resolved packages ds5 =
       (profile, ds6)"
    and w: "ds7 = workflows_validate (en_semver env) (en_files env) (eg_doc graph) resolved packages ds6"
    and q: "partition_safety (en_float env) (en_as_str env) (eg_doc graph) resolved profile ds7 = (g1, ds8)"
    and r: "plan_artifacts (en_float env) (en_semver env) (artifact_inputs inp targets packages) g1 ds8 = (g, ds9)"
    and e: "\<not> list_ex is_error ds7" "\<not> list_ex is_error ds8"
  note x_ok = expanded_machine_ok [OF ok(1) x]
  have boards: "boards_ok inp" unfolding inp by (rule machine_boards_ok [OF ok t])
  have doc: "in_doc inp = eg_doc graph" by (simp add: inp alloc_inputs_def)
  have e6: "\<not> list_ex is_error ds6" using e(1) by (simp add: w workflows_validate_def)
  obtain pkg pr where pr: "profile = Some pr" "select packages (sf_profile (doc_safety doc)) = Some pkg"
    "safety_profile_payload (en_float env) (en_semver env) (en_files env) pkg = Inr pr"
    "\<And>c. c \<in> set (doc_components (eg_doc graph)) \<Longrightarrow>
       component_safety (en_as_str env) (sf_profile (doc_safety doc)) (sp_classes pr) resolved c = []"
    by (rule safety_validate_Some [OF v e6, unfolded x_ok(2)]) blast
  have same: "rg_assignments g = rg_assignments resolved" "rg_controller_safety g = rg_controller_safety g1"
    using plan_artifacts_graph [of "en_float env" "en_semver env" "artifact_inputs inp targets packages" g1 ds8] r q
    by (auto simp: partition_safety_def Let_def pr(1))
  have al': "(c, l) \<in> set (rg_assignments resolved)" using a(1) by (simp add: same)
  have wp: "as_requested_by a = c \<and> well_placed (en_float env) (en_as_str env) inp a"
    using allocation_well_placed_all [OF boards al] al' a(2) by blast
  then obtain cmp controller port where cmp: "(c, cmp) \<in> set (doc_components (eg_doc graph))"
    "split_once (CHR ''.'') (as_resource a) = Some (controller, port)"
    unfolding well_placed_def doc by blast
  have inv: "bt_inv (rg_assignments resolved)"
    by (rule allocate_work_ok [OF boards al]) (simp add: work_ok_def)
  have "a \<in> set (assignments_of resolved c)"
    using bt.get_iff [OF inv, of c l] al' a(2) by (simp add: assignments_of_def)
  from hazardous_outputs_covered [OF pr(4) [OF cmp(1)] q [unfolded pr(1)] _ cmp(1) this a(3) cmp(2)] e(2)
  obtain policy b where b: "bt_get (sp_classes pr) (co_kind cmp) = Some policy"
    "b \<in> set (bindings_at (rg_controller_safety g1) controller)" "ss_component b = c" "ss_resource b = as_resource a"
    "ss_class b = co_kind cmp" "ss_state b = po_safe_state policy" "ss_heartbeat_timeout_us b = heartbeat_timeout_us (en_float env) policy"
    "po_requires_sensor policy \<longrightarrow> ss_sensor b \<noteq> None \<and> ss_sensor b = sensor_resource_on_controller (en_as_str env) resolved cmp controller"
    by (auto simp: list_ex_iff filter_empty_conv)
  have profile: "machine_profile env doc registry ds = Some pr"
    using pr(2,3) by (simp add: machine_profile_def p)
  have sensor: "po_requires_sensor policy \<longrightarrow> (\<exists>s. ss_sensor b = Some s \<and> on_controller controller s)"
    using b(8) sensor_on_controller by (metis option.exhaust)
  show ?thesis
    unfolding same(2) by (intro exI conjI) (rule cmp(2) b(2-4) profile b(1) [folded b(5)] b(6,7) sensor)+
qed

text \<open>
  Every power output of a resolved machine has a safe state: the configuration of the controller the
  output is on has a binding for it, of the class the safety profile of the machine gives the component, with
  that class's state and heartbeat timeout; and if the class requires a sensor, the binding names one on the same
  controller.
\<close>

theorem hazardous_outputs_safe:
  assumes ok: "machine_ok doc" "files_ok (en_files env)"
    and g: "ro_resolved (resolve_doc env doc registry ds ph) = Some g"
    and a: "(c, l) \<in> set (rg_assignments g)" "a \<in> set l" "as_connector_kind a = ''power_output''"
  shows "\<exists>controller port b profile policy.
      split_once (CHR ''.'') (as_resource a) = Some (controller, port) \<and>
      b \<in> set (bindings_at (rg_controller_safety g) controller) \<and> ss_component b = c \<and> ss_resource b = as_resource a \<and>
      machine_profile env doc registry ds = Some profile \<and> bt_get (sp_classes profile) (ss_class b) = Some policy \<and>
      ss_state b = po_safe_state policy \<and> ss_heartbeat_timeout_us b = heartbeat_timeout_us (en_float env) policy \<and>
      (po_requires_sensor policy \<longrightarrow> (\<exists>s. ss_sensor b = Some s \<and> on_controller controller s))"
  by (rule resolved_hazards [OF assms])

section \<open>Outcomes and build plans\<close>

definition RESOLVE_PHASES :: "Phase list" where
  "RESOLVE_PHASES = [PackageDependencies, PackageLoading, GraphExpansion, CapabilityMatching, ResourceAllocation,
     ElectricalValidation, SafetyValidation, FirmwarePartitioning, ArtifactPlanning]"

definition outcome_sound :: "Phase list \<Rightarrow> ResolveOutcome \<Rightarrow> bool" where
  "outcome_sound ph oc \<longleftrightarrow> (ro_resolved oc = None \<longleftrightarrow> list_ex is_error (ro_diagnostics oc)) \<and>
     (\<exists>n. ro_phases_run oc = ph @ take n RESOLVE_PHASES \<and> (ro_resolved oc = None \<or> n = 9))"

lemma outcome_sound_unless:
  "p = ph @ take n RESOLVE_PHASES \<Longrightarrow> (\<not> list_ex is_error ds \<Longrightarrow> outcome_sound ph k) \<Longrightarrow>
     outcome_sound ph (unless_errors ds p k)"
  by (auto simp: outcome_sound_def unless_errors_def fail_def)

lemma outcome_sound_fail:
  "p = ph @ take n RESOLVE_PHASES \<Longrightarrow> list_ex is_error ds \<Longrightarrow> outcome_sound ph (fail ds p)"
  by (auto simp: outcome_sound_def fail_def)

lemma resolve_allocated_sound:
  assumes "p = ph @ take 5 RESOLVE_PHASES"
  shows "outcome_sound ph (resolve_allocated env inp targets packages resolved ds p)"
proof -
  obtain profile ds2 where v: "safety_validate (en_float env) (en_semver env) (en_files env) (en_as_str env) (in_doc inp) resolved
      packages (electrical_validate (en_float env) (en_as_str env) inp resolved ds) = (profile, ds2)" by fastforce
  obtain g1 ds4 where q: "partition_safety (en_float env) (en_as_str env) (in_doc inp) resolved profile
      (workflows_validate (en_semver env) (en_files env) (in_doc inp) resolved packages ds2) = (g1, ds4)" by fastforce
  obtain g2 ds5 where r: "plan_artifacts (en_float env) (en_semver env) (artifact_inputs inp targets packages) g1 ds4 = (g2, ds5)"
    by fastforce
  have last: "outcome_sound ph \<lparr>ro_resolved = Some g2, ro_diagnostics = ds5, ro_phases_run = ph @ take 9 RESOLVE_PHASES\<rparr>"
    if "\<not> list_ex is_error ds5"
    using that by (auto simp: outcome_sound_def)
  have phases: "p @ [ElectricalValidation] = ph @ take 6 RESOLVE_PHASES"
    "(p @ [ElectricalValidation]) @ [SafetyValidation] = ph @ take 7 RESOLVE_PHASES"
    "((p @ [ElectricalValidation]) @ [SafetyValidation]) @ [FirmwarePartitioning] = ph @ take 8 RESOLVE_PHASES"
    "(((p @ [ElectricalValidation]) @ [SafetyValidation]) @ [FirmwarePartitioning]) @ [ArtifactPlanning] =
       ph @ take 9 RESOLVE_PHASES"
    by (simp_all add: assms RESOLVE_PHASES_def)
  show ?thesis
    unfolding resolve_allocated_def Let_def v q r prod.case
    by (intro outcome_sound_unless [OF phases(1)] outcome_sound_unless [OF phases(2)] outcome_sound_unless [OF phases(3)]
        outcome_sound_unless [OF phases(4)]) (simp only: phases(4), rule last)
qed

lemma resolve_doc_sound: "outcome_sound ph (resolve_doc env doc registry ds ph)"
proof -
  have "outcome_sound ph (case allocate (en_float env) (en_as_str env) (en_debug env) inp ds3 (ph @ take 3 RESOLVE_PHASES) of
        (None, ds4, ph4) \<Rightarrow> fail ds4 ph4
      | (Some resolved, ds4, ph4) \<Rightarrow> resolve_allocated env inp targets packages resolved ds4 ph4)" for inp ds3 targets packages
    by (simp add: allocate_def Let_def resolve_allocated_sound RESOLVE_PHASES_def outcome_sound_fail [where n = 5])
  note rest = this
  have phases: "ph @ [PackageDependencies] = ph @ take 1 RESOLVE_PHASES"
    "(ph @ [PackageDependencies]) @ [PackageLoading] = ph @ take 2 RESOLVE_PHASES"
    "((ph @ [PackageDependencies]) @ [PackageLoading]) @ [GraphExpansion] = ph @ take 3 RESOLVE_PHASES"
    by (simp_all add: RESOLVE_PHASES_def)
  obtain packages ds1 where p: "resolve_packages (en_semver env) (en_locate env) doc registry ds = (packages, ds1)" by fastforce
  obtain targets ds2 where t: "load_targets (en_float env) (en_semver env) (en_files env) doc packages ds1 = (targets, ds2)"
    by fastforce
  obtain graph ds3 where x: "expand (en_float env) (en_semver env) (en_files env) (en_spans env) doc packages ds2 = (graph, ds3)"
    by fastforce
  show ?thesis
    unfolding resolve_doc_def Let_def p t x prod.case
    by (intro outcome_sound_unless [OF phases(1)] outcome_sound_unless [OF phases(2)] outcome_sound_unless [OF phases(3)])
      (simp only: phases(3), rule rest)
qed

text \<open>A build plan for which the boot loader leaves room, with features in order and once each.\<close>

definition bootable :: "ControllerBuildPlan \<Rightarrow> bool" where
  "bootable p \<longleftrightarrow> bl_bootloader_offset_bytes p < bl_flash_bytes p \<and> sorted (bl_features p) \<and> distinct (bl_features p)"

lemma distinct_remdups_adj_sorted: "sorted xs \<Longrightarrow> distinct (remdups_adj xs)" for xs :: "'a :: linorder list"
  by (induction xs rule: remdups_adj.induct) auto

lemma plan_controller_bootable:
  assumes "plan_controller fo sv inp resolved name controller = Inr p"
    and chips: "all_entries (\<lambda>n chip. \<exists>reference. chip_check fo reference chip = []) (ai_chips inp)"
  shows "bootable p"
proof -
  obtain chip memory boot firmware reference flash ram where
    c: "bt_get (ai_chips inp) name = Some chip" "cp_memory chip = Some memory" "cp_boot chip = Some boot"
      "cp_firmware chip = Some firmware" "flash_bytes fo memory = Some flash"
    and p: "bl_bootloader_offset_bytes p = bc_default_bootloader_offset boot" "bl_flash_bytes p = flash"
      "bl_features p = remdups_adj (sort (ft_features firmware))"
    using assms(1)
    by (cases "bt_get (ai_chips inp) name"; cases "selection_version (ai_packages inp) (mc_board controller)")
      (auto simp: plan_controller_def Let_def and_then_def split: option.split_asm intro: that)
  obtain r where "chip_check fo r chip = []" using all_entries_get [OF chips c(1)] by blast
  then have "memory_diagnostics fo r chip = []" by (simp add: chip_check_def)
  then have "bc_default_bootloader_offset boot < flash"
    using c by (auto simp: memory_diagnostics_def split: if_splits)
  then show ?thesis by (simp add: bootable_def p distinct_remdups_adj_sorted)
qed

lemma plans_bootable:
  assumes "all_entries (\<lambda>n chip. \<exists>reference. chip_check fo reference chip = []) (ai_chips inp)"
    and "\<not> list_ex is_error (snd (fold (plan_one fo sv inp) cs s))"
    and "all_entries (\<lambda>n p. bootable p) (rg_controller_build_plans (fst s))"
  shows "all_entries (\<lambda>n p. bootable p) (rg_controller_build_plans (fst (fold (plan_one fo sv inp) cs s))) \<and>
    fst ` set cs \<union> {n. bt_get (rg_controller_build_plans (fst s)) n \<noteq> None} \<subseteq>
      {n. bt_get (rg_controller_build_plans (fst (fold (plan_one fo sv inp) cs s))) n \<noteq> None}"
  using assms(2,3)
proof (induction cs arbitrary: s)
  case (Cons c cs)
  obtain g ds n controller where s: "s = (g, ds)" "c = (n, controller)" by (metis surj_pair)
  have keep: "list_ex is_error (snd (fold (plan_one fo sv inp) cs t))" if "list_ex is_error (snd t)" for t
    using that
  proof (induction cs arbitrary: t)
    case (Cons c cs)
    have "list_ex is_error (snd (plan_one fo sv inp c t))"
      using Cons.prems by (cases t; cases c) (auto simp: plan_one_def split: sum.split)
    then show ?case using Cons.IH by simp
  qed simp
  show ?case
  proof (cases "plan_controller fo sv inp g n controller")
    case (Inl d)
    then have "list_ex is_error (snd (plan_one fo sv inp c s))"
      using plan_controller_Inl [OF Inl] by (simp add: s plan_one_def)
    then show ?thesis using keep Cons.prems(1) by simp
  next
    case (Inr p)
    let ?s = "(g\<lparr>rg_controller_build_plans := bt_insert n p (rg_controller_build_plans g)\<rparr>, ds)"
    have one: "plan_one fo sv inp c s = ?s" using Inr by (simp add: s plan_one_def)
    then have fold: "fold (plan_one fo sv inp) (c # cs) s = fold (plan_one fo sv inp) cs ?s" by simp
    have "all_entries (\<lambda>n p. bootable p) (rg_controller_build_plans (fst ?s))"
      using Cons.prems(2) plan_controller_bootable [OF Inr assms(1)] by (simp add: s all_entries_insert)
    note plans = this
    have fine: "\<not> list_ex is_error (snd (fold (plan_one fo sv inp) cs ?s))"
      using Cons.prems(1) by (simp only: fold not_False_eq_True)
    show ?thesis
      using Cons.IH [OF fine plans] unfolding fold by (auto simp: s bt_get_insert split: if_splits)
  qed
qed simp

section \<open>Properties\<close>

text \<open>
  Claim C37: no output of a resolved machine has two safe states: over all controllers, the resources of the
  safe-state bindings are distinct.
\<close>

theorem safe_states_exclusive:
  assumes "ro_resolved (resolve_doc env doc registry ds ph) = Some g"
  shows "distinct (map ss_resource (all_bindings (rg_controller_safety g)))"
  using assms
proof (rule resolve_doc_resolved)
  fix packages ds1 targets ds2 graph ds3 inp resolved ds4 ph4 ds5 profile ds6 ds7 g1 ds8 ds9
  assume al: "allocate (en_float env) (en_as_str env) (en_debug env) inp ds3 (ph @ [PackageDependencies, PackageLoading, GraphExpansion]) =
       (Some resolved, ds4, ph4)"
    and q: "partition_safety (en_float env) (en_as_str env) (eg_doc graph) resolved profile ds7 = (g1, ds8)"
    and r: "plan_artifacts (en_float env) (en_semver env) (artifact_inputs inp targets packages) g1 ds8 = (g, ds9)"
  have empty: "rg_controller_safety resolved = bt_empty"
    using al by (auto simp: allocate_def Let_def split: if_splits)
  have same: "rg_controller_safety g = rg_controller_safety g1"
    using plan_artifacts_graph [of "en_float env" "en_semver env" "artifact_inputs inp targets packages" g1 ds8] r by simp
  show ?thesis
  proof (cases profile)
    case None
    then show ?thesis
      using q empty by (simp add: same partition_safety_def all_bindings_def bt_values_def bt_empty_def)
  next
    case (Some pr)
    show ?thesis unfolding same by (rule partition_distinct [OF q [unfolded Some] empty])
  qed
qed

text \<open>
  Claim C39: every controller of a resolved machine has a build plan; the boot loader leaves room in the flash of
  its chip, and the features of its firmware are in order, each once.
\<close>

theorem build_plans_bootable:
  assumes ok: "machine_ok doc" "files_ok (en_files env)"
    and g: "ro_resolved (resolve_doc env doc registry ds ph) = Some g"
    and c: "(n, controller) \<in> set (doc_controllers doc)"
  shows "\<exists>p. bt_get (rg_controller_build_plans g) n = Some p \<and>
    bl_bootloader_offset_bytes p < bl_flash_bytes p \<and> sorted (bl_features p) \<and> distinct (bl_features p)"
  using g
proof (rule resolve_doc_resolved)
  fix packages ds1 targets ds2 graph ds3 inp resolved ds4 ph4 ds5 profile ds6 ds7 g1 ds8 ds9
  assume t: "load_targets (en_float env) (en_semver env) (en_files env) doc packages ds1 = (targets, ds2)"
    and x: "expand (en_float env) (en_semver env) (en_files env) (en_spans env) doc packages ds2 = (graph, ds3)"
    and inp: "inp = alloc_inputs env graph targets packages"
    and al: "allocate (en_float env) (en_as_str env) (en_debug env) inp ds3 (ph @ [PackageDependencies, PackageLoading, GraphExpansion]) =
       (Some resolved, ds4, ph4)"
    and q: "partition_safety (en_float env) (en_as_str env) (eg_doc graph) resolved profile ds7 = (g1, ds8)"
    and r: "plan_artifacts (en_float env) (en_semver env) (artifact_inputs inp targets packages) g1 ds8 = (g, ds9)"
    and e: "\<not> list_ex is_error ds9"
  let ?inp = "artifact_inputs inp targets packages"
  have none: "rg_controller_build_plans g1 = bt_empty"
    using al q by (auto simp: allocate_def partition_safety_def Let_def split: if_splits option.splits)
  have chips: "all_entries (\<lambda>n chip. \<exists>reference. chip_check (en_float env) reference chip = []) (ai_chips ?inp)"
    using load_targets_ok [OF ok(2), of doc "en_float env" "en_semver env" packages ds1] t
    by (simp add: targets_ok_def artifact_inputs_def alloc_inputs_def inp)
  have fold: "fold (plan_one (en_float env) (en_semver env) ?inp) (doc_controllers doc) (g1, ds8) = (g, ds9)"
    using r expanded_machine_ok(3) [OF ok(1) x] by (simp add: plan_artifacts_def artifact_inputs_def alloc_inputs_def inp)
  have plans: "all_entries (\<lambda>n p. bootable p) (rg_controller_build_plans g)"
      "fst ` set (doc_controllers doc) \<subseteq> {n. bt_get (rg_controller_build_plans g) n \<noteq> None}"
    using plans_bootable [OF chips, of "en_semver env" "doc_controllers doc" "(g1, ds8)"] e
    unfolding fold by (auto simp: none all_entries_def bt_empty_def)
  obtain p where p: "bt_get (rg_controller_build_plans g) n = Some p" using plans(2) c by force
  from all_entries_get [OF plans(1) p] p show ?thesis unfolding bootable_def by blast
qed

lemma locate_diagnostic_error [simp]: "is_error (locate_diagnostic spans d) = is_error d"
  by (simp add: locate_diagnostic_def Let_def is_error_def split: option.split)

lemma locate_diagnostics_errors: "list_ex is_error (locate_diagnostics spans ds) = list_ex is_error ds"
  by (induction ds) (simp_all add: locate_diagnostics_def)

text \<open>
  Claim C38: for a parser that says what is wrong when it gives no document, resolving a source ends with a machine
  exactly if no diagnostic is an error; the phases run are an initial part of the phases in their order, and all
  of them if there is a machine.
\<close>

theorem resolve_outcome_exact:
  assumes "pa_doc (parse_str source) = None \<Longrightarrow> list_ex is_error (pa_diagnostics (parse_str source))"
    and oc: "oc = resolve_source parse_str env source registry"
  shows "(ro_resolved oc = None \<longleftrightarrow> list_ex is_error (ro_diagnostics oc)) \<and> (outcome_is_ok oc \<longleftrightarrow> ro_resolved oc \<noteq> None) \<and>
    (\<exists>n. ro_phases_run oc = [Parse, SchemaValidation] @ take n RESOLVE_PHASES \<and> (ro_resolved oc = None \<or> n = 9))"
proof -
  let ?ph = "[Parse, SchemaValidation]" and ?parsed = "parse_str source"
  let ?oc = "case pa_doc ?parsed of
      None \<Rightarrow> fail (pa_diagnostics ?parsed) ?ph
    | Some doc \<Rightarrow> unless_errors (pa_diagnostics ?parsed) ?ph (resolve_doc env doc registry (pa_diagnostics ?parsed) ?ph)"
  have start: "?ph = ?ph @ take 0 RESOLVE_PHASES" by simp
  have "outcome_sound ?ph ?oc"
  proof (cases "pa_doc ?parsed")
    case None
    then show ?thesis using outcome_sound_fail [OF start assms(1)] by simp
  next
    case (Some doc)
    then show ?thesis by (simp only: option.case) (rule outcome_sound_unless [OF start], rule resolve_doc_sound)
  qed
  moreover have "oc = ?oc\<lparr>ro_diagnostics := locate_diagnostics (pa_spans ?parsed) (ro_diagnostics ?oc)\<rparr>"
    by (simp add: oc resolve_source_def Let_def)
  ultimately show ?thesis
    by (auto simp: outcome_sound_def outcome_is_ok_def locate_diagnostics_errors)
qed

section \<open>A machine\<close>

text \<open>A heater on a power output with its sensor, one board with its chip, a profile that wants the sensor.\<close>

definition demo_kinded :: "PackageKind \<Rightarrow> string \<Rightarrow> nat LoadedPackage" where
  "demo_kinded kind name = (demo_package name 1 [])\<lparr>lp_kind := kind, lp_dir := name\<rparr>"

definition demo_id :: "PackageKind \<Rightarrow> string \<Rightarrow> nat PackageIdentity" where
  "demo_id kind name = \<lparr>pi_namespace = ''p'', pi_name = name, pi_version = 1, pi_kind = kind\<rparr>"

definition demo_env_files :: "(string, nat) package_files" where
  "demo_env_files =
     \<lparr>pf_read = Inr,
      pf_board = (\<lambda>_. Inr \<lparr>bp_package = demo_id Board ''b'', bp_chip = Some ''p/c'', bp_hardware = None,
        bp_connectors = map (\<lambda>(n, k). (n, (demo_connector k [] None)\<lparr>cn_max_current := None\<rparr>))
          [(''i'', ''analog_input''), (''o'', ''power_output'')],
        bp_transports = [(''usb'', \<lparr>bt_peripheral = None\<rparr>)], bp_flash = None\<rparr>),
      pf_chip = (\<lambda>_. Inr \<lparr>cp_package = demo_id Chip ''c'', cp_memory = Some \<lparr>ml_flash = ''16 B'', ml_ram = ''8 B''\<rparr>,
        cp_boot = Some \<lparr>bc_default_bootloader_offset = 8\<rparr>,
        cp_firmware = Some \<lparr>ft_target_triple = ''t'', ft_toolchain = ''c'', ft_build_profile = ''r'',
          ft_protocol_version = ''p/v1'', ft_abi_version = ''a/v1'', ft_features = []\<rparr>,
        cp_peripherals = \<lparr>pe_timers = [], pe_spi = [], pe_i2c = [], pe_uart = [], pe_adc = [], pe_dma = []\<rparr>,
        cp_pin_functions = []\<rparr>),
      pf_device = (\<lambda>_. Inl []), pf_machine = (\<lambda>_. Inl []),
      pf_safety = (\<lambda>_. Inr \<lparr>sp_package = demo_id SafetyProfile ''s'',
        sp_classes = [(''heater'', \<lparr>po_safe_state = SafeOff, po_heartbeat_timeout = None, po_requires_sensor = True\<rparr>)]\<rparr>),
      pf_workflow = (\<lambda>_. Inl [])\<rparr>"

definition demo_env :: "(int, nat, nat, string) environment" where
  "demo_env = \<lparr>en_float = int_text_ops, en_semver = digit_versions, en_files = demo_env_files, en_as_str = Some,
     en_locate = (\<lambda>_ _. None), en_spans = (\<lambda>_ _. None), en_debug = concat\<rparr>"

definition demo_doc :: "string MachineDoc" where
  "demo_doc =
     \<lparr>doc_api_version = ''dryer.machine/v0.1'', doc_kind = ''Machine'',
      doc_metadata = \<lparr>md_name = [], md_description = None\<rparr>, doc_packages = [],
      doc_controllers = [(''m'', \<lparr>mc_board = ''p/b'', mc_transport = \<lparr>tp_kind = ''usb'', tp_parent = None\<rparr>\<rparr>)],
      doc_components = [(''h'', \<lparr>co_kind = ''heater'', co_attributes = [(''output'', ''m.o''), (''sensor'', ''t'')]\<rparr>),
        (''t'', \<lparr>co_kind = ''thermistor'', co_attributes = [(''input'', ''m.i'')]\<rparr>)],
      doc_kinematics = \<lparr>km_kind = [], km_limits = []\<rparr>, doc_safety = \<lparr>sf_profile = ''p/s''\<rparr>,
      doc_workflows = [], doc_calibration = None\<rparr>"

definition demo_outcome :: ResolveOutcome where
  "demo_outcome = resolve_doc demo_env demo_doc
     (demo_registry [demo_kinded Board ''b'', demo_kinded Chip ''c'', demo_kinded SafetyProfile ''s'']) [] []"

lemma demo_resolved_machine:
  "map_option (\<lambda>g. (map (\<lambda>(c, l). (c, map (\<lambda>a. (as_resource a, as_connector_kind a)) l)) (rg_assignments g),
       map (\<lambda>(c, l). (c, map (\<lambda>b. (ss_component b, ss_resource b, ss_sensor b)) l)) (rg_controller_safety g),
       rg_packages g, map (\<lambda>(n, p). (n, bl_chip p)) (rg_controller_build_plans g)))
     (ro_resolved demo_outcome) =
   Some ([(''h'', [(''m.o'', ''power_output'')]), (''t'', [(''m.i'', ''analog_input'')])],
     [(''m'', [(''h'', ''m.o'', Some ''m.i'')])], [''p/b@1'', ''p/s@1''], [(''m'', ''p/c@1'')])"
  by code_simp

lemma demo_machine_ok: "machine_ok demo_doc" "files_ok (en_files demo_env)"
  by (simp add: machine_ok_def demo_doc_def, code_simp) (simp add: files_ok_def demo_env_def demo_env_files_def, code_simp)

lemma demo_outcome_resolved:
  obtains g a plan where "ro_resolved demo_outcome = Some g" "(''h'', [a]) \<in> set (rg_assignments g)"
    "as_resource a = ''m.o''" "as_connector_kind a = ''power_output''"
    "map (\<lambda>(c, l). (c, map (\<lambda>b. (ss_component b, ss_resource b, ss_sensor b)) l)) (rg_controller_safety g) =
      [(''m'', [(''h'', ''m.o'', Some ''m.i'')])]"
    "rg_packages g = [''p/b@1'', ''p/s@1'']" "rg_controller_build_plans g = [(''m'', plan)]" "bl_chip plan = ''p/c@1''"
  using demo_resolved_machine by (auto simp: map_eq_Cons_conv)

lemma hazardous_outputs_safe_witness:
  "\<exists>g b. ro_resolved demo_outcome = Some g \<and> b \<in> set (bindings_at (rg_controller_safety g) ''m'') \<and>
     ss_component b = ''h'' \<and> ss_resource b = ''m.o''"
proof -
  obtain g a where g: "ro_resolved demo_outcome = Some g" "(''h'', [a]) \<in> set (rg_assignments g)"
    "as_resource a = ''m.o''" "as_connector_kind a = ''power_output''"
    by (rule demo_outcome_resolved)
  have a: "a \<in> set [a]" by simp
  have "split_once (CHR ''.'') ''m.o'' = Some (''m'', ''o'')" by code_simp
  with hazardous_outputs_safe [OF demo_machine_ok g(1) [unfolded demo_outcome_def] g(2) a g(4)] g(1,3) show ?thesis by auto
qed

lemma safe_states_exclusive_witness:
  "\<exists>g. ro_resolved demo_outcome = Some g \<and> length (all_bindings (rg_controller_safety g)) = 1 \<and>
     distinct (map ss_resource (all_bindings (rg_controller_safety g)))"
proof -
  obtain g a where g: "ro_resolved demo_outcome = Some g"
    "map (\<lambda>(c, l). (c, map (\<lambda>b. (ss_component b, ss_resource b, ss_sensor b)) l)) (rg_controller_safety g) =
      [(''m'', [(''h'', ''m.o'', Some ''m.i'')])]"
    by (rule demo_outcome_resolved)
  have "length (all_bindings (rg_controller_safety g)) = 1"
    using g(2) by (auto simp: map_eq_Cons_conv all_bindings_def bt_values_def)
  with g(1) safe_states_exclusive [OF g(1) [unfolded demo_outcome_def]] show ?thesis by blast
qed

lemma build_plans_bootable_witness:
  "\<exists>g p. ro_resolved demo_outcome = Some g \<and> bt_get (rg_controller_build_plans g) ''m'' = Some p \<and>
     bl_bootloader_offset_bytes p < bl_flash_bytes p"
proof -
  obtain g a where g: "ro_resolved demo_outcome = Some g" by (rule demo_outcome_resolved)
  have "(''m'', \<lparr>mc_board = ''p/b'', mc_transport = \<lparr>tp_kind = ''usb'', tp_parent = None\<rparr>\<rparr>) \<in> set (doc_controllers demo_doc)"
    by (simp add: demo_doc_def)
  from build_plans_bootable [OF demo_machine_ok g [unfolded demo_outcome_def] this] g show ?thesis by blast
qed

text \<open>A source that is not a machine.\<close>

definition no_document :: "string \<Rightarrow> string ParseOutcome" where
  "no_document source = \<lparr>pa_doc = None, pa_diagnostics = [diag_error ''E0001'' source], pa_spans = (\<lambda>_. None)\<rparr>"

lemma resolve_outcome_exact_witness:
  "\<exists>oc. oc = resolve_source no_document demo_env ''x'' (demo_registry []) \<and> ro_resolved oc = None \<and>
     list_ex is_error (ro_diagnostics oc) \<and> \<not> outcome_is_ok oc"
proof -
  have "list_ex is_error (pa_diagnostics (no_document ''x''))" by (simp add: no_document_def)
  then have "ro_resolved (resolve_source no_document demo_env ''x'' (demo_registry [])) = None"
    by (simp add: resolve_source_def Let_def no_document_def fail_def)
  with resolve_outcome_exact [OF _ refl, of no_document "''x''" demo_env "demo_registry []"]
  show ?thesis by (auto simp: no_document_def)
qed

end
