(* ===== verification/Locking.thy ===== *)
theory Locking
  imports Registry Resolver
begin

text \<open>
  \<^verbatim>\<open>crates/machine-lock/src\<close>: the lock file of a resolved machine, its generation (\<^verbatim>\<open>generate.rs\<close>), its
  checks (\<^verbatim>\<open>validate.rs\<close>) and its canonical form (\<^verbatim>\<open>wire.rs\<close>).  The JSON and YAML of the serialisation
  library, the digest, the parser of machines and the snapshots of packages are arguments.
\<close>

section \<open>The lock file\<close>

definition LOCK_VERSION :: u32 where "LOCK_VERSION = 5"

definition CONTROLLER_SAFETY_SCHEMA :: string where "CONTROLLER_SAFETY_SCHEMA = ''dryer.controller-safety/v1''"

definition CONTROLLER_BUILD_SCHEMA :: string where "CONTROLLER_BUILD_SCHEMA = ''dryer.controller-build-plan/v1''"

record LockedPackage =
  kp_id :: string
  kp_manifest_hash :: string
  kp_content_hash :: string

record LockedSafeState =
  kt_component :: string
  kt_class :: string
  kt_resource :: string
  kt_state :: SafeState
  kt_heartbeat_timeout_us :: "u64 option"
  kt_sensor :: "string option"

record LockedSafetyConfig =
  ks_schema :: string
  ks_states :: "LockedSafeState list"

record LockedBuildConfig =
  kb_schema :: string
  kb_board :: string
  kb_chip :: string
  kb_target_triple :: string
  kb_toolchain :: string
  kb_build_profile :: string
  kb_protocol_version :: string
  kb_abi_version :: string
  kb_flash_bytes :: u64
  kb_ram_bytes :: u64
  kb_bootloader_offset_bytes :: u64
  kb_features :: "string list"
  kb_native_drivers :: "string list"

record LockedController =
  kl_board :: string
  kl_resolved_resources :: "(string, string) btree"
  kl_safety :: "LockedSafetyConfig option"
  kl_build :: "LockedBuildConfig option"

record Lockfile =
  lf_lock_version :: u32
  lf_machine_hash :: string
  lf_resolver_version :: string
  lf_registry_source :: "RegistrySource option"
  lf_packages :: "LockedPackage list"
  lf_safety_profile :: LockedPackage
  lf_controllers :: "(string, LockedController) btree"

section \<open>Validation\<close>

text \<open>Checks in order: the first that fails gives its message.\<close>

definition ensure :: "bool \<Rightarrow> 'e \<Rightarrow> 'e + unit" where
  "ensure ok e = (if ok then Inr () else Inl e)"

fun try_each :: "('a \<Rightarrow> 'e + unit) \<Rightarrow> 'a list \<Rightarrow> 'e + unit" where
  "try_each f [] = Inr ()"
| "try_each f (x # xs) = and_then (f x) (\<lambda>_. try_each f xs)"

definition all_ok :: "('e + unit) list \<Rightarrow> 'e + unit" where
  "all_ok = try_each (\<lambda>r. r)"

definition lock_text :: "u32 \<Rightarrow> string" where "lock_text v = ''lockfile v'' @ dec_nat (unat v)"

definition controller_text :: "u32 \<Rightarrow> string \<Rightarrow> string" where
  "controller_text v name = lock_text v @ '' controller '' @ quoted name"

definition validate_hashes :: "Lockfile \<Rightarrow> string + unit" where
  "validate_hashes self =
     and_then (try_each (\<lambda>(index, package).
         ensure (kp_content_hash package \<noteq> [])
           (lock_text (lf_lock_version self) @ '' package['' @ dec_nat index @ ''] '' @ quoted (kp_id package)
            @ '' has no content_hash'')) (enumerate 0 (lf_packages self))) (\<lambda>_.
     ensure (kp_content_hash (lf_safety_profile self) \<noteq> [])
       (lock_text (lf_lock_version self) @ '' safety_profile '' @ quoted (kp_id (lf_safety_profile self))
        @ '' has no content_hash''))"

definition unpadded :: "string \<Rightarrow> bool" where
  "unpadded s \<longleftrightarrow> trim s \<noteq> [] \<and> trim s = s"

definition validate_state :: "string \<Rightarrow> string list \<Rightarrow> string list \<Rightarrow> LockedSafeState \<Rightarrow> string + unit" where
  "validate_state prefix resources seen state =
     all_ok
       [ensure (unpadded (kt_component state) \<and> unpadded (kt_class state))
          (prefix @ '' has an empty or padded safety component/class''),
        ensure (kt_resource state \<notin> set seen)
          (prefix @ '' repeats safety state for physical resource '' @ quoted (kt_resource state)),
        ensure (kt_resource state \<in> set resources)
          (prefix @ '' safety resource '' @ quoted (kt_resource state) @ '' is not resolved''),
        (case kt_sensor state of
           None \<Rightarrow> Inr ()
         | Some sensor \<Rightarrow> ensure (sensor \<in> set resources) (prefix @ '' safety sensor '' @ quoted sensor @ '' is not resolved'')),
        ensure (kt_heartbeat_timeout_us state \<noteq> Some 0) (prefix @ '' safety heartbeat timeout must be positive'')]"

fun validate_states :: "string \<Rightarrow> string list \<Rightarrow> string list \<Rightarrow> LockedSafeState list \<Rightarrow> string + unit" where
  "validate_states prefix resources seen [] = Inr ()"
| "validate_states prefix resources seen (s # states) =
     and_then (validate_state prefix resources seen s)
       (\<lambda>_. validate_states prefix resources (kt_resource s # seen) states)"

definition validate_safety :: "u32 \<Rightarrow> string \<times> LockedController \<Rightarrow> string + unit" where
  "validate_safety v = (\<lambda>(name, controller).
     let prefix = controller_text v name in
     case kl_safety controller of
       None \<Rightarrow> Inl (prefix @ '' has no compiled safety configuration'')
     | Some safety \<Rightarrow>
         and_then (ensure (ks_schema safety = CONTROLLER_SAFETY_SCHEMA)
           (prefix @ '' safety schema '' @ quoted (ks_schema safety) @ '' is not '' @ quoted CONTROLLER_SAFETY_SCHEMA)) (\<lambda>_.
         validate_states prefix (bt_values (kl_resolved_resources controller)) [] (ks_states safety)))"

definition lock_versioned_interface :: "string \<Rightarrow> bool" where
  "lock_versioned_interface val =
     (case split_once_str ''/v'' val of
        None \<Rightarrow> False
      | Some (name, version) \<Rightarrow>
          name \<noteq> [] \<and> list_all (\<lambda>c. is_lower c \<or> c = CHR ''.'') name \<and>
          (case version of [] \<Rightarrow> False | d # _ \<Rightarrow> is_digit d \<and> d \<noteq> CHR ''0'') \<and>
          list_all is_digit version \<and> int (dec_value version) < 2 ^ 32)"

definition increasing :: "string list \<Rightarrow> bool" where
  "increasing values \<longleftrightarrow> \<not> list_ex (\<lambda>(a, b). b \<le> a) (zip values (tl values))"

definition validate_build :: "u32 \<Rightarrow> string list \<Rightarrow> string \<times> LockedController \<Rightarrow> string + unit" where
  "validate_build v packages = (\<lambda>(name, controller).
     let prefix = controller_text v name in
     case kl_build controller of
       None \<Rightarrow> Inl (prefix @ '' has no compiled build configuration'')
     | Some build \<Rightarrow>
         all_ok
           [ensure (kb_schema build = CONTROLLER_BUILD_SCHEMA)
              (prefix @ '' build schema '' @ quoted (kb_schema build) @ '' is not '' @ quoted CONTROLLER_BUILD_SCHEMA),
            ensure (starts_with (kb_board build) (kl_board controller @ ''@''))
              (prefix @ '' build board '' @ quoted (kb_board build) @ '' does not pin '' @ quoted (kl_board controller)),
            try_each (\<lambda>package. ensure (package \<in> set packages)
                (prefix @ '' build input '' @ quoted package @ '' is not in packages''))
              (kb_board build # kb_chip build # kb_native_drivers build),
            try_each (\<lambda>(field, val). ensure (val \<noteq> [] \<and> trim val = val)
                (prefix @ '' build '' @ field @ '' is empty or padded''))
              [(''target_triple'', kb_target_triple build), (''toolchain'', kb_toolchain build),
               (''build_profile'', kb_build_profile build), (''protocol_version'', kb_protocol_version build),
               (''abi_version'', kb_abi_version build)],
            try_each (\<lambda>(field, val). ensure (lock_versioned_interface val)
                (prefix @ '' build '' @ field @ '' is not a versioned interface''))
              [(''protocol_version'', kb_protocol_version build), (''abi_version'', kb_abi_version build)],
            ensure (kb_flash_bytes build \<noteq> 0 \<and> kb_ram_bytes build \<noteq> 0 \<and>
                kb_bootloader_offset_bytes build < kb_flash_bytes build)
              (prefix @ '' has invalid build memory layout''),
            try_each (\<lambda>(field, values). ensure (increasing values)
                (prefix @ '' build '' @ field @ '' must be sorted and unique''))
              [(''features'', kb_features build), (''native_drivers'', kb_native_drivers build)],
            ensure (list_all valid_identifier (kb_features build))
              (prefix @ '' build features contain an invalid identifier'')])"

definition validate_source :: "Lockfile \<Rightarrow> string + unit" where
  "validate_source self =
     (case lf_registry_source self of
        None \<Rightarrow> Inl (lock_text (lf_lock_version self) @ '' has no registry source identity'')
      | Some source \<Rightarrow>
          map_err (\<lambda>e. lock_text (lf_lock_version self) @ '' has invalid registry source identity: '' @ e)
            (registry_source_validate source))"

definition lock_validate :: "Lockfile \<Rightarrow> string + unit" where
  "lock_validate self =
     (let v = lf_lock_version self in
      all_ok
        [if 2 \<le> v then validate_hashes self else Inr (),
         if 3 \<le> v then try_each (validate_safety v) (lf_controllers self) else Inr (),
         if 4 \<le> v then try_each (validate_build v (map kp_id (lf_packages self))) (lf_controllers self) else Inr (),
         if 5 \<le> v then validate_source self else Inr ()])"

section \<open>Canonical form\<close>

record lock_codec =
  lc_json :: "Lockfile \<Rightarrow> u8 list"
  lc_yaml :: "Lockfile \<Rightarrow> string"
  lc_parse_yaml :: "string \<Rightarrow> string + Lockfile"
  lc_hex :: "u8 list \<Rightarrow> string"

text \<open>Serialising validates first; the convenience wrappers panic where that fails.\<close>

definition try_canonical_bytes :: "lock_codec \<Rightarrow> Lockfile \<Rightarrow> string + u8 list" where
  "try_canonical_bytes codec self = and_then (lock_validate self) (\<lambda>_. Inr (lc_json codec self))"

definition canonical_bytes :: "lock_codec \<Rightarrow> Lockfile \<Rightarrow> u8 list option" where
  "canonical_bytes codec self = (case try_canonical_bytes codec self of Inl _ \<Rightarrow> None | Inr b \<Rightarrow> Some b)"

definition try_lock_hash :: "lock_codec \<Rightarrow> Lockfile \<Rightarrow> string + string" where
  "try_lock_hash codec self =
     and_then (try_canonical_bytes codec self) (\<lambda>bytes. Inr (sha256_text (lc_hex codec) bytes))"

definition lock_hash :: "lock_codec \<Rightarrow> Lockfile \<Rightarrow> string option" where
  "lock_hash codec self = (case try_lock_hash codec self of Inl _ \<Rightarrow> None | Inr h \<Rightarrow> Some h)"

definition try_to_yaml :: "lock_codec \<Rightarrow> Lockfile \<Rightarrow> string + string" where
  "try_to_yaml codec self = and_then (lock_validate self) (\<lambda>_. Inr (lc_yaml codec self))"

definition from_yaml :: "lock_codec \<Rightarrow> string \<Rightarrow> string + Lockfile" where
  "from_yaml codec source =
     and_then (lc_parse_yaml codec source) (\<lambda>lock. and_then (lock_validate lock) (\<lambda>_. Inr lock))"

section \<open>Generation\<close>

definition CARGO_PKG_VERSION :: string where "CARGO_PKG_VERSION = ''0.1.0''"

definition locked_package ::
  "(u8 list \<Rightarrow> string) \<Rightarrow> ('ver, 'req) semver_ops \<Rightarrow> (string \<Rightarrow> string + PackageSnapshot) \<Rightarrow> 'ver LoadedPackage \<Rightarrow>
     Diagnostic list + LockedPackage" where
  "locked_package hex sv snapshots found =
     (let reference = package_ref_text sv (lp_reference found) in
      and_then (map_err (\<lambda>e. [diag_error ''E1400'' (''cannot snapshot package content for '' @ reference @ '': '' @ e)])
          (snapshots (lp_dir found))) (\<lambda>snapshot.
      and_then (map_err (\<lambda>e. [diag_error ''E1400'' (''cannot hash manifest for '' @ reference @ '': '' @ e)])
          (manifest_bytes snapshot)) (\<lambda>bytes.
      Inr \<lparr>kp_id = reference, kp_manifest_hash = sha256_text hex bytes,
           kp_content_hash = content_hash hex snapshot\<rparr>)))"

fun pin_each ::
  "(u8 list \<Rightarrow> string) \<Rightarrow> ('ver :: linorder, 'req) semver_ops \<Rightarrow> (string \<Rightarrow> string + PackageSnapshot) \<Rightarrow>
     'ver LocalRegistry \<Rightarrow> string list \<Rightarrow> Diagnostic list + LockedPackage list" where
  "pin_each hex sv snapshots registry [] = Inr []"
| "pin_each hex sv snapshots registry (pkg # pkgs) =
     (case package_ref_parse sv pkg of
        Inl _ \<Rightarrow> pin_each hex sv snapshots registry pkgs
      | Inr r \<Rightarrow>
          (case find_version (pr_namespace r) (pr_name r) (pr_version r) registry of
             None \<Rightarrow>
               Inl [diag_error ''E1402'' (''resolved package '' @ quoted pkg @ '' is no longer in the registry'')]
           | Some found \<Rightarrow>
               and_then (locked_package hex sv snapshots found) (\<lambda>p.
               and_then (pin_each hex sv snapshots registry pkgs) (\<lambda>ps. Inr (p # ps)))))"

definition pin_packages ::
  "(u8 list \<Rightarrow> string) \<Rightarrow> ('ver :: linorder, 'req) semver_ops \<Rightarrow> (string \<Rightarrow> string + PackageSnapshot) \<Rightarrow>
     'ver LocalRegistry \<Rightarrow> ResolvedGraph \<Rightarrow> Diagnostic list + LockedPackage list" where
  "pin_packages hex sv snapshots registry resolved =
     and_then (pin_each hex sv snapshots registry (rg_packages resolved)) (\<lambda>ps. Inr (sort_key kp_id ps))"

definition no_safety :: LockedSafetyConfig where
  "no_safety = \<lparr>ks_schema = CONTROLLER_SAFETY_SCHEMA, ks_states = []\<rparr>"

definition initialize_controllers :: "'v MachineDoc \<Rightarrow> (string, LockedController) btree" where
  "initialize_controllers doc =
     map (\<lambda>(name, controller).
       (name, \<lparr>kl_board = mc_board controller, kl_resolved_resources = bt_empty,
               kl_safety = Some no_safety, kl_build = None\<rparr>))
       (doc_controllers doc)"

definition via_short :: "string \<Rightarrow> string" where
  "via_short via = (case split_whitespace via of [] \<Rightarrow> via | word # _ \<Rightarrow> word)"

definition apply_assignment ::
  "string \<Rightarrow> Assignment \<Rightarrow> (string, LockedController) btree \<Rightarrow> (string, LockedController) btree" where
  "apply_assignment component assignment controllers =
     (case split_once (CHR ''.'') (as_resource assignment) of
        None \<Rightarrow> controllers
      | Some (controller_name, port) \<Rightarrow>
          (case bt_get controllers controller_name of
             None \<Rightarrow> controllers
           | Some controller \<Rightarrow>
               bt_insert controller_name
                 (controller\<lparr>kl_resolved_resources :=
                    bt_insert (component @ ''/'' @ via_short (as_via assignment)) port (kl_resolved_resources controller)\<rparr>)
                 controllers))"

definition apply_assignments ::
  "ResolvedGraph \<Rightarrow> (string, LockedController) btree \<Rightarrow> (string, LockedController) btree" where
  "apply_assignments resolved controllers =
     fold (\<lambda>(component, assignments) cs. fold (apply_assignment component) assignments cs)
       (rg_assignments resolved) controllers"

definition locked_sensor :: "string \<Rightarrow> ResourceId option \<Rightarrow> Diagnostic list + string option" where
  "locked_sensor controller_name sensor =
     (case sensor of
        None \<Rightarrow> Inr None
      | Some sensor \<Rightarrow>
          if starts_with sensor (controller_name @ ''.'') then Inr (Some (drop (length controller_name + 1) sensor))
          else Inl [diag_error ''E1403'' (''safety sensor '' @ quoted sensor @ '' is not local to controller ''
            @ quoted controller_name)])"

definition locked_state :: "string \<Rightarrow> ControllerSafeState \<Rightarrow> Diagnostic list + LockedSafeState" where
  "locked_state controller_name binding =
     (case split_once (CHR ''.'') (ss_resource binding) of
        None \<Rightarrow>
          Inl [diag_error ''E1403'' (''safety resource '' @ quoted (ss_resource binding) @ '' is not ''
            @ quoted ''controller.resource'')]
      | Some (resource_controller, resource) \<Rightarrow>
          if resource_controller \<noteq> controller_name
          then Inl [diag_error ''E1403'' (''safety resource '' @ quoted (ss_resource binding) @ '' belongs to controller ''
            @ quoted resource_controller @ '', not '' @ quoted controller_name)]
          else
            and_then (locked_sensor controller_name (ss_sensor binding)) (\<lambda>sensor.
            Inr \<lparr>kt_component = ss_component binding, kt_class = ss_class binding, kt_resource = resource,
                 kt_state = ss_state binding, kt_heartbeat_timeout_us = ss_heartbeat_timeout_us binding,
                 kt_sensor = sensor\<rparr>))"

fun try_map :: "('a \<Rightarrow> 'e + 'b) \<Rightarrow> 'a list \<Rightarrow> 'e + 'b list" where
  "try_map f [] = Inr []"
| "try_map f (x # xs) = and_then (f x) (\<lambda>y. and_then (try_map f xs) (\<lambda>ys. Inr (y # ys)))"

definition state_key :: "LockedSafeState \<Rightarrow> string \<times> string" where
  "state_key s = (kt_component s, kt_resource s)"

text \<open>Every controller has a safety configuration from the start (lemma \<^verbatim>\<open>locked_controllers\<close>), which the code expects.\<close>

fun apply_safety_each ::
  "(string \<times> ControllerSafeState list) list \<Rightarrow> (string, LockedController) btree \<Rightarrow>
     Diagnostic list + (string, LockedController) btree" where
  "apply_safety_each [] controllers = Inr controllers"
| "apply_safety_each ((controller_name, bindings) # rest) controllers =
     and_then (ok_or (bt_get controllers controller_name)
       [diag_error ''E1403'' (''resolved safety configuration names unknown controller '' @ quoted controller_name)]) (\<lambda>controller.
     and_then (try_map (locked_state controller_name) bindings) (\<lambda>added.
     let safety = (case kl_safety controller of Some safety \<Rightarrow> safety | None \<Rightarrow> no_safety);
         states = sort_key state_key (ks_states safety @ added) in
     apply_safety_each rest
       (bt_insert controller_name (controller\<lparr>kl_safety := Some (safety\<lparr>ks_states := states\<rparr>)\<rparr>) controllers)))"

definition apply_safety ::
  "ResolvedGraph \<Rightarrow> (string, LockedController) btree \<Rightarrow> Diagnostic list + (string, LockedController) btree" where
  "apply_safety resolved controllers = apply_safety_each (rg_controller_safety resolved) controllers"

definition locked_build :: "ControllerBuildPlan \<Rightarrow> LockedBuildConfig" where
  "locked_build plan =
     \<lparr>kb_schema = CONTROLLER_BUILD_SCHEMA, kb_board = bl_board plan, kb_chip = bl_chip plan,
      kb_target_triple = bl_target_triple plan, kb_toolchain = bl_toolchain plan, kb_build_profile = bl_build_profile plan,
      kb_protocol_version = bl_protocol_version plan, kb_abi_version = bl_abi_version plan,
      kb_flash_bytes = bl_flash_bytes plan, kb_ram_bytes = bl_ram_bytes plan,
      kb_bootloader_offset_bytes = bl_bootloader_offset_bytes plan, kb_features = bl_features plan,
      kb_native_drivers = bl_native_drivers plan\<rparr>"

fun apply_build_each ::
  "(string \<times> ControllerBuildPlan) list \<Rightarrow> (string, LockedController) btree \<Rightarrow>
     Diagnostic list + (string, LockedController) btree" where
  "apply_build_each [] controllers = Inr controllers"
| "apply_build_each ((controller_name, plan) # rest) controllers =
     and_then (ok_or (bt_get controllers controller_name)
       [diag_error ''E1404'' (''resolved build plan names unknown controller '' @ quoted controller_name)]) (\<lambda>controller.
     apply_build_each rest (bt_insert controller_name (controller\<lparr>kl_build := Some (locked_build plan)\<rparr>) controllers))"

definition apply_build_inputs ::
  "ResolvedGraph \<Rightarrow> (string, LockedController) btree \<Rightarrow> Diagnostic list + (string, LockedController) btree" where
  "apply_build_inputs resolved controllers = apply_build_each (rg_controller_build_plans resolved) controllers"

definition select_safety_profile :: "LockedPackage list \<Rightarrow> string \<Rightarrow> Diagnostic list + LockedPackage" where
  "select_safety_profile packages profile =
     ok_or (List.find (\<lambda>package. starts_with (kp_id package) (profile @ ''@'')) packages)
       [diag_error ''E1401'' (''safety profile '' @ quoted profile @ '' is not in the resolved closure'')]"

definition lock_machine ::
  "(string \<Rightarrow> 'v ParseOutcome) \<Rightarrow> (u8 list \<Rightarrow> string) \<Rightarrow> ('ver :: linorder, 'req) semver_ops \<Rightarrow>
     (string \<Rightarrow> string + PackageSnapshot) \<Rightarrow> string \<Rightarrow> 'ver LocalRegistry \<Rightarrow> ResolvedGraph \<Rightarrow> Diagnostic list + Lockfile" where
  "lock_machine parse_str hex sv snapshots source registry resolved =
     (let parsed = parse_str source in
      and_then (ok_or (pa_doc parsed) (pa_diagnostics parsed)) (\<lambda>doc.
      and_then (ok_or (lr_source registry)
        [diag_error ''E1406'' ''registry has no validated portable source descriptor'']) (\<lambda>registry_source.
      and_then (pin_packages hex sv snapshots registry resolved) (\<lambda>packages.
      and_then (apply_safety resolved (apply_assignments resolved (initialize_controllers doc))) (\<lambda>with_safety.
      and_then (apply_build_inputs resolved with_safety) (\<lambda>controllers.
      and_then (select_safety_profile packages (sf_profile (doc_safety doc))) (\<lambda>safety_profile.
      let lockfile = \<lparr>lf_lock_version = LOCK_VERSION, lf_machine_hash = sha256_text hex (as_bytes source),
            lf_resolver_version = CARGO_PKG_VERSION, lf_registry_source = Some registry_source,
            lf_packages = packages, lf_safety_profile = safety_profile, lf_controllers = controllers\<rparr> in
      and_then (map_err (\<lambda>e. [diag_error ''E1405'' (''generated lockfile violates its v''
          @ dec_nat (unat LOCK_VERSION) @ '' contract: '' @ e)]) (lock_validate lockfile)) (\<lambda>_.
      Inr lockfile))))))))"

section \<open>What validation accepts\<close>

lemma ensure_Inr [simp]: "ensure b e = Inr u \<longleftrightarrow> b"
  by (simp add: ensure_def)

lemma try_each_Inr: "try_each f xs = Inr u \<longleftrightarrow> (\<forall>x\<in>set xs. f x = Inr ())"
  by (induction xs) (auto simp: and_then_Inr_iff)

declare try_each.simps [simp del]

lemma all_ok_Inr: "all_ok rs = Inr u \<longleftrightarrow> (\<forall>r\<in>set rs. r = Inr ())"
  by (simp add: all_ok_def try_each_Inr)

lemma unit_results: "(r :: 'e + unit) = Inr u \<longleftrightarrow> is_ok r"
  by (cases r) simp_all

definition state_valid :: "string set \<Rightarrow> LockedSafeState \<Rightarrow> bool" where
  "state_valid resources s \<longleftrightarrow> unpadded (kt_component s) \<and> unpadded (kt_class s) \<and> kt_resource s \<in> resources \<and>
     set_option (kt_sensor s) \<subseteq> resources \<and> kt_heartbeat_timeout_us s \<noteq> Some 0"

definition safety_valid :: "LockedController \<Rightarrow> bool" where
  "safety_valid c \<longleftrightarrow> (\<exists>config. kl_safety c = Some config \<and> ks_schema config = CONTROLLER_SAFETY_SCHEMA \<and>
     (\<forall>s\<in>set (ks_states config). state_valid (set (bt_values (kl_resolved_resources c))) s) \<and>
     distinct (map kt_resource (ks_states config)))"

definition build_valid :: "string set \<Rightarrow> LockedController \<Rightarrow> bool" where
  "build_valid packages c \<longleftrightarrow> (\<exists>b. kl_build c = Some b \<and> kb_schema b = CONTROLLER_BUILD_SCHEMA \<and>
     starts_with (kb_board b) (kl_board c @ ''@'') \<and> {kb_board b, kb_chip b} \<union> set (kb_native_drivers b) \<subseteq> packages \<and>
     list_all nonempty_unpadded
       [kb_target_triple b, kb_toolchain b, kb_build_profile b, kb_protocol_version b, kb_abi_version b] \<and>
     versioned_interface (kb_protocol_version b) \<and> versioned_interface (kb_abi_version b) \<and>
     0 < kb_ram_bytes b \<and> kb_bootloader_offset_bytes b < kb_flash_bytes b \<and>
     sorted_wrt (<) (kb_features b) \<and> sorted_wrt (<) (kb_native_drivers b) \<and> list_all valid_identifier (kb_features b))"

definition lock_valid :: "Lockfile \<Rightarrow> bool" where
  "lock_valid lf \<longleftrightarrow>
     (2 \<le> lf_lock_version lf \<longrightarrow> (\<forall>p\<in>set (lf_packages lf). kp_content_hash p \<noteq> []) \<and> kp_content_hash (lf_safety_profile lf) \<noteq> []) \<and>
     (3 \<le> lf_lock_version lf \<longrightarrow> (\<forall>(_, c)\<in>set (lf_controllers lf). safety_valid c)) \<and>
     (4 \<le> lf_lock_version lf \<longrightarrow> (\<forall>(_, c)\<in>set (lf_controllers lf). build_valid (kp_id ` set (lf_packages lf)) c)) \<and>
     (5 \<le> lf_lock_version lf \<longrightarrow> (\<exists>src. lf_registry_source lf = Some src \<and> registry_source_validate src = Inr ()))"

lemma validate_hashes_Inr:
  "validate_hashes lf = Inr u \<longleftrightarrow> (\<forall>p\<in>set (lf_packages lf). kp_content_hash p \<noteq> []) \<and> kp_content_hash (lf_safety_profile lf) \<noteq> []"
proof -
  have "(\<forall>x\<in>set (enumerate 0 xs). P (snd x)) \<longleftrightarrow> (\<forall>p\<in>set xs. P p)" for xs :: "LockedPackage list" and P
    using set_map [of snd "enumerate 0 xs"] by (simp add: map_snd_enumerate)
  from this [where P = "\<lambda>p. kp_content_hash p \<noteq> []"] show ?thesis
    by (simp add: validate_hashes_def and_then_Inr_iff try_each_Inr case_prod_beta)
qed

lemma validate_state_Inr:
  "validate_state prefix resources seen s = Inr u \<longleftrightarrow> state_valid (set resources) s \<and> kt_resource s \<notin> set seen"
  by (auto simp: validate_state_def all_ok_Inr state_valid_def split: option.split)

lemma validate_states_Inr:
  "validate_states prefix resources seen ss = Inr u \<longleftrightarrow>
     (\<forall>s\<in>set ss. state_valid (set resources) s) \<and> distinct (map kt_resource ss) \<and> kt_resource ` set ss \<inter> set seen = {}"
  by (induction ss arbitrary: seen) (auto simp: and_then_Inr_iff validate_state_Inr)

lemma validate_safety_Inr: "validate_safety v (n, c) = Inr u \<longleftrightarrow> safety_valid c"
  by (auto simp: validate_safety_def Let_def safety_valid_def and_then_Inr_iff validate_states_Inr split: option.split)

lemma lock_versioned_interface_eq: "lock_versioned_interface = versioned_interface"
  by (rule ext) (simp add: lock_versioned_interface_def versioned_interface_def)

lemma increasing_iff: "increasing xs \<longleftrightarrow> sorted_wrt (<) xs"
proof (induction xs)
  case (Cons x xs)
  then show ?case by (cases xs) (auto simp: increasing_def not_le intro: less_trans)
qed (simp add: increasing_def)

lemma validate_build_Inr: "validate_build v packages (n, c) = Inr u \<longleftrightarrow> build_valid (set packages) c"
proof (cases "kl_build c")
  case (Some b)
  have "0 < flash" if "x < flash" for x flash :: u64
    using that word_gt_0 [of flash] by (metis word_not_simps(1))
  then show ?thesis
    by (auto simp: Some validate_build_def Let_def build_valid_def all_ok_Inr try_each_Inr lock_versioned_interface_eq
        increasing_iff nonempty_unpadded_def word_gt_0 list_all_iff)
qed (simp add: validate_build_def build_valid_def)

lemma validate_source_Inr:
  "validate_source lf = Inr u \<longleftrightarrow> (\<exists>src. lf_registry_source lf = Some src \<and> registry_source_validate src = Inr ())"
  by (auto simp: validate_source_def map_err_Inr_iff split: option.split)

lemma lock_validate_iff: "lock_validate lf = Inr () \<longleftrightarrow> lock_valid lf"
  by (auto simp: lock_validate_def Let_def all_ok_Inr lock_valid_def validate_hashes_Inr try_each_Inr
      validate_safety_Inr validate_build_Inr validate_source_Inr)

text \<open>
  Claim C5: a lock file is accepted exactly if what its version promises holds: content digests from version 2,
  safe states on resolved resources, at most one each, from version 3, build inputs that are pinned packages with
  ordered features and a memory layout that fits from version 4, and a valid registry source from version 5.
\<close>

theorem lock_validate_exact: "lock_validate lf = Inr () \<longleftrightarrow> lock_valid lf"
  by (rule lock_validate_iff)

section \<open>What a lock file holds\<close>

definition with_resources :: "LockedController \<Rightarrow> LockedController \<Rightarrow> bool" where
  "with_resources c c' \<longleftrightarrow> (\<exists>r. c' = c\<lparr>kl_resolved_resources := r\<rparr>)"

definition config_of :: "LockedController \<Rightarrow> LockedSafetyConfig" where
  "config_of c = (case kl_safety c of Some safety \<Rightarrow> safety | None \<Rightarrow> no_safety)"

definition with_states :: "string \<Rightarrow> ControllerSafeState list option \<Rightarrow> LockedController \<Rightarrow> LockedController \<Rightarrow> bool" where
  "with_states n bindings c c' \<longleftrightarrow>
     (case bindings of
        None \<Rightarrow> c' = c
      | Some bs \<Rightarrow> \<exists>added. try_map (locked_state n) bs = Inr added \<and>
          c' = c\<lparr>kl_safety := Some ((config_of c)\<lparr>ks_states := sort_key state_key (ks_states (config_of c) @ added)\<rparr>)\<rparr>)"

definition with_build :: "ControllerBuildPlan option \<Rightarrow> LockedController \<Rightarrow> LockedController" where
  "with_build plan c = (case plan of None \<Rightarrow> c | Some p \<Rightarrow> c\<lparr>kl_build := Some (locked_build p)\<rparr>)"

lemma bt_get_map_of: "bt_get m k = map_of m k"
  by (induction m k rule: bt_get.induct) auto

lemma with_resources_refl: "with_resources c c"
  unfolding with_resources_def by (rule exI [of _ "kl_resolved_resources c"]) simp

lemma with_resources_option: "rel_option with_resources x x"
  by (cases x) (simp_all add: with_resources_refl)

lemma apply_assignment_resources:
  "rel_option with_resources (bt_get cs n) (bt_get (apply_assignment component a cs) n)"
proof -
  have upd: "with_resources c (c\<lparr>kl_resolved_resources := r\<rparr>)" for c r by (auto simp: with_resources_def)
  show ?thesis
    by (auto simp: apply_assignment_def bt_get_insert with_resources_option upd split: option.split)
qed

lemma apply_assignments_resources:
  "rel_option with_resources (bt_get cs n) (bt_get (apply_assignments g cs) n)"
proof -
  let ?R = "rel_option with_resources"
  have trans: "?R x z" if "?R x y" "?R y z" for x y z
    using that by (cases x; cases y; cases z) (auto simp: with_resources_def)
  have one: "?R x (bt_get cs' n) \<Longrightarrow> ?R x (bt_get (fold (apply_assignment component) as cs') n)" for x as cs' component
    by (rule fold_keeps [where P = "\<lambda>cs. ?R x (bt_get cs n)"]) (rule trans, assumption, rule apply_assignment_resources)
  show ?thesis
    unfolding apply_assignments_def
    by (rule fold_keeps [where P = "\<lambda>cs'. ?R (bt_get cs n) (bt_get cs' n)"]) (auto intro: one with_resources_option split: prod.split)
qed

lemma apply_safety_each_Inr:
  "apply_safety_each l cs = Inr cs' \<Longrightarrow> distinct (map fst l) \<Longrightarrow>
     rel_option (with_states n (map_of l n)) (bt_get cs n) (bt_get cs' n) \<and> (map_of l n \<noteq> None \<longrightarrow> bt_get cs n \<noteq> None)"
proof (induction l cs arbitrary: cs' rule: apply_safety_each.induct)
  case (1 cs)
  then show ?case by (cases "bt_get cs n") (auto simp: with_states_def)
next
  case (2 name bindings rest cs)
  obtain c added where c: "bt_get cs name = Some c" "try_map (locked_state name) bindings = Inr added"
    and rest: "apply_safety_each rest (bt_insert name (c\<lparr>kl_safety := Some ((config_of c)
      \<lparr>ks_states := sort_key state_key (ks_states (config_of c) @ added)\<rparr>)\<rparr>) cs) = Inr cs'"
    using "2.prems"(1) by (auto simp: and_then_Inr_iff ok_or_Inr_iff Let_def config_of_def)
  have new: "name \<notin> fst ` set rest" "distinct (map fst rest)" using "2.prems"(2) by auto
  have none: "map_of rest name = None" using new(1) by (simp add: map_of_eq_None_iff)
  from "2.IH" [OF refl refl, folded config_of_def, OF rest new(2)]
  show ?case by (auto simp: bt_get_insert c none with_states_def option_rel_Some1 split: if_splits)
qed

lemma apply_build_each_Inr:
  "apply_build_each l cs = Inr cs' \<Longrightarrow> distinct (map fst l) \<Longrightarrow>
     bt_get cs' n = map_option (with_build (map_of l n)) (bt_get cs n) \<and> (map_of l n \<noteq> None \<longrightarrow> bt_get cs n \<noteq> None)"
proof (induction l cs arbitrary: cs' rule: apply_build_each.induct)
  case (1 cs)
  then show ?case by (cases "bt_get cs n") (auto simp: with_build_def)
next
  case (2 name plan rest cs)
  obtain c where c: "bt_get cs name = Some c"
    and rest: "apply_build_each rest (bt_insert name (c\<lparr>kl_build := Some (locked_build plan)\<rparr>) cs) = Inr cs'"
    using "2.prems"(1) by (auto simp: and_then_Inr_iff ok_or_Inr_iff)
  have new: "map_of rest name = None" "distinct (map fst rest)" using "2.prems"(2) by (auto simp: map_of_eq_None_iff)
  from "2.IH" [OF rest new(2)] show ?case by (auto simp: bt_get_insert c new(1) with_build_def split: if_splits)
qed

lemma bt_get_initialize:
  "bt_get (initialize_controllers doc) n =
     map_option (\<lambda>controller. \<lparr>kl_board = mc_board controller, kl_resolved_resources = bt_empty, kl_safety = Some no_safety,
       kl_build = None\<rparr>) (bt_get (doc_controllers doc) n)"
proof -
  have "bt_get (map (\<lambda>(name, c). (name, f c)) m) n = map_option f (bt_get m n)" for m and f :: "MachineController \<Rightarrow> LockedController"
    by (induction m) auto
  then show ?thesis by (simp add: initialize_controllers_def)
qed

lemma lock_machine_Inr:
  assumes "lock_machine parse_str hex sv snapshots source registry g = Inr lf"
  obtains doc rs packages cs where "pa_doc (parse_str source) = Some doc" "lr_source registry = Some rs"
    "pin_packages hex sv snapshots registry g = Inr packages"
    "apply_safety g (apply_assignments g (initialize_controllers doc)) = Inr cs"
    "apply_build_inputs g cs = Inr (lf_controllers lf)"
    "select_safety_profile packages (sf_profile (doc_safety doc)) = Inr (lf_safety_profile lf)"
    "lf_packages lf = packages" "lf_lock_version lf = 5" "lf_registry_source lf = Some rs"
    "lf_machine_hash lf = sha256_text hex (as_bytes source)" "lock_validate lf = Inr ()"
  using assms by (auto simp: lock_machine_def Let_def and_then_Inr_iff ok_or_Inr_iff map_err_Inr_iff LOCK_VERSION_def)

text \<open>The controllers of a lock file are those of the machine, with the safe states and the plans of the resolution.\<close>

lemma locked_controllers:
  assumes "lock_machine parse_str hex sv snapshots source registry g = Inr lf" "pa_doc (parse_str source) = Some doc"
    and "distinct (map fst (rg_controller_safety g))" "distinct (map fst (rg_controller_build_plans g))"
  shows "(case bt_get (lf_controllers lf) n of
      None \<Rightarrow> bt_get (doc_controllers doc) n = None \<and> bt_get (rg_controller_safety g) n = None
    | Some c \<Rightarrow> (\<exists>controller config added. bt_get (doc_controllers doc) n = Some controller \<and> kl_board c = mc_board controller \<and>
        kl_safety c = Some config \<and> try_map (locked_state n) (bindings_at (rg_controller_safety g) n) = Inr added \<and>
        ks_states config = sort_key state_key added) \<and>
        kl_build c = map_option locked_build (bt_get (rg_controller_build_plans g) n))"
proof -
  obtain cs where cs: "apply_safety g (apply_assignments g (initialize_controllers doc)) = Inr cs"
    "apply_build_inputs g cs = Inr (lf_controllers lf)"
    by (rule lock_machine_Inr [OF assms(1)]) (use assms(2) in auto)
  note safety = apply_safety_each_Inr [OF cs(1) [unfolded apply_safety_def] assms(3), of n, folded bt_get_map_of]
  note build = apply_build_each_Inr [OF cs(2) [unfolded apply_build_inputs_def] assms(4), of n, folded bt_get_map_of]
  have init: "rel_option with_resources (bt_get (initialize_controllers doc) n)
      (bt_get (apply_assignments g (initialize_controllers doc)) n)"
    by (rule apply_assignments_resources)
  show ?thesis
  proof (cases "bt_get (doc_controllers doc) n")
    case None
    then show ?thesis
      using init safety build by (auto simp: bt_get_initialize rel_option_None1)
  next
    case (Some controller)
    then obtain r where "bt_get (apply_assignments g (initialize_controllers doc)) n =
        Some \<lparr>kl_board = mc_board controller, kl_resolved_resources = r, kl_safety = Some no_safety, kl_build = None\<rparr>"
      using init by (auto simp: bt_get_initialize option_rel_Some1 with_resources_def)
    with safety build show ?thesis
      by (auto simp: Some option_rel_Some1 with_states_def with_build_def config_of_def no_safety_def bindings_at_def
          split: option.splits)
  qed
qed

section \<open>Locking a resolved machine\<close>

lemma split_once_Some: "split_once c s = Some (a, b) \<Longrightarrow> s = a @ c # b \<and> c \<notin> set a"
  by (induction c s arbitrary: a b rule: split_once.induct) (auto split: if_splits)

lemma partition_inv:
  assumes "partition_safety fo as_str doc resolved profile diagnostics = (g, out)"
    and "rg_controller_safety resolved = bt_empty"
  shows "bt_inv (rg_controller_safety g)"
proof (cases profile)
  case None
  then show ?thesis using assms by (auto simp: partition_safety_def)
next
  case (Some p)
  let ?start = "\<lparr>pw_owners = bt_empty, pw_safety = rg_controller_safety resolved, pw_diagnostics = diagnostics\<rparr>"
  let ?w = "fold (partition_component fo as_str resolved (sp_classes p)) (doc_components doc) ?start"
  have ok: "partition_ok ?w"
    by (rule fold_keeps, rule partition_component_ok)
      (simp_all add: partition_ok_def assms(2) all_bindings_def bt_values_def bt_empty_def bt_inv_def)
  have "rg_controller_safety g = map (\<lambda>(c, bs). (c, sort_bindings bs)) (pw_safety ?w)"
    using assms(1) by (auto simp: Some partition_safety_def Let_def)
  then show ?thesis using ok by (simp add: partition_ok_def bt_inv_def comp_def case_prod_beta)
qed

lemma plans_inv:
  assumes "plan_artifacts fo sv inp g ds = (g', ds')" "bt_inv (rg_controller_build_plans g)"
  shows "bt_inv (rg_controller_build_plans g')"
proof -
  have "bt_inv (rg_controller_build_plans (fst (fold (plan_one fo sv inp) (doc_controllers (ai_doc inp)) (g, ds))))"
    by (rule fold_keeps [where P = "\<lambda>s. bt_inv (rg_controller_build_plans (fst s))"])
      (use assms(2) in \<open>auto simp: plan_one_def bt_inv_insert split: sum.split\<close>)
  then show ?thesis using assms(1) by (simp add: plan_artifacts_def)
qed

lemma resolved_maps:
  assumes "ro_resolved (resolve_doc env doc registry ds ph) = Some g"
  shows "bt_inv (rg_controller_safety g) \<and> bt_inv (rg_controller_build_plans g)"
  using assms
proof (rule resolve_doc_resolved)
  fix packages ds1 targets ds2 graph ds3 inp resolved ds4 ph4 ds5 profile ds6 ds7 g1 ds8 ds9
  assume al: "allocate (en_float env) (en_as_str env) (en_debug env) inp ds3 (ph @ [PackageDependencies, PackageLoading, GraphExpansion]) =
       (Some resolved, ds4, ph4)"
    and q: "partition_safety (en_float env) (en_as_str env) (eg_doc graph) resolved profile ds7 = (g1, ds8)"
    and r: "plan_artifacts (en_float env) (en_semver env) (artifact_inputs inp targets packages) g1 ds8 = (g, ds9)"
  have start: "rg_controller_safety resolved = bt_empty" "rg_controller_build_plans resolved = bt_empty"
    using al by (auto simp: allocate_def Let_def split: if_splits)
  have "rg_controller_build_plans g1 = bt_empty"
    using q start(2) by (auto simp: partition_safety_def Let_def split: option.splits)
  then have "bt_inv (rg_controller_build_plans g)"
    by (intro plans_inv [OF r]) (simp add: bt_empty_def bt_inv_def)
  moreover have "rg_controller_safety g = rg_controller_safety g1"
    using plan_artifacts_graph [of "en_float env" "en_semver env" "artifact_inputs inp targets packages" g1 ds8] r by simp
  ultimately show ?thesis using partition_inv [OF q start(1)] by simp
qed

lemma locked_sensor_local:
  assumes "split_once (CHR ''.'') s = Some (controller, port)"
  shows "locked_sensor controller (Some s) = Inr (Some port)"
  using split_once_Some [OF assms] by (simp add: locked_sensor_def starts_with_def)

lemma try_map_set: "try_map f xs = Inr ys \<Longrightarrow> x \<in> set xs \<Longrightarrow> \<exists>y\<in>set ys. f x = Inr y"
  by (induction xs arbitrary: ys) (auto simp: and_then_Inr_iff)

lemma lock_valid_safety:
  assumes "lock_machine parse_str hex sv snapshots source registry g = Inr lf" "bt_get (lf_controllers lf) n = Some c"
  shows "safety_valid c \<and> build_valid (kp_id ` set (lf_packages lf)) c"
proof -
  have "lock_validate lf = Inr ()" "lf_lock_version lf = 5" by (rule lock_machine_Inr [OF assms(1)]; simp)+
  then show ?thesis using bt_get_Some_in [OF assms(2)] by (auto simp: lock_validate_iff lock_valid_def)
qed

text \<open>The safe states of a resolved machine are in its lock file.\<close>

lemma locked_safe_states:
  assumes ok: "machine_ok doc" "files_ok (en_files env)"
    and g: "ro_resolved (resolve_doc env doc registry ds ph) = Some g"
    and lock: "lock_machine parse_str hex sv snapshots source reg g = Inr lf" "pa_doc (parse_str source) = Some doc"
    and a: "(c, l) \<in> set (rg_assignments g)" "a \<in> set l" "as_connector_kind a = ''power_output''"
  shows "\<exists>controller port locked config s profile policy.
      split_once (CHR ''.'') (as_resource a) = Some (controller, port) \<and>
      bt_get (lf_controllers lf) controller = Some locked \<and> kl_safety locked = Some config \<and>
      s \<in> set (ks_states config) \<and> kt_component s = c \<and> kt_resource s = port \<and>
      machine_profile env doc registry ds = Some profile \<and> bt_get (sp_classes profile) (kt_class s) = Some policy \<and>
      kt_state s = po_safe_state policy \<and> kt_heartbeat_timeout_us s = heartbeat_timeout_us (en_float env) policy \<and>
      (po_requires_sensor policy \<longrightarrow>
        (\<exists>sensor. kt_sensor s = Some sensor \<and> sensor \<in> set (bt_values (kl_resolved_resources locked))))"
proof -
  obtain controller port b profile policy where b: "split_once (CHR ''.'') (as_resource a) = Some (controller, port)"
    "b \<in> set (bindings_at (rg_controller_safety g) controller)" "ss_component b = c" "ss_resource b = as_resource a"
    "machine_profile env doc registry ds = Some profile" "bt_get (sp_classes profile) (ss_class b) = Some policy"
    "ss_state b = po_safe_state policy" "ss_heartbeat_timeout_us b = heartbeat_timeout_us (en_float env) policy"
    "po_requires_sensor policy \<longrightarrow> (\<exists>s. ss_sensor b = Some s \<and> on_controller controller s)"
    using resolved_hazards [OF ok g a] by blast
  have keys: "distinct (map fst (rg_controller_safety g))" "distinct (map fst (rg_controller_build_plans g))"
    using resolved_maps [OF g] by (simp_all add: bt.entries_distinct)
  note locked_at = locked_controllers [OF lock keys, of controller]
  have "bt_get (rg_controller_safety g) controller \<noteq> None"
    using b(2) by (cases "bt_get (rg_controller_safety g) controller") (auto simp: bindings_at_def)
  then obtain locked config added where locked: "bt_get (lf_controllers lf) controller = Some locked"
    "kl_safety locked = Some config" "try_map (locked_state controller) (bindings_at (rg_controller_safety g) controller) = Inr added"
    "ks_states config = sort_key state_key added"
    using locked_at by (auto split: option.splits)
  obtain s where s: "s \<in> set added" "locked_state controller b = Inr s" using try_map_set [OF locked(3) b(2)] by blast
  then obtain sensor where sensor: "locked_sensor controller (ss_sensor b) = Inr sensor"
    and s': "s = \<lparr>kt_component = c, kt_class = ss_class b, kt_resource = port, kt_state = ss_state b,
      kt_heartbeat_timeout_us = ss_heartbeat_timeout_us b, kt_sensor = sensor\<rparr>"
    using b(1,3,4) by (auto simp: locked_state_def and_then_Inr_iff)
  have valid: "state_valid (set (bt_values (kl_resolved_resources locked))) s"
    using lock_valid_safety [OF lock(1) locked(1)] locked(2,4) s(1) by (auto simp: safety_valid_def)
  have "\<exists>x. sensor = Some x \<and> x \<in> set (bt_values (kl_resolved_resources locked))" if "po_requires_sensor policy"
    using b(9) that sensor valid locked_sensor_local by (auto simp: on_controller_def s' state_valid_def)
  then show ?thesis
    using b(1,5-8) locked s(1) by (intro exI [of _ controller] exI [of _ port] exI [of _ locked] exI [of _ config] exI [of _ s]) (auto simp: s')
qed

section \<open>Machines that lock and machines that do not\<close>

text \<open>Every pin is the locked form of the package of its version, for a reference of the closure.\<close>

lemma pin_each_locked:
  "pin_each hex sv snapshots registry pkgs = Inr ps \<Longrightarrow> p \<in> set ps \<Longrightarrow>
     \<exists>pkg\<in>set pkgs. \<exists>r found. package_ref_parse sv pkg = Inr r \<and> lp_reference found = r \<and>
       find_version (pr_namespace r) (pr_name r) (pr_version r) registry = Some found \<and>
       locked_package hex sv snapshots found = Inr p"
proof (induction pkgs arbitrary: ps)
  case (Cons pkg pkgs)
  show ?case
  proof (cases "package_ref_parse sv pkg")
    case (Inl e)
    then show ?thesis using Cons by auto
  next
    case (Inr r)
    then obtain found q qs where q: "find_version (pr_namespace r) (pr_name r) (pr_version r) registry = Some found"
      "locked_package hex sv snapshots found = Inr q" "pin_each hex sv snapshots registry pkgs = Inr qs" "ps = q # qs"
      using Cons.prems(1) by (auto simp: and_then_Inr_iff split: option.split_asm)
    have "lp_reference found = r"
      using q(1) by (auto simp: find_version_def named_def find_Some_iff intro: PackageRef.equality)
    then show ?thesis using Cons.IH [OF q(3)] Cons.prems(2) q Inr by auto
  qed
qed simp

lemma locked_package_id: "locked_package hex sv snapshots found = Inr p \<Longrightarrow> kp_id p = package_ref_text sv (lp_reference found)"
  by (auto simp: locked_package_def Let_def and_then_Inr_iff)

lemma pin_each_closure:
  "pin_each hex sv snapshots registry pkgs = Inr ps \<Longrightarrow> p \<in> set ps \<Longrightarrow>
     \<exists>pkg\<in>set pkgs. \<exists>r. package_ref_parse sv pkg = Inr r \<and> kp_id p = package_ref_text sv r"
  by (drule (1) pin_each_locked) (metis locked_package_id)

text \<open>
  A machine whose board uses a chip that its package closure does not hold resolves with the warning E1311, and
  no lock file can be made of it.
\<close>

lemma unlisted_chip_not_lockable:
  assumes "lock_machine parse_str hex sv snapshots source registry g = Inr lf"
    and "bt_inv (rg_controller_safety g)" "bt_inv (rg_controller_build_plans g)"
    and "bt_get (rg_controller_build_plans g) n = Some plan"
  shows "\<exists>pkg\<in>set (rg_packages g). \<exists>r. package_ref_parse sv pkg = Inr r \<and> bl_chip plan = package_ref_text sv r"
proof -
  obtain doc packages cs where doc: "pa_doc (parse_str source) = Some doc"
    and pins: "pin_packages hex sv snapshots registry g = Inr packages" "lf_packages lf = packages"
    and build: "apply_build_inputs g cs = Inr (lf_controllers lf)"
    by (rule lock_machine_Inr [OF assms(1)]) blast
  have keys: "distinct (map fst (rg_controller_safety g))" "distinct (map fst (rg_controller_build_plans g))"
    using assms(2,3) by (simp_all add: bt.entries_distinct)
  have at: "bt_get (lf_controllers lf) n = map_option (with_build (bt_get (rg_controller_build_plans g) n)) (bt_get cs n)"
    "bt_get cs n \<noteq> None"
    using apply_build_each_Inr [OF build [unfolded apply_build_inputs_def] keys(2), of n, folded bt_get_map_of] assms(4) by auto
  obtain c where c: "bt_get (lf_controllers lf) n = Some c" "kl_build c = Some (locked_build plan)"
    using at assms(4) by (auto simp: with_build_def)
  have "bl_chip plan \<in> kp_id ` set packages"
    using lock_valid_safety [OF assms(1) c(1)] c(2) pins(2) by (auto simp: build_valid_def locked_build_def)
  then obtain p where p: "p \<in> set packages" "bl_chip plan = kp_id p" by auto
  obtain ps where "pin_each hex sv snapshots registry (rg_packages g) = Inr ps" "packages = sort_key kp_id ps"
    using pins(1) by (auto simp: pin_packages_def and_then_Inr_iff)
  with pin_each_closure [of hex sv snapshots registry "rg_packages g" ps p] p show ?thesis by auto
qed

text \<open>The machine of \<^verbatim>\<open>demo_doc\<close> with its chip pinned.\<close>

definition demo_pinned_doc :: "string MachineDoc" where
  "demo_pinned_doc = demo_doc\<lparr>doc_packages := [''p/c@1'']\<rparr>"

definition demo_source_registry :: "nat LocalRegistry" where
  "demo_source_registry = (demo_registry [demo_kinded Board ''b'', demo_kinded Chip ''c'', demo_kinded SafetyProfile ''s''])
     \<lparr>lr_source := Some \<lparr>rs_schema = REGISTRY_SOURCE_SCHEMA, rs_id = ''r'', rs_uri = ''x:y'',
        rs_descriptor_hash = ''sha256:'' @ replicate 64 (CHR ''0'')\<rparr>\<rparr>"

definition demo_pinned_outcome :: ResolveOutcome where
  "demo_pinned_outcome = resolve_doc demo_env demo_pinned_doc demo_source_registry [] [Parse, SchemaValidation]"

definition demo_lock :: "ResolvedGraph \<Rightarrow> Diagnostic list + Lockfile" where
  "demo_lock = lock_machine (\<lambda>_. \<lparr>pa_doc = Some demo_pinned_doc, pa_diagnostics = [], pa_spans = (\<lambda>_. None)\<rparr>)
     (\<lambda>_. ''0'') digit_versions (\<lambda>_. Inr \<lparr>psn_files = [(''package.yaml'', [])]\<rparr>) [] demo_source_registry"

lemma demo_locked:
  "Option.bind (ro_resolved demo_pinned_outcome) (\<lambda>g.
     case demo_lock g of
       Inl _ \<Rightarrow> None
     | Inr lf \<Rightarrow> Some (map (\<lambda>(c, l). (c, map (\<lambda>a. (as_resource a, as_connector_kind a)) l)) (rg_assignments g),
         map kp_id (lf_packages lf), map (\<lambda>(n, c). (n, kl_resolved_resources c)) (lf_controllers lf))) =
   Some ([(''h'', [(''m.o'', ''power_output'')]), (''t'', [(''m.i'', ''analog_input'')])],
     [''p/b@1'', ''p/c@1'', ''p/s@1''], [(''m'', [(''h/output'', ''o''), (''t/input'', ''i'')])])"
  by code_simp

lemma demo_locked_output:
  obtains g lf a where "ro_resolved demo_pinned_outcome = Some g" "demo_lock g = Inr lf"
    "(''h'', [a]) \<in> set (rg_assignments g)" "as_resource a = ''m.o''" "as_connector_kind a = ''power_output''"
proof -
  obtain g where r: "ro_resolved demo_pinned_outcome = Some g"
    using demo_locked by (cases "ro_resolved demo_pinned_outcome") auto
  obtain lf where l: "demo_lock g = Inr lf" using demo_locked r by (cases "demo_lock g") auto
  obtain a where "(''h'', [a]) \<in> set (rg_assignments g)" "as_resource a = ''m.o''" "as_connector_kind a = ''power_output''"
    using demo_locked r l by (auto simp: map_eq_Cons_conv)
  from that [OF r l this] show thesis .
qed

lemma demo_not_lockable:
  "\<exists>g. ro_resolved demo_outcome = Some g \<and>
     (\<forall>parse_str hex snapshots source registry lf.
        lock_machine parse_str hex digit_versions snapshots source registry g \<noteq> Inr lf)"
proof -
  obtain g plan where g: "ro_resolved demo_outcome = Some g" "rg_packages g = [''p/b@1'', ''p/s@1'']"
    "rg_controller_build_plans g = [(''m'', plan)]" "bl_chip plan = ''p/c@1''"
    by (rule demo_outcome_resolved)
  have inv: "bt_inv (rg_controller_safety g)" "bt_inv (rg_controller_build_plans g)"
    using resolved_maps [OF g(1) [unfolded demo_outcome_def]] by simp_all
  have refs: "map_option (package_ref_text digit_versions) (case package_ref_parse digit_versions s of Inl _ \<Rightarrow> None | Inr r \<Rightarrow> Some r) = Some s"
    if "s \<in> {''p/b@1'', ''p/s@1''}" for s
  proof -
    have "map_option (package_ref_text digit_versions) (case package_ref_parse digit_versions ''p/b@1'' of Inl _ \<Rightarrow> None | Inr r \<Rightarrow> Some r) = Some ''p/b@1''"
      "map_option (package_ref_text digit_versions) (case package_ref_parse digit_versions ''p/s@1'' of Inl _ \<Rightarrow> None | Inr r \<Rightarrow> Some r) = Some ''p/s@1''"
      by code_simp+
    with that show ?thesis by auto
  qed
  have "lock_machine parse_str hex digit_versions snapshots source registry g \<noteq> Inr lf"
    for parse_str hex snapshots source lf and registry :: "nat LocalRegistry"
  proof
    assume "lock_machine parse_str hex digit_versions snapshots source registry g = Inr lf"
    from unlisted_chip_not_lockable [OF this inv, of "''m''" plan] g(2-4) refs [of "''p/b@1''"] refs [of "''p/s@1''"]
    show False by auto
  qed
  then show ?thesis using g(1) by blast
qed

end
