(* ===== verification/Firmware.thy ===== *)
theory Firmware
  imports Locking
begin

text \<open>
  \<^verbatim>\<open>crates/firmware-build/src/lib.rs\<close>: the safety artifact, the controller image and the build plan of a locked
  controller, and their verification.  The JSON forms and their parser are arguments.
\<close>

section \<open>Artifacts\<close>

definition MINIMUM_LOCK_VERSION :: u32 where "MINIMUM_LOCK_VERSION = 3"

definition BUILD_PLAN_MINIMUM_LOCK_VERSION :: u32 where "BUILD_PLAN_MINIMUM_LOCK_VERSION = 4"

definition CONTROLLER_BUILD_PLAN_SCHEMA :: string where
  "CONTROLLER_BUILD_PLAN_SCHEMA = ''dryer.controller-build-plan/v2''"

definition CONTROLLER_IMAGE_SCHEMA :: string where "CONTROLLER_IMAGE_SCHEMA = ''dryer.controller-image/v1''"

record ControllerSafetyArtifact =
  ca_schema :: string
  ca_controller :: string
  ca_lock_hash :: string
  ca_safety_profile :: LockedPackage
  ca_states :: "LockedSafeState list"

record ExpectedFirmwareArtifact =
  ea_format :: string
  ea_path :: string
  ea_size_bytes :: u64
  ea_sha256 :: string
  ea_deployable :: bool

record ControllerImageManifest =
  ci_schema :: string
  ci_controller :: string
  ci_lock_hash :: string
  ci_board :: string
  ci_chip :: string
  ci_target_triple :: string
  ci_toolchain :: string
  ci_build_profile :: string
  ci_protocol_version :: string
  ci_abi_version :: string
  ci_flash_bytes :: u64
  ci_ram_bytes :: u64
  ci_bootloader_offset_bytes :: u64
  ci_features :: "string list"
  ci_native_drivers :: "string list"
  ci_resolved_resources :: "(string, string) btree"
  ci_safety :: LockedSafetyConfig

text \<open>A build plan has the fields of an image, with a schema of its own, and the expected artifact.\<close>

record ControllerBuildPlanArtifact =
  ba_schema :: string
  ba_controller :: string
  ba_lock_hash :: string
  ba_board :: string
  ba_chip :: string
  ba_target_triple :: string
  ba_toolchain :: string
  ba_build_profile :: string
  ba_protocol_version :: string
  ba_abi_version :: string
  ba_flash_bytes :: u64
  ba_ram_bytes :: u64
  ba_bootloader_offset_bytes :: u64
  ba_features :: "string list"
  ba_native_drivers :: "string list"
  ba_resolved_resources :: "(string, string) btree"
  ba_safety :: LockedSafetyConfig
  ba_expected_artifact :: ExpectedFirmwareArtifact

record BuiltControllerFirmware =
  bf_plan :: ControllerBuildPlanArtifact
  bf_image :: ControllerImageManifest
  bf_bytes :: "u8 list"

record firmware_codec = lock_codec +
  fc_safety_json :: "ControllerSafetyArtifact \<Rightarrow> u8 list"
  fc_safety_pretty :: "ControllerSafetyArtifact \<Rightarrow> string"
  fc_plan_json :: "ControllerBuildPlanArtifact \<Rightarrow> u8 list"
  fc_plan_pretty :: "ControllerBuildPlanArtifact \<Rightarrow> string"
  fc_image_pretty :: "ControllerImageManifest \<Rightarrow> string"
  fc_parse_image :: "u8 list \<Rightarrow> string + ControllerImageManifest"

definition safety_artifact_hash :: "firmware_codec \<Rightarrow> ControllerSafetyArtifact \<Rightarrow> string" where
  "safety_artifact_hash codec self = sha256_text (lc_hex codec) (fc_safety_json codec self)"

definition safety_to_pretty_json :: "firmware_codec \<Rightarrow> ControllerSafetyArtifact \<Rightarrow> string" where
  "safety_to_pretty_json codec self = fc_safety_pretty codec self @ newline"

definition plan_artifact_hash :: "firmware_codec \<Rightarrow> ControllerBuildPlanArtifact \<Rightarrow> string" where
  "plan_artifact_hash codec self = sha256_text (lc_hex codec) (fc_plan_json codec self)"

definition plan_to_pretty_json :: "firmware_codec \<Rightarrow> ControllerBuildPlanArtifact \<Rightarrow> string" where
  "plan_to_pretty_json codec self = fc_plan_pretty codec self @ newline"

definition image_to_pretty_json :: "firmware_codec \<Rightarrow> ControllerImageManifest \<Rightarrow> string" where
  "image_to_pretty_json codec self = fc_image_pretty codec self @ newline"

definition image_bytes :: "firmware_codec \<Rightarrow> ControllerImageManifest \<Rightarrow> u8 list" where
  "image_bytes codec self = as_bytes (image_to_pretty_json codec self)"

definition image_hash :: "firmware_codec \<Rightarrow> ControllerImageManifest \<Rightarrow> string" where
  "image_hash codec self = sha256_text (lc_hex codec) (image_bytes codec self)"

datatype BuildError =
    InvalidLock string | UnsupportedLockVersion u32 | UnknownController string | MissingSafetyConfig string
  | MissingBuildConfig string | UnsupportedBuildPlanLockVersion u32 | InvalidSafetyConfig string
  | InvalidControllerImage string | BuildPlanMismatch string

fun build_error_text :: "BuildError \<Rightarrow> string" where
  "build_error_text (InvalidLock m) = ''invalid machine lock: '' @ m"
| "build_error_text (UnsupportedLockVersion v) =
     ''lockfile v'' @ dec_nat (unat v) @ '' cannot produce controller safety artifacts; re-lock with v''
     @ dec_nat (unat MINIMUM_LOCK_VERSION) @ ''+''"
| "build_error_text (UnknownController c) = ''unknown locked controller '' @ quoted c"
| "build_error_text (MissingSafetyConfig c) = ''controller '' @ quoted c @ '' has no compiled safety configuration''"
| "build_error_text (MissingBuildConfig c) = ''controller '' @ quoted c @ '' has no compiled build configuration''"
| "build_error_text (UnsupportedBuildPlanLockVersion v) =
     ''lockfile v'' @ dec_nat (unat v) @ '' cannot produce controller build plans; re-lock with v''
     @ dec_nat (unat BUILD_PLAN_MINIMUM_LOCK_VERSION) @ ''+''"
| "build_error_text (InvalidSafetyConfig m) = ''invalid controller safety configuration: '' @ m"
| "build_error_text (InvalidControllerImage m) = ''invalid controller image: '' @ m"
| "build_error_text (BuildPlanMismatch m) = ''controller build plan mismatch: '' @ m"

section \<open>Compilation\<close>

definition sort_safety_states :: "LockedSafeState list \<Rightarrow> LockedSafeState list" where
  "sort_safety_states = sort_key state_key"

text \<open>\<^verbatim>\<open>lock_hash\<close> does not panic here: it comes after the validation (lemma \<^verbatim>\<open>lock_hash_valid\<close>).\<close>

definition expect_hash :: "firmware_codec \<Rightarrow> Lockfile \<Rightarrow> string" where
  "expect_hash codec lock = (case lock_hash (lock_codec.truncate codec) lock of Some h \<Rightarrow> h | None \<Rightarrow> [])"

definition locked_controller :: "Lockfile \<Rightarrow> string \<Rightarrow> BuildError + LockedController" where
  "locked_controller lock name = ok_or (bt_get (lf_controllers lock) name) (UnknownController name)"

definition compile_controller :: "firmware_codec \<Rightarrow> Lockfile \<Rightarrow> string \<Rightarrow> BuildError + ControllerSafetyArtifact" where
  "compile_controller codec lock controller_name =
     and_then (map_err InvalidLock (lock_validate lock)) (\<lambda>_.
     if lf_lock_version lock < MINIMUM_LOCK_VERSION then Inl (UnsupportedLockVersion (lf_lock_version lock)) else
     and_then (locked_controller lock controller_name) (\<lambda>controller.
     and_then (ok_or (kl_safety controller) (MissingSafetyConfig controller_name)) (\<lambda>safety.
     Inr \<lparr>ca_schema = CONTROLLER_SAFETY_SCHEMA, ca_controller = controller_name, ca_lock_hash = expect_hash codec lock,
          ca_safety_profile = lf_safety_profile lock, ca_states = sort_safety_states (ks_states safety)\<rparr>)))"

definition for_all_controllers :: "(Lockfile \<Rightarrow> string \<Rightarrow> BuildError + 'a) \<Rightarrow> Lockfile \<Rightarrow> BuildError + (string, 'a) btree" where
  "for_all_controllers f lock =
     try_map (\<lambda>name. and_then (f lock name) (\<lambda>x. Inr (name, x))) (bt_keys (lf_controllers lock))"

definition compile_all :: "firmware_codec \<Rightarrow> Lockfile \<Rightarrow> BuildError + (string, ControllerSafetyArtifact) btree" where
  "compile_all codec = for_all_controllers (compile_controller codec)"

definition controller_image_manifest ::
  "firmware_codec \<Rightarrow> Lockfile \<Rightarrow> string \<Rightarrow> BuildError + ControllerImageManifest" where
  "controller_image_manifest codec lock controller_name =
     and_then (map_err InvalidLock (lock_validate lock)) (\<lambda>_.
     if lf_lock_version lock < BUILD_PLAN_MINIMUM_LOCK_VERSION
     then Inl (UnsupportedBuildPlanLockVersion (lf_lock_version lock)) else
     and_then (locked_controller lock controller_name) (\<lambda>controller.
     and_then (ok_or (kl_build controller) (MissingBuildConfig controller_name)) (\<lambda>build.
     and_then (ok_or (kl_safety controller) (MissingSafetyConfig controller_name)) (\<lambda>safety.
     Inr \<lparr>ci_schema = CONTROLLER_IMAGE_SCHEMA, ci_controller = controller_name, ci_lock_hash = expect_hash codec lock,
          ci_board = kb_board build, ci_chip = kb_chip build, ci_target_triple = kb_target_triple build,
          ci_toolchain = kb_toolchain build, ci_build_profile = kb_build_profile build,
          ci_protocol_version = kb_protocol_version build, ci_abi_version = kb_abi_version build,
          ci_flash_bytes = kb_flash_bytes build, ci_ram_bytes = kb_ram_bytes build,
          ci_bootloader_offset_bytes = kb_bootloader_offset_bytes build, ci_features = kb_features build,
          ci_native_drivers = kb_native_drivers build, ci_resolved_resources = kl_resolved_resources controller,
          ci_safety = safety\<lparr>ks_states := sort_safety_states (ks_states safety)\<rparr>\<rparr>))))"

definition expected_artifact :: "firmware_codec \<Rightarrow> string \<Rightarrow> u8 list \<Rightarrow> ExpectedFirmwareArtifact" where
  "expected_artifact codec controller_name bytes =
     \<lparr>ea_format = CONTROLLER_IMAGE_SCHEMA, ea_path = ''build/'' @ controller_name @ ''/firmware.dryer.json'',
      ea_size_bytes = of_nat (length bytes), ea_sha256 = sha256_text (lc_hex codec) bytes, ea_deployable = False\<rparr>"

definition plan_of_image :: "ControllerImageManifest \<Rightarrow> ExpectedFirmwareArtifact \<Rightarrow> ControllerBuildPlanArtifact" where
  "plan_of_image img artifact =
     \<lparr>ba_schema = CONTROLLER_BUILD_PLAN_SCHEMA, ba_controller = ci_controller img, ba_lock_hash = ci_lock_hash img,
      ba_board = ci_board img, ba_chip = ci_chip img, ba_target_triple = ci_target_triple img,
      ba_toolchain = ci_toolchain img, ba_build_profile = ci_build_profile img,
      ba_protocol_version = ci_protocol_version img, ba_abi_version = ci_abi_version img,
      ba_flash_bytes = ci_flash_bytes img, ba_ram_bytes = ci_ram_bytes img,
      ba_bootloader_offset_bytes = ci_bootloader_offset_bytes img, ba_features = ci_features img,
      ba_native_drivers = ci_native_drivers img, ba_resolved_resources = ci_resolved_resources img,
      ba_safety = ci_safety img, ba_expected_artifact = artifact\<rparr>"

definition build_controller :: "firmware_codec \<Rightarrow> Lockfile \<Rightarrow> string \<Rightarrow> BuildError + BuiltControllerFirmware" where
  "build_controller codec lock controller_name =
     and_then (controller_image_manifest codec lock controller_name) (\<lambda>img.
     let bytes = image_bytes codec img in
     Inr \<lparr>bf_plan = plan_of_image img (expected_artifact codec controller_name bytes), bf_image = img, bf_bytes = bytes\<rparr>)"

definition build_all :: "firmware_codec \<Rightarrow> Lockfile \<Rightarrow> BuildError + (string, BuiltControllerFirmware) btree" where
  "build_all codec = for_all_controllers (build_controller codec)"

definition build_plan_controller :: "firmware_codec \<Rightarrow> Lockfile \<Rightarrow> string \<Rightarrow> BuildError + ControllerBuildPlanArtifact" where
  "build_plan_controller codec lock controller_name =
     and_then (build_controller codec lock controller_name) (\<lambda>built. Inr (bf_plan built))"

definition plan_all :: "firmware_codec \<Rightarrow> Lockfile \<Rightarrow> BuildError + (string, ControllerBuildPlanArtifact) btree" where
  "plan_all codec = for_all_controllers (build_plan_controller codec)"

section \<open>Verification\<close>

definition inspect_controller_image :: "firmware_codec \<Rightarrow> u8 list \<Rightarrow> BuildError + ControllerImageManifest" where
  "inspect_controller_image codec bytes =
     and_then (map_err InvalidControllerImage (fc_parse_image codec bytes)) (\<lambda>img.
     if ci_schema img \<noteq> CONTROLLER_IMAGE_SCHEMA
     then Inl (InvalidControllerImage (''schema '' @ quoted (ci_schema img) @ '' is not '' @ quoted CONTROLLER_IMAGE_SCHEMA))
     else if image_bytes codec img \<noteq> bytes
     then Inl (InvalidControllerImage ''bytes are not the canonical JSON encoding'')
     else Inr img)"

definition verify_build_plan ::
  "firmware_codec \<Rightarrow> Lockfile \<Rightarrow> string \<Rightarrow> ControllerBuildPlanArtifact \<Rightarrow> BuildError + unit" where
  "verify_build_plan codec lock controller_name plan =
     and_then (build_plan_controller codec lock controller_name) (\<lambda>expected.
     if plan \<noteq> expected
     then Inl (BuildPlanMismatch (''controller '' @ quoted controller_name @ '' plan does not match the locked inputs''))
     else Inr ())"

definition verify_controller_image ::
  "firmware_codec \<Rightarrow> Lockfile \<Rightarrow> string \<Rightarrow> ControllerBuildPlanArtifact \<Rightarrow> u8 list \<Rightarrow> BuildError + ControllerImageManifest" where
  "verify_controller_image codec lock controller_name plan bytes =
     and_then (verify_build_plan codec lock controller_name plan) (\<lambda>_.
     and_then (build_controller codec lock controller_name) (\<lambda>expected.
     and_then (inspect_controller_image codec bytes) (\<lambda>img.
     if bytes \<noteq> bf_bytes expected
     then
       (let artifact = ba_expected_artifact (bf_plan expected) in
        Inl (InvalidControllerImage (''controller '' @ quoted controller_name @ '' expected ''
          @ dec_nat (unat (ea_size_bytes artifact)) @ '' bytes at '' @ ea_sha256 artifact @ '', observed ''
          @ dec_nat (length bytes) @ '' bytes at sha256:'' @ lc_hex codec bytes)))
     else if img \<noteq> bf_image expected
     then Inl (InvalidControllerImage (''controller '' @ quoted controller_name
       @ '' manifest does not match the locked inputs''))
     else Inr img)))"

section \<open>Facts\<close>

lemma lock_hash_valid: "lock_validate lock = Inr () \<Longrightarrow> lock_hash codec lock = Some (sha256_text (lc_hex codec) (lc_json codec lock))"
  by (simp add: lock_hash_def try_lock_hash_def try_canonical_bytes_def)

lemma build_controller_Inr:
  assumes "build_controller codec lock n = Inr built"
  shows "lock_validate lock = Inr () \<and> controller_image_manifest codec lock n = Inr (bf_image built) \<and>
    bf_bytes built = image_bytes codec (bf_image built) \<and> ci_schema (bf_image built) = CONTROLLER_IMAGE_SCHEMA \<and>
    ba_expected_artifact (bf_plan built) = expected_artifact codec n (bf_bytes built)"
  using assms
  by (auto simp: build_controller_def controller_image_manifest_def Let_def and_then_Inr_iff map_err_Inr_iff
      plan_of_image_def split: if_splits)

text \<open>
  Claim C2: verification accepts exactly what was built: for a controller that builds, and whose image the JSON
  parser reads back, a plan and an image are accepted if and only if they are the plan and the bytes of that build.
\<close>

theorem verification_exact:
  assumes "build_controller codec lock n = Inr built"
    and "fc_parse_image codec (bf_bytes built) = Inr (bf_image built)"
  shows "verify_controller_image codec lock n plan bytes = Inr img \<longleftrightarrow>
    plan = bf_plan built \<and> bytes = bf_bytes built \<and> img = bf_image built"
  using build_controller_Inr [OF assms(1)] assms(2)
  by (auto simp: verify_controller_image_def verify_build_plan_def build_plan_controller_def assms(1) Let_def
      inspect_controller_image_def and_then_Inr_iff map_err_Inr_iff split: if_splits)

lemma unbuilt_not_verified:
  "build_controller codec lock n = Inl e \<Longrightarrow> verify_controller_image codec lock n plan bytes = Inl e"
  by (simp add: verify_controller_image_def verify_build_plan_def build_plan_controller_def)

lemma built_not_deployable:
  "build_controller codec lock n = Inr built \<Longrightarrow> \<not> ea_deployable (ba_expected_artifact (bf_plan built))"
  using build_controller_Inr [of codec lock n built] by (simp add: expected_artifact_def)

lemma valid_lock_builds:
  assumes "lock_validate lock = Inr ()" "4 \<le> lf_lock_version lock" "bt_get (lf_controllers lock) n = Some c"
  obtains built safety where "build_controller codec lock n = Inr built" "kl_safety c = Some safety"
    "ks_states (ci_safety (bf_image built)) = sort_safety_states (ks_states safety)"
    "ci_resolved_resources (bf_image built) = kl_resolved_resources c" "ci_controller (bf_image built) = n"
proof -
  have "3 \<le> lf_lock_version lock" using assms(2) by (rule order_trans [rotated]) simp
  then have valid: "safety_valid c" "build_valid (kp_id ` set (lf_packages lock)) c"
    using assms bt_get_Some_in [OF assms(3)] by (auto simp: lock_validate_iff lock_valid_def)
  obtain safety build where s: "kl_safety c = Some safety" "kl_build c = Some build"
    using valid by (auto simp: safety_valid_def build_valid_def)
  have v: "\<not> lf_lock_version lock < BUILD_PLAN_MINIMUM_LOCK_VERSION"
    using assms(2) by (simp add: BUILD_PLAN_MINIMUM_LOCK_VERSION_def not_less)
  obtain img where img: "controller_image_manifest codec lock n = Inr img"
    "ci_safety img = safety\<lparr>ks_states := sort_safety_states (ks_states safety)\<rparr>"
    "ci_resolved_resources img = kl_resolved_resources c" "ci_controller img = n"
    using assms(1,3) v s by (simp add: controller_image_manifest_def locked_controller_def)
  show thesis
    by (rule that [OF _ s(1), of "\<lparr>bf_plan = plan_of_image img (expected_artifact codec n (image_bytes codec img)),
        bf_image = img, bf_bytes = image_bytes codec img\<rparr>"])
      (simp_all add: build_controller_def Let_def img)
qed

text \<open>
  The safe states reach the controller image: for every power output of a resolved machine that locks,
  the controller the output is on builds an image, and the image holds a safe state for the output with the
  component, the state and the heartbeat timeout of its class in the safety profile, and with a sensor resolved
  on that controller if the class requires one.
\<close>

lemma built_safe_states:
  assumes ok: "machine_ok doc" "files_ok (en_files env)"
    and g: "ro_resolved (resolve_doc env doc registry ds ph) = Some g"
    and lock: "lock_machine parse_str hex sv snapshots source reg g = Inr lf" "pa_doc (parse_str source) = Some doc"
    and a: "(c, l) \<in> set (rg_assignments g)" "a \<in> set l" "as_connector_kind a = ''power_output''"
  shows "\<exists>controller port built s profile policy.
      split_once (CHR ''.'') (as_resource a) = Some (controller, port) \<and>
      build_controller codec lf controller = Inr built \<and>
      s \<in> set (ks_states (ci_safety (bf_image built))) \<and> kt_component s = c \<and> kt_resource s = port \<and>
      machine_profile env doc registry ds = Some profile \<and> bt_get (sp_classes profile) (kt_class s) = Some policy \<and>
      kt_state s = po_safe_state policy \<and> kt_heartbeat_timeout_us s = heartbeat_timeout_us (en_float env) policy \<and>
      (po_requires_sensor policy \<longrightarrow>
        (\<exists>sensor. kt_sensor s = Some sensor \<and> sensor \<in> set (bt_values (ci_resolved_resources (bf_image built)))))"
proof -
  obtain controller port locked config s profile policy where s:
    "split_once (CHR ''.'') (as_resource a) = Some (controller, port)"
    "bt_get (lf_controllers lf) controller = Some locked" "kl_safety locked = Some config"
    "s \<in> set (ks_states config)" "kt_component s = c" "kt_resource s = port"
    "machine_profile env doc registry ds = Some profile" "bt_get (sp_classes profile) (kt_class s) = Some policy"
    "kt_state s = po_safe_state policy" "kt_heartbeat_timeout_us s = heartbeat_timeout_us (en_float env) policy"
    "po_requires_sensor policy \<longrightarrow>
        (\<exists>sensor. kt_sensor s = Some sensor \<and> sensor \<in> set (bt_values (kl_resolved_resources locked)))"
    using locked_safe_states [OF ok g lock a] by blast
  have "lock_validate lf = Inr ()" "4 \<le> lf_lock_version lf"
    by (rule lock_machine_Inr [OF lock(1)]; simp)+
  from valid_lock_builds [OF this s(2), of codec] obtain built where built: "build_controller codec lf controller = Inr built"
    "ks_states (ci_safety (bf_image built)) = sort_safety_states (ks_states config)"
    "ci_resolved_resources (bf_image built) = kl_resolved_resources locked"
    using s(3) by (metis option.inject)
  then have "s \<in> set (ks_states (ci_safety (bf_image built)))" using s(4) by (simp add: sort_safety_states_def)
  with s(1,5-11) built show ?thesis
    by (intro exI [of _ controller] exI [of _ port] exI [of _ built] exI [of _ s] exI [of _ profile] exI [of _ policy]) simp
qed

section \<open>The firmware of a machine\<close>

definition demo_codec :: "ControllerImageManifest \<Rightarrow> firmware_codec" where
  "demo_codec img =
     \<lparr>lc_json = (\<lambda>_. []), lc_yaml = (\<lambda>_. []), lc_parse_yaml = (\<lambda>_. Inl []), lc_hex = (\<lambda>_. ''0''),
      fc_safety_json = (\<lambda>_. []), fc_safety_pretty = (\<lambda>_. []), fc_plan_json = (\<lambda>_. []), fc_plan_pretty = (\<lambda>_. []),
      fc_image_pretty = ci_controller, fc_parse_image = (\<lambda>_. Inr img)\<rparr>"

lemma demo_codec_builds: "build_controller (demo_codec img) lf n = build_controller (demo_codec img') lf n"
  by (simp add: build_controller_def controller_image_manifest_def image_bytes_def image_to_pretty_json_def
      expected_artifact_def expect_hash_def demo_codec_def lock_codec.truncate_def)

lemma demo_built:
  obtains lf built where "\<forall>img. build_controller (demo_codec img) lf ''m'' = Inr built"
proof -
  obtain g lf where d: "ro_resolved demo_pinned_outcome = Some g" "demo_lock g = Inr lf"
    by (rule demo_locked_output)
  have "map fst (lf_controllers lf) = [''m'']"
    using demo_locked d(1,2) by (auto simp: map_eq_Cons_conv)
  then obtain c where c: "bt_get (lf_controllers lf) ''m'' = Some c" by (auto simp: map_eq_Cons_conv)
  have "lock_validate lf = Inr ()" "4 \<le> lf_lock_version lf"
    by (rule lock_machine_Inr [OF d(2) [unfolded demo_lock_def]]; simp)+
  from valid_lock_builds [OF this c] obtain built where "build_controller (demo_codec undefined) lf ''m'' = Inr built"
    by metis
  with that demo_codec_builds show thesis by metis
qed

lemma verification_exact_witness:
  "\<exists>lf (built :: BuiltControllerFirmware). verify_controller_image (demo_codec (bf_image built)) lf ''m'' (bf_plan built) (bf_bytes built) =
     Inr (bf_image built)"
proof -
  obtain lf built where "\<forall>img. build_controller (demo_codec img) lf ''m'' = Inr built" by (rule demo_built)
  from verification_exact [OF this [rule_format], of "bf_image built" "bf_plan built" "bf_bytes built" "bf_image built"]
  have "verify_controller_image (demo_codec (bf_image built)) lf ''m'' (bf_plan built) (bf_bytes built) = Inr (bf_image built)"
    by (simp add: demo_codec_def)
  then show ?thesis by blast
qed

end
