(* ===== verification/Flash.thy ===== *)
theory Flash
  imports Firmware
begin

text \<open>
  \<^verbatim>\<open>crates/firmware-flash\<close>: the selection of a USB device and the plan of a dry run (\<^verbatim>\<open>lib.rs\<close>), the
  commands for the flash tools and the executors (\<^verbatim>\<open>executor.rs\<close>).  The list of devices, the file system, the
  clock and the tools are arguments.
\<close>

section \<open>Devices\<close>

definition FLASH_PLAN_SCHEMA :: string where "FLASH_PLAN_SCHEMA = ''dryer.flash-plan/v0.2''"

record UsbSelectionRule =
  ur_usb_vid :: u16
  ur_usb_pid :: u16
  ur_serial_number :: "string option"
  ur_manufacturer :: "string option"
  ur_product :: "string option"

definition rule_of_selector :: "UsbSelector \<Rightarrow> UsbSelectionRule" where
  "rule_of_selector s =
     \<lparr>ur_usb_vid = us_usb_vid s, ur_usb_pid = us_usb_pid s, ur_serial_number = us_serial_number s,
      ur_manufacturer = us_manufacturer s, ur_product = us_product s\<rparr>"

record DiscoveredUsbDevice =
  ud_platform :: string
  ud_bus_id :: string
  ud_location :: string
  ud_device_address :: u8
  ud_usb_vid :: u16
  ud_usb_pid :: u16
  ud_serial_number :: "string option"
  ud_manufacturer :: "string option"
  ud_product :: "string option"

definition optional_exact :: "string option \<Rightarrow> string option \<Rightarrow> bool" where
  "optional_exact observed required = (case required of None \<Rightarrow> True | Some r \<Rightarrow> observed = Some r)"

definition device_matches :: "DiscoveredUsbDevice \<Rightarrow> UsbSelectionRule \<Rightarrow> bool" where
  "device_matches self rule \<longleftrightarrow>
     ud_usb_vid self = ur_usb_vid rule \<and> ud_usb_pid self = ur_usb_pid rule \<and>
     optional_exact (ud_serial_number self) (ur_serial_number rule) \<and>
     optional_exact (ud_manufacturer self) (ur_manufacturer rule) \<and>
     optional_exact (ud_product self) (ur_product rule)"

definition unwrap_or_empty :: "string option \<Rightarrow> string" where
  "unwrap_or_empty s = (case s of None \<Rightarrow> [] | Some t \<Rightarrow> t)"

definition device_sort_key ::
  "DiscoveredUsbDevice \<Rightarrow> string \<times> string \<times> string \<times> u8 \<times> u16 \<times> u16 \<times> string \<times> string \<times> string" where
  "device_sort_key d =
     (ud_platform d, ud_bus_id d, ud_location d, ud_device_address d, ud_usb_vid d, ud_usb_pid d,
      unwrap_or_empty (ud_serial_number d), unwrap_or_empty (ud_manufacturer d), unwrap_or_empty (ud_product d))"

text \<open>What the USB library reports of a device; its location is the one of the platform.\<close>

record usb_info =
  ui_bus_number :: u8
  ui_platform_location :: string
  ui_device_address :: u8
  ui_vendor_id :: u16
  ui_product_id :: u16
  ui_serial_number :: "string option"
  ui_manufacturer_string :: "string option"
  ui_product_string :: "string option"

definition discover_usb_devices :: "string \<Rightarrow> string + usb_info list \<Rightarrow> string + DiscoveredUsbDevice list" where
  "discover_usb_devices platform list_devices =
     and_then list_devices (\<lambda>devices. Inr (sort_key device_sort_key (map (\<lambda>d.
       \<lparr>ud_platform = platform, ud_bus_id = dec_nat (unat (ui_bus_number d)), ud_location = ui_platform_location d,
        ud_device_address = ui_device_address d, ud_usb_vid = ui_vendor_id d, ud_usb_pid = ui_product_id d,
        ud_serial_number = ui_serial_number d, ud_manufacturer = ui_manufacturer_string d,
        ud_product = ui_product_string d\<rparr>) devices)))"

definition discovery_error_text :: "string \<Rightarrow> string" where
  "discovery_error_text message = ''USB discovery failed: '' @ message"

datatype MatchStatus = MatchMissing | MatchUnique | MatchAmbiguous

record DeviceSelection =
  dl_rule :: UsbSelectionRule
  dl_status :: MatchStatus
  dl_candidates :: "DiscoveredUsbDevice list"

definition match_usb_devices :: "UsbSelectionRule \<Rightarrow> DiscoveredUsbDevice list \<Rightarrow> DeviceSelection" where
  "match_usb_devices rule devices =
     (let candidates = sort_key device_sort_key (filter (\<lambda>d. device_matches d rule) devices) in
      \<lparr>dl_rule = rule,
       dl_status = (case length candidates of 0 \<Rightarrow> MatchMissing | Suc 0 \<Rightarrow> MatchUnique | _ \<Rightarrow> MatchAmbiguous),
       dl_candidates = candidates\<rparr>)"

section \<open>Plans\<close>

record ArtifactSpec =
  as_path :: string
  as_signature :: "string option"

record 'ver DryRunRequest =
  dr_controller :: string
  dr_lock :: Lockfile
  dr_build_plan :: ControllerBuildPlanArtifact
  dr_registry :: "'ver LocalRegistry"
  dr_discovered_devices :: "DiscoveredUsbDevice list"
  dr_artifact :: ArtifactSpec
  dr_expected_current_firmware :: string

record ArtifactPlan =
  ap_format :: string
  ap_path :: string
  ap_size_bytes :: u64
  ap_expected_sha256 :: string
  ap_observed_sha256 :: string
  ap_hash_matches :: bool
  ap_deployable :: bool
  ap_signature :: "string option"

datatype PlanStep =
    InspectArtifact
  | SelectDevice
  | CheckCurrentFirmware string
  | EnterBootloader string
  | FlashArtifact string string
  | VerifyArtifact string
  | ConfirmBoard string

record FlashPlan =
  fp_schema :: string
  fp_mode :: string
  fp_ready :: bool
  fp_controller :: string
  fp_lock_hash :: string
  fp_board :: string
  fp_method :: string
  fp_transport :: string
  fp_device_selection :: DeviceSelection
  fp_expected_current_firmware :: string
  fp_artifact :: ArtifactPlan
  fp_steps :: "PlanStep list"
  fp_blocked_reasons :: "string list"
  fp_recovery :: "string list"

definition flash_plan_to_pretty_json :: "(FlashPlan \<Rightarrow> string) \<Rightarrow> FlashPlan \<Rightarrow> string" where
  "flash_plan_to_pretty_json pretty self = pretty self @ newline"

datatype PlanError =
    PlanUnknownController string
  | PlanInvalidLock string
  | RegistryDrift string
  | RegistryIo string
  | InvalidBoardMetadata string
  | MissingFlashMetadata string
  | InvalidInput string
  | BuildOutput string
  | ArtifactIo string

fun plan_error_text :: "PlanError \<Rightarrow> string" where
  "plan_error_text (PlanUnknownController c) = ''controller '' @ quoted c @ '' is not in machine.lock''"
| "plan_error_text (PlanInvalidLock m) = ''invalid machine.lock: '' @ m"
| "plan_error_text (RegistryDrift m) = ''locked registry drift: '' @ m"
| "plan_error_text (RegistryIo e) = ''cannot read locked registry package: '' @ e"
| "plan_error_text (InvalidBoardMetadata m) = ''invalid locked board metadata: '' @ m"
| "plan_error_text (MissingFlashMetadata b) = ''board '' @ quoted b @ '' has no usable flash metadata''"
| "plan_error_text (InvalidInput m) = ''invalid flash-plan input: '' @ m"
| "plan_error_text (BuildOutput m) = ''invalid locked firmware build output: '' @ m"
| "plan_error_text (ArtifactIo e) = ''cannot read firmware artifact: '' @ e"

text \<open>
  What a plan reads: files by their path, snapshots of package directories, the files of packages as the payload
  functions read them.
\<close>

record ('f, 'v, 'ver, 'req) plan_env =
  pe_codec :: firmware_codec
  pe_float :: "'f text_float_ops"
  pe_semver :: "('ver, 'req) semver_ops"
  pe_packages :: "('v, 'ver) package_files"
  pe_snapshots :: "string \<Rightarrow> string + PackageSnapshot"
  pe_files :: "string \<Rightarrow> fs_node option"

definition source_text :: "RegistrySource \<Rightarrow> string" where
  "source_text s = quoted (rs_id s) @ '', '' @ rs_descriptor_hash s @ '' at '' @ rs_uri s"

text \<open>The \<^verbatim>\<open>expect\<close> on the locked source follows the validation (lemma \<^verbatim>\<open>valid_source\<close>).\<close>

definition check_plan_source :: "Lockfile \<Rightarrow> 'ver LocalRegistry \<Rightarrow> PlanError + unit" where
  "check_plan_source lock registry =
     (if lf_lock_version lock < 5 then Inr ()
      else
        (case lf_registry_source lock of
           None \<Rightarrow> Inl (PlanInvalidLock [])
         | Some locked_source \<Rightarrow>
             and_then (ok_or (lr_source registry)
               (RegistryDrift ''local registry has no validated portable source descriptor'')) (\<lambda>observed_source.
             if observed_source \<noteq> locked_source
             then Inl (RegistryDrift (''registry source expected '' @ source_text locked_source
               @ ''; observed '' @ source_text observed_source))
             else Inr ())))"

definition check_plan_input :: "'ver DryRunRequest \<Rightarrow> PlanError + unit" where
  "check_plan_input request =
     (if trim (dr_expected_current_firmware request) = [] \<or>
         trim (dr_expected_current_firmware request) \<noteq> dr_expected_current_firmware request
      then Inl (InvalidInput ''expected_current_firmware must be non-empty with no surrounding whitespace'')
      else if (case as_signature (dr_artifact request) of None \<Rightarrow> False | Some s \<Rightarrow> trim s = [])
      then Inl (InvalidInput ''artifact signature must not be empty when provided'')
      else Inr ())"

definition exact_locked_board :: "Lockfile \<Rightarrow> string \<Rightarrow> PlanError + LockedPackage" where
  "exact_locked_board lock board =
     (case filter (\<lambda>package. starts_with (kp_id package) (board @ ''@'')) (lf_packages lock) of
        [b] \<Rightarrow> Inr b
      | [] \<Rightarrow> Inl (PlanInvalidLock (''controller board '' @ quoted board @ '' has no exact package pin''))
      | _ \<Rightarrow> Inl (PlanInvalidLock (''controller board '' @ quoted board @ '' has multiple exact package pins'')))"

text \<open>The board package the lock pins, as the registry has it now, with the digests compared.\<close>

definition pinned_board_package ::
  "('f, 'v, 'ver :: linorder, 'req) plan_env \<Rightarrow> 'ver DryRunRequest \<Rightarrow> LockedPackage \<Rightarrow> PlanError + 'ver LoadedPackage" where
  "pinned_board_package env request board_lock =
     (let lock = dr_lock request; hex = lc_hex (pe_codec env) in
      and_then (map_err (\<lambda>e. PlanInvalidLock (ref_parse_error_text e)) (package_ref_parse (pe_semver env) (kp_id board_lock))) (\<lambda>board_ref.
      and_then (ok_or (find_version (pr_namespace board_ref) (pr_name board_ref) (pr_version board_ref) (dr_registry request))
          (RegistryDrift (kp_id board_lock @ '' is absent from the local registry''))) (\<lambda>package.
      and_then (map_err RegistryIo (read_file (pe_files env (path_join (lp_dir package) ''package.yaml'')))) (\<lambda>manifest.
      if sha256_text hex manifest \<noteq> kp_manifest_hash board_lock
      then Inl (RegistryDrift (kp_id board_lock @ '' expected '' @ kp_manifest_hash board_lock @ '', observed ''
        @ sha256_text hex manifest))
      else if lf_lock_version lock \<ge> 2 \<and> kp_content_hash board_lock = []
      then Inl (PlanInvalidLock (kp_id board_lock @ '' has no package content hash in lockfile v''
        @ dec_nat (unat (lf_lock_version lock))))
      else if kp_content_hash board_lock \<noteq> []
      then
        and_then (map_err RegistryIo (pe_snapshots env (lp_dir package))) (\<lambda>snapshot.
        if content_hash hex snapshot \<noteq> kp_content_hash board_lock
        then Inl (RegistryDrift (kp_id board_lock @ '' package content expected '' @ kp_content_hash board_lock
          @ '', observed '' @ content_hash hex snapshot))
        else Inr package)
      else Inr package))))"

definition default_flash_method ::
  "('f, 'v, 'ver, 'req) plan_env \<Rightarrow> LockedPackage \<Rightarrow> 'ver LoadedPackage \<Rightarrow> PlanError + string \<times> FlashMethod" where
  "default_flash_method env board_lock package =
     and_then (map_err (\<lambda>diagnostics. InvalidBoardMetadata
         (join ''; '' (map (\<lambda>d. dg_code d @ '': '' @ dg_message d) diagnostics)))
       (board_payload (pe_float env) (pe_semver env) (pe_packages env) package)) (\<lambda>board.
     and_then (ok_or (bp_flash board) (MissingFlashMetadata (kp_id board_lock))) (\<lambda>flash.
     and_then (ok_or (bt_get (fl_methods flash) (fl_default_method flash))
       (MissingFlashMetadata (kp_id board_lock @ '' (default method '' @ quoted (fl_default_method flash) @ '')'')))
       (\<lambda>m. Inr (fl_default_method flash, m))))"

definition hex_digit :: "nat \<Rightarrow> char" where
  "hex_digit n = char_of (if n < 10 then 48 + n else 87 + n)"

definition hex4 :: "u16 \<Rightarrow> string" where
  "hex4 w = map (\<lambda>k. hex_digit (nat (uint w div k mod 16))) [4096, 256, 16, 1]"

definition usb_id_text :: "u16 \<Rightarrow> u16 \<Rightarrow> string" where "usb_id_text vid pid = hex4 vid @ '':'' @ hex4 pid"

text \<open>Why a plan is not ready; it is when there is no reason.\<close>

definition plan_blocked_reasons :: "DeviceSelection \<Rightarrow> ArtifactPlan \<Rightarrow> string list" where
  "plan_blocked_reasons selection artifact =
     (case dl_status selection of
        MatchMissing \<Rightarrow> [''no USB device matches '' @ usb_id_text (ur_usb_vid (dl_rule selection))
          (ur_usb_pid (dl_rule selection)) @ '' and all declared string constraints'']
      | MatchAmbiguous \<Rightarrow> [dec_nat (length (dl_candidates selection))
          @ '' USB devices match; refine the board/controller selection rule before flashing'']
      | MatchUnique \<Rightarrow> []) @
     (if \<not> ap_hash_matches artifact then [''artifact sha256 does not match the expected build digest''] else []) @
     (if \<not> ap_deployable artifact
      then [''artifact format '' @ quoted (ap_format artifact)
        @ '' is an inspectable reference image, not a deployable controller executable'']
      else [])"

definition plan_steps :: "string \<Rightarrow> string \<Rightarrow> FlashMethod \<Rightarrow> string \<Rightarrow> PlanStep list" where
  "plan_steps expected_firmware method_name m board =
     [InspectArtifact, SelectDevice, CheckCurrentFirmware expected_firmware] @
     map EnterBootloader (fm_enter_bootloader m) @
     [FlashArtifact method_name (fm_transport m), VerifyArtifact (fm_verify m), ConfirmBoard board]"

text \<open>An artifact with the digest of the plan has to be the image of the locked inputs, byte for byte.\<close>

definition check_artifact ::
  "('f, 'v, 'ver, 'req) plan_env \<Rightarrow> 'ver DryRunRequest \<Rightarrow> u8 list \<Rightarrow> PlanError + bool" where
  "check_artifact env request artifact_bytes =
     (let build_plan = dr_build_plan request in
      if sha256_text (lc_hex (pe_codec env)) artifact_bytes = ea_sha256 (ba_expected_artifact build_plan)
      then
        and_then (map_err (\<lambda>e. BuildOutput (build_error_text e))
          (verify_controller_image (pe_codec env) (dr_lock request) (dr_controller request) build_plan artifact_bytes))
          (\<lambda>_. Inr True)
      else Inr False)"

definition artifact_plan ::
  "('f, 'v, 'ver, 'req) plan_env \<Rightarrow> 'ver DryRunRequest \<Rightarrow> PlanError + ArtifactPlan" where
  "artifact_plan env request =
     (let expected = ba_expected_artifact (dr_build_plan request) in
      and_then (map_err ArtifactIo (read_file (pe_files env (as_path (dr_artifact request))))) (\<lambda>artifact_bytes.
      and_then (check_artifact env request artifact_bytes) (\<lambda>hash_matches.
      Inr \<lparr>ap_format = ea_format expected, ap_path = ea_path expected, ap_size_bytes = of_nat (length artifact_bytes),
           ap_expected_sha256 = ea_sha256 expected,
           ap_observed_sha256 = sha256_text (lc_hex (pe_codec env)) artifact_bytes,
           ap_hash_matches = hash_matches, ap_deployable = ea_deployable expected,
           ap_signature = as_signature (dr_artifact request)\<rparr>)))"

definition plan_dry_run ::
  "('f, 'v, 'ver :: linorder, 'req) plan_env \<Rightarrow> 'ver DryRunRequest \<Rightarrow> PlanError + FlashPlan" where
  "plan_dry_run env request =
     (let lock = dr_lock request; codec = pe_codec env in
      and_then (map_err PlanInvalidLock (lock_validate lock)) (\<lambda>_.
      and_then (check_plan_source lock (dr_registry request)) (\<lambda>_.
      and_then (check_plan_input request) (\<lambda>_.
      and_then (ok_or (bt_get (lf_controllers lock) (dr_controller request))
        (PlanUnknownController (dr_controller request))) (\<lambda>controller.
      and_then (map_err (\<lambda>e. BuildOutput (build_error_text e))
        (verify_build_plan codec lock (dr_controller request) (dr_build_plan request))) (\<lambda>_.
      and_then (exact_locked_board lock (kl_board controller)) (\<lambda>board_lock.
      and_then (pinned_board_package env request board_lock) (\<lambda>package.
      and_then (default_flash_method env board_lock package) (\<lambda>(method_name, m).
      and_then (artifact_plan env request) (\<lambda>artifact.
      let device_selection = match_usb_devices (rule_of_selector (fm_select m)) (dr_discovered_devices request);
          blocked_reasons = plan_blocked_reasons device_selection artifact in
      Inr \<lparr>fp_schema = FLASH_PLAN_SCHEMA, fp_mode = ''dry_run'', fp_ready = (blocked_reasons = []),
           fp_controller = dr_controller request, fp_lock_hash = expect_hash codec lock, fp_board = kp_id board_lock,
           fp_method = method_name, fp_transport = fm_transport m, fp_device_selection = device_selection,
           fp_expected_current_firmware = dr_expected_current_firmware request, fp_artifact = artifact,
           fp_steps = plan_steps (dr_expected_current_firmware request) method_name m (kp_id board_lock),
           fp_blocked_reasons = blocked_reasons, fp_recovery = fm_recovery m\<rparr>))))))))))"

section \<open>Facts\<close>

lemma valid_source:
  assumes "lock_validate lock = Inr ()" "\<not> lf_lock_version lock < 5"
  shows "\<exists>source. lf_registry_source lock = Some source"
  using assms by (auto simp: lock_validate_iff lock_valid_def not_less)

text \<open>Devices that differ differ in their key, unless one has an empty string where the other has none.\<close>

definition no_empty_strings :: "DiscoveredUsbDevice \<Rightarrow> bool" where
  "no_empty_strings d \<longleftrightarrow> ud_serial_number d \<noteq> Some [] \<and> ud_manufacturer d \<noteq> Some [] \<and> ud_product d \<noteq> Some []"

lemma unwrap_or_empty_inj: "s \<noteq> Some [] \<Longrightarrow> t \<noteq> Some [] \<Longrightarrow> unwrap_or_empty s = unwrap_or_empty t \<longleftrightarrow> s = t"
  by (auto simp: unwrap_or_empty_def split: option.splits)

lemma device_sort_key_inj: "\<forall>d\<in>D. no_empty_strings d \<Longrightarrow> inj_on device_sort_key D"
  by (rule inj_onI) (simp add: device_sort_key_def no_empty_strings_def unwrap_or_empty_inj)

lemma filter_single_iff:
  "length (filter P xs) = Suc 0 \<longleftrightarrow> (\<exists>us x vs. xs = us @ x # vs \<and> P x \<and> (\<forall>y\<in>set (us @ vs). \<not> P y))"
proof
  assume "length (filter P xs) = Suc 0"
  then obtain x where x: "filter P xs = [x]" by (auto simp: length_Suc_conv)
  then obtain us vs where "xs = us @ x # vs" "\<forall>u\<in>set us. \<not> P u" "P x" "filter P vs = []"
    by (auto dest: filter_eq_ConsD)
  then show "\<exists>us x vs. xs = us @ x # vs \<and> P x \<and> (\<forall>y\<in>set (us @ vs). \<not> P y)"
    by (intro exI [of _ us] exI [of _ x] exI [of _ vs]) (auto simp: filter_empty_conv)
next
  assume "\<exists>us x vs. xs = us @ x # vs \<and> P x \<and> (\<forall>y\<in>set (us @ vs). \<not> P y)"
  then show "length (filter P xs) = Suc 0" by (auto simp: filter_empty_conv [THEN iffD2])
qed

lemma sort_key_cong:
  assumes "mset xs = mset ys" "inj_on f (set xs)"
  shows "sort_key f xs = sort_key f ys"
  using assms by (intro sort_key_inj_key_eq) simp_all

text \<open>
  Claim C10: the selection of a device is strict and deterministic: the candidates are exactly the connected
  devices that satisfy every field of the rule, the status counts them, and the order in which the system lists
  the devices has no influence if no device reports an empty string.
\<close>

theorem match_exact:
  assumes "mset devices = mset devices'" and "\<forall>d\<in>set devices. no_empty_strings d"
  shows "match_usb_devices rule devices = match_usb_devices rule devices' \<and>
    set (dl_candidates (match_usb_devices rule devices)) = {d \<in> set devices. device_matches d rule} \<and>
    (dl_status (match_usb_devices rule devices) = MatchMissing \<longleftrightarrow> (\<forall>d\<in>set devices. \<not> device_matches d rule)) \<and>
    (dl_status (match_usb_devices rule devices) = MatchUnique \<longleftrightarrow>
      (\<exists>before d after. devices = before @ d # after \<and> device_matches d rule \<and>
        (\<forall>other\<in>set (before @ after). \<not> device_matches other rule)))"
proof -
  have same: "sort_key device_sort_key (filter (\<lambda>d. device_matches d rule) devices) =
      sort_key device_sort_key (filter (\<lambda>d. device_matches d rule) devices')"
    using assms by (intro sort_key_cong device_sort_key_inj) auto
  have none: "length (filter P xs) = 0 \<longleftrightarrow> (\<forall>x\<in>set xs. \<not> P x)" for P and xs :: "DiscoveredUsbDevice list"
    by (simp add: filter_empty_conv)
  have eq: "match_usb_devices rule devices = match_usb_devices rule devices'"
    by (simp add: match_usb_devices_def Let_def same arg_cong [OF same, of length, simplified])
  let ?n = "length (filter (\<lambda>d. device_matches d rule) devices)"
  have status: "(dl_status (match_usb_devices rule devices) = MatchMissing \<longleftrightarrow> ?n = 0) \<and>
      (dl_status (match_usb_devices rule devices) = MatchUnique \<longleftrightarrow> ?n = Suc 0)"
    unfolding match_usb_devices_def Let_def DeviceSelection.simps length_sort by (auto split: nat.splits)
  show ?thesis
    by (intro conjI eq)
      (simp_all only: status [THEN conjunct1] status [THEN conjunct2] filter_single_iff none,
        simp add: match_usb_devices_def Let_def)
qed

definition demo_device :: "u8 \<Rightarrow> string option \<Rightarrow> DiscoveredUsbDevice" where
  "demo_device address serial =
     \<lparr>ud_platform = ''linux'', ud_bus_id = ''1'', ud_location = ''/dev/ttyACM0'', ud_device_address = address,
      ud_usb_vid = 0x1209, ud_usb_pid = 0xd003, ud_serial_number = serial, ud_manufacturer = None, ud_product = None\<rparr>"

definition demo_rule :: UsbSelectionRule where
  "demo_rule = \<lparr>ur_usb_vid = 0x1209, ur_usb_pid = 0xd003, ur_serial_number = None, ur_manufacturer = None, ur_product = None\<rparr>"

lemma match_exact_witness:
  "match_usb_devices demo_rule [demo_device 2 None, demo_device 1 None] =
   match_usb_devices demo_rule [demo_device 1 None, demo_device 2 None]"
  by (rule conjunct1 [OF match_exact])
    (simp_all add: no_empty_strings_def demo_device_def add_mset_commute)

text \<open>An empty serial number and none have the same key, and then the order of the system shows.\<close>

lemma order_visible:
  "match_usb_devices demo_rule [demo_device 1 None, demo_device 1 (Some [])] \<noteq>
   match_usb_devices demo_rule [demo_device 1 (Some []), demo_device 1 None]"
  by code_simp

section \<open>What a plan is bound to\<close>

text \<open>A plan passed every check, its board comes from the package the lock pins, and it is not ready.\<close>

lemma plan_dry_run_Inr:
  assumes "plan_dry_run env request = Inr plan"
  shows "verify_build_plan (pe_codec env) (dr_lock request) (dr_controller request) (dr_build_plan request) = Inr ()"
    and "artifact_plan env request = Inr (fp_artifact plan)"
    and "fp_blocked_reasons plan = plan_blocked_reasons (fp_device_selection plan) (fp_artifact plan)"
    and "fp_ready plan \<longleftrightarrow> fp_blocked_reasons plan = []"
  using assms by (auto simp: plan_dry_run_def Let_def and_then_Inr_iff map_err_Inr_iff)

lemma verify_build_plan_iff:
  "verify_build_plan codec lock n plan = Inr () \<longleftrightarrow> (\<exists>built. build_controller codec lock n = Inr built \<and> plan = bf_plan built)"
  by (auto simp: verify_build_plan_def build_plan_controller_def and_then_Inr_iff)

lemma check_artifact_Inr:
  "check_artifact env request content = Inr True \<Longrightarrow> \<exists>img. verify_controller_image (pe_codec env) (dr_lock request)
    (dr_controller request) (dr_build_plan request) content = Inr img"
  by (auto simp: check_artifact_def Let_def and_then_Inr_iff map_err_Inr_iff split: if_splits)

lemma artifact_plan_Inr:
  assumes "artifact_plan env request = Inr artifact"
  shows "ap_deployable artifact \<longleftrightarrow> ea_deployable (ba_expected_artifact (dr_build_plan request))"
    and "\<exists>content. read_file (pe_files env (as_path (dr_artifact request))) = Inr content \<and>
      check_artifact env request content = Inr (ap_hash_matches artifact)"
  using assms by (auto simp: artifact_plan_def Let_def and_then_Inr_iff map_err_Inr_iff)

lemma verified_bytes:
  "verify_controller_image codec lock n plan bytes = Inr img \<Longrightarrow> build_controller codec lock n = Inr built \<Longrightarrow>
    bytes = bf_bytes built"
  by (auto simp: verify_controller_image_def and_then_Inr_iff Let_def split: if_splits)

text \<open>No plan of a dry run is ready: what is built is marked as a reference image, and other plans are refused.\<close>

lemma planned_never_ready:
  assumes "plan_dry_run env request = Inr plan"
  shows "\<not> fp_ready plan"
proof -
  note p = plan_dry_run_Inr [OF assms]
  obtain built where "build_controller (pe_codec env) (dr_lock request) (dr_controller request) = Inr built"
    "dr_build_plan request = bf_plan built"
    using p(1) by (auto simp: verify_build_plan_iff)
  then have "\<not> ap_deployable (fp_artifact plan)"
    using artifact_plan_Inr(1) [OF p(2)] built_not_deployable by metis
  then show ?thesis using p(3,4) by (simp add: plan_blocked_reasons_def)
qed

lemma planned_bytes:
  assumes "plan_dry_run env request = Inr plan" "ap_hash_matches (fp_artifact plan)"
  shows "\<exists>built. build_controller (pe_codec env) (dr_lock request) (dr_controller request) = Inr built \<and>
    read_file (pe_files env (as_path (dr_artifact request))) = Inr (bf_bytes built)"
proof -
  note p = plan_dry_run_Inr [OF assms(1)]
  from p(1) obtain built where b: "build_controller (pe_codec env) (dr_lock request) (dr_controller request) = Inr built"
    by (auto simp: verify_build_plan_iff)
  moreover obtain content img where "read_file (pe_files env (as_path (dr_artifact request))) = Inr content"
    "verify_controller_image (pe_codec env) (dr_lock request) (dr_controller request) (dr_build_plan request) content = Inr img"
    using artifact_plan_Inr(2) [OF p(2)] check_artifact_Inr assms(2) by metis
  ultimately show ?thesis using verified_bytes by metis
qed

end
