(* ===== verification/Executor.thy ===== *)
theory Executor
  imports Flash
begin

text \<open>
  The executors of \<^verbatim>\<open>crates/firmware-flash\<close>: the commands of the flash tools, the checks before a flash, the
  native executor that runs a tool, and the one in memory.  The operating system is an argument: writing and
  removing files, running a program, the clock and the directory of temporary files.
\<close>

section \<open>Commands\<close>

record FlashResult =
  fr_success :: bool
  fr_controller_id :: string
  fr_bytes_written :: nat
  fr_execution_log :: "string list"

datatype FlashExecutionError =
    PlanNotReady string
  | ChecksumMismatch string string
  | DeviceNotFound string
  | TransportError string

fun flash_error_text :: "FlashExecutionError \<Rightarrow> string" where
  "flash_error_text (PlanNotReady reason) = ''flash plan not ready: '' @ reason"
| "flash_error_text (ChecksumMismatch e a) = ''artifact checksum mismatch: expected '' @ e @ '', actual '' @ a"
| "flash_error_text (DeviceNotFound t) = ''flash target device '' @ quoted t @ '' not found''"
| "flash_error_text (TransportError m) = ''flash transport error: '' @ m"

datatype FlashToolMethod = DfuUtil | Stm32Flash | Bossac | Picotool

fun as_str :: "FlashToolMethod \<Rightarrow> string" where
  "as_str DfuUtil = ''dfu_util''" | "as_str Stm32Flash = ''stm32flash''"
| "as_str Bossac = ''bossac''" | "as_str Picotool = ''picotool''"

fun default_binary_name :: "FlashToolMethod \<Rightarrow> string" where
  "default_binary_name DfuUtil = ''dfu-util''" | "default_binary_name Stm32Flash = ''stm32flash''"
| "default_binary_name Bossac = ''bossac''" | "default_binary_name Picotool = ''picotool''"

text \<open>Only ASCII letters have a lower case in the names that are compared, so the lower case of those suffices.\<close>

definition from_str :: "string \<Rightarrow> FlashExecutionError + FlashToolMethod" where
  "from_str s =
     (let normalized = map (\<lambda>c. if c = CHR ''-'' then CHR ''_'' else c) (map ascii_lower (trim s)) in
      if normalized \<in> {''dfu'', ''dfu_util'', ''dfu_util_v0''} then Inr DfuUtil
      else if normalized \<in> {''stm32flash'', ''stm32_flash'', ''stm32''} then Inr Stm32Flash
      else if normalized \<in> {''bossac'', ''bossa''} then Inr Bossac
      else if normalized \<in> {''picotool'', ''pico''} then Inr Picotool
      else Inl (TransportError (''unsupported flash execution method '' @ quoted s)))"

record FlashCommand =
  fc_tool :: FlashToolMethod
  fc_program :: string
  fc_args :: "string list"

definition display_command :: "FlashCommand \<Rightarrow> string" where
  "display_command self = fc_program self @ '' '' @ join '' '' (fc_args self)"

definition text_contains :: "string \<Rightarrow> string \<Rightarrow> bool" where
  "text_contains s part \<longleftrightarrow> split_once_str part s \<noteq> None"

definition is_serial_port :: "string \<Rightarrow> bool" where
  "is_serial_port location \<longleftrightarrow>
     (let lower = map ascii_lower location in
      starts_with lower ''/dev/'' \<or> starts_with lower ''com'' \<or> text_contains lower ''tty'' \<or> text_contains lower ''serial'')"

definition first_candidate :: "FlashPlan \<Rightarrow> DiscoveredUsbDevice option" where
  "first_candidate plan = (case dl_candidates (fp_device_selection plan) of [] \<Rightarrow> None | c # _ \<Rightarrow> Some c)"

definition serial_args :: "string option \<Rightarrow> string list" where
  "serial_args serial = (case serial of None \<Rightarrow> [] | Some s \<Rightarrow> if trim s \<noteq> [] then [''-S'', s] else [])"

definition port_of :: "DiscoveredUsbDevice option \<Rightarrow> string list" where
  "port_of candidate =
     (case candidate of None \<Rightarrow> [] | Some c \<Rightarrow> if is_serial_port (ud_location c) then [ud_location c] else [])"

fun tool_args :: "FlashToolMethod \<Rightarrow> FlashPlan \<Rightarrow> string \<Rightarrow> string list" where
  "tool_args DfuUtil plan artifact_str =
     (case first_candidate plan of
        Some c \<Rightarrow> [''-d'', usb_id_text (ud_usb_vid c) (ud_usb_pid c)] @ serial_args (ud_serial_number c)
      | None \<Rightarrow>
          (let rule = dl_rule (fp_device_selection plan) in
           [''-d'', usb_id_text (ur_usb_vid rule) (ur_usb_pid rule)] @ serial_args (ur_serial_number rule))) @
     [''-D'', artifact_str, ''-R'']"
| "tool_args Stm32Flash plan artifact_str =
     [''-w'', artifact_str, ''-v'', ''-g'', ''0x0''] @ port_of (first_candidate plan)"
| "tool_args Bossac plan artifact_str =
     (case port_of (first_candidate plan) of [] \<Rightarrow> [] | location # _ \<Rightarrow> [''-p'', location]) @
     [''-e'', ''-w'', ''-v'', ''-b'', ''-R'', artifact_str]"
| "tool_args Picotool plan artifact_str =
     [''load''] @
     (case first_candidate plan of
        None \<Rightarrow> []
      | Some c \<Rightarrow>
          if ud_bus_id c \<noteq> [] \<and> ud_device_address c > 0
          then [''--bus'', ud_bus_id c, ''--address'', dec_nat (unat (ud_device_address c))] else []) @
     [artifact_str, ''-x'', ''-v'']"

definition generate_command ::
  "FlashToolMethod \<Rightarrow> FlashPlan \<Rightarrow> string \<Rightarrow> string option \<Rightarrow> FlashExecutionError + FlashCommand" where
  "generate_command m plan artifact_str binary_override =
     Inr \<lparr>fc_tool = m,
          fc_program = (case binary_override of None \<Rightarrow> default_binary_name m | Some program \<Rightarrow> program),
          fc_args = tool_args m plan artifact_str\<rparr>"

section \<open>The native executor\<close>

record NativeFlashExecutor =
  ne_dry_run :: bool
  ne_custom_temp_dir :: "string option"
  ne_binary_overrides :: "FlashToolMethod \<Rightarrow> string option"

definition native_new :: NativeFlashExecutor where
  "native_new = \<lparr>ne_dry_run = False, ne_custom_temp_dir = None, ne_binary_overrides = (\<lambda>_. None)\<rparr>"

definition native_dry_run :: NativeFlashExecutor where
  "native_dry_run = native_new\<lparr>ne_dry_run := True\<rparr>"

definition with_dry_run :: "bool \<Rightarrow> NativeFlashExecutor \<Rightarrow> NativeFlashExecutor" where
  "with_dry_run dry self = self\<lparr>ne_dry_run := dry\<rparr>"

definition with_temp_dir :: "string \<Rightarrow> NativeFlashExecutor \<Rightarrow> NativeFlashExecutor" where
  "with_temp_dir path self = self\<lparr>ne_custom_temp_dir := Some path\<rparr>"

definition with_binary_override :: "FlashToolMethod \<Rightarrow> string \<Rightarrow> NativeFlashExecutor \<Rightarrow> NativeFlashExecutor" where
  "with_binary_override m program_path self =
     self\<lparr>ne_binary_overrides := (ne_binary_overrides self)(m := Some program_path)\<rparr>"

definition build_command :: "NativeFlashExecutor \<Rightarrow> FlashPlan \<Rightarrow> string \<Rightarrow> FlashExecutionError + FlashCommand" where
  "build_command self plan artifact_str =
     and_then (from_str (fp_method plan)) (\<lambda>m. generate_command m plan artifact_str (ne_binary_overrides self m))"

definition first_reason :: "string \<Rightarrow> FlashPlan \<Rightarrow> string" where
  "first_reason otherwise plan = (case fp_blocked_reasons plan of [] \<Rightarrow> otherwise | r # _ \<Rightarrow> r)"

definition validate_plan ::
  "(u8 list \<Rightarrow> string) \<Rightarrow> FlashPlan \<Rightarrow> u8 list \<Rightarrow> FlashExecutionError + FlashToolMethod" where
  "validate_plan hex plan artifact_bytes =
     (let expected = ap_expected_sha256 (fp_artifact plan); actual = sha256_text hex artifact_bytes in
      if \<not> fp_ready plan \<or> fp_blocked_reasons plan \<noteq> []
      then Inl (PlanNotReady (first_reason ''flash plan is not ready'' plan))
      else if dl_status (fp_device_selection plan) \<noteq> MatchUnique \<or> dl_candidates (fp_device_selection plan) = []
      then Inl (DeviceNotFound (fp_controller plan))
      else if actual \<noteq> expected then Inl (ChecksumMismatch expected actual)
      else from_str (fp_method plan))"

type_synonym disk = "string \<Rightarrow> fs_node option"

text \<open>What a program printed and how it ended; the status as the standard library prints it.\<close>

record tool_output =
  to_success :: bool
  to_status :: string
  to_stdout :: "u8 list"
  to_stderr :: "u8 list"

record flash_os =
  os_hex :: "u8 list \<Rightarrow> string"
  os_lossy :: "u8 list \<Rightarrow> string"
  os_path_text :: "string \<Rightarrow> string"
  os_nanos :: "nat option"
  os_process_id :: nat
  os_temp_dir :: string
  os_write :: "disk \<Rightarrow> string \<Rightarrow> u8 list \<Rightarrow> string option \<times> disk"
  os_remove :: "disk \<Rightarrow> string \<Rightarrow> disk"
  os_run :: "disk \<Rightarrow> string \<Rightarrow> string list \<Rightarrow> (string + tool_output) \<times> disk"

text \<open>The files, and every program the executor started or tried to start: its arguments and the files then.\<close>

record flash_world =
  fw_files :: disk
  fw_runs :: "(string \<times> string list \<times> disk) list"

definition create_temp_artifact ::
  "flash_os \<Rightarrow> u8 list \<Rightarrow> string option \<Rightarrow> (flash_world, FlashExecutionError, string) st" where
  "create_temp_artifact os bytes parent_dir w =
     (let nonce = (case os_nanos os of Some n \<Rightarrow> n | None \<Rightarrow> 0);
          dir = (case parent_dir of Some d \<Rightarrow> d | None \<Rightarrow> os_temp_dir os);
          path = path_join dir (''dryer-flash-artifact-'' @ dec_nat (os_process_id os) @ ''-'' @ dec_nat nonce @ ''.bin'');
          (failed, files) = os_write os (fw_files w) path bytes;
          w = w\<lparr>fw_files := files\<rparr> in
      case failed of
        Some e \<Rightarrow> (Inl (TransportError (''cannot write temporary flash artifact: '' @ e)), w)
      | None \<Rightarrow> (Inr path, w))"

text \<open>The file the tool reads, and the temporary one to remove.\<close>

definition place_artifact ::
  "flash_os \<Rightarrow> NativeFlashExecutor \<Rightarrow> FlashPlan \<Rightarrow> u8 list \<Rightarrow>
     (flash_world, FlashExecutionError, string \<times> string option) st" where
  "place_artifact os self plan artifact_bytes w =
     (let existing = ap_path (fp_artifact plan);
          temporary = st_bind (create_temp_artifact os artifact_bytes (ne_custom_temp_dir self))
            (\<lambda>p. st_ok (p, Some p)) in
      if is_file (fw_files w existing)
      then
        (case read_file (fw_files w existing) of
           Inr content \<Rightarrow>
             if sha256_text (os_hex os) content = ap_expected_sha256 (fp_artifact plan) then (Inr (existing, None), w)
             else temporary w
         | Inl _ \<Rightarrow> temporary w)
      else temporary w)"

definition flash_result :: "FlashPlan \<Rightarrow> u8 list \<Rightarrow> string list \<Rightarrow> FlashResult" where
  "flash_result plan artifact_bytes log =
     \<lparr>fr_success = True, fr_controller_id = fp_controller plan, fr_bytes_written = length artifact_bytes,
      fr_execution_log = log @ [''flashed '' @ dec_nat (length artifact_bytes) @ '' bytes to '' @ fp_controller plan]\<rparr>"

definition tool_result ::
  "flash_os \<Rightarrow> FlashCommand \<Rightarrow> FlashPlan \<Rightarrow> u8 list \<Rightarrow> string list \<Rightarrow> tool_output \<Rightarrow> FlashExecutionError + FlashResult" where
  "tool_result os cmd plan artifact_bytes log output =
     (if \<not> to_success output
      then Inl (TransportError (''tool '' @ quoted (fc_program cmd) @ '' exited with status '' @ to_status output
        @ '': '' @ trim (os_lossy os (to_stderr output))))
      else
        let stdout = trim (os_lossy os (to_stdout output)) in
        Inr (flash_result plan artifact_bytes (log @ (if stdout \<noteq> [] then [''stdout: '' @ stdout] else []))))"

definition remove_temp :: "flash_os \<Rightarrow> string option \<Rightarrow> flash_world \<Rightarrow> flash_world" where
  "remove_temp os temp w =
     (case temp of None \<Rightarrow> w | Some path \<Rightarrow> w\<lparr>fw_files := os_remove os (fw_files w) path\<rparr>)"

text \<open>A program that cannot be started returns at once, before the temporary file is removed.\<close>

definition run_command ::
  "flash_os \<Rightarrow> NativeFlashExecutor \<Rightarrow> FlashCommand \<Rightarrow> FlashPlan \<Rightarrow> u8 list \<Rightarrow> string option \<Rightarrow>
     (flash_world, FlashExecutionError, FlashResult) st" where
  "run_command os self cmd plan artifact_bytes temp w =
     (let log = [''verified checksum '' @ ap_expected_sha256 (fp_artifact plan),
            ''generated tool command: '' @ display_command cmd] in
      if ne_dry_run self
      then
        (Inr (flash_result plan artifact_bytes (log @ [''[dry-run] simulated execution of '' @ fc_program cmd
           @ '' for controller '' @ quoted (fp_controller plan)])), remove_temp os temp w)
      else
        let (outcome, files) = os_run os (fw_files w) (fc_program cmd) (fc_args cmd);
            ran = w\<lparr>fw_files := files, fw_runs := fw_runs w @ [(fc_program cmd, fc_args cmd, fw_files w)]\<rparr> in
        case outcome of
          Inl e \<Rightarrow> (Inl (TransportError (''failed to execute tool '' @ quoted (fc_program cmd) @ '': '' @ e)), ran)
        | Inr output \<Rightarrow> (tool_result os cmd plan artifact_bytes log output, remove_temp os temp ran))"

definition native_execute_flash ::
  "flash_os \<Rightarrow> NativeFlashExecutor \<Rightarrow> FlashPlan \<Rightarrow> u8 list \<Rightarrow> (flash_world, FlashExecutionError, FlashResult) st" where
  "native_execute_flash os self plan artifact_bytes =
     st_bind (\<lambda>w. (validate_plan (os_hex os) plan artifact_bytes, w)) (\<lambda>m.
     st_bind (place_artifact os self plan artifact_bytes) (\<lambda>(artifact_path, temp_file_to_clean).
     st_bind (\<lambda>w. (generate_command m plan (os_path_text os artifact_path) (ne_binary_overrides self m), w)) (\<lambda>cmd.
     run_command os self cmd plan artifact_bytes temp_file_to_clean)))"

section \<open>The executor in memory\<close>

definition mock_execute_flash ::
  "(u8 list \<Rightarrow> string) \<Rightarrow> FlashPlan \<Rightarrow> u8 list \<Rightarrow> ((string \<times> u8 list) list, FlashExecutionError, FlashResult) st" where
  "mock_execute_flash hex plan artifact_bytes flashed =
     (let expected = ap_expected_sha256 (fp_artifact plan); actual = sha256_text hex artifact_bytes in
      if \<not> fp_ready plan then (Inl (PlanNotReady (first_reason ''plan is deployable: false'' plan)), flashed)
      else if actual \<noteq> expected then (Inl (ChecksumMismatch expected actual), flashed)
      else
        (Inr (flash_result plan artifact_bytes [''verified checksum '' @ expected]),
         flashed @ [(fp_controller plan, artifact_bytes)]))"

section \<open>The contract of an executor\<close>

text \<open>
  The trait \<^verbatim>\<open>FlashExecutor\<close>: what is not ready is refused and changes nothing, and a flash that succeeds was
  of a ready plan, of the bytes with the digest of the plan.
\<close>

locale flash_executor =
  fixes hex :: "u8 list \<Rightarrow> string"
    and execute :: "FlashPlan \<Rightarrow> u8 list \<Rightarrow> ('s, FlashExecutionError, FlashResult) st"
  assumes refused: "\<not> fp_ready plan \<Longrightarrow> \<exists>reason. execute plan bytes s = (Inl (PlanNotReady reason), s)"
    and succeeded: "execute plan bytes s = (Inr r, s') \<Longrightarrow>
      fp_ready plan \<and> sha256_text hex bytes = ap_expected_sha256 (fp_artifact plan) \<and>
      fr_controller_id r = fp_controller plan \<and> fr_bytes_written r = length bytes"
begin

lemma planned_refused:
  "plan_dry_run env request = Inr plan \<Longrightarrow> \<exists>reason. execute plan bytes s = (Inl (PlanNotReady reason), s)"
  by (rule refused) (rule planned_never_ready)

lemma planned_sequence:
  "\<forall>(plan, bytes)\<in>set jobs. \<exists>env request. plan_dry_run (env :: ('f, 'v, 'ver :: linorder, 'req) plan_env) request = Inr plan \<Longrightarrow>
    fold (\<lambda>(plan, bytes) s. snd (execute plan bytes s)) jobs s = s"
proof (induction jobs)
  case (Cons job jobs)
  then obtain plan bytes env request where job: "job = (plan, bytes)"
    "plan_dry_run (env :: ('f, 'v, 'ver, 'req) plan_env) request = Inr plan"
    by (cases job) auto
  with planned_refused [OF job(2), of bytes s] Cons show ?case by auto
qed simp

end

lemma validate_plan_Inr:
  "validate_plan hex plan bytes = Inr m \<Longrightarrow>
    fp_ready plan \<and> fp_blocked_reasons plan = [] \<and> dl_status (fp_device_selection plan) = MatchUnique \<and>
    dl_candidates (fp_device_selection plan) \<noteq> [] \<and>
    sha256_text hex bytes = ap_expected_sha256 (fp_artifact plan) \<and> from_str (fp_method plan) = Inr m"
  by (simp add: validate_plan_def Let_def split: if_splits)

text \<open>What the native executor does after its checks, by cases.\<close>

lemma native_steps:
  assumes "native_execute_flash os self plan bytes w = (res, w')"
  obtains e where "validate_plan (os_hex os) plan bytes = Inl e" "res = Inl e" "w' = w"
  | m e where "validate_plan (os_hex os) plan bytes = Inr m" "place_artifact os self plan bytes w = (Inl e, w')" "res = Inl e"
  | m path temp w1 cmd where "validate_plan (os_hex os) plan bytes = Inr m"
      "place_artifact os self plan bytes w = (Inr (path, temp), w1)"
      "generate_command m plan (os_path_text os path) (ne_binary_overrides self m) = Inr cmd"
      "run_command os self cmd plan bytes temp w1 = (res, w')"
proof (cases "validate_plan (os_hex os) plan bytes")
  case (Inl e)
  then show thesis using assms that(1) by (simp add: native_execute_flash_def st_bind_def)
next
  case v: (Inr m)
  show thesis
  proof (cases "place_artifact os self plan bytes w")
    case (Pair r w1)
    show thesis
    proof (cases r)
      case (Inl e)
      then show thesis using assms v Pair that(2) by (simp add: native_execute_flash_def st_bind_def)
    next
      case (Inr pt)
      obtain path temp where "pt = (path, temp)" by (cases pt)
      then show thesis using assms v Pair Inr that(3)
        by (simp add: native_execute_flash_def st_bind_def generate_command_def)
    qed
  qed
qed

lemma run_command_result:
  "run_command os self cmd plan bytes temp w = (Inr r, w') \<Longrightarrow>
    fr_controller_id r = fp_controller plan \<and> fr_bytes_written r = length bytes"
  by (auto simp: run_command_def Let_def flash_result_def tool_result_def split: if_splits prod.splits sum.splits)

interpretation native: flash_executor "os_hex os" "native_execute_flash os self" for os self
proof
  fix plan bytes w r w'
  show "\<exists>reason. native_execute_flash os self plan bytes w = (Inl (PlanNotReady reason), w)" if "\<not> fp_ready plan"
    using that by (simp add: native_execute_flash_def st_bind_def validate_plan_def)
  assume "native_execute_flash os self plan bytes w = (Inr r, w')"
  then show "fp_ready plan \<and> sha256_text (os_hex os) bytes = ap_expected_sha256 (fp_artifact plan) \<and>
      fr_controller_id r = fp_controller plan \<and> fr_bytes_written r = length bytes"
    by (cases rule: native_steps) (auto dest: validate_plan_Inr run_command_result)
qed

interpretation mock: flash_executor hex "mock_execute_flash hex" for hex
  by unfold_locales (auto simp: mock_execute_flash_def Let_def flash_result_def split: if_splits)

text \<open>
  Claim C4: a plan of a dry run cannot flash anything: it is never ready; where its digest matches, the artifact it
  read is the image built from the lock, byte for byte; and both executors refuse it and leave the files, the
  programs started and the devices in memory as they were, however many such plans are executed in a row.
\<close>

theorem planned_flash_inert:
  assumes "plan_dry_run (env :: ('f, 'v, 'ver :: linorder, 'req) plan_env) request = Inr plan"
    and "\<forall>(p, b)\<in>set jobs. \<exists>e q. plan_dry_run (e :: ('f, 'v, 'ver, 'req) plan_env) q = Inr p"
  shows "\<not> fp_ready plan \<and>
    (ap_hash_matches (fp_artifact plan) \<longrightarrow>
      (\<exists>built. build_controller (pe_codec env) (dr_lock request) (dr_controller request) = Inr built \<and>
        read_file (pe_files env (as_path (dr_artifact request))) = Inr (bf_bytes built))) \<and>
    (\<exists>reason. native_execute_flash os self plan bytes w = (Inl (PlanNotReady reason), w)) \<and>
    (\<exists>reason. mock_execute_flash hex plan bytes flashed = (Inl (PlanNotReady reason), flashed)) \<and>
    fold (\<lambda>(p, b) s. snd (native_execute_flash os self p b s)) jobs w = w"
  using planned_never_ready [OF assms(1)] planned_bytes [OF assms(1)] native.planned_refused [OF assms(1)]
    mock.planned_refused [OF assms(1)] native.planned_sequence [OF assms(2)]
  by blast

section \<open>What a tool is given\<close>

lemma artifact_in_args: "artifact \<in> set (tool_args m plan artifact)"
  by (cases m) (auto simp: Let_def split: option.splits list.splits)

text \<open>What the standard library promises of a write that succeeds.\<close>

definition write_succeeds :: "flash_os \<Rightarrow> bool" where
  "write_succeeds os \<longleftrightarrow> (\<forall>files path bytes. case os_write os files path bytes of
     (None, files') \<Rightarrow> read_file (files' path) = Inr bytes | (Some _, _) \<Rightarrow> True)"

lemma write_succeedsD: "write_succeeds os \<Longrightarrow> os_write os files path bytes = (None, files') \<Longrightarrow> read_file (files' path) = Inr bytes"
  unfolding write_succeeds_def by (drule spec [of _ files], drule spec [of _ path], drule spec [of _ bytes]) simp

lemma create_temp_artifact_cases:
  assumes "create_temp_artifact os bytes d w = (r, w')"
  shows "fw_runs w' = fw_runs w" and "write_succeeds os \<Longrightarrow> r = Inr path \<Longrightarrow> read_file (fw_files w' path) = Inr bytes"
  using assms by (auto simp: create_temp_artifact_def Let_def dest: write_succeedsD split: prod.splits option.splits)

lemma place_artifact_cases:
  assumes "place_artifact os self plan bytes w = (r, w')"
  shows "fw_runs w' = fw_runs w"
    and "write_succeeds os \<Longrightarrow> sha256_text (os_hex os) bytes = ap_expected_sha256 (fp_artifact plan) \<Longrightarrow> r = Inr (path, temp) \<Longrightarrow>
      \<exists>content. read_file (fw_files w' path) = Inr content \<and>
        sha256_text (os_hex os) content = ap_expected_sha256 (fp_artifact plan)"
  using assms
  by (auto simp: place_artifact_def Let_def st_bind_def st_ok_def dest: create_temp_artifact_cases
      split: if_splits sum.splits prod.splits)

lemma remove_temp_runs [simp]: "fw_runs (remove_temp os temp w) = fw_runs w"
  by (simp add: remove_temp_def split: option.splits)

lemma run_command_runs:
  assumes "run_command os self cmd plan bytes temp w = (res, w')"
  shows "if ne_dry_run self then fw_runs w' = fw_runs w
    else fw_runs w' = fw_runs w @ [(fc_program cmd, fc_args cmd, fw_files w)]"
  using assms by (auto simp: run_command_def Let_def split: if_splits prod.splits sum.splits)

text \<open>
  Claim C3: the native executor runs at most one tool, and only for a plan that is ready, has no blocked reason and
  matched exactly one device, and never in a dry run; the arguments name a file that holds, when the tool starts,
  content with the digest of the plan; and outside a dry run success means that the tool ran.
\<close>

theorem flash_runs_exact:
  assumes "write_succeeds os" and "native_execute_flash os self plan bytes w = (res, w')"
  shows "fw_runs w' = fw_runs w \<and> (\<forall>r. res = Inr r \<longrightarrow> ne_dry_run self) \<or>
    (\<exists>program args path files content. fw_runs w' = fw_runs w @ [(program, args, files)] \<and> \<not> ne_dry_run self \<and>
      fp_ready plan \<and> fp_blocked_reasons plan = [] \<and> dl_status (fp_device_selection plan) = MatchUnique \<and>
      os_path_text os path \<in> set args \<and> read_file (files path) = Inr content \<and>
      sha256_text (os_hex os) content = ap_expected_sha256 (fp_artifact plan))"
  using assms(2)
proof (cases rule: native_steps)
  case (2 m e)
  then show ?thesis using place_artifact_cases(1) by simp
next
  case (3 m path temp w1 cmd)
  note v = validate_plan_Inr [OF 3(1)]
  obtain content where "read_file (fw_files w1 path) = Inr content"
    "sha256_text (os_hex os) content = ap_expected_sha256 (fp_artifact plan)"
    using place_artifact_cases(2) [OF 3(2) assms(1)] v by auto
  moreover have "os_path_text os path \<in> set (fc_args cmd)"
    using 3(3) artifact_in_args by (auto simp: generate_command_def)
  ultimately show ?thesis
    using v run_command_runs [OF 3(4)] place_artifact_cases(1) [OF 3(2)] by (cases "ne_dry_run self") auto
qed simp

section \<open>An example\<close>

text \<open>A plan marked as ready for one device, and a system that starts the tool, or cannot.\<close>

definition demo_plan :: FlashPlan where
  "demo_plan =
     \<lparr>fp_schema = FLASH_PLAN_SCHEMA, fp_mode = ''dry_run'', fp_ready = True, fp_controller = ''m'', fp_lock_hash = [],
      fp_board = ''x/b@1'', fp_method = ''DFU-util'', fp_transport = ''usb'',
      fp_device_selection = match_usb_devices demo_rule [demo_device 1 None], fp_expected_current_firmware = ''v1'',
      fp_artifact = \<lparr>ap_format = [], ap_path = ''a.bin'', ap_size_bytes = 1, ap_expected_sha256 = ''sha256:1'',
        ap_observed_sha256 = ''sha256:1'', ap_hash_matches = True, ap_deployable = True, ap_signature = None\<rparr>,
      fp_steps = [], fp_blocked_reasons = [], fp_recovery = []\<rparr>"

definition demo_os :: "string + tool_output \<Rightarrow> flash_os" where
  "demo_os outcome =
     \<lparr>os_hex = (\<lambda>bytes. dec_nat (length bytes)), os_lossy = (\<lambda>_. []), os_path_text = (\<lambda>p. p), os_nanos = Some 7,
      os_process_id = 3, os_temp_dir = ''/tmp'',
      os_write = (\<lambda>files path bytes. (None, files(path := Some (FsFile None bytes)))),
      os_remove = (\<lambda>files path. files(path := None)), os_run = (\<lambda>files program args. (outcome, files))\<rparr>"

definition demo_started :: "string + tool_output" where
  "demo_started = Inr \<lparr>to_success = True, to_status = ''exit status: 0'', to_stdout = [], to_stderr = []\<rparr>"

definition demo_world :: flash_world where "demo_world = \<lparr>fw_files = (\<lambda>_. None), fw_runs = []\<rparr>"

definition demo_flash :: "string + tool_output \<Rightarrow> (FlashExecutionError + FlashResult) \<times> flash_world" where
  "demo_flash outcome =
     native_execute_flash (demo_os outcome) native_new demo_plan [1] demo_world"

definition demo_temp :: string where "demo_temp = ''/tmp/dryer-flash-artifact-3-7.bin''"

lemma demo_write_succeeds: "write_succeeds (demo_os outcome)"
  by (simp add: write_succeeds_def demo_os_def read_file_def)

lemma demo_flash_runs: "map (\<lambda>(program, args, _). (program, args)) (fw_runs (snd (demo_flash demo_started))) =
  [(''dfu-util'', [''-d'', ''1209:d003'', ''-D'', demo_temp, ''-R''])]"
  by code_simp

text \<open>The temporary artifact is removed after a tool ran, and left behind where the tool cannot be started.\<close>

lemma temp_artifact_removed: "fw_files (snd (demo_flash demo_started)) demo_temp = None"
  by code_simp

lemma temp_artifact_left:
  "is_ok (fst (demo_flash (Inl ''No such file or directory (os error 2)''))) = False \<and>
   fw_files (snd (demo_flash (Inl ''No such file or directory (os error 2)''))) demo_temp = Some (FsFile None [1])"
  by code_simp

lemma flash_runs_exact_witness:
  "\<exists>program args path files content. fw_runs (snd (demo_flash demo_started)) = [(program, args, files)] \<and>
     path \<in> set args \<and> read_file (files path) = Inr content \<and> ''sha256:'' @ dec_nat (length content) = ''sha256:1''"
proof -
  have runs: "fw_runs (snd (demo_flash demo_started)) \<noteq> []" using demo_flash_runs by auto
  have "native_execute_flash (demo_os demo_started) native_new demo_plan [1] demo_world =
      (fst (demo_flash demo_started), snd (demo_flash demo_started))"
    by (simp add: demo_flash_def)
  note ran = flash_runs_exact [OF demo_write_succeeds this]
  have "fw_runs demo_world = []" by (simp add: demo_world_def)
  with ran runs obtain program args path files content where
    "fw_runs (snd (demo_flash demo_started)) = [(program, args, files)]"
    "os_path_text (demo_os demo_started) path \<in> set args" "read_file (files path) = Inr content"
    "sha256_text (os_hex (demo_os demo_started)) content = ap_expected_sha256 (fp_artifact demo_plan)"
    by (metis append_Nil)
  then show ?thesis by (intro exI conjI; assumption?) (simp_all add: demo_os_def sha256_text_def demo_plan_def)
qed

text \<open>A lock of one controller, its build, and the plan of a dry run for it.\<close>

definition demo_pin :: "string \<Rightarrow> LockedPackage" where
  "demo_pin name = \<lparr>kp_id = ''p/'' @ name @ ''@1'', kp_manifest_hash = ''sha256:0'', kp_content_hash = ''sha256:0''\<rparr>"

definition demo_lockfile :: Lockfile where
  "demo_lockfile =
     \<lparr>lf_lock_version = 4, lf_machine_hash = [], lf_resolver_version = [], lf_registry_source = None,
      lf_packages = [demo_pin ''b'', demo_pin ''c''], lf_safety_profile = demo_pin ''s'',
      lf_controllers = [(''m'', \<lparr>kl_board = ''p/b'', kl_resolved_resources = [],
        kl_safety = Some \<lparr>ks_schema = CONTROLLER_SAFETY_SCHEMA, ks_states = []\<rparr>,
        kl_build = Some \<lparr>kb_schema = CONTROLLER_BUILD_SCHEMA, kb_board = ''p/b@1'', kb_chip = ''p/c@1'',
          kb_target_triple = ''t'', kb_toolchain = ''c'', kb_build_profile = ''r'', kb_protocol_version = ''p/v1'',
          kb_abi_version = ''a/v1'', kb_flash_bytes = 16, kb_ram_bytes = 8, kb_bootloader_offset_bytes = 8,
          kb_features = [], kb_native_drivers = []\<rparr>\<rparr>)]\<rparr>"

definition demo_flash_codec :: firmware_codec where
  "demo_flash_codec =
     (let codec = demo_codec undefined in
      codec\<lparr>fc_parse_image := (\<lambda>_. map_err build_error_text (controller_image_manifest codec demo_lockfile ''m''))\<rparr>)"

definition demo_flash_files :: "(string, nat) package_files" where
  "demo_flash_files =
     demo_env_files\<lparr>pf_board := (\<lambda>_. Inr \<lparr>bp_package = demo_id Board ''b'', bp_chip = Some ''p/c'', bp_hardware = None,
       bp_connectors = [], bp_transports = [],
       bp_flash = Some \<lparr>fl_default_method = ''dfu'', fl_methods = [(''dfu'', \<lparr>fm_transport = ''usb'',
         fm_select = \<lparr>us_usb_vid = 0x1209, us_usb_pid = 0xd003, us_serial_number = None, us_manufacturer = None,
           us_product = None\<rparr>, fm_enter_bootloader = [], fm_verify = ''sha256'', fm_recovery = [''r'']\<rparr>)]\<rparr>\<rparr>)\<rparr>"

definition demo_plan_env :: "(int, string, nat, nat) plan_env" where
  "demo_plan_env =
     \<lparr>pe_codec = demo_flash_codec, pe_float = int_text_ops, pe_semver = digit_versions, pe_packages = demo_flash_files,
      pe_snapshots = (\<lambda>_. Inr \<lparr>psn_files = []\<rparr>), pe_files = (\<lambda>path. Some (FsFile None (as_bytes (''m'' @ newline))))\<rparr>"

definition demo_request :: "ControllerBuildPlanArtifact \<Rightarrow> nat DryRunRequest" where
  "demo_request plan =
     \<lparr>dr_controller = ''m'', dr_lock = demo_lockfile, dr_build_plan = plan,
      dr_registry = demo_registry [demo_kinded Board ''b''], dr_discovered_devices = [demo_device 1 None],
      dr_artifact = \<lparr>as_path = ''a'', as_signature = None\<rparr>, dr_expected_current_firmware = ''v1''\<rparr>"

lemma demo_dry_run:
  "(case build_plan_controller demo_flash_codec demo_lockfile ''m'' of
      Inl _ \<Rightarrow> None
    | Inr plan \<Rightarrow>
        (case plan_dry_run demo_plan_env (demo_request plan) of
           Inl _ \<Rightarrow> None
         | Inr p \<Rightarrow> Some (fp_ready p, ap_hash_matches (fp_artifact p), dl_status (fp_device_selection p), fp_board p))) =
   Some (False, True, MatchUnique, ''p/b@1'')"
  by code_simp

lemma demo_dry_run_planned:
  obtains plan p where "plan_dry_run demo_plan_env (demo_request plan) = Inr p" "ap_hash_matches (fp_artifact p)"
proof -
  obtain plan where plan: "build_plan_controller demo_flash_codec demo_lockfile ''m'' = Inr plan"
    using demo_dry_run by (cases "build_plan_controller demo_flash_codec demo_lockfile ''m''") auto
  obtain p where "plan_dry_run demo_plan_env (demo_request plan) = Inr p"
    using demo_dry_run plan by (cases "plan_dry_run demo_plan_env (demo_request plan)") auto
  with that demo_dry_run plan show thesis by auto
qed

lemma planned_flash_inert_witness:
  "\<exists>plan p reason built. plan_dry_run demo_plan_env (demo_request plan) = Inr p \<and> \<not> fp_ready p \<and>
     build_controller demo_flash_codec demo_lockfile ''m'' = Inr built \<and> bf_bytes built = as_bytes (''m'' @ newline) \<and>
     native_execute_flash (demo_os demo_started) native_new p [1] demo_world = (Inl (PlanNotReady reason), demo_world)"
proof -
  obtain plan p where p: "plan_dry_run demo_plan_env (demo_request plan) = Inr p" "ap_hash_matches (fp_artifact p)"
    by (rule demo_dry_run_planned)
  have jobs: "\<forall>(q, b)\<in>set [(p, [1])]. \<exists>e r. plan_dry_run (e :: (int, string, nat, nat) plan_env) r = Inr q"
    using p(1) by auto
  have env: "pe_codec demo_plan_env = demo_flash_codec" "dr_lock (demo_request plan) = demo_lockfile"
    "dr_controller (demo_request plan) = ''m''"
    "read_file (pe_files demo_plan_env (as_path (dr_artifact (demo_request plan)))) = Inr (as_bytes (''m'' @ newline))"
    by (simp_all add: demo_plan_env_def demo_request_def read_file_def)
  note r = planned_flash_inert [OF p(1) jobs, of "demo_os demo_started" native_new "[1]" demo_world undefined undefined, unfolded env]
  obtain built where "build_controller demo_flash_codec demo_lockfile ''m'' = Inr built"
    "as_bytes (''m'' @ newline) = bf_bytes built"
    using r p(2) by auto
  moreover obtain reason where "native_execute_flash (demo_os demo_started) native_new p [1] demo_world = (Inl (PlanNotReady reason), demo_world)"
    using r by blast
  ultimately show ?thesis using p(1) r by metis
qed

end
