(* ===== verification/Spans.thy ===== *)
theory Spans
  imports Schema "HOL-Library.Sublist"
begin

text \<open>
  \<^verbatim>\<open>crates/machine-parser/src/spans.rs\<close>: the index from the dotted paths of a YAML document to the positions of
  their keys and items, which a walk over the events of the YAML library builds.  The events of a source are an
  argument; columns count characters, so lines are cut into the bytes of each character.
\<close>

section \<open>Characters of a line\<close>

function chars :: "string \<Rightarrow> string list" where
  "chars s = (if s = [] then [] else take (char_len s) s # chars (drop (char_len s) s))"
  by auto
termination
  by (relation "measure length") (auto simp: char_len_def split: list.splits)

declare chars.simps [simp del]

definition is_whitespace :: "string \<Rightarrow> bool" where "is_whitespace c \<longleftrightarrow> ws_len c \<noteq> 0"

definition leading_spaces :: "string \<Rightarrow> nat" where
  "leading_spaces line = length (takeWhile (\<lambda>c. c = CHR '' '') line)"

definition backslash :: string where "backslash = [CHR 0x5C]"

definition is_escaped :: "string list \<Rightarrow> nat \<Rightarrow> bool" where
  "is_escaped cs index \<longleftrightarrow> length (takeWhile (\<lambda>c. c = backslash) (rev (take index cs))) mod 2 = 1"

text \<open>The loop that drops the white space before the end of a plain scalar.\<close>

fun drop_trailing :: "string list \<Rightarrow> nat \<Rightarrow> nat \<Rightarrow> nat" where
  "drop_trailing cs start 0 = 0"
| "drop_trailing cs start (Suc stop) =
     (if start < Suc stop \<and> is_whitespace (cs ! stop) then drop_trailing cs start stop else Suc stop)"

definition ends_plain :: "string list \<Rightarrow> nat \<Rightarrow> bool \<Rightarrow> nat \<Rightarrow> bool" where
  "ends_plain cs start flow i \<longleftrightarrow>
     (let c = cs ! i;
          preceded_by_space = (i = start \<or> is_whitespace (cs ! (i - 1)));
          followed_by_space = (i + 1 < length cs \<longrightarrow> is_whitespace (cs ! (i + 1))) in
      flow \<and> c \<in> {'','', '']'', ''}''} \<or> c = ''#'' \<and> preceded_by_space \<or> c = '':'' \<and> followed_by_space)"

definition plain_line_end :: "string list \<Rightarrow> nat \<Rightarrow> bool \<Rightarrow> nat \<times> bool" where
  "plain_line_end cs start flow =
     (case List.find (ends_plain cs start flow) [start..<length cs] of
        Some i \<Rightarrow> (drop_trailing cs start i, True)
      | None \<Rightarrow> (drop_trailing cs start (length cs), False))"

section \<open>Where a scalar ends\<close>

datatype TScalarStyle = Plain | SingleQuoted | DoubleQuoted | Literal | Folded

record Marker =
  mk_line :: nat
  mk_col :: nat

definition nth_opt :: "'a list \<Rightarrow> nat \<Rightarrow> 'a option" where
  "nth_opt xs i = (if i < length xs then Some (xs ! i) else None)"

definition source_end :: "string list \<Rightarrow> Marker \<Rightarrow> SourcePosition" where
  "source_end source_lines mark =
     (if source_lines = [] then \<lparr>pos_line = mk_line mark, pos_column = mk_col mark + 2\<rparr>
      else \<lparr>pos_line = length source_lines, pos_column = length (chars (List.last source_lines)) + 1\<rparr>)"

definition single_quote :: string where "single_quote = [CHR 0x27]"
definition double_quote :: string where "double_quote = [CHR 0x22]"

text \<open>The column after the closing quote of a line, from a character on.\<close>

function closing_quote :: "string \<Rightarrow> string list \<Rightarrow> nat \<Rightarrow> nat option" where
  "closing_quote quote cs i =
     (if length cs \<le> i then None
      else if cs ! i = quote then
        (if quote = single_quote \<and> nth_opt cs (i + 1) = Some quote then closing_quote quote cs (i + 2)
         else if quote = double_quote \<and> is_escaped cs i then closing_quote quote cs (i + 1)
         else Some (i + 2))
      else closing_quote quote cs (i + 1))"
  by auto
termination by (relation "measure (\<lambda>(_, cs, i). length cs - i)") auto

declare closing_quote.simps [simp del]

fun closing_line :: "string \<Rightarrow> nat \<Rightarrow> (nat \<times> string) list \<Rightarrow> SourcePosition option" where
  "closing_line quote start [] = None"
| "closing_line quote start ((line_idx, line) # rest) =
     (case closing_quote quote (chars line) start of
        Some column \<Rightarrow> Some \<lparr>pos_line = line_idx + 1, pos_column = column\<rparr>
      | None \<Rightarrow> closing_line quote 0 rest)"

definition quoted_scalar_end :: "string list \<Rightarrow> Marker \<Rightarrow> string \<Rightarrow> SourcePosition" where
  "quoted_scalar_end source_lines mark quote =
     (case closing_line quote (mk_col mark + 1) (drop (mk_line mark - 1) (enumerate 0 source_lines)) of
        Some position \<Rightarrow> position | None \<Rightarrow> source_end source_lines mark)"

fun block_lines :: "nat \<Rightarrow> nat option \<Rightarrow> nat \<Rightarrow> (nat \<times> string) list \<Rightarrow> nat" where
  "block_lines base_indent content_indent last_line [] = last_line"
| "block_lines base_indent content_indent last_line ((line_idx, line) # rest) =
     (if trim line = []
      then block_lines base_indent content_indent (if content_indent \<noteq> None then line_idx else last_line) rest
      else
        let indent = leading_spaces line in
        case content_indent of
          Some required \<Rightarrow>
            if indent < required then last_line else block_lines base_indent content_indent line_idx rest
        | None \<Rightarrow>
            if indent > base_indent then block_lines base_indent (Some indent) line_idx rest else last_line)"

definition block_scalar_end :: "string list \<Rightarrow> Marker \<Rightarrow> SourcePosition" where
  "block_scalar_end source_lines mark =
     (let start_idx = mk_line mark - 1 in
      case nth_opt source_lines start_idx of
        None \<Rightarrow> \<lparr>pos_line = mk_line mark, pos_column = mk_col mark + 2\<rparr>
      | Some start_line \<Rightarrow>
          let starts_at_header = (nth_opt (chars start_line) (mk_col mark) \<in> {Some ''|'', Some ''>''});
              base_indent = (if starts_at_header then leading_spaces start_line else mk_col mark);
              content_indent = (if starts_at_header then None else Some base_indent);
              last_line = block_lines base_indent content_indent start_idx
                (drop (start_idx + 1) (enumerate 0 source_lines)) in
          \<lparr>pos_line = last_line + 1, pos_column = length (chars (source_lines ! last_line)) + 1\<rparr>)"

fun plain_lines :: "nat \<Rightarrow> bool \<Rightarrow> nat \<times> nat \<Rightarrow> (nat \<times> string) list \<Rightarrow> nat \<times> nat" where
  "plain_lines base_indent flow found [] = found"
| "plain_lines base_indent flow found ((line_idx, continuation) # rest) =
     (if trim continuation = [] then plain_lines base_indent flow found rest
      else
        let indent = leading_spaces continuation in
        if indent \<le> base_indent then found
        else
          let (stop, stopped) = plain_line_end (chars continuation) indent flow in
          if stopped then (line_idx, stop) else plain_lines base_indent flow (line_idx, stop) rest)"

definition plain_scalar_end :: "string list \<Rightarrow> string \<Rightarrow> Marker \<Rightarrow> bool \<Rightarrow> SourcePosition" where
  "plain_scalar_end source_lines val mark flow =
     (let width = length (chars val) in
      case nth_opt source_lines (mk_line mark - 1) of
        None \<Rightarrow> \<lparr>pos_line = mk_line mark, pos_column = mk_col mark + width + 1\<rparr>
      | Some line \<Rightarrow>
          let (raw_first_end, terminated) = plain_line_end (chars line) (mk_col mark) flow;
              first_end = min raw_first_end (mk_col mark + width) in
          if terminated then \<lparr>pos_line = mk_line mark, pos_column = first_end + 1\<rparr>
          else
            let (last_line, last_end) = plain_lines (leading_spaces line) flow
                  (mk_line mark - 1, max first_end (mk_col mark + width))
                  (drop (mk_line mark) (enumerate 0 source_lines)) in
            \<lparr>pos_line = last_line + 1, pos_column = last_end + 1\<rparr>)"

definition scalar_end :: "string list \<Rightarrow> string \<Rightarrow> TScalarStyle \<Rightarrow> Marker \<Rightarrow> bool \<Rightarrow> SourcePosition" where
  "scalar_end source_lines val style mark flow =
     (case style of
        SingleQuoted \<Rightarrow> quoted_scalar_end source_lines mark single_quote
      | DoubleQuoted \<Rightarrow> quoted_scalar_end source_lines mark double_quote
      | Literal \<Rightarrow> block_scalar_end source_lines mark
      | Folded \<Rightarrow> block_scalar_end source_lines mark
      | Plain \<Rightarrow> plain_scalar_end source_lines val mark flow)"

definition scalar_span ::
  "string list \<Rightarrow> string \<Rightarrow> string \<Rightarrow> TScalarStyle \<Rightarrow> Marker \<Rightarrow> bool \<Rightarrow> SourceSpan" where
  "scalar_span source_lines path val style mark flow =
     source_span_new path \<lparr>pos_line = mk_line mark, pos_column = mk_col mark + 1\<rparr>
       (scalar_end source_lines val style mark flow)"

definition alias_char :: "string \<Rightarrow> bool" where
  "alias_char c \<longleftrightarrow> \<not> is_whitespace c \<and> c \<notin> {'','', ''['', '']'', ''{'', ''}''}"

definition alias_span :: "string list \<Rightarrow> string \<Rightarrow> Marker \<Rightarrow> SourceSpan" where
  "alias_span source_lines path mark =
     source_span_new path \<lparr>pos_line = mk_line mark, pos_column = mk_col mark + 1\<rparr>
       (case nth_opt source_lines (mk_line mark - 1) of
          Some line \<Rightarrow>
            \<lparr>pos_line = mk_line mark,
             pos_column = mk_col mark + length (takeWhile alias_char (drop (mk_col mark) (chars line))) + 1\<rparr>
        | None \<Rightarrow> \<lparr>pos_line = mk_line mark, pos_column = mk_col mark + 2\<rparr>)"

definition mark_starts_with :: "string list \<Rightarrow> Marker \<Rightarrow> string \<Rightarrow> bool" where
  "mark_starts_with source_lines mark expected \<longleftrightarrow>
     Option.bind (nth_opt source_lines (mk_line mark - 1)) (\<lambda>line. nth_opt (chars line) (mk_col mark)) = Some expected"

section \<open>The walk\<close>

datatype yaml_event =
    MappingStart | SequenceStart | MappingEnd | SequenceEnd | ScalarEvent string TScalarStyle | AliasEvent | OtherEvent

text \<open>A frame per open container: whether a key is next or the index of the next item, and the flow style.\<close>

datatype Frame = MapFrame bool bool | SeqFrame nat bool

text \<open>The top of \<^verbatim>\<open>frames\<close> and \<^verbatim>\<open>pushed\<close> is their head.\<close>

record Receiver =
  rx_map :: "(string, SourceSpan) btree"
  rx_source_lines :: "string list"
  rx_path :: "string list"
  rx_frames :: "Frame list"
  rx_pushed :: "bool list"
  rx_pending :: "string option"

definition receiver_new :: "string \<Rightarrow> Receiver" where
  "receiver_new source =
     \<lparr>rx_map = bt_empty, rx_source_lines = lines source, rx_path = [], rx_frames = [], rx_pushed = [], rx_pending = None\<rparr>"

definition span_join :: "string list \<Rightarrow> string" where
  "span_join path =
     foldl (\<lambda>out seg. if starts_with seg ''['' \<or> out = [] then out @ seg else out @ ''.'' @ seg) [] path"

definition item_segment :: "nat \<Rightarrow> string" where "item_segment idx = ''['' @ dec_nat idx @ '']''"

definition push_segment :: "string \<Rightarrow> Receiver \<Rightarrow> Receiver" where
  "push_segment s self = self\<lparr>rx_path := rx_path self @ [s], rx_pushed := True # rx_pushed self\<rparr>"

definition enter_container :: "Receiver \<Rightarrow> Receiver" where
  "enter_container self =
     (case rx_pending self of
        Some key \<Rightarrow> push_segment key (self\<lparr>rx_pending := None\<rparr>)
      | None \<Rightarrow>
          (case rx_frames self of
             SeqFrame idx flow # frames \<Rightarrow>
               push_segment (item_segment idx) (self\<lparr>rx_frames := SeqFrame (idx + 1) flow # frames\<rparr>)
           | _ \<Rightarrow> self\<lparr>rx_pushed := False # rx_pushed self\<rparr>))"

fun key_next :: "Frame list \<Rightarrow> Frame list" where
  "key_next (MapFrame _ flow # frames) = MapFrame True flow # frames"
| "key_next frames = frames"

definition leave_container :: "Receiver \<Rightarrow> Receiver" where
  "leave_container self =
     self\<lparr>rx_frames := key_next (tl (rx_frames self)),
          rx_path := (case rx_pushed self of True # _ \<Rightarrow> butlast (rx_path self) | _ \<Rightarrow> rx_path self),
          rx_pushed := tl (rx_pushed self)\<rparr>"

definition on_value_scalar :: "Receiver \<Rightarrow> Receiver" where
  "on_value_scalar self =
     (case rx_frames self of
        MapFrame _ flow # frames \<Rightarrow> self\<lparr>rx_pending := None, rx_frames := MapFrame True flow # frames\<rparr>
      | _ \<Rightarrow> self)"

definition record_span :: "string \<Rightarrow> SourceSpan \<Rightarrow> Receiver \<Rightarrow> Receiver" where
  "record_span p span self = self\<lparr>rx_map := bt_insert p span (rx_map self)\<rparr>"

fun on_event :: "yaml_event \<times> Marker \<Rightarrow> Receiver \<Rightarrow> Receiver" where
  "on_event (MappingStart, mark) self =
     (let entered = enter_container self in
      entered\<lparr>rx_frames := MapFrame True (mark_starts_with (rx_source_lines self) mark ''{'') # rx_frames entered\<rparr>)"
| "on_event (SequenceStart, mark) self =
     (let entered = enter_container self in
      entered\<lparr>rx_frames := SeqFrame 0 (mark_starts_with (rx_source_lines self) mark ''['') # rx_frames entered\<rparr>)"
| "on_event (MappingEnd, mark) self = leave_container self"
| "on_event (SequenceEnd, mark) self = leave_container self"
| "on_event (ScalarEvent val style, mark) self =
     (case rx_frames self of
        MapFrame True flow # frames \<Rightarrow>
          (let p = span_join (rx_path self @ [val]) in
           record_span p (scalar_span (rx_source_lines self) p val style mark flow)
             (self\<lparr>rx_frames := MapFrame False flow # frames, rx_pending := Some val\<rparr>))
      | SeqFrame idx flow # frames \<Rightarrow>
          (let p = span_join (rx_path self @ [item_segment idx]) in
           record_span p (scalar_span (rx_source_lines self) p val style mark flow)
             (self\<lparr>rx_frames := SeqFrame (idx + 1) flow # frames\<rparr>))
      | _ \<Rightarrow> on_value_scalar self)"
| "on_event (AliasEvent, mark) self =
     (case rx_frames self of
        SeqFrame idx flow # frames \<Rightarrow>
          (let p = span_join (rx_path self @ [item_segment idx]) in
           record_span p (alias_span (rx_source_lines self) p mark)
             (self\<lparr>rx_frames := SeqFrame (idx + 1) flow # frames\<rparr>))
      | _ \<Rightarrow> on_value_scalar self)"
| "on_event (OtherEvent, mark) self = self"

section \<open>The index\<close>

record SpanIndex =
  sx_map :: "(string, SourceSpan) btree"
  sx_document :: "string option"

definition default_index :: SpanIndex where "default_index = \<lparr>sx_map = bt_empty, sx_document = None\<rparr>"

text \<open>The events of a source, or none where the YAML library cannot scan it: then the index is empty.\<close>

definition build_with_document ::
  "(string \<Rightarrow> (yaml_event \<times> Marker) list option) \<Rightarrow> string \<Rightarrow> string option \<Rightarrow> SpanIndex" where
  "build_with_document yaml_events source document =
     \<lparr>sx_map = (case yaml_events source of
         None \<Rightarrow> bt_empty | Some evs \<Rightarrow> rx_map (fold on_event evs (receiver_new source))),
      sx_document = document\<rparr>"

definition build_index :: "(string \<Rightarrow> (yaml_event \<times> Marker) list option) \<Rightarrow> string \<Rightarrow> SpanIndex" where
  "build_index yaml_events source = build_with_document yaml_events source None"

definition build_named :: "(string \<Rightarrow> (yaml_event \<times> Marker) list option) \<Rightarrow> string \<Rightarrow> string \<Rightarrow> SpanIndex" where
  "build_named yaml_events source document = build_with_document yaml_events source (Some document)"

definition get_span :: "SpanIndex \<Rightarrow> string \<Rightarrow> SourceSpan option" where
  "get_span self path = map_option (\<lambda>span. span\<lparr>sn_document := sx_document self\<rparr>) (bt_get (sx_map self) path)"

definition span_position :: "SourceSpan \<Rightarrow> nat \<times> nat" where
  "span_position span = (pos_line (sn_start span), pos_column (sn_start span) - 1)"

definition get_position :: "SpanIndex \<Rightarrow> string \<Rightarrow> (nat \<times> nat) option" where
  "get_position self path = map_option span_position (get_span self path)"

definition separator :: "char \<Rightarrow> bool" where "separator c \<longleftrightarrow> c = CHR ''.'' \<or> c = CHR ''[''"

text \<open>What is before the last separator, as \<^verbatim>\<open>rfind\<close> and \<^verbatim>\<open>truncate\<close> leave it.\<close>

definition ancestor_path :: "string \<Rightarrow> string option" where
  "ancestor_path p =
     (case dropWhile (\<lambda>c. \<not> separator c) (rev p) of [] \<Rightarrow> None | _ # rest \<Rightarrow> Some (rev rest))"

lemma ancestor_path_length: "ancestor_path p = Some q \<Longrightarrow> length q < length p"
  using length_dropWhile_le [of "\<lambda>c. \<not> separator c" "rev p"]
  by (auto simp: ancestor_path_def split: list.splits)

function locate_span :: "SpanIndex \<Rightarrow> string \<Rightarrow> SourceSpan option" where
  "locate_span self p =
     (case get_span self p of
        Some hit \<Rightarrow> Some hit
      | None \<Rightarrow> (case ancestor_path p of None \<Rightarrow> None | Some q \<Rightarrow> locate_span self q))"
  by auto
termination by (relation "measure (\<lambda>(_, p). length p)") (auto dest: ancestor_path_length)

declare locate_span.simps [simp del]

definition locate_position :: "SpanIndex \<Rightarrow> string \<Rightarrow> (nat \<times> nat) option" where
  "locate_position self path = map_option span_position (locate_span self path)"

section \<open>What the index contains\<close>

text \<open>A document as a tree, the events of a walk over it, and what should be recorded below a path.\<close>

datatype yaml_key = YKey (key_text: string) (key_style: TScalarStyle) (key_mark: Marker)

datatype yaml_node =
    YScalar string TScalarStyle Marker
  | YAlias Marker
  | YMap Marker Marker "(yaml_key \<times> yaml_node) list"
  | YSeq Marker Marker "yaml_node list"

fun events_of :: "yaml_node \<Rightarrow> (yaml_event \<times> Marker) list" where
  "events_of (YScalar val style mark) = [(ScalarEvent val style, mark)]"
| "events_of (YAlias mark) = [(AliasEvent, mark)]"
| "events_of (YMap mark stop entries) =
     (MappingStart, mark) #
     concat (map (\<lambda>(k, node). (ScalarEvent (key_text k) (key_style k), key_mark k) # events_of node) entries) @
     [(MappingEnd, stop)]"
| "events_of (YSeq mark stop items) =
     (SequenceStart, mark) # concat (map events_of items) @ [(SequenceEnd, stop)]"

fun item_spans :: "string list \<Rightarrow> string list \<Rightarrow> bool \<Rightarrow> yaml_node \<Rightarrow> (string \<times> SourceSpan) list" where
  "item_spans source_lines path flow (YScalar val style mark) =
     [(span_join path, scalar_span source_lines (span_join path) val style mark flow)]"
| "item_spans source_lines path flow (YAlias mark) = [(span_join path, alias_span source_lines (span_join path) mark)]"
| "item_spans source_lines path flow node = []"

lemma enumerate_size [termination_simp]: "(i, x) \<in> set (enumerate n xs) \<Longrightarrow> size x < Suc (size_list size xs)"
proof -
  assume "(i, x) \<in> set (enumerate n xs)"
  then have "x \<in> set xs" by (auto simp: in_set_enumerate_eq)
  then show ?thesis by (simp add: less_Suc_eq_le size_list_estimation')
qed

fun spans_of :: "string list \<Rightarrow> string list \<Rightarrow> yaml_node \<Rightarrow> (string \<times> SourceSpan) list" where
  "spans_of source_lines path (YMap mark stop entries) =
     concat (map (\<lambda>(k, node).
       (span_join (path @ [key_text k]),
        scalar_span source_lines (span_join (path @ [key_text k])) (key_text k) (key_style k) (key_mark k)
          (mark_starts_with source_lines mark ''{'')) # spans_of source_lines (path @ [key_text k]) node) entries)"
| "spans_of source_lines path (YSeq mark stop items) =
     concat (map (\<lambda>(i, node).
       item_spans source_lines (path @ [item_segment i]) (mark_starts_with source_lines mark ''['') node @
       spans_of source_lines (path @ [item_segment i]) node) (enumerate 0 items))"
| "spans_of source_lines path node = []"

definition record_all :: "(string \<times> SourceSpan) list \<Rightarrow> Receiver \<Rightarrow> Receiver" where
  "record_all spans rx = rx\<lparr>rx_map := fold (\<lambda>(p, s). bt_insert p s) spans (rx_map rx)\<rparr>"

lemma record_all_simps [simp]:
  "record_all [] rx = rx"
  "record_all ((p, s) # spans) rx = record_all spans (rx\<lparr>rx_map := bt_insert p s (rx_map rx)\<rparr>)"
  "rx_source_lines (record_all spans rx) = rx_source_lines rx" "rx_path (record_all spans rx) = rx_path rx"
  "rx_frames (record_all spans rx) = rx_frames rx" "rx_pushed (record_all spans rx) = rx_pushed rx"
  "rx_pending (record_all spans rx) = rx_pending rx"
  by (simp_all add: record_all_def)

lemma record_all_append: "record_all (xs @ ys) rx = record_all ys (record_all xs rx)"
  by (simp add: record_all_def)

lemma record_all_update [simp]:
  "record_all spans (rx\<lparr>rx_path := path\<rparr>) = (record_all spans rx)\<lparr>rx_path := path\<rparr>"
  "record_all spans (rx\<lparr>rx_frames := frames\<rparr>) = (record_all spans rx)\<lparr>rx_frames := frames\<rparr>"
  "record_all spans (rx\<lparr>rx_pushed := pushed\<rparr>) = (record_all spans rx)\<lparr>rx_pushed := pushed\<rparr>"
  "record_all spans (rx\<lparr>rx_pending := pending\<rparr>) = (record_all spans rx)\<lparr>rx_pending := pending\<rparr>"
  by (simp_all add: record_all_def)

lemma receiver_same:
  "rx_frames rx = frames \<Longrightarrow> rx\<lparr>rx_frames := frames\<rparr> = rx" "rx_pending rx = pending \<Longrightarrow> rx\<lparr>rx_pending := pending\<rparr> = rx"
  by auto

text \<open>
  What a walk over a node does where a value, an item or the root is next: it records the spans of the node and
  leaves the receiver ready for what follows.
\<close>

definition walks_value :: "yaml_node \<Rightarrow> bool" where
  "walks_value node \<longleftrightarrow> (\<forall>rx key flow frames. rx_frames rx = MapFrame False flow # frames \<longrightarrow> rx_pending rx = Some key \<longrightarrow>
     fold on_event (events_of node) rx =
       record_all (spans_of (rx_source_lines rx) (rx_path rx @ [key]) node)
         (rx\<lparr>rx_frames := MapFrame True flow # frames, rx_pending := None\<rparr>))"

definition walks_item :: "yaml_node \<Rightarrow> bool" where
  "walks_item node \<longleftrightarrow> (\<forall>rx idx flow frames. rx_frames rx = SeqFrame idx flow # frames \<longrightarrow> rx_pending rx = None \<longrightarrow>
     fold on_event (events_of node) rx =
       record_all (item_spans (rx_source_lines rx) (rx_path rx @ [item_segment idx]) flow node @
           spans_of (rx_source_lines rx) (rx_path rx @ [item_segment idx]) node)
         (rx\<lparr>rx_frames := SeqFrame (idx + 1) flow # frames\<rparr>))"

definition walks_root :: "yaml_node \<Rightarrow> bool" where
  "walks_root node \<longleftrightarrow> (\<forall>rx. rx_frames rx = [] \<longrightarrow> rx_pending rx = None \<longrightarrow>
     fold on_event (events_of node) rx = record_all (spans_of (rx_source_lines rx) (rx_path rx) node) rx)"

lemma walk_entries:
  assumes "\<And>k node. (k, node) \<in> set entries \<Longrightarrow> walks_value node"
    and "rx_frames rx = MapFrame True flow # frames" "rx_pending rx = None"
    and "flow = mark_starts_with (rx_source_lines rx) mark ''{''"
  shows "fold on_event (concat (map (\<lambda>(k, node). (ScalarEvent (key_text k) (key_style k), key_mark k) # events_of node) entries)) rx =
    record_all (spans_of (rx_source_lines rx) (rx_path rx) (YMap mark stop entries)) rx"
  using assms
proof (induction entries arbitrary: rx)
  case (Cons entry entries)
  obtain k node where e: "entry = (k, node)" by (cases entry) auto
  have "walks_value node" using Cons.prems(1) [of k node] e by simp
  note walk = this [unfolded walks_value_def, rule_format]
  define source_lines where "source_lines = rx_source_lines rx"
  then have lines: "rx_source_lines rx = source_lines" by simp
  have IH: "fold on_event (concat (map (\<lambda>(k, node). (ScalarEvent (key_text k) (key_style k), key_mark k) # events_of node) entries)) rx =
      record_all (spans_of (rx_source_lines rx) (rx_path rx) (YMap mark stop entries)) rx"
    if "rx_frames rx = MapFrame True flow # frames" "rx_pending rx = None" "rx_source_lines rx = source_lines" for rx
    using Cons.prems(1,4) that lines by (intro Cons.IH) auto
  define rx2 where "rx2 = record_all (spans_of source_lines (rx_path rx @ [key_text k]) node)
      (rx\<lparr>rx_map := bt_insert (span_join (rx_path rx @ [key_text k]))
        (scalar_span source_lines (span_join (rx_path rx @ [key_text k])) (key_text k) (key_style k) (key_mark k) flow)
        (rx_map rx)\<rparr>)"
  define rx1 where "rx1 = on_event (ScalarEvent (key_text k) (key_style k), key_mark k) rx"
  have rx1: "rx1 = rx\<lparr>rx_map := bt_insert (span_join (rx_path rx @ [key_text k]))
        (scalar_span (rx_source_lines rx) (span_join (rx_path rx @ [key_text k])) (key_text k) (key_style k) (key_mark k) flow)
        (rx_map rx), rx_frames := MapFrame False flow # frames, rx_pending := Some (key_text k)\<rparr>"
    using Cons.prems(2) by (simp add: rx1_def Let_def record_span_def)
  have "fold on_event (events_of node) rx1 = record_all (spans_of (rx_source_lines rx) (rx_path rx @ [key_text k]) node)
      (rx1\<lparr>rx_frames := MapFrame True flow # frames, rx_pending := None\<rparr>)"
    using walk [of rx1 flow frames "key_text k"] by (simp add: rx1)
  also have "rx1\<lparr>rx_frames := MapFrame True flow # frames, rx_pending := None\<rparr> = rx\<lparr>rx_map := rx_map rx1\<rparr>"
    using Cons.prems(2,3) by (cases rx) (simp add: rx1)
  finally have w: "fold on_event (events_of node) rx1 = rx2" by (simp add: rx2_def rx1 lines)
  have "fold on_event (concat (map (\<lambda>(k, node). (ScalarEvent (key_text k) (key_style k), key_mark k) # events_of node)
      (entry # entries))) rx =
      fold on_event (concat (map (\<lambda>(k, node). (ScalarEvent (key_text k) (key_style k), key_mark k) # events_of node) entries)) rx2"
    by (simp add: e rx1_def [symmetric] w del: on_event.simps)
  also have "\<dots> = record_all (spans_of (rx_source_lines rx2) (rx_path rx2) (YMap mark stop entries)) rx2"
    by (rule IH) (use Cons.prems(2,3) in \<open>simp_all add: rx2_def lines\<close>)
  also have "\<dots> = record_all (spans_of (rx_source_lines rx) (rx_path rx) (YMap mark stop (entry # entries))) rx"
    using Cons.prems(4) by (simp add: e record_all_append rx2_def lines)
  finally show ?case .
qed simp

lemma walk_items:
  assumes "\<And>node. node \<in> set items \<Longrightarrow> walks_item node"
    and "rx_frames rx = SeqFrame idx flow # frames" "rx_pending rx = None"
  shows "fold on_event (concat (map events_of items)) rx =
    record_all (concat (map (\<lambda>(i, node).
        item_spans (rx_source_lines rx) (rx_path rx @ [item_segment i]) flow node @
        spans_of (rx_source_lines rx) (rx_path rx @ [item_segment i]) node) (enumerate idx items)))
      (rx\<lparr>rx_frames := SeqFrame (idx + length items) flow # frames\<rparr>)"
  using assms
proof (induction items arbitrary: rx idx)
  case (Cons node items)
  have "walks_item node" using Cons.prems(1) by simp
  note walk = this [unfolded walks_item_def, rule_format]
  have IH: "fold on_event (concat (map events_of items)) rx =
    record_all (concat (map (\<lambda>(i, node).
        item_spans (rx_source_lines rx) (rx_path rx @ [item_segment i]) flow node @
        spans_of (rx_source_lines rx) (rx_path rx @ [item_segment i]) node) (enumerate idx items)))
      (rx\<lparr>rx_frames := SeqFrame (idx + length items) flow # frames\<rparr>)"
    if "rx_frames rx = SeqFrame idx flow # frames" "rx_pending rx = None" for rx idx
    using Cons.prems(1) by (intro Cons.IH that) auto
  show ?case
    using walk [OF Cons.prems(2,3)] Cons.prems(3) by (simp add: IH record_all_append)
qed (simp add: receiver_same)

lemma enter_container_simps [simp]:
  "rx_pending (enter_container rx) = None" "rx_source_lines (enter_container rx) = rx_source_lines rx"
  "rx_map (enter_container rx) = rx_map rx"
  by (auto simp: enter_container_def push_segment_def split: option.splits list.splits Frame.splits)

lemma leave_container_record_all:
  "leave_container (record_all spans (rx\<lparr>rx_frames := frame # frames\<rparr>)) =
   record_all spans (leave_container (rx\<lparr>rx_frames := frame # frames\<rparr>))"
  by (simp add: leave_container_def split: list.splits bool.splits)

lemma leave_container_frame:
  "leave_container (rx\<lparr>rx_frames := frame # frames\<rparr>) = leave_container (rx\<lparr>rx_frames := frame' # frames\<rparr>)"
  by (simp add: leave_container_def split: list.splits bool.splits)

text \<open>A container is entered, its children are recorded below the path it is entered at, and it is left.\<close>

lemma walk_map:
  assumes "\<And>k node. (k, node) \<in> set entries \<Longrightarrow> walks_value node"
  shows "fold on_event (events_of (YMap mark stop entries)) rx =
    record_all (spans_of (rx_source_lines rx) (rx_path (enter_container rx)) (YMap mark stop entries))
      (leave_container ((enter_container rx)\<lparr>rx_frames := MapFrame True False # rx_frames (enter_container rx)\<rparr>))"
proof -
  let ?flow = "mark_starts_with (rx_source_lines rx) mark ''{''"
  let ?e = "(enter_container rx)\<lparr>rx_frames := MapFrame True ?flow # rx_frames (enter_container rx)\<rparr>"
  have "fold on_event (concat (map (\<lambda>(k, node). (ScalarEvent (key_text k) (key_style k), key_mark k) # events_of node) entries)) ?e =
      record_all (spans_of (rx_source_lines ?e) (rx_path ?e) (YMap mark stop entries)) ?e"
    by (rule walk_entries [OF assms]) simp_all
  then show ?thesis
    by (simp add: Let_def leave_container_record_all del: record_all_update spans_of.simps)
      (simp only: leave_container_frame [where frame = "MapFrame True ?flow" and frame' = "MapFrame True False"])
qed

lemma walk_seq:
  assumes "\<And>node. node \<in> set items \<Longrightarrow> walks_item node"
  shows "fold on_event (events_of (YSeq mark stop items)) rx =
    record_all (spans_of (rx_source_lines rx) (rx_path (enter_container rx)) (YSeq mark stop items))
      (leave_container ((enter_container rx)\<lparr>rx_frames := MapFrame True False # rx_frames (enter_container rx)\<rparr>))"
proof -
  let ?flow = "mark_starts_with (rx_source_lines rx) mark ''[''"
  let ?e = "(enter_container rx)\<lparr>rx_frames := SeqFrame 0 ?flow # rx_frames (enter_container rx)\<rparr>"
  have "fold on_event (concat (map events_of items)) ?e =
      record_all (spans_of (rx_source_lines ?e) (rx_path ?e) (YSeq mark stop items))
        (?e\<lparr>rx_frames := SeqFrame (0 + length items) ?flow # rx_frames (enter_container rx)\<rparr>)"
    by (subst walk_items [OF assms, where idx = 0 and flow = ?flow and frames = "rx_frames (enter_container rx)"]) simp_all
  then show ?thesis
    by (simp add: Let_def leave_container_record_all del: record_all_update spans_of.simps)
      (simp only: leave_container_frame [where frame = "SeqFrame (length items) ?flow" and frame' = "MapFrame True False"])
qed

text \<open>Left again, the receiver is at the place after the container.\<close>

lemma leave_entered:
  "rx_frames rx = MapFrame False flow # frames \<Longrightarrow> rx_pending rx = Some key \<Longrightarrow>
    leave_container ((enter_container rx)\<lparr>rx_frames := f # rx_frames (enter_container rx)\<rparr>) =
      rx\<lparr>rx_frames := MapFrame True flow # frames, rx_pending := None\<rparr> \<and> rx_path (enter_container rx) = rx_path rx @ [key]"
  "rx_frames rx = SeqFrame idx flow # frames \<Longrightarrow> rx_pending rx = None \<Longrightarrow>
    leave_container ((enter_container rx)\<lparr>rx_frames := f # rx_frames (enter_container rx)\<rparr>) =
      rx\<lparr>rx_frames := SeqFrame (idx + 1) flow # frames\<rparr> \<and> rx_path (enter_container rx) = rx_path rx @ [item_segment idx]"
  "rx_frames rx = [] \<Longrightarrow> rx_pending rx = None \<Longrightarrow>
    leave_container ((enter_container rx)\<lparr>rx_frames := f # rx_frames (enter_container rx)\<rparr>) = rx \<and>
      rx_path (enter_container rx) = rx_path rx"
  by (cases rx; simp add: enter_container_def push_segment_def leave_container_def)+

lemma walks: "walks_value node \<and> walks_item node \<and> walks_root node"
proof (induction node)
  case (YMap mark stop entries)
  then have "walks_value node" if "(k, node) \<in> set entries" for k node
    using that by (metis prod_set_simps(2) insertI1)
  note walk = walk_map [of entries mark stop, OF this]
  show ?case
    unfolding walks_value_def walks_item_def walks_root_def
    by (auto simp del: spans_of.simps events_of.simps simp: walk leave_entered)
next
  case (YSeq mark stop items)
  then have "walks_item node" if "node \<in> set items" for node using YSeq [OF that] by simp
  note walk = walk_seq [OF this, where mark = mark and stop = stop]
  show ?case
    unfolding walks_value_def walks_item_def walks_root_def
    by (auto simp del: spans_of.simps events_of.simps simp: walk leave_entered)
qed (auto simp: walks_value_def walks_item_def walks_root_def on_value_scalar_def record_span_def Let_def)

lemma fold_record_get:
  "bt_get (fold (\<lambda>(p, s). bt_insert p s) kvs m) q = (case map_of (rev kvs) q of Some s \<Rightarrow> Some s | None \<Rightarrow> bt_get m q)"
  by (induction kvs arbitrary: m) (auto simp: map_add_def bt_get_insert split: option.splits)

text \<open>The events of a stream around its document are other events.\<close>

definition document_events :: "yaml_node \<Rightarrow> (yaml_event \<times> Marker) list \<Rightarrow> bool" where
  "document_events root evs \<longleftrightarrow>
     (\<exists>us vs. evs = us @ events_of root @ vs \<and> list_all (\<lambda>e. fst e = OtherEvent) (us @ vs))"

lemma other_events: "list_all (\<lambda>e. fst e = OtherEvent) evs \<Longrightarrow> fold on_event evs rx = rx"
  by (induction evs) auto

lemma index_of_document:
  assumes "yaml_events source = Some evs" "document_events root evs"
  shows "get_span (build_with_document yaml_events source document) p =
    map_option (\<lambda>span. span\<lparr>sn_document := document\<rparr>) (map_of (rev (spans_of (lines source) [] root)) p)"
proof -
  obtain us vs where e: "evs = us @ events_of root @ vs"
    "list_all (\<lambda>e. fst e = OtherEvent) us" "list_all (\<lambda>e. fst e = OtherEvent) vs"
    using assms(2) by (auto simp: document_events_def)
  have "walks_root root" using walks by blast
  then have "fold on_event evs (receiver_new source) = record_all (spans_of (lines source) [] root) (receiver_new source)"
    by (simp add: e other_events walks_root_def) (simp add: receiver_new_def)
  then show ?thesis
    by (simp add: get_span_def build_with_document_def assms(1) record_all_def receiver_new_def fold_record_get bt_empty_def
        split: option.split)
qed

section \<open>The nearest ancestor\<close>

definition ancestor :: "string \<Rightarrow> string \<Rightarrow> bool" where
  "ancestor q p \<longleftrightarrow> prefix q p \<and> (q = p \<or> separator (p ! length q))"

lemma ancestor_path_Some:
  assumes "ancestor_path p = Some q"
  obtains c rest where "p = q @ c # rest" "separator c" "\<forall>x\<in>set rest. \<not> separator x"
proof -
  let ?ok = "\<lambda>c. \<not> separator c"
  obtain c front where d: "dropWhile ?ok (rev p) = c # front" "q = rev front"
    using assms by (auto simp: ancestor_path_def split: list.splits)
  have "rev p = takeWhile ?ok (rev p) @ c # front" using d(1) takeWhile_dropWhile_id [of ?ok "rev p"] by simp
  then have "p = rev front @ c # rev (takeWhile ?ok (rev p))" by (metis rev.simps(2) rev_append rev_rev_ident append.assoc append_Cons append_Nil)
  moreover have "separator c" using d(1) by (auto simp: dropWhile_eq_Cons_conv)
  moreover have "\<forall>x\<in>set (rev (takeWhile ?ok (rev p))). \<not> separator x" by (auto dest: set_takeWhileD)
  ultimately show thesis using that d(2) by blast
qed

lemma ancestor_path_None: "ancestor_path p = None \<Longrightarrow> \<not> separator c \<or> c \<notin> set p"
  by (auto simp: ancestor_path_def dropWhile_eq_Nil_conv split: list.splits)

lemma ancestor_refl [simp]: "ancestor p p" by (simp add: ancestor_def)

lemma ancestor_cases:
  "ancestor q p \<longleftrightarrow> q = p \<or> (\<exists>r. ancestor_path p = Some r \<and> ancestor q r)"
proof (cases "ancestor_path p")
  case None
  have "q = p" if "ancestor q p"
    using that ancestor_path_None [OF None, of "p ! length q"]
    by (metis ancestor_def nth_mem prefix_length_le prefix_length_prefix prefix_order.order_refl prefix_order.antisym linorder_not_less)
  then show ?thesis using None by auto
next
  case (Some r)
  obtain c rest where p: "p = r @ c # rest" "separator c" "\<forall>x\<in>set rest. \<not> separator x"
    using ancestor_path_Some [OF Some] by blast
  show ?thesis
  proof (cases "length q \<le> length r")
    case True
    then have "prefix q p \<longleftrightarrow> prefix q r"
      using prefix_length_prefix [of q p r] by (auto simp: p(1) prefix_prefix)
    moreover have "q \<noteq> p" using True p(1) by auto
    moreover have "p ! length q = (if length q < length r then r ! length q else c)"
      using True by (auto simp: p(1) nth_append)
    moreover have "prefix q r \<Longrightarrow> q = r \<longleftrightarrow> \<not> length q < length r" by (auto simp: prefix_def)
    ultimately show ?thesis using p(2) Some by (auto simp: ancestor_def)
  next
    case False
    have "\<not> ancestor q r" using False by (auto simp: ancestor_def dest: prefix_length_le)
    moreover have "q = p" if a: "ancestor q p"
    proof (rule ccontr)
      assume "q \<noteq> p"
      with a have s: "separator (p ! length q)" and l: "length q < length p"
        by (auto simp: ancestor_def) (metis prefix_length_le prefix_length_less strict_prefixI)
      have "p ! length q = rest ! (length q - length r - 1)" using False by (simp add: p(1) nth_append nth_Cons')
      moreover have "length q - length r - 1 < length rest" using False l by (simp add: p(1))
      ultimately show False using s p(3) by simp
    qed
    ultimately show ?thesis using Some by auto
  qed
qed

lemma ancestor_length: "ancestor q p \<Longrightarrow> length q \<le> length p"
  by (auto simp: ancestor_def dest: prefix_length_le)

lemma locate_span_iff:
  "locate_span self p = Some s \<longleftrightarrow>
    (\<exists>q. ancestor q p \<and> get_span self q = Some s \<and>
      (\<forall>q'. ancestor q' p \<and> length q < length q' \<longrightarrow> get_span self q' = None))"
proof (induction self p rule: locate_span.induct)
  case (1 self p)
  show ?case
  proof (cases "get_span self p")
    case (Some hit)
    then have "get_span self q = Some s \<and> (\<forall>q'. ancestor q' p \<and> length q < length q' \<longrightarrow> get_span self q' = None) \<Longrightarrow>
        ancestor q p \<Longrightarrow> hit = s" for q
      using ancestor_length [of q p] ancestor_cases [of q p] ancestor_path_length
      by (metis ancestor_length ancestor_refl linorder_not_less nat_less_le option.distinct(1) option.inject order_le_less_trans)
    then show ?thesis using Some ancestor_length by (auto simp: locate_span.simps [of self p] intro!: exI [of _ p] dest: leD)
  next
    case None
    show ?thesis
    proof (cases "ancestor_path p")
      case N: None
      then show ?thesis using None by (auto simp: locate_span.simps [of self p] ancestor_cases [of _ p])
    next
      case (Some r)
      have "ancestor q p \<longleftrightarrow> q = p \<or> ancestor q r" for q using Some ancestor_cases [of q p] by auto
      moreover have "(\<exists>q. ancestor q r \<and> R q \<and> (\<forall>q'. ancestor q' r \<and> length q < length q' \<longrightarrow> N q')) \<longleftrightarrow>
          (\<exists>q. (q = p \<or> ancestor q r) \<and> R q \<and> (\<forall>q'. (q' = p \<or> ancestor q' r) \<and> length q < length q' \<longrightarrow> N q'))"
        if "\<not> R p" "N p" for R N
        using that by blast
      ultimately show ?thesis using 1 [OF None Some] None Some by (simp add: locate_span.simps [of self p])
    qed
  qed
qed

text \<open>
  Claim C9: a path is located at its nearest recorded ancestor.  Take a source that the YAML library walks as a
  document whose mapping keys are scalars.  What is recorded is every key and every list item that is a scalar or
  an alias, the last of them where a path occurs twice; items that are mappings or lists are not.  The position of
  a path is the one of the longest of the path itself and its ancestors that is recorded, and none if there is none.
\<close>

theorem located_in_document:
  assumes "yaml_events source = Some evs" and "document_events root evs"
  shows "locate_span (build_with_document yaml_events source document) p = Some s \<longleftrightarrow>
    (\<exists>q span. ancestor q p \<and> map_of (rev (spans_of (lines source) [] root)) q = Some span \<and>
      s = span\<lparr>sn_document := document\<rparr> \<and>
      (\<forall>q'. ancestor q' p \<and> length q < length q' \<longrightarrow> q' \<notin> fst ` set (spans_of (lines source) [] root)))"
proof -
  have none: "map_of (rev xs) q = None \<longleftrightarrow> q \<notin> fst ` set xs" for xs :: "(string \<times> SourceSpan) list" and q
    by (simp add: map_of_eq_None_iff)
  show ?thesis
    unfolding locate_span_iff index_of_document [of yaml_events source, OF assms] none [symmetric]
    by (auto simp del: map_of_eq_None_iff)
qed

section \<open>Examples\<close>

definition demo_mark :: "nat \<Rightarrow> nat \<Rightarrow> Marker" where "demo_mark line col = \<lparr>mk_line = line, mk_col = col\<rparr>"

text \<open>The tree of \<^verbatim>\<open>a:\<close>, with the entries \<^verbatim>\<open>b: x\<close> and a list \<^verbatim>\<open>c\<close> of two items.\<close>

definition demo_source :: string where
  "demo_source = concat (map (\<lambda>l. l @ [CHR 0x0A]) [''a:'', ''  b: x'', ''  c:'', ''  - one'', ''  - two''])"

definition demo_node :: yaml_node where
  "demo_node =
     YMap (demo_mark 1 0) (demo_mark 6 0) [(YKey ''a'' Plain (demo_mark 1 0),
       YMap (demo_mark 2 2) (demo_mark 6 0)
         [(YKey ''b'' Plain (demo_mark 2 2), YScalar ''x'' Plain (demo_mark 2 5)),
          (YKey ''c'' Plain (demo_mark 3 2), YSeq (demo_mark 4 2) (demo_mark 6 0)
            [YScalar ''one'' Plain (demo_mark 4 4), YScalar ''two'' Plain (demo_mark 5 4)])])]"

lemma demo_spans:
  "map (\<lambda>(p, s). (p, sn_start s, sn_end s)) (spans_of (lines demo_source) [] demo_node) =
   map (\<lambda>(p, l, c, e). (p, \<lparr>pos_line = l, pos_column = c\<rparr>, \<lparr>pos_line = l, pos_column = e\<rparr>))
     [(''a'', 1, 1, 2), (''a.b'', 2, 3, 4), (''a.c'', 3, 3, 4), (''a.c[0]'', 4, 5, 8), (''a.c[1]'', 5, 5, 8)]"
  by code_simp

lemma demo_located:
  "map_option span_position (locate_span (build_with_document (\<lambda>_. Some (events_of demo_node)) demo_source None) ''a.b.ghost'') =
   Some (2, 2)"
  by code_simp

lemma located_in_document_witness:
  "\<exists>q span. ancestor q ''a.b.ghost'' \<and> map_of (rev (spans_of (lines demo_source) [] demo_node)) q = Some span"
proof -
  have e: "(\<lambda>_. Some (events_of demo_node)) demo_source = Some (events_of demo_node)" by simp
  have d: "document_events demo_node (events_of demo_node)" by (auto simp: document_events_def intro!: exI [of _ "[]"])
  obtain s where "locate_span (build_with_document (\<lambda>_. Some (events_of demo_node)) demo_source None) ''a.b.ghost'' = Some s"
    using demo_located by auto
  then show ?thesis unfolding located_in_document [of "\<lambda>_. Some (events_of demo_node)" demo_source, OF e d] by blast
qed

text \<open>An item that is a mapping has no position of its own: in \<^verbatim>\<open>a: [{b: x}]\<close> the path \<^verbatim>\<open>a[0]\<close> is located at \<^verbatim>\<open>a\<close>.\<close>

definition demo_items :: yaml_node where
  "demo_items = YMap (demo_mark 1 0) (demo_mark 1 12) [(YKey ''a'' Plain (demo_mark 1 0),
     YSeq (demo_mark 1 3) (demo_mark 1 11)
       [YMap (demo_mark 1 4) (demo_mark 1 9) [(YKey ''b'' Plain (demo_mark 1 5), YScalar ''x'' Plain (demo_mark 1 8))]])]"

lemma container_item_not_recorded:
  "let index = build_with_document (\<lambda>_. Some (events_of demo_items)) ''a: [{b: x}]'' None in
   map fst (sx_map index) = [''a'', ''a[0].b''] \<and>
   map_option span_position (locate_span index ''a[0]'') = Some (1, 0)"
  by code_simp

text \<open>
  An alias where a key is expected counts as the value: after \<^verbatim>\<open>*a : v\<close> the keys and the values of a mapping are
  exchanged, and its remaining keys are not in the index.
\<close>

lemma alias_key_shifts:
  "map fst (sx_map (build_index (\<lambda>_. Some (map (\<lambda>e. (e, demo_mark 1 0))
     [MappingStart, AliasEvent, ScalarEvent ''v'' Plain, ScalarEvent ''k'' Plain, ScalarEvent ''w'' Plain, MappingEnd])) [])) =
   [''v'', ''w'']"
  by code_simp

end
