(* ===== verification/Parser.thy ===== *)
theory Parser
  imports Firmware Spans
begin

text \<open>
  \<^verbatim>\<open>crates/machine-parser/src/lib.rs\<close>: from the text of a machine to its document, with everything that is wrong
  in it.  The YAML library, which gives the typed document and the events, is an argument.
\<close>

section \<open>Validation\<close>

definition API_VERSION :: string where "API_VERSION = ''dryer.machine/v0.1''"

definition KIND_MACHINE :: string where "KIND_MACHINE = ''Machine''"

record ('f, 'v, 'ver, 'req) parser_env =
  pv_float :: "'f text_float_ops"
  pv_semver :: "('ver, 'req) semver_ops"
  pv_as_str :: "'v \<Rightarrow> string option"
  pv_document :: "string \<Rightarrow> (string \<times> (nat \<times> nat) option) + 'v MachineDoc"
  pv_events :: "string \<Rightarrow> (yaml_event \<times> Marker) list option"

definition expected_limit_dimension :: "string \<Rightarrow> Dimension option" where
  "expected_limit_dimension name =
     (if name \<in> {''max_velocity'', ''max_z_velocity''} then Some Velocity
      else if name = ''max_acceleration'' then Some Acceleration
      else if name = ''max_step_rate'' then Some Frequency
      else None)"

definition locate :: "SpanIndex \<Rightarrow> Diagnostic \<Rightarrow> Diagnostic" where
  "locate index d =
     (if dg_source d \<noteq> None then d
      else
        (case dg_path d of
           None \<Rightarrow> d
         | Some path \<Rightarrow> (case locate_span index path of Some source \<Rightarrow> with_source source d | None \<Rightarrow> d)))"

definition header_findings :: "'v MachineDoc \<Rightarrow> Diagnostic list" where
  "header_findings doc =
     (if doc_api_version doc \<noteq> API_VERSION
      then [diag_at ''api_version'' (diag_error ''E0200'' (''api_version '' @ quoted (doc_api_version doc)
        @ '' is not supported (expected '' @ quoted API_VERSION @ '')''))] else []) @
     (if doc_kind doc \<noteq> KIND_MACHINE
      then [diag_at ''kind'' (diag_error ''E0201'' (''kind '' @ quoted (doc_kind doc)
        @ '' is not supported (expected '' @ quoted KIND_MACHINE @ '')''))] else []) @
     (if doc_controllers doc = []
      then [diag_at ''controllers'' (diag_error ''E0202'' ''a machine needs at least one controller'')] else [])"

definition identifier_findings :: "string \<Rightarrow> string list \<Rightarrow> Diagnostic list" where
  "identifier_findings section_name keys =
     concat (map (\<lambda>key. if valid_identifier key then []
       else [diag_at (section_name @ ''.'' @ key) (diag_error ''E0300'' (quoted key
         @ '' is not a valid identifier (lowercase ASCII, digits, '' @ quoted ''_'' @ '', '' @ quoted ''-''
         @ '', starting with a letter)''))]) keys)"

definition workflow_findings :: "string \<times> 'v WorkflowRef \<Rightarrow> Diagnostic list" where
  "workflow_findings = (\<lambda>(workflow_name, workflow).
     if valid_package_ref_name (workflow_package workflow) then []
     else [diag_at (''workflows.'' @ workflow_name) (diag_error ''E0500'' (''workflow '' @ quoted workflow_name
       @ '' references invalid package '' @ quoted (workflow_package workflow)))])"

definition package_findings :: "('ver, 'req) semver_ops \<Rightarrow> nat \<times> string \<Rightarrow> Diagnostic list" where
  "package_findings sv = (\<lambda>(i, pkg).
     case package_ref_parse sv pkg of
       Inr _ \<Rightarrow> []
     | Inl e \<Rightarrow> [diag_at (''packages['' @ dec_nat i @ '']'') (diag_error ''E0500'' (ref_parse_error_text e))])"

definition limit_ok :: "('f, 'z) text_float_ops_scheme \<Rightarrow> string \<Rightarrow> string \<Rightarrow> QuantityError + 'f Quantity" where
  "limit_ok fo name val =
     (case expected_limit_dimension name of Some dim \<Rightarrow> parse_as fo val dim | None \<Rightarrow> quantity_parse fo val)"

definition limit_findings :: "('f, 'z) text_float_ops_scheme \<Rightarrow> string \<times> string \<Rightarrow> Diagnostic list" where
  "limit_findings fo = (\<lambda>(name, val).
     case limit_ok fo name val of
       Inr _ \<Rightarrow> []
     | Inl e \<Rightarrow>
         [suggest (''write quantities with explicit units, e.g. '' @ [CHR 0x22] @ ''300 mm/s'' @ [CHR 0x22])
           (diag_at (''kinematics.limits.'' @ name)
             (diag_error ''E0400'' (''limit '' @ quoted name @ '': '' @ quantity_error_text e)))])"

definition port_error :: "string \<Rightarrow> string \<Rightarrow> Diagnostic" where
  "port_error path target =
     diag_at path (diag_error ''E0503'' (quoted target @ '' must name a controller port as '' @ quoted ''controller.port''))"

definition attribute_findings :: "'v MachineDoc \<Rightarrow> ('v \<Rightarrow> string option) \<Rightarrow> string \<Rightarrow> string \<times> 'v \<Rightarrow> Diagnostic list" where
  "attribute_findings doc as_str cname = (\<lambda>(attr, val).
     let path = ''components.'' @ cname @ ''.'' @ attr in
     case as_str val of
       None \<Rightarrow> []
     | Some target \<Rightarrow>
         if attr \<in> {''driver'', ''sensor''} \<and> bt_get (doc_components doc) target = None
         then [diag_at path (diag_error ''E0501'' (''component '' @ quoted cname @ '' references unknown component ''
           @ quoted target))]
         else if attr \<in> {''connected_to'', ''output'', ''input''}
         then
           (case split_once (CHR ''.'') target of
              Some (ctrl, port) \<Rightarrow>
                if bt_get (doc_controllers doc) ctrl = None
                then [diag_at path (diag_error ''E0502'' (''component '' @ quoted cname @ '' references unknown controller ''
                  @ quoted ctrl @ '' in '' @ quoted target))]
                else []
            | None \<Rightarrow> [port_error path target])
         else [])"

definition transport_findings :: "'v MachineDoc \<Rightarrow> string \<times> MachineController \<Rightarrow> Diagnostic list" where
  "transport_findings doc = (\<lambda>(name, ctrl).
     let path = ''controllers.'' @ name @ ''.transport.parent'' in
     case tp_parent (mc_transport ctrl) of
       None \<Rightarrow> []
     | Some parent \<Rightarrow>
         (case split_once (CHR ''.'') parent of
            None \<Rightarrow> [port_error path parent]
          | Some (pctrl, port) \<Rightarrow>
              if bt_get (doc_controllers doc) pctrl = None
              then [diag_at path (diag_error ''E0502'' (''transport parent references unknown controller '' @ quoted pctrl))]
              else []))"

definition validate_doc :: "('f, 'v, 'ver, 'req) parser_env \<Rightarrow> 'v MachineDoc \<Rightarrow> SpanIndex \<Rightarrow> Diagnostic list" where
  "validate_doc env doc index =
     map (locate index)
       (header_findings doc @
        concat (map (\<lambda>(section_name, keys). identifier_findings section_name keys)
          [(''controllers'', bt_keys (doc_controllers doc)), (''components'', bt_keys (doc_components doc)),
           (''workflows'', bt_keys (doc_workflows doc))]) @
        concat (map workflow_findings (doc_workflows doc)) @
        concat (map (package_findings (pv_semver env)) (enumerate 0 (doc_packages doc))) @
        concat (map (limit_findings (pv_float env)) (km_limits (doc_kinematics doc))) @
        concat (map (\<lambda>(cname, comp).
          concat (map (attribute_findings doc (pv_as_str env) cname) (co_attributes comp))) (doc_components doc)) @
        concat (map (transport_findings doc) (doc_controllers doc)))"

section \<open>Parsing\<close>

definition parse_str_with_document ::
  "('f, 'v, 'ver, 'req) parser_env \<Rightarrow> string \<Rightarrow> string option \<Rightarrow> 'v ParseOutcome" where
  "parse_str_with_document env source document =
     (let spans = build_with_document (pv_events env) source document in
      case pv_document env source of
        Inl (e, location) \<Rightarrow>
          (let d = diag_error ''E0100'' (''machine manifest does not parse: '' @ e) in
           \<lparr>pa_doc = None,
            pa_diagnostics =
              [case location of
                 None \<Rightarrow> d
               | Some (line, column) \<Rightarrow>
                   let at = source_span_point line column in
                   with_source (case document of Some name \<Rightarrow> in_document name at | None \<Rightarrow> at) d],
            pa_spans = locate_span spans\<rparr>)
      | Inr doc \<Rightarrow> \<lparr>pa_doc = Some doc, pa_diagnostics = validate_doc env doc spans, pa_spans = locate_span spans\<rparr>)"

definition parse_str :: "('f, 'v, 'ver, 'req) parser_env \<Rightarrow> string \<Rightarrow> 'v ParseOutcome" where
  "parse_str env source = parse_str_with_document env source None"

definition parse_file ::
  "('f, 'v, 'ver, 'req) parser_env \<Rightarrow> (string \<Rightarrow> string) \<Rightarrow> (string \<Rightarrow> fs_node option) \<Rightarrow> string \<Rightarrow> 'v ParseOutcome" where
  "parse_file env display files path =
     (case read_to_string (files path) of
        Inr text \<Rightarrow> parse_str_with_document env text (Some (display path))
      | Inl e \<Rightarrow>
          \<lparr>pa_doc = None, pa_diagnostics = [diag_error ''E0101'' (''cannot read '' @ display path @ '': '' @ e)],
           pa_spans = locate_span default_index\<rparr>)"

definition parse_is_valid :: "'v ParseOutcome \<Rightarrow> bool" where
  "parse_is_valid self \<longleftrightarrow> pa_doc self \<noteq> None \<and> \<not> list_ex is_error (pa_diagnostics self)"

section \<open>What a valid machine is\<close>

definition names_port :: "'v MachineDoc \<Rightarrow> string \<Rightarrow> bool" where
  "names_port doc target \<longleftrightarrow>
     (\<exists>ctrl port. split_once (CHR ''.'') target = Some (ctrl, port) \<and> bt_get (doc_controllers doc) ctrl \<noteq> None)"

definition attribute_valid :: "'v MachineDoc \<Rightarrow> string \<Rightarrow> string \<Rightarrow> bool" where
  "attribute_valid doc attr target \<longleftrightarrow>
     (attr \<in> {''driver'', ''sensor''} \<longrightarrow> bt_get (doc_components doc) target \<noteq> None) \<and>
     (attr \<in> {''connected_to'', ''output'', ''input''} \<longrightarrow> names_port doc target)"

definition document_valid :: "('f, 'v, 'ver, 'req) parser_env \<Rightarrow> 'v MachineDoc \<Rightarrow> bool" where
  "document_valid env doc \<longleftrightarrow>
     doc_api_version doc = API_VERSION \<and> doc_kind doc = KIND_MACHINE \<and> doc_controllers doc \<noteq> [] \<and>
     (\<forall>key\<in>fst ` set (doc_controllers doc) \<union> fst ` set (doc_components doc) \<union> fst ` set (doc_workflows doc).
        valid_identifier key) \<and>
     (\<forall>(_, workflow)\<in>set (doc_workflows doc). valid_package_ref_name (workflow_package workflow)) \<and>
     (\<forall>pkg\<in>set (doc_packages doc). is_ok (package_ref_parse (pv_semver env) pkg)) \<and>
     (\<forall>(name, val)\<in>set (km_limits (doc_kinematics doc)). is_ok (limit_ok (pv_float env) name val)) \<and>
     (\<forall>(_, comp)\<in>set (doc_components doc). \<forall>(attr, val)\<in>set (co_attributes comp).
        \<forall>target. pv_as_str env val = Some target \<longrightarrow> attribute_valid doc attr target) \<and>
     (\<forall>(_, ctrl)\<in>set (doc_controllers doc). \<forall>parent. tp_parent (mc_transport ctrl) = Some parent \<longrightarrow> names_port doc parent)"

lemma header_findings_Nil:
  "header_findings doc = [] \<longleftrightarrow>
    doc_api_version doc = API_VERSION \<and> doc_kind doc = KIND_MACHINE \<and> doc_controllers doc \<noteq> []"
  by (simp add: header_findings_def)

lemma identifier_findings_Nil: "identifier_findings section_name keys = [] \<longleftrightarrow> (\<forall>key\<in>set keys. valid_identifier key)"
  by (induction keys) (simp_all add: identifier_findings_def)

lemma workflow_findings_Nil: "workflow_findings w = [] \<longleftrightarrow> valid_package_ref_name (workflow_package (snd w))"
  by (simp add: workflow_findings_def split: prod.split)

lemma package_findings_Nil: "package_findings sv p = [] \<longleftrightarrow> is_ok (package_ref_parse sv (snd p))"
  by (auto simp: package_findings_def is_ok_iff split: prod.split sum.split)

lemma limit_findings_Nil: "limit_findings fo l = [] \<longleftrightarrow> is_ok (limit_ok fo (fst l) (snd l))"
  by (auto simp: limit_findings_def is_ok_iff split: prod.split sum.split)

lemma attribute_findings_Nil:
  "attribute_findings doc as_str cname a = [] \<longleftrightarrow> (\<forall>target. as_str (snd a) = Some target \<longrightarrow> attribute_valid doc (fst a) target)"
  by (auto simp: attribute_findings_def attribute_valid_def names_port_def Let_def split: prod.split option.split)

lemma transport_findings_Nil:
  "transport_findings doc c = [] \<longleftrightarrow> (\<forall>parent. tp_parent (mc_transport (snd c)) = Some parent \<longrightarrow> names_port doc parent)"
  by (auto simp: transport_findings_def names_port_def Let_def split: prod.split option.split)

lemma enumerate_values: "(\<forall>p\<in>set (enumerate n xs). P (snd p)) \<longleftrightarrow> (\<forall>x\<in>set xs. P x)"
  by (metis (no_types, lifting) enumerate_map_upt image_iff in_set_conv_nth map_snd_enumerate set_map)

lemma validate_doc_Nil: "validate_doc env doc index = [] \<longleftrightarrow> document_valid env doc"
  by (simp add: validate_doc_def document_valid_def header_findings_Nil identifier_findings_Nil workflow_findings_Nil
      package_findings_Nil limit_findings_Nil attribute_findings_Nil transport_findings_Nil
      enumerate_values [where P = "\<lambda>pkg. is_ok (package_ref_parse (pv_semver env) pkg)"]
      bt_keys_def case_prod_unfold ball_Un conj_ac)

text \<open>Everything the validation finds is an error.\<close>

lemma locate_error [simp]: "is_error (locate index d) = is_error d"
  by (simp add: locate_def split: option.split)

lemma findings_errors:
  "list_all is_error (header_findings doc)" "list_all is_error (identifier_findings section_name keys)"
  "list_all is_error (workflow_findings w)" "list_all is_error (package_findings sv p)"
  "list_all is_error (limit_findings fo l)" "list_all is_error (attribute_findings doc as_str cname a)"
  "list_all is_error (transport_findings doc c)"
proof -
  show "list_all is_error (identifier_findings section_name keys)"
    by (induction keys) (simp_all add: identifier_findings_def)
qed (simp_all add: header_findings_def workflow_findings_def package_findings_def limit_findings_def
    attribute_findings_def transport_findings_def port_error_def Let_def split: prod.split sum.split option.split)

lemma list_all_concat: "(\<And>x. x \<in> set xs \<Longrightarrow> list_all P (f x)) \<Longrightarrow> list_all P (concat (map f xs))"
  by (induction xs) simp_all

lemma validate_doc_errors: "list_all is_error (validate_doc env doc index)"
  unfolding validate_doc_def list.pred_map
  by (simp add: comp_def findings_errors list_all_concat split: prod.split)

lemma parse_str_doc:
  "pa_doc (parse_str env source) = Some doc \<longleftrightarrow> pv_document env source = Inr doc"
  "pa_doc (parse_str env source) = Some doc \<Longrightarrow> list_ex is_error (pa_diagnostics (parse_str env source)) \<or>
    pa_diagnostics (parse_str env source) = [] \<and> document_valid env doc"
proof -
  show "pa_doc (parse_str env source) = Some doc \<longleftrightarrow> pv_document env source = Inr doc"
    by (simp add: parse_str_def parse_str_with_document_def Let_def split: sum.split prod.split)
  assume "pa_doc (parse_str env source) = Some doc"
  then have d: "pa_diagnostics (parse_str env source) = validate_doc env doc (build_with_document (pv_events env) source None)"
    by (simp add: parse_str_def parse_str_with_document_def Let_def split: sum.splits prod.splits)
  show "list_ex is_error (pa_diagnostics (parse_str env source)) \<or>
    pa_diagnostics (parse_str env source) = [] \<and> document_valid env doc"
  proof (cases "validate_doc env doc (build_with_document (pv_events env) source None)")
    case Nil
    then show ?thesis using d validate_doc_Nil [of env doc, THEN iffD1, OF Nil] by simp
  next
    case (Cons x xs)
    then show ?thesis using d validate_doc_errors [of env doc "build_with_document (pv_events env) source None"] by simp
  qed
qed

lemma parse_str_None: "pa_doc (parse_str env source) = None \<Longrightarrow> list_ex is_error (pa_diagnostics (parse_str env source))"
  by (auto simp: parse_str_def parse_str_with_document_def Let_def split: sum.splits prod.splits option.splits)

text \<open>
  Claim C8: a source is valid exactly if it has a document and the document is well formed: version, kind and at
  least one controller; valid identifiers and package references; limits that are quantities of their dimension;
  drivers and sensors that are components, and ports and transport parents on controllers that exist.
\<close>

theorem parse_valid_exact:
  "parse_is_valid (parse_str env source) \<longleftrightarrow> (\<exists>doc. pv_document env source = Inr doc \<and> document_valid env doc)"
proof (cases "pv_document env source")
  case (Inl e)
  then have "pa_doc (parse_str env source) = None"
    using parse_str_doc(1) [of env source] by (metis Inl_Inr_False not_None_eq)
  then show ?thesis using Inl by (simp add: parse_is_valid_def)
next
  case (Inr doc)
  let ?index = "build_with_document (pv_events env) source None"
  have "pa_diagnostics (parse_str env source) = validate_doc env doc ?index" "pa_doc (parse_str env source) = Some doc"
    using Inr by (simp_all add: parse_str_def parse_str_with_document_def Let_def)
  moreover have "\<not> list_ex is_error (validate_doc env doc ?index) \<longleftrightarrow> validate_doc env doc ?index = []"
    using validate_doc_errors [of env doc ?index] by (cases "validate_doc env doc ?index") auto
  ultimately show ?thesis using Inr by (simp add: parse_is_valid_def validate_doc_Nil)
qed

section \<open>From the source of a machine to its firmware\<close>

lemma valid_machine_ok:
  "document_valid env doc \<Longrightarrow> bt_inv (doc_components doc) \<Longrightarrow> machine_ok doc"
proof -
  assume v: "document_valid env doc" "bt_inv (doc_components doc)"
  have "\<forall>key\<in>fst ` set (doc_controllers doc). valid_identifier key"
    using v(1) by (simp add: document_valid_def ball_Un)
  then have "valid_identifier n" if "(n, c) \<in> set (doc_controllers doc)" for n c using that by force
  with v(2) show ?thesis by (auto simp: machine_ok_def dest: valid_identifier_no_dot)
qed

lemma resolved_document:
  assumes "ro_resolved (resolve_source (parse_str penv) env source registry) = Some g"
  obtains doc where "pv_document penv source = Inr doc" "pa_doc (parse_str penv source) = Some doc" "document_valid penv doc"
    "ro_resolved (resolve_doc env doc registry [] [Parse, SchemaValidation]) = Some g"
proof -
  obtain doc where d: "pa_doc (parse_str penv source) = Some doc" "\<not> list_ex is_error (pa_diagnostics (parse_str penv source))"
    "ro_resolved (resolve_doc env doc registry (pa_diagnostics (parse_str penv source)) [Parse, SchemaValidation]) = Some g"
    using assms by (auto simp: resolve_source_def Let_def unless_errors_def fail_def split: option.splits if_splits)
  with that parse_str_doc [of penv source doc] show thesis by auto
qed

text \<open>
  Claim C1: from the source of a machine to the firmware of its controllers: if the source resolves and the machine
  locks, the document is well formed, and for every power output the controller the output is on builds an image
  that holds a safe state for it, with the component, the state and the heartbeat timeout of its class in the
  safety profile, and a sensor resolved on that controller if the class requires one.
\<close>

theorem source_hazards:
  assumes ok: "\<And>doc. pv_document penv source = Inr doc \<Longrightarrow> bt_inv (doc_components doc)" "files_ok (en_files env)"
    and g: "ro_resolved (resolve_source (parse_str penv) env source registry) = Some g"
    and lock: "lock_machine (parse_str penv) hex sv snapshots source reg g = Inr lf"
    and a: "(c, l) \<in> set (rg_assignments g)" "a \<in> set l" "as_connector_kind a = ''power_output''"
  shows "\<exists>doc controller port built s profile policy.
      pv_document penv source = Inr doc \<and> document_valid penv doc \<and>
      split_once (CHR ''.'') (as_resource a) = Some (controller, port) \<and>
      build_controller codec lf controller = Inr built \<and>
      s \<in> set (ks_states (ci_safety (bf_image built))) \<and> kt_component s = c \<and> kt_resource s = port \<and>
      machine_profile env doc registry [] = Some profile \<and> bt_get (sp_classes profile) (kt_class s) = Some policy \<and>
      kt_state s = po_safe_state policy \<and> kt_heartbeat_timeout_us s = heartbeat_timeout_us (en_float env) policy \<and>
      (po_requires_sensor policy \<longrightarrow>
        (\<exists>sensor. kt_sensor s = Some sensor \<and> sensor \<in> set (bt_values (ci_resolved_resources (bf_image built)))))"
proof -
  obtain doc where d: "pv_document penv source = Inr doc" "pa_doc (parse_str penv source) = Some doc" "document_valid penv doc"
    "ro_resolved (resolve_doc env doc registry [] [Parse, SchemaValidation]) = Some g"
    by (rule resolved_document [OF g])
  have "machine_ok doc" by (rule valid_machine_ok [OF d(3) ok(1) [OF d(1)]])
  from built_safe_states [OF this ok(2) d(4) lock d(2) a, of codec] d(1,3) show ?thesis by blast
qed

definition demo_parser :: "(int, string, nat, nat) parser_env" where
  "demo_parser = \<lparr>pv_float = int_text_ops, pv_semver = digit_versions, pv_as_str = Some,
     pv_document = (\<lambda>_. Inr demo_pinned_doc), pv_events = (\<lambda>_. None)\<rparr>"

lemma demo_parsed: "pa_doc (parse_str demo_parser []) = Some demo_pinned_doc \<and> pa_diagnostics (parse_str demo_parser []) = []"
  by code_simp

lemma source_hazards_witness:
  "\<exists>g lf built s. ro_resolved (resolve_source (parse_str demo_parser) demo_env [] demo_source_registry) = Some g \<and>
     build_controller (demo_codec undefined) lf ''m'' = Inr built \<and>
     s \<in> set (ks_states (ci_safety (bf_image built))) \<and> kt_component s = ''h'' \<and> kt_resource s = ''o''"
proof -
  obtain g lf a where g: "ro_resolved demo_pinned_outcome = Some g" "demo_lock g = Inr lf"
    "(''h'', [a]) \<in> set (rg_assignments g)" "as_resource a = ''m.o''" "as_connector_kind a = ''power_output''"
    by (rule demo_locked_output)
  have r: "ro_resolved (resolve_source (parse_str demo_parser) demo_env [] demo_source_registry) = Some g"
    using g(1) demo_parsed
    by (simp add: resolve_source_def Let_def unless_errors_def demo_pinned_outcome_def)
  have lock: "lock_machine (parse_str demo_parser) (\<lambda>_. ''0'') digit_versions
      (\<lambda>_. Inr \<lparr>psn_files = [(''package.yaml'', [])]\<rparr>) [] demo_source_registry g = Inr lf"
    using g(2) demo_parsed by (simp add: demo_lock_def lock_machine_def)
  have ok: "bt_inv (doc_components doc)" if "pv_document demo_parser [] = Inr doc" for doc
    using that demo_machine_ok(1) by (auto simp: demo_parser_def demo_pinned_doc_def machine_ok_def)
  have port: "split_once (CHR ''.'') ''m.o'' = Some (''m'', ''o'')" by code_simp
  have a: "a \<in> set [a]" by simp
  show ?thesis
    using source_hazards [OF ok demo_machine_ok(2) r lock g(3) a g(5), of "demo_codec undefined"] g port r by auto
qed

end
