(* ===== verification/Gcode.thy ===== *)
theory Gcode
  imports Auditor Floats Rust_Text
begin

text \<open>
  \<^verbatim>\<open>crates/gcode-lowerer/src/lib.rs\<close>: slicer G-code into control commands.  The lowerer keeps the modal
  state of the language (absolute or relative coordinates, the feed rate) and the axis positions, and
  turns every coordinate into a displacement.  \<^verbatim>\<open>None\<close> is the panic of a checked build where a
  difference of positions leaves 64 bits.  Numbers are the argument \<^verbatim>\<open>fo\<close>.
\<close>

section \<open>Text\<close>

datatype LoweringError = ParseError nat string string \<comment> \<open>line number, line, reason\<close>

record LowererConfig =
  lc_default_feed_rate_um_s :: u64
  lc_hotend_name :: string
  lc_bed_name :: string

definition lowerer_config_default :: LowererConfig where
  "lowerer_config_default =
     \<lparr>lc_default_feed_rate_um_s = 10000, lc_hotend_name = ''hotend_heater'', lc_bed_name = ''bed_heater''\<rparr>"

record GcodeLowerer =
  gl_config :: LowererConfig
  gl_current_feed_rate_um_s :: u64
  gl_absolute_positioning :: bool
  gl_positions :: positions

definition lowerer_new :: "LowererConfig \<Rightarrow> GcodeLowerer" where
  "lowerer_new config =
     \<lparr>gl_config = config, gl_current_feed_rate_um_s = lc_default_feed_rate_um_s config,
      gl_absolute_positioning = True, gl_positions = bt_empty\<rparr>"

definition clean_line :: "string \<Rightarrow> string" where
  "clean_line s0 =
     (let s = trim s0 in
      case split_once (CHR '';'') s of
        Some (front, _) \<Rightarrow> trim front
      | None \<Rightarrow> (case split_once (CHR ''('') s of Some (front, _) \<Rightarrow> trim front | None \<Rightarrow> s))"

text \<open>A token is a letter (the bytes of one character) and a number; other words are skipped.\<close>

type_synonym 'f token = "string \<times> 'f"

definition token_of :: "('f, 'z) text_float_ops_scheme \<Rightarrow> string \<Rightarrow> 'f token option" where
  "token_of fo word =
     (if word = [] then None
      else map_option (\<lambda>num. (map ascii_upper (take (char_len word) word), num))
             (fo_parse fo (drop (char_len word) word)))"

definition parse_tokens :: "('f, 'z) text_float_ops_scheme \<Rightarrow> string \<Rightarrow> 'f token list" where
  "parse_tokens fo line = List.map_filter (token_of fo) (split_whitespace line)"

section \<open>Lowering\<close>

definition position :: "GcodeLowerer \<Rightarrow> string \<Rightarrow> i64" where
  "position self axis = (case bt_get (gl_positions self) axis of Some p \<Rightarrow> p | None \<Rightarrow> 0)"

definition set_position :: "string \<Rightarrow> i64 \<Rightarrow> GcodeLowerer \<Rightarrow> GcodeLowerer" where
  "set_position axis p self = self\<lparr>gl_positions := bt_insert axis p (gl_positions self)\<rparr>"

fun home_axes :: "string list \<Rightarrow> GcodeLowerer \<Rightarrow> Command list \<times> GcodeLowerer" where
  "home_axes [] self = ([], self)"
| "home_axes (axis # axes) self =
     (case home_axes axes (set_position axis 0 self) of
        (cmds, self1) \<Rightarrow> (Home axis (gl_current_feed_rate_um_s self) # cmds, self1))"

definition lower_home :: "'f token list \<Rightarrow> GcodeLowerer \<Rightarrow> Command list \<times> GcodeLowerer" where
  "lower_home params self =
     (let named = filter (\<lambda>a. a \<in> {''x'', ''y'', ''z''}) (map (\<lambda>(axis, _). map ascii_lower axis) params) in
      home_axes (if named = [] then [''x'', ''y'', ''z''] else named) self)"

text \<open>A feed of \<^verbatim>\<open>F\<close> millimetres a minute in micrometres a second.\<close>

definition feed_rate :: "('f, 'z) text_float_ops_scheme \<Rightarrow> 'f \<Rightarrow> u64" where
  "feed_rate fo val =
     of_nat (fo_trunc_u64 fo (fo_max fo
       (fo_div fo (fo_mul fo val (fo_literal fo ''1000.0'')) (fo_literal fo ''60.0'')) (fo_literal fo ''1.0'')))"

definition set_feed :: "('f, 'z) text_float_ops_scheme \<Rightarrow> 'f token list \<Rightarrow> GcodeLowerer \<Rightarrow> GcodeLowerer" where
  "set_feed fo params self =
     (case filter (\<lambda>(param, _). param = ''F'') params of
        [] \<Rightarrow> self
      | fs \<Rightarrow> self\<lparr>gl_current_feed_rate_um_s := feed_rate fo (snd (List.last fs))\<rparr>)"

text \<open>A thousandth of the unit of the text: millimetres to micrometres, degrees to millidegrees.\<close>

definition milli :: "('f, 'z) text_float_ops_scheme \<Rightarrow> 'f \<Rightarrow> i64" where
  "milli fo val = word_of_int (fo_trunc_i64 fo (fo_mul fo val (fo_literal fo ''1000.0'')))"

definition move_axis :: "string \<Rightarrow> string option" where
  "move_axis param =
     (let axis = map ascii_lower param in
      if axis \<in> {''x'', ''y'', ''z'', ''e''} then Some axis else None)"

definition checked_i64 :: "int \<Rightarrow> i64 option" where
  "checked_i64 k = map_option word_of_int (i64_fit k)"

text \<open>The displacement of one coordinate and the position it leads to.\<close>

definition displacement ::
  "('f, 'z) text_float_ops_scheme \<Rightarrow> string \<Rightarrow> 'f \<Rightarrow> GcodeLowerer \<Rightarrow> (i64 \<times> i64) option" where
  "displacement fo axis val self =
     (let target_um = milli fo val; current_um = position self axis in
      if gl_absolute_positioning self
      then map_option (\<lambda>delta_um. (delta_um, target_um)) (checked_i64 (sint target_um - sint current_um))
      else map_option (\<lambda>new_um. (target_um, new_um)) (checked_i64 (sint current_um + sint target_um)))"

fun lower_moves ::
  "('f, 'z) text_float_ops_scheme \<Rightarrow> 'f token list \<Rightarrow> GcodeLowerer \<Rightarrow> (Command list \<times> GcodeLowerer) option" where
  "lower_moves fo [] self = Some ([], self)"
| "lower_moves fo ((param, val) # params) self =
     (case move_axis param of
        None \<Rightarrow> lower_moves fo params self
      | Some axis \<Rightarrow>
          (case displacement fo axis val self of
             None \<Rightarrow> None
           | Some (delta_um, new_um) \<Rightarrow>
               map_option (\<lambda>(cmds, self1). (Move axis delta_um (gl_current_feed_rate_um_s self) # cmds, self1))
                 (lower_moves fo params (set_position axis new_um self))))"

definition lower_heater :: "('f, 'z) text_float_ops_scheme \<Rightarrow> string \<Rightarrow> 'f token list \<Rightarrow> Command list" where
  "lower_heater fo heater tokens =
     (case List.find (\<lambda>(p, _). p = ''S'') tokens of
        Some (_, val) \<Rightarrow> [SetHeaterTarget heater (milli fo val)]
      | None \<Rightarrow> [])"

fun lower_tokens ::
  "('f, 'z) text_float_ops_scheme \<Rightarrow> 'f token list \<Rightarrow> GcodeLowerer \<Rightarrow> (Command list \<times> GcodeLowerer) option" where
  "lower_tokens fo [] self = Some ([], self)"
| "lower_tokens fo ((letter, num) # params) self =
     (let n = fo_trunc_u64 fo num in
      if letter = ''G'' \<and> n = 90 then Some ([], self\<lparr>gl_absolute_positioning := True\<rparr>)
      else if letter = ''G'' \<and> n = 91 then Some ([], self\<lparr>gl_absolute_positioning := False\<rparr>)
      else if letter = ''G'' \<and> n = 28 then Some (lower_home params self)
      else if letter = ''G'' \<and> (n = 0 \<or> n = 1) then lower_moves fo params (set_feed fo params self)
      else if letter = ''M'' \<and> (n = 104 \<or> n = 109)
      then Some (lower_heater fo (lc_hotend_name (gl_config self)) ((letter, num) # params), self)
      else if letter = ''M'' \<and> (n = 140 \<or> n = 190)
      then Some (lower_heater fo (lc_bed_name (gl_config self)) ((letter, num) # params), self)
      else if letter = ''M'' \<and> n = 105 then Some ([Heartbeat], self)
      else Some ([], self))"

definition lower_line ::
  "('f, 'z) text_float_ops_scheme \<Rightarrow> string \<Rightarrow> GcodeLowerer \<Rightarrow> (Command list \<times> GcodeLowerer) option" where
  "lower_line fo raw_line self =
     (let line = clean_line raw_line in
      if line = [] then Some ([], self) else lower_tokens fo (parse_tokens fo line) self)"

fun lower_lines ::
  "('f, 'z) text_float_ops_scheme \<Rightarrow> string list \<Rightarrow> GcodeLowerer \<Rightarrow> (Command list \<times> GcodeLowerer) option" where
  "lower_lines fo [] self = Some ([], self)"
| "lower_lines fo (line # rest) self =
     Option.bind (lower_line fo line self) (\<lambda>(cmds, self1).
     map_option (\<lambda>(cmds2, self2). (cmds @ cmds2, self2)) (lower_lines fo rest self1))"

definition lower_source ::
  "('f, 'z) text_float_ops_scheme \<Rightarrow> string \<Rightarrow> GcodeLowerer \<Rightarrow>
     ((LoweringError + Command list) \<times> GcodeLowerer) option" where
  "lower_source fo gcode_text self =
     map_option (\<lambda>(commands, self1). (Inr commands, self1)) (lower_lines fo (lines gcode_text) self)"

section \<open>The lowered commands and the positions\<close>

lemma position_set [simp]: "position (set_position a p self) b = (if b = a then p else position self b)"
  by (simp add: position_def set_position_def bt_get_insert)

lemma position_other [simp]:
  "position (self\<lparr>gl_current_feed_rate_um_s := r\<rparr>) a = position self a"
  "position (self\<lparr>gl_absolute_positioning := b\<rparr>) a = position self a"
  "position (set_feed fo params self) a = position self a"
  by (simp_all add: position_def set_feed_def split: list.split)

lemma modes_kept [simp]:
  "gl_absolute_positioning (set_position a p self) = gl_absolute_positioning self"
  "gl_current_feed_rate_um_s (set_position a p self) = gl_current_feed_rate_um_s self"
  "gl_config (set_position a p self) = gl_config self"
  "gl_absolute_positioning (set_feed fo params self) = gl_absolute_positioning self"
  by (simp_all add: set_position_def set_feed_def split: list.split)

lemma checked_i64_Some_iff:
  "checked_i64 k = Some w \<longleftrightarrow> sint w = k"
proof
  assume "checked_i64 k = Some w"
  then show "sint w = k"
    using sint_word_of_int_64 [of k] by (auto simp: checked_i64_def i64_fit_def split: if_splits)
next
  assume "sint w = k"
  then show "checked_i64 k = Some w"
    using sint_ge [of w] sint_less [of w] by (auto simp: checked_i64_def i64_fit_def)
qed

lemma checked_i64_None_iff: "checked_i64 k = None \<longleftrightarrow> \<not> (i64_min \<le> k \<and> k \<le> i64_max)"
  by (simp add: checked_i64_def i64_fit_def)

text \<open>The positions of the lowerer are where the commands lead.\<close>

definition tracked :: "GcodeLowerer \<Rightarrow> Command list \<Rightarrow> GcodeLowerer \<Rightarrow> bool" where
  "tracked self cmds self1 \<longleftrightarrow>
     (\<forall>axis. sint (position self1 axis) = fold (travel axis) cmds (sint (position self axis)))"

lemma tracked_simps [simp]:
  "tracked self [] self" "tracked self [Heartbeat] self" "tracked self [] (self\<lparr>gl_absolute_positioning := b\<rparr>)"
  by (simp_all add: tracked_def)

lemma tracked_append: "tracked s cmds s1 \<Longrightarrow> tracked s1 cmds2 s2 \<Longrightarrow> tracked s (cmds @ cmds2) s2"
  by (simp add: tracked_def)

lemma tracked_home: "tracked self [Home axis r] (set_position axis 0 self)"
  by (simp add: tracked_def)

lemma tracked_move:
  assumes "sint new = sint (position self axis) + sint d"
  shows "tracked self [Move axis d r] (set_position axis new self)"
  unfolding tracked_def
proof
  fix a
  show "sint (position (set_position axis new self) a) = fold (travel a) [Move axis d r] (sint (position self a))"
    using assms sint_ge [of new] sint_less [of new] by (auto simp: min_def max_def)
qed

lemma home_axes_tracked: "home_axes axes self = (cmds, self1) \<Longrightarrow> tracked self cmds self1"
proof (induction axes self arbitrary: cmds self1 rule: home_axes.induct)
  case (2 axis axes self)
  then show ?case
    using tracked_append [OF tracked_home] by (auto split: prod.splits)
qed simp

lemma displacement_Some:
  assumes "displacement fo axis val self = Some (d, new)"
  shows "sint new = sint (position self axis) + sint d"
    and "gl_absolute_positioning self \<Longrightarrow> new = milli fo val"
  using assms by (auto simp: displacement_def Let_def checked_i64_Some_iff split: if_splits)

lemma lower_moves_tracked: "lower_moves fo params self = Some (cmds, self1) \<Longrightarrow> tracked self cmds self1"
proof (induction fo params self arbitrary: cmds self1 rule: lower_moves.induct)
  case (2 fo param val params self)
  show ?case
  proof (cases "move_axis param")
    case (Some axis)
    then obtain d new cmds2 where step: "displacement fo axis val self = Some (d, new)"
      "lower_moves fo params (set_position axis new self) = Some (cmds2, self1)"
      "cmds = Move axis d (gl_current_feed_rate_um_s self) # cmds2"
      using 2(3) by (auto split: option.splits)
    have "tracked (set_position axis new self) cmds2 self1"
      using 2(2) [OF Some step(1) refl] step(2) by blast
    then show ?thesis
      using tracked_append [OF tracked_move [OF displacement_Some(1) [OF step(1)]]] step(3) by simp
  qed (use 2 in simp)
qed simp

lemma lower_tokens_tracked: "lower_tokens fo tokens self = Some (cmds, self1) \<Longrightarrow> tracked self cmds self1"
proof (induction fo tokens self rule: lower_tokens.induct)
  case (2 fo letter num params self)
  have move: "tracked self cmds self1" if "lower_moves fo params (set_feed fo params self) = Some (cmds, self1)"
    using lower_moves_tracked [OF that] by (simp add: tracked_def)
  have heat: "tracked s (lower_heater fo h ts) s" for s h ts
    by (auto simp: lower_heater_def tracked_def split: option.split)
  show ?case
    using 2 move heat home_axes_tracked
    by (auto simp: Let_def lower_home_def split: if_splits)
qed simp

lemma lower_lines_tracked: "lower_lines fo ls self = Some (cmds, self1) \<Longrightarrow> tracked self cmds self1"
proof (induction fo ls self arbitrary: cmds self1 rule: lower_lines.induct)
  case (2 fo line rest self)
  then obtain c1 s1 c2 where "lower_line fo line self = Some (c1, s1)" "lower_lines fo rest s1 = Some (c2, self1)"
    "cmds = c1 @ c2"
    by (auto simp: bind_eq_Some_conv)
  then have "tracked self c1 s1" "tracked s1 c2 self1"
    using 2(1) [of "(c1, s1)" c1 s1 c2 self1] lower_tokens_tracked
    by (auto simp: lower_line_def Let_def split: if_splits)
  then show ?case using tracked_append \<open>cmds = c1 @ c2\<close> by blast
qed simp

section \<open>Absolute coordinates\<close>

definition targets :: "('f, 'z) text_float_ops_scheme \<Rightarrow> 'f token list \<Rightarrow> (string \<times> i64) list" where
  "targets fo params =
     List.map_filter (\<lambda>(param, val). map_option (\<lambda>axis. (axis, milli fo val)) (move_axis param)) params"

text \<open>The commands are moves to the targets, one each, from the positions \<^verbatim>\<open>start\<close>.\<close>

fun hits :: "(string \<Rightarrow> int) \<Rightarrow> u64 \<Rightarrow> (string \<times> i64) list \<Rightarrow> Command list \<Rightarrow> bool" where
  "hits start rate [] cmds \<longleftrightarrow> cmds = []"
| "hits start rate ((axis, t) # ts) cmds \<longleftrightarrow>
     (case cmds of
        Move a d r # cmds2 \<Rightarrow> a = axis \<and> r = rate \<and> start axis + sint d = sint t \<and> hits (start(axis := sint t)) rate ts cmds2
      | _ \<Rightarrow> False)"

lemma lower_moves_hit:
  assumes "gl_absolute_positioning self" "lower_moves fo params self = Some (cmds, self1)"
  shows "hits (\<lambda>a. sint (position self a)) (gl_current_feed_rate_um_s self) (targets fo params) cmds"
  using assms
proof (induction fo params self arbitrary: cmds rule: lower_moves.induct)
  case (1 fo self)
  then show ?case by (simp add: targets_def)
next
  case (2 fo param val params self)
  show ?case
  proof (cases "move_axis param")
    case (Some axis)
    then obtain d new cmds2 where step: "displacement fo axis val self = Some (d, new)"
      "lower_moves fo params (set_position axis new self) = Some (cmds2, self1)"
      "cmds = Move axis d (gl_current_feed_rate_um_s self) # cmds2"
      using 2(4) by (auto split: option.splits)
    have "(\<lambda>a. sint (position (set_position axis new self) a)) = (\<lambda>a. sint (position self a))(axis := sint new)"
      by auto
    then show ?thesis
      using 2(2) [OF Some step(1) refl _ step(2)] 2(3) step(3) displacement_Some [OF step(1)] Some
      by (simp add: targets_def map_filter_simps)
  qed (use 2 in \<open>simp add: targets_def map_filter_simps\<close>)
qed

lemma hits_nth:
  assumes "hits start rate ts cmds"
  shows "length cmds = length ts \<and> (\<forall>i<length ts. \<exists>d. cmds ! i = Move (fst (ts ! i)) d rate \<and>
    fold (travel (fst (ts ! i))) (take (Suc i) cmds) (start (fst (ts ! i))) = sint (snd (ts ! i)))"
  using assms
proof (induction start rate ts cmds rule: hits.induct)
  case (2 start rate axis t ts cmds)
  then obtain d cmds2 where c: "cmds = Move axis d rate # cmds2" "start axis + sint d = sint t"
    "hits (start(axis := sint t)) rate ts cmds2"
    by (auto split: list.splits Command.splits)
  have t: "travel a (Move axis d rate) (start a) = (start(axis := sint t)) a" for a
    using c(2) sint_ge [of t] sint_less [of t] by (auto simp: min_def max_def)
  note IH = 2(1) [OF c(1) refl c(3)]
  show ?case
  proof (intro conjI allI impI)
    show "length cmds = length ((axis, t) # ts)" using IH c(1) by simp
    fix i assume "i < length ((axis, t) # ts)"
    then show "\<exists>d. cmds ! i = Move (fst (((axis, t) # ts) ! i)) d rate \<and>
      fold (travel (fst (((axis, t) # ts) ! i))) (take (Suc i) cmds) (start (fst (((axis, t) # ts) ! i))) =
      sint (snd (((axis, t) # ts) ! i))"
      using IH c(1) t [of axis] by (cases i) (auto simp del: travel.simps simp: t)
  qed
qed simp

section \<open>Jobs that always lower\<close>

definition small :: "GcodeLowerer \<Rightarrow> bool" where
  "small self \<longleftrightarrow> gl_absolute_positioning self \<and> (\<forall>axis. \<bar>sint (position self axis)\<bar> < 2 ^ 62)"

definition small_token :: "('f, 'z) text_float_ops_scheme \<Rightarrow> 'f token \<Rightarrow> bool" where
  "small_token fo t \<longleftrightarrow>
     \<not> (fst t = ''G'' \<and> fo_trunc_u64 fo (snd t) = 91) \<and> \<bar>sint (milli fo (snd t))\<bar> < 2 ^ 62"

lemma small_set: "small self \<Longrightarrow> \<bar>sint p\<bar> < 2 ^ 62 \<Longrightarrow> small (set_position axis p self)"
  by (simp add: small_def)

lemma home_axes_small: "small self \<Longrightarrow> home_axes axes self = (cmds, self1) \<Longrightarrow> small self1"
  by (induction axes self arbitrary: cmds self1 rule: home_axes.induct)
    (auto simp: small_set split: prod.splits)

lemma lower_moves_small:
  assumes "small self" "list_all (small_token fo) params"
  shows "\<exists>cmds self1. lower_moves fo params self = Some (cmds, self1) \<and> small self1"
  using assms
proof (induction fo params self rule: lower_moves.induct)
  case (2 fo param val params self)
  show ?case
  proof (cases "move_axis param")
    case (Some axis)
    let ?t = "milli fo val" and ?p = "position self axis"
    have b: "\<bar>sint ?t\<bar> < 2 ^ 62" "\<bar>sint ?p\<bar> < 2 ^ 62" "gl_absolute_positioning self"
      using 2(3,4) by (auto simp: small_def small_token_def)
    have fit: "i64_fit (sint ?t - sint ?p) = Some (sint ?t - sint ?p)"
      using b(1,2) by (simp add: i64_fit_def abs_less_iff)
    obtain d where d: "displacement fo axis val self = Some (d, ?t)"
      using b(3) fit by (simp add: displacement_def Let_def checked_i64_def)
    show ?thesis
      using 2(2) [OF Some d refl small_set] 2(3,4) b(1) Some d by auto
  qed (use 2 in auto)
qed auto

lemma lower_tokens_small:
  assumes "small self" "list_all (small_token fo) tokens"
  shows "\<exists>cmds self1. lower_tokens fo tokens self = Some (cmds, self1) \<and> small self1"
proof (cases tokens)
  case (Cons t params)
  obtain letter num where t: "t = (letter, num)" by (cases t)
  have sf: "small (set_feed fo params self)" using assms(1) by (simp add: small_def)
  obtain c1 s1 where home: "lower_home params self = (c1, s1)" "small s1"
    using home_axes_small [OF assms(1)] by (fastforce simp: lower_home_def Let_def)
  obtain c2 s2 where move: "lower_moves fo params (set_feed fo params self) = Some (c2, s2)" "small s2"
    using lower_moves_small [OF sf, of fo params] assms(2) Cons by auto
  have "small (self\<lparr>gl_absolute_positioning := True\<rparr>)" using assms(1) by (simp add: small_def)
  then show ?thesis
    using move home assms by (auto simp: Cons t small_token_def Let_def)
qed (use assms in simp)

lemma lower_lines_small:
  assumes "small self" "list_all (\<lambda>l. list_all (small_token fo) (parse_tokens fo (clean_line l))) ls"
  shows "\<exists>cmds self1. lower_lines fo ls self = Some (cmds, self1) \<and> small self1"
  using assms
proof (induction ls arbitrary: self)
  case (Cons l ls)
  have "\<exists>c1 s1. lower_line fo l self = Some (c1, s1) \<and> small s1"
    using lower_tokens_small [of self fo "parse_tokens fo (clean_line l)"] Cons.prems
    by (simp add: lower_line_def Let_def)
  then obtain c1 s1 where "lower_line fo l self = Some (c1, s1)" "small s1" by blast
  then show ?case using Cons.IH [of s1] Cons.prems by fastforce
qed simp

section \<open>Properties\<close>

text \<open>
  Claim C36: when a job has been lowered, the positions the lowerer keeps are exactly where the commands it
  emitted lead.  For a new lowerer that is where the auditor of the job finds every axis after those commands:
  lowering and audit never disagree about a position.
\<close>
theorem lowering_tracks_positions:
  assumes "lower_source fo gcode_text self = Some (Inr cmds, self1)"
  shows "(\<forall>axis. sint (position self1 axis) = fold (travel axis) cmds (sint (position self axis))) \<and>
    (self = lowerer_new config \<longrightarrow> (\<forall>axis. place cmds axis = sint (position self1 axis)))"
  using assms lower_lines_tracked
  by (fastforce simp: lower_source_def tracked_def place_def position_def lowerer_new_def bt_empty_def)

text \<open>The error of the result type is never used: what is not understood is skipped.\<close>

lemma lowering_never_fails: "lower_source fo gcode_text self = Some (r, self1) \<Longrightarrow> \<exists>cmds. r = Inr cmds"
  by (auto simp: lower_source_def)

definition sample_job :: string where
  "sample_job = ''G1 X10;go'' @ [CHR 0x0A] @ ''G91'' @ [CHR 0x0A] @ ''G1 X-3''"

lemma sample_job_lowered:
  "lower_source int_text_ops sample_job (lowerer_new lowerer_config_default) =
     Some (Inr [Move ''x'' 10000 10000, Move ''x'' (-3000) 10000],
       (lowerer_new lowerer_config_default)\<lparr>gl_absolute_positioning := False, gl_positions := [(''x'', 7000)]\<rparr>)"
  by code_simp

theorem lowering_tracks_positions_witness:
  "\<exists>cmds self1. lower_source int_text_ops sample_job (lowerer_new lowerer_config_default) = Some (Inr cmds, self1) \<and>
     (\<forall>axis. place cmds axis = sint (position self1 axis))"
  using lowering_tracks_positions [OF sample_job_lowered, of lowerer_config_default] sample_job_lowered by auto

text \<open>
  A linear move in absolute coordinates becomes one command per named axis, in the order of
  the line, all at the feed rate the line leaves in force, and after each command its axis is exactly
  at the coordinate the line gave it.
\<close>
theorem absolute_moves_exact:
  assumes "gl_absolute_positioning self" "fo_trunc_u64 fo num = 0 \<or> fo_trunc_u64 fo num = 1"
    and "lower_tokens fo ((''G'', num) # params) self = Some (cmds, self1)"
  shows "length cmds = length (targets fo params) \<and>
    (\<forall>i<length cmds. case targets fo params ! i of (axis, t) \<Rightarrow>
       \<exists>d. cmds ! i = Move axis d (gl_current_feed_rate_um_s (set_feed fo params self)) \<and>
         fold (travel axis) (take (Suc i) cmds) (sint (position self axis)) = sint t)"
proof -
  have "lower_moves fo params (set_feed fo params self) = Some (cmds, self1)"
    using assms(2,3) by auto
  from hits_nth [OF lower_moves_hit [OF _ this]] show ?thesis
    using assms(1) by (auto split: prod.splits)
qed

theorem absolute_moves_exact_witness:
  "\<exists>cmds. map_option fst (lower_tokens int_text_ops [(''G'', 1), (''X'', 10), (''X'', 4)] (lowerer_new lowerer_config_default)) = Some cmds \<and>
     length cmds = 2"
proof -
  have "lower_tokens int_text_ops [(''G'', 1), (''X'', 10), (''X'', 4)] (lowerer_new lowerer_config_default) =
    Some ([Move ''x'' 10000 10000, Move ''x'' (-6000) 10000],
      (lowerer_new lowerer_config_default)\<lparr>gl_positions := [(''x'', 4000)]\<rparr>)"
    by code_simp
  moreover have "gl_absolute_positioning (lowerer_new lowerer_config_default)"
    "fo_trunc_u64 int_text_ops 1 = 0 \<or> fo_trunc_u64 int_text_ops 1 = 1"
    by (simp_all add: lowerer_new_def int_text_ops_def)
  ultimately show ?thesis using absolute_moves_exact [of "lowerer_new lowerer_config_default" int_text_ops 1] by fastforce
qed

text \<open>
  A job in absolute coordinates of magnitude below \<^verbatim>\<open>2 ^ 62\<close> micrometres always lowers:
  it returns commands, never an error and never an overflow.
\<close>
theorem small_jobs_lower:
  assumes "gl_absolute_positioning self" "\<forall>axis. \<bar>sint (position self axis)\<bar> < 2 ^ 62"
    and "\<forall>line\<in>set (lines gcode_text). \<forall>(letter, val)\<in>set (parse_tokens fo (clean_line line)).
      \<not> (letter = ''G'' \<and> fo_trunc_u64 fo val = 91) \<and> \<bar>sint (milli fo val)\<bar> < 2 ^ 62"
  shows "\<exists>cmds self1. lower_source fo gcode_text self = Some (Inr cmds, self1)"
  using assms lower_lines_small [of self fo "lines gcode_text"]
  by (fastforce simp: lower_source_def small_def small_token_def list_all_iff)

theorem small_jobs_lower_witness:
  "\<exists>cmds self1. lower_source int_text_ops ''G1 X10'' (lowerer_new lowerer_config_default) = Some (Inr cmds, self1)"
proof (rule small_jobs_lower)
  have "map (\<lambda>line. parse_tokens int_text_ops (clean_line line)) (lines ''G1 X10'') = [[(''G'', 1), (''X'', 10)]]"
    by code_simp
  moreover have "sint (milli int_text_ops 1) = 1000" "sint (milli int_text_ops 10) = 10000"
    "fo_trunc_u64 int_text_ops 1 = 1"
    by code_simp+
  ultimately show "\<forall>line\<in>set (lines ''G1 X10''). \<forall>(letter, val)\<in>set (parse_tokens int_text_ops (clean_line line)).
      \<not> (letter = ''G'' \<and> fo_trunc_u64 int_text_ops val = 91) \<and> \<bar>sint (milli int_text_ops val)\<bar> < 2 ^ 62"
    by auto
qed (simp_all add: lowerer_new_def position_def bt_empty_def)

text \<open>A bare axis letter has no number, is no token, and so homing one axis homes all three.\<close>

lemma bare_axis_homes_all:
  "map_option fst (lower_source int_text_ops ''G28 X'' (lowerer_new lowerer_config_default)) =
     Some (Inr [Home ''x'' 10000, Home ''y'' 10000, Home ''z'' 10000])"
  by code_simp

end
