(* ===== verification/Cli.thy ===== *)
theory Cli
  imports Executor Parser Gcode Simulator Daemon
begin

text \<open>
  \<^verbatim>\<open>crates/dryer-cli/src/main.rs\<close>: the commands as compositions of the other parts, without what they print
  for people.  The files they read, the registry they find and the writing of files are arguments.
\<close>

section \<open>Commands\<close>

text \<open>How a command ends: with an error of \<^verbatim>\<open>main\<close>, with an exit status and what it shows, or with a panic.\<close>

datatype 'a cli = CliError string | CliExit nat 'a | CliPanic

definition find_registry :: "string \<Rightarrow> (string \<Rightarrow> bool) \<Rightarrow> (string \<Rightarrow> 'ver LocalRegistry) \<Rightarrow> 'ver LocalRegistry" where
  "find_registry cwd exists load =
     load (case List.find exists (map (path_join cwd) [''packages'', ''../packages'', ''../../packages'']) of
       Some cand \<Rightarrow> cand | None \<Rightarrow> path_join cwd ''packages'')"

definition cmd_check ::
  "(string \<Rightarrow> 'v ParseOutcome) \<Rightarrow> ('f, 'ver :: linorder, 'req, 'v) environment \<Rightarrow> 'ver LocalRegistry \<Rightarrow> string + string \<Rightarrow>
     ResolveOutcome cli" where
  "cmd_check parse env registry machine_file =
     (case machine_file of
        Inl e \<Rightarrow> CliError e
      | Inr source \<Rightarrow>
          let outcome = resolve_source parse env source registry in
          CliExit (if outcome_is_ok outcome then 0 else 1) outcome)"

text \<open>
  \<^verbatim>\<open>lock\<close> shows the text it writes and the hash, or the diagnostics.  \<^verbatim>\<open>to_yaml\<close> does not panic, as generation
  ends with the validation.
\<close>

definition cmd_lock ::
  "(string \<Rightarrow> 'v ParseOutcome) \<Rightarrow> ('f, 'ver :: linorder, 'req, 'v) environment \<Rightarrow> lock_codec \<Rightarrow> (string \<Rightarrow> string + PackageSnapshot) \<Rightarrow>
     (Diagnostic list \<Rightarrow> string) \<Rightarrow> (string \<Rightarrow> string option) \<Rightarrow> 'ver LocalRegistry \<Rightarrow> string + string \<Rightarrow>
     (Diagnostic list + string \<times> string option) cli" where
  "cmd_lock parse env codec snapshots debug write registry machine_file =
     (case machine_file of
        Inl e \<Rightarrow> CliError e
      | Inr source \<Rightarrow>
          let outcome = resolve_source parse env source registry in
          if \<not> outcome_is_ok outcome then CliExit 1 (Inl (ro_diagnostics outcome))
          else
            (case ro_resolved outcome of
               None \<Rightarrow> CliPanic
             | Some resolved \<Rightarrow>
                (case lock_machine parse (lc_hex codec) (en_semver env) snapshots source registry resolved of
                   Inl errs \<Rightarrow> CliError (''lock generation diagnostics: '' @ debug errs)
                 | Inr lockfile \<Rightarrow>
                     let lock_yaml = lc_yaml codec lockfile in
                     case write lock_yaml of
                       Some e \<Rightarrow> CliError e
                     | None \<Rightarrow> CliExit 0 (Inr (lock_yaml, lock_hash codec lockfile)))))"

lemma cmd_lock_no_panic: "cmd_lock parse env codec snapshots debug write registry machine_file \<noteq> CliPanic"
  by (auto simp: cmd_lock_def outcome_is_ok_def Let_def split: sum.split option.split)

datatype package_status = PackageOk string | PackageDrift string string | PackageMissing string

definition is_mismatch :: "package_status \<Rightarrow> bool" where
  "is_mismatch status = (case status of PackageOk _ \<Rightarrow> False | _ \<Rightarrow> True)"

text \<open>The package is looked up by its name alone, and \<^verbatim>\<open>find\<close> gives the highest version.\<close>

definition verify_package ::
  "(u8 list \<Rightarrow> string) \<Rightarrow> ('ver :: linorder, 'req) semver_ops \<Rightarrow> (string \<Rightarrow> string + PackageSnapshot) \<Rightarrow>
     'ver LocalRegistry \<Rightarrow> LockedPackage \<Rightarrow> string + package_status" where
  "verify_package hex sv snapshots registry locked_pkg =
     and_then (map_err (\<lambda>e. ''invalid locked package ref '' @ quoted (kp_id locked_pkg) @ '': '' @ ref_parse_error_text e)
       (package_ref_parse sv (kp_id locked_pkg))) (\<lambda>parsed_ref.
     case registry_find (pr_namespace parsed_ref) (pr_name parsed_ref) registry of
       None \<Rightarrow> Inr (PackageMissing (kp_id locked_pkg))
     | Some loaded_pkg \<Rightarrow>
         and_then (snapshots (lp_dir loaded_pkg)) (\<lambda>snapshot.
         let disk_hash = content_hash hex snapshot in
         Inr (if disk_hash = kp_content_hash locked_pkg then PackageOk (kp_id locked_pkg)
              else PackageDrift (kp_content_hash locked_pkg) disk_hash)))"

fun verify_each :: "('a \<Rightarrow> 'e + 'b) \<Rightarrow> 'a list \<Rightarrow> 'e + 'b list" where
  "verify_each f [] = Inr []"
| "verify_each f (x # xs) = and_then (f x) (\<lambda>y. and_then (verify_each f xs) (\<lambda>ys. Inr (y # ys)))"

definition cmd_verify_lock ::
  "lock_codec \<Rightarrow> ('ver :: linorder, 'req) semver_ops \<Rightarrow> (string \<Rightarrow> string + PackageSnapshot) \<Rightarrow> 'ver LocalRegistry \<Rightarrow>
     string + string \<Rightarrow> package_status list cli" where
  "cmd_verify_lock codec sv snapshots registry lock_file =
     (case and_then lock_file (\<lambda>lock_bytes. and_then (from_yaml codec lock_bytes) (\<lambda>lockfile.
        verify_each (verify_package (lc_hex codec) sv snapshots registry) (lf_packages lockfile))) of
        Inl e \<Rightarrow> CliError e
      | Inr statuses \<Rightarrow> CliExit (if 0 < length (filter is_mismatch statuses) then 1 else 0) statuses)"

definition dummy_img :: "u8 list" where "dummy_img = as_bytes ''dummy_controller_image_bytes''"

text \<open>The plan of a dry run for an image of no meaning, written to a file and read back.\<close>

definition cmd_flash_plan ::
  "('f, 'v, 'ver :: linorder, 'req) plan_env \<Rightarrow> 'ver LocalRegistry \<Rightarrow> string \<Rightarrow> (string \<Rightarrow> string option) \<Rightarrow>
     string + DiscoveredUsbDevice list \<Rightarrow> string \<Rightarrow> string + string \<Rightarrow> FlashPlan cli" where
  "cmd_flash_plan env registry temp_dir write discovered controller lock_file =
     (let codec = pe_codec env; img_path = path_join temp_dir ''dummy_image.bin'' in
      case and_then lock_file (\<lambda>lock_bytes.
        and_then (from_yaml (lock_codec.truncate codec) lock_bytes) (\<lambda>lockfile.
        and_then (map_err build_error_text (build_plan_controller codec lockfile controller)) (\<lambda>build_plan.
        case write img_path of
          Some e \<Rightarrow> Inl e
        | None \<Rightarrow>
            let req = \<lparr>dr_controller = controller, dr_lock = lockfile, dr_build_plan = build_plan, dr_registry = registry,
                  dr_discovered_devices = (case discovered of Inl _ \<Rightarrow> [] | Inr devices \<Rightarrow> devices),
                  dr_artifact = \<lparr>as_path = img_path, as_signature = None\<rparr>, dr_expected_current_firmware = ''1.0.0''\<rparr> in
            map_err plan_error_text
              (plan_dry_run (env\<lparr>pe_files := (pe_files env)(img_path \<mapsto> FsFile None dummy_img)\<rparr>) req)))) of
        Inl e \<Rightarrow> CliError e
      | Inr plan \<Rightarrow> CliExit 0 plan)"

section \<open>Jobs\<close>

text \<open>A job is commands in JSON or G-code; None where the lowering panics.\<close>

definition load_job_commands ::
  "('f, 'z) text_float_ops_scheme \<Rightarrow> (string \<Rightarrow> Command list option) \<Rightarrow> string \<Rightarrow> (LoweringError + Command list) option" where
  "load_job_commands fo parse_json content =
     (case parse_json content of
        Some cmds \<Rightarrow> Some (Inr cmds)
      | None \<Rightarrow> map_option fst (lower_source fo content (lowerer_new lowerer_config_default)))"

definition cli_audit_limits :: AuditLimits where
  "cli_audit_limits =
     \<lparr>al_axes = bt_insert ''y'' \<lparr>min_um = 0, max_um = 200000\<rparr> (bt_insert ''x'' \<lparr>min_um = 0, max_um = 200000\<rparr> bt_empty),
      al_max_feed_rate_um_s = 50000, al_heater_ceilings_milli_c = bt_insert ''hotend_heater'' 300000 bt_empty\<rparr>"

definition cmd_audit :: "Command list \<Rightarrow> AuditReport cli" where
  "cmd_audit commands =
     (let report = audit (auditor_new cli_audit_limits) commands in CliExit (if ar_passed report then 0 else 1) report)"

definition cli_sim_controller :: "'f float_ops \<Rightarrow> 'f SimController" where
  "cli_sim_controller fo =
     controller_new fo 25000
       [\<lparr>hc_name = ''hotend_heater'', hc_gain_milli_c = 400000, hc_tau_ms = 10000, hc_safe_state = ''off'',
         hc_heartbeat_timeout = Some 5000000\<rparr>]
       [\<lparr>ac_name = ''x'', ac_start_position_um = 0\<rparr>]"

text \<open>Every command goes through its wire form; a command that does not encode panics.\<close>

fun feed_commands :: "nat \<Rightarrow> Command list \<Rightarrow> 'f SimController \<Rightarrow> (WireFrameError + 'f SimController) option" where
  "feed_commands seq [] sim = Some (Inr sim)"
| "feed_commands seq (cmd # cmds) sim =
     (case encode_command \<lparr>cf_sequence = of_nat seq + 1, cf_envelope = \<lparr>ce_execute_at = None, ce_command = cmd\<rparr>\<rparr>
        (replicate MAX_FRAME_LEN 0) of
        (Inl _, _) \<Rightarrow> None
      | (Inr len, buf) \<Rightarrow>
          (case process_wire_frame (take len buf) sim of
             (Inl e, _) \<Rightarrow> Some (Inl e)
           | (Inr _, sim1) \<Rightarrow> feed_commands (seq + 1) cmds sim1))"

definition cmd_sim :: "'f float_ops \<Rightarrow> Command list \<Rightarrow> (WireFrameError + Trace) option" where
  "cmd_sim fo commands =
     Option.bind (feed_commands 0 commands (cli_sim_controller fo)) (\<lambda>fed.
     case fed of
       Inl e \<Rightarrow> Some (Inl e)
     | Inr sim \<Rightarrow>
         map_option (\<lambda>(transport, sim1). Inr (sc_trace sim1))
           (run fo (5000 * TICKS_PER_MS) (transport_new transport_config_default) sim))"

definition cmd_daemon ::
  "lock_codec \<Rightarrow> string \<Rightarrow> string + string \<Rightarrow> (string list \<times> DaemonState \<times> ControllerSessionStatus list) cli" where
  "cmd_daemon codec controller_id lock_file =
     (case and_then lock_file (from_yaml codec) of
        Inl e \<Rightarrow> CliError e
      | Inr lockfile \<Rightarrow>
          let daemon = register_controller controller_id 50000 daemon_new in
          CliExit 0 (active_controller_ids daemon, cd_state daemon, daemon_status_summary daemon 1000))"

section \<open>Lock, then verify\<close>

lemma verify_each_Inr:
  "(\<And>x. x \<in> set xs \<Longrightarrow> f x = Inr (g x)) \<Longrightarrow> verify_each f xs = Inr (map g xs)"
  by (induction xs) simp_all

lemma parsed_identifiers:
  "package_ref_parse sv s = Inr r \<Longrightarrow> valid_identifier (pr_namespace r) \<and> valid_identifier (pr_name r)"
  by (auto simp: package_ref_parse_def and_then_Inr_iff ok_or_Inr_iff map_err_Inr_iff split: if_splits)

lemma find_version_in: "find_version ns name v registry = Some found \<Longrightarrow> found \<in> set (lr_packages registry)"
  by (auto simp: find_version_def find_Some_iff)

text \<open>
  Claim C11: a lock file that was just generated verifies: with the registry and the package directories unchanged,
  and versions in it that print to a text they parse from, every pinned package is found and its digest is the one of
  the lock, provided each pinned version is the highest of its package in the registry.
\<close>

theorem fresh_lock_verifies:
  assumes lock: "lock_machine parse (lc_hex codec) sv snapshots source registry g = Inr lf"
    and yaml: "lc_parse_yaml codec text = Inr lf"
    and sv: "\<And>p. p \<in> set (lr_packages registry) \<Longrightarrow>
      sv_parse_version sv (sv_version_text sv (pr_version (lp_reference p))) = Inr (pr_version (lp_reference p))"
    and newest: "\<And>p r found. p \<in> set (lf_packages lf) \<Longrightarrow> package_ref_parse sv (kp_id p) = Inr r \<Longrightarrow>
      find_version (pr_namespace r) (pr_name r) (pr_version r) registry = Some found \<Longrightarrow>
      registry_find (pr_namespace r) (pr_name r) registry = Some found"
  shows "cmd_verify_lock codec sv snapshots registry (Inr text) = CliExit 0 (map (\<lambda>p. PackageOk (kp_id p)) (lf_packages lf))"
proof -
  have valid: "lock_validate lf = Inr ()" and "pin_packages (lc_hex codec) sv snapshots registry g = Inr (lf_packages lf)"
    by (rule lock_machine_Inr [OF lock]; simp)+
  then obtain ps where ps: "pin_each (lc_hex codec) sv snapshots registry (rg_packages g) = Inr ps" "set (lf_packages lf) = set ps"
    by (auto simp: pin_packages_def and_then_Inr_iff) (metis set_sort)
  have "verify_package (lc_hex codec) sv snapshots registry p = Inr (PackageOk (kp_id p))" if p: "p \<in> set (lf_packages lf)" for p
  proof -
    obtain pkg r found where f: "package_ref_parse sv pkg = Inr r" "lp_reference found = r"
      "find_version (pr_namespace r) (pr_name r) (pr_version r) registry = Some found"
      "locked_package (lc_hex codec) sv snapshots found = Inr p"
      using pin_each_locked [OF ps(1)] p ps(2) by blast
    have "package_ref_parse sv (kp_id p) = Inr r"
      using reference_roundtrip [of r sv] parsed_identifiers [OF f(1)] sv [OF find_version_in [OF f(3)]]
        locked_package_id [OF f(4)] f(2)
      by simp
    then show ?thesis
      using newest [OF p _ f(3)] f(4)
      by (auto simp: verify_package_def locked_package_def Let_def and_then_Inr_iff map_err_Inr_iff)
  qed
  then have "verify_each (verify_package (lc_hex codec) sv snapshots registry) (lf_packages lf) =
      Inr (map (\<lambda>p. PackageOk (kp_id p)) (lf_packages lf))"
    by (rule verify_each_Inr)
  then show ?thesis
    by (simp add: cmd_verify_lock_def from_yaml_def yaml valid is_mismatch_def)
qed

lemma demo_single_versions:
  "list_all (\<lambda>p. registry_find (pr_namespace (lp_reference p)) (pr_name (lp_reference p)) demo_source_registry = Some p \<and>
     sv_parse_version digit_versions (sv_version_text digit_versions (pr_version (lp_reference p))) = Inr (pr_version (lp_reference p)))
   (lr_packages demo_source_registry)"
  by code_simp

lemma find_version_named:
  "find_version ns name v registry = Some found \<Longrightarrow> pr_namespace (lp_reference found) = ns \<and> pr_name (lp_reference found) = name"
  by (auto simp: find_version_def find_Some_iff named_def)

definition demo_lock_codec :: "Lockfile \<Rightarrow> lock_codec" where
  "demo_lock_codec lf = \<lparr>lc_json = (\<lambda>_. []), lc_yaml = (\<lambda>_. []), lc_parse_yaml = (\<lambda>_. Inr lf), lc_hex = (\<lambda>_. ''0'')\<rparr>"

lemma fresh_lock_verifies_witness:
  "\<exists>lf. cmd_verify_lock (demo_lock_codec lf) digit_versions (\<lambda>_. Inr \<lparr>psn_files = [(''package.yaml'', [])]\<rparr>)
     demo_source_registry (Inr []) = CliExit 0 (map PackageOk [''p/b@1'', ''p/c@1'', ''p/s@1''])"
proof -
  obtain g lf where g: "ro_resolved demo_pinned_outcome = Some g" "demo_lock g = Inr lf" by (rule demo_locked_output)
  have ids: "map kp_id (lf_packages lf) = [''p/b@1'', ''p/c@1'', ''p/s@1'']" using demo_locked g by simp
  have single: "registry_find (pr_namespace (lp_reference p)) (pr_name (lp_reference p)) demo_source_registry = Some p"
    "sv_parse_version digit_versions (sv_version_text digit_versions (pr_version (lp_reference p))) = Inr (pr_version (lp_reference p))"
    if "p \<in> set (lr_packages demo_source_registry)" for p
    using demo_single_versions that by (simp_all add: list_all_iff)
  have "cmd_verify_lock (demo_lock_codec lf) digit_versions (\<lambda>_. Inr \<lparr>psn_files = [(''package.yaml'', [])]\<rparr>)
      demo_source_registry (Inr []) = CliExit 0 (map (\<lambda>p. PackageOk (kp_id p)) (lf_packages lf))"
  proof (rule fresh_lock_verifies)
    show "lock_machine (\<lambda>_. \<lparr>pa_doc = Some demo_pinned_doc, pa_diagnostics = [], pa_spans = (\<lambda>_. None)\<rparr>)
        (lc_hex (demo_lock_codec lf)) digit_versions (\<lambda>_. Inr \<lparr>psn_files = [(''package.yaml'', [])]\<rparr>) []
        demo_source_registry g = Inr lf"
      using g(2) by (simp add: demo_lock_def demo_lock_codec_def)
    fix p r found
    assume f: "find_version (pr_namespace r) (pr_name r) (pr_version r) demo_source_registry = Some found"
    show "registry_find (pr_namespace r) (pr_name r) demo_source_registry = Some found"
      using single(1) [OF find_version_in [OF f]] find_version_named [OF f] by simp
  qed (simp_all add: demo_lock_codec_def single(2))
  also have "map (\<lambda>p. PackageOk (kp_id p)) (lf_packages lf) = map PackageOk (map kp_id (lf_packages lf))" by simp
  finally show ?thesis unfolding ids by blast
qed

text \<open>
  A lock file of a version that is not the highest does not verify though the pinned package is there: its digest is
  compared with the one of the newer version.
\<close>

definition demo_versions :: "nat LocalRegistry" where
  "demo_versions = demo_registry [(demo_package ''b'' 1 [])\<lparr>lp_dir := ''one''\<rparr>, (demo_package ''b'' 2 [])\<lparr>lp_dir := ''two''\<rparr>]"

definition demo_versions_snapshot :: "string \<Rightarrow> string + PackageSnapshot" where
  "demo_versions_snapshot dir = Inr \<lparr>psn_files = [(''package.yaml'', if dir = ''one'' then [] else [0])]\<rparr>"

lemma older_pin_reported_as_drift:
  "map_option (\<lambda>found. locked_package (\<lambda>bytes. dec_nat (length bytes)) digit_versions demo_versions_snapshot found)
     (find_version ''p'' ''b'' 1 demo_versions) =
     Some (Inr \<lparr>kp_id = ''p/b@1'', kp_manifest_hash = ''sha256:0'', kp_content_hash = ''sha256:53''\<rparr>) \<and>
   verify_package (\<lambda>bytes. dec_nat (length bytes)) digit_versions demo_versions_snapshot demo_versions
     \<lparr>kp_id = ''p/b@1'', kp_manifest_hash = ''sha256:0'', kp_content_hash = ''sha256:53''\<rparr> =
     Inr (PackageDrift ''sha256:53'' ''sha256:54'')"
  by code_simp

section \<open>How much of a job is simulated\<close>

definition is_accepted :: "Event \<Rightarrow> bool" where "is_accepted e = (case e of Accepted _ _ \<Rightarrow> True | _ \<Rightarrow> False)"

text \<open>While commands are fed no time passes: what was accepted is in the queue, which holds sixteen.\<close>

definition fed :: "'f SimController \<Rightarrow> bool" where
  "fed c \<longleftrightarrow> sc_queue_capacity c = 16 \<and> length (sc_queue c) \<le> 16 \<and>
     length (filter is_accepted (sc_trace c)) = length (sc_queue c)"

lemma fed_accept: "fed c \<Longrightarrow> fed (accept envelope c)"
  by (auto simp: fed_def accept_def reject_def push_event_def is_accepted_def Let_def split: option.splits)

lemma fed_wire: "fed c \<Longrightarrow> process_wire_frame frame c = (r, c') \<Longrightarrow> fed c'"
  by (auto simp: process_wire_frame_def Let_def fed_accept split: if_splits sum.splits prod.splits)

lemma fed_commands: "fed c \<Longrightarrow> feed_commands seq cmds c = Some (Inr c') \<Longrightarrow> fed c'"
  by (induction cmds arbitrary: seq c) (auto dest: fed_wire split: prod.splits sum.splits)

lemma sim_accepts_sixteen:
  assumes "feed_commands 0 commands (cli_sim_controller fo) = Some (Inr c)"
  shows "length (filter is_accepted (sc_trace c)) \<le> 16"
proof -
  have "fed (cli_sim_controller fo)" by (simp add: fed_def cli_sim_controller_def controller_new_def)
  from fed_commands [OF this assms] show ?thesis by (simp add: fed_def)
qed

end
