(* ===== verification/Resources.thy ===== *)
theory Resources
  imports Capability
begin

text \<open>
  \<^verbatim>\<open>crates/resource-model/src/lib.rs\<close>: the vocabulary of resources, and the constraints that the attributes
  and the ownership of an offer decide.  The resolver uses the identifiers only.
\<close>

datatype ResourceKind =
    GpioInput | GpioOutput | GpioAlternate | AdcChannel | PwmChannel | ResourceTimer | TimerChannel | ResourceDmaChannel
  | SpiBus | I2cBus | Uart | Can | UsbEndpoint | InterruptLine | MemoryRegion | FlashRegion | ClockSource | PowerOutput
  | VoltageDomain | ResourceConnector

datatype Exclusivity = Exclusive | Shared u32

datatype 'f Constraint =
    Equality string string
  | Membership string "string list"
  | VoltageRange 'f 'f
  | CurrentAtLeast 'f
  | FrequencyRange 'f 'f
  | TimerCoupling string
  | DmaRoute string
  | ConnectorOccupancy string
  | LatencyBudgetNs u64
  | JitterBudgetNs u64
  | MemoryBudget u64
  | Ownership Exclusivity

record Preference =
  pf_weight :: "32 word"
  pf_description :: string

record 'f ResourceRequirement =
  rr_requested_by :: string
  rr_kind :: ResourceKind
  rr_constraints :: "'f Constraint list"
  rr_preferred :: "Preference list"

record ResourceOffer =
  ro_id :: ResourceId
  ro_kind :: ResourceKind
  ro_exclusivity :: Exclusivity
  ro_attributes :: "(string \<times> string) list"

definition offer_attribute :: "ResourceOffer \<Rightarrow> string \<Rightarrow> string option" where
  "offer_attribute self key = map_option snd (List.find (\<lambda>(k, _). k = key) (ro_attributes self))"

fun satisfies_locally :: "ResourceOffer \<Rightarrow> 'f Constraint \<Rightarrow> bool option" where
  "satisfies_locally self (Equality key val) = Some (offer_attribute self key = Some val)"
| "satisfies_locally self (Membership key values) =
     Some (case offer_attribute self key of None \<Rightarrow> False | Some v \<Rightarrow> v \<in> set values)"
| "satisfies_locally self (Ownership mode) =
     Some (case (mode, ro_exclusivity self) of
         (Exclusive, Exclusive) \<Rightarrow> True
       | (Exclusive, Shared _) \<Rightarrow> False
       | (Shared _, _) \<Rightarrow> True)"
| "satisfies_locally self _ = None"

lemma offer_attribute_map_of: "offer_attribute self key = map_of (ro_attributes self) key"
proof -
  have "map_option snd (List.find (\<lambda>(k, _). k = key) kvs) = map_of kvs key" for kvs :: "(string \<times> string) list"
    by (induction kvs) auto
  then show ?thesis by (simp add: offer_attribute_def)
qed

text \<open>An equality is a membership in one value, and offers that agree on attributes and mode are not told apart.\<close>

lemma equality_membership: "satisfies_locally self (Equality key val) = satisfies_locally self (Membership key [val])"
  by (auto split: option.split)

lemma satisfies_locally_cong:
  assumes "map_of (ro_attributes a) = map_of (ro_attributes b)" "ro_exclusivity a = ro_exclusivity b"
  shows "satisfies_locally a c = satisfies_locally b c"
  using assms by (cases c) (simp_all add: offer_attribute_map_of)

text \<open>An exclusive requirement is met by exclusive offers only; more values never lose a membership.\<close>

lemma exclusive_offers: "satisfies_locally self (Ownership Exclusive) = Some True \<longleftrightarrow> ro_exclusivity self = Exclusive"
  by (cases "ro_exclusivity self") auto

lemma membership_mono:
  "set values \<subseteq> set values' \<Longrightarrow> satisfies_locally self (Membership key values) = Some True \<Longrightarrow>
    satisfies_locally self (Membership key values') = Some True"
  by (auto split: option.splits)

end
