(* ===== verification/Moves.thy ===== *)
theory Moves
  imports Simulator
begin

text \<open>
  Moves of an axis in \<^verbatim>\<open>simulator/src/lib.rs\<close>, from the queued command to where the axis is after a whole run: the
  commands an axis gets, what a step does to it, and the induction over the steps of \<^verbatim>\<open>run\<close>.
\<close>

section \<open>An axis over several steps\<close>

fun axis_run :: "nat \<Rightarrow> Tick \<Rightarrow> AxisState \<Rightarrow> AxisState option" where
  "axis_run 0 now a = Some a"
| "axis_run (Suc n) now a = Option.bind (axis_step now a) (\<lambda>(a1, _). axis_run n now a1)"

lemma axis_run_idle: "ax_motion a = None \<Longrightarrow> axis_run n now a = Some a"
  by (induction n) (simp_all add: axis_step_def)

definition moved :: "int \<Rightarrow> int \<Rightarrow> nat \<Rightarrow> int" where
  "moved v d n = (if \<bar>d\<bar> \<le> int n * \<bar>v\<bar> then d else int n * v)"

definition i64_ok :: "int \<Rightarrow> bool" where
  "i64_ok k \<longleftrightarrow> i64_min < k \<and> k \<le> i64_max"

lemma i64_fit_ok: "i64_ok k \<Longrightarrow> i64_fit k = Some k"
  by (simp add: i64_fit_def i64_ok_def)

lemma div_1000_le: "0 \<le> x \<Longrightarrow> x div 1000 \<le> x" for x :: int
  using mult_div_mod_eq [of 1000 x] pos_mod_sign [of 1000 x] pos_imp_zdiv_nonneg_iff [of 1000 x] by linarith

lemma move_step_signs:
  fixes v d :: int
  assumes "v \<noteq> 0 \<longrightarrow> sgn v = sgn d" "\<bar>v\<bar> < \<bar>d\<bar>"
  shows "\<bar>d - v\<bar> = \<bar>d\<bar> - \<bar>v\<bar>" "v \<noteq> 0 \<longrightarrow> sgn v = sgn (d - v)" "d - v \<noteq> 0"
proof -
  have c: "v = 0 \<or> 0 < v \<and> 0 < d \<or> v < 0 \<and> d < 0"
    using assms(1) by (cases "v = 0"; cases "0 < v"; cases "0 < d"; cases "d = 0") (simp_all add: sgn_if)
  show "\<bar>d - v\<bar> = \<bar>d\<bar> - \<bar>v\<bar>" using c assms(2) by (elim disjE conjE) simp_all
  show "v \<noteq> 0 \<longrightarrow> sgn v = sgn (d - v)" using c assms(2) by (elim disjE conjE) simp_all
  show "d - v \<noteq> 0" using c assms(2) by (elim disjE conjE) simp_all
qed

lemma axis_run_move:
  assumes "v \<noteq> 0 \<longrightarrow> sgn v = sgn d" "i64_ok p" "i64_ok (p + d)" "i64_ok d" "i64_ok v"
  shows "\<exists>a'. axis_run n now (a\<lparr>ax_position_um := p, ax_motion := Some
      \<lparr>mo_what = w, mo_per_ms_um = v, mo_remaining_um = d, mo_homing = False\<rparr>\<rparr>) = Some a' \<and>
    ax_position_um a' = p + (if n = 0 then 0 else moved v d n) \<and>
    (ax_motion a' = None \<longleftrightarrow> 1 \<le> n \<and> \<bar>d\<bar> \<le> int n * \<bar>v\<bar>)"
  using assms
proof (induction n arbitrary: p d)
  case (Suc n)
  let ?m = "\<lambda>r. \<lparr>mo_what = w, mo_per_ms_um = v, mo_remaining_um = r, mo_homing = False\<rparr>"
  have abs: "i64_fit \<bar>v\<bar> = Some \<bar>v\<bar>" "i64_fit \<bar>d\<bar> = Some \<bar>d\<bar>"
    using Suc.prems(4,5) by (auto simp: i64_fit_def i64_ok_def abs_if)
  show ?case
  proof (cases "\<bar>d\<bar> \<le> \<bar>v\<bar>")
    case True
    have "axis_step now (a\<lparr>ax_position_um := p, ax_motion := Some (?m d)\<rparr>) =
        Some (a\<lparr>ax_position_um := p + d, ax_motion := None\<rparr>, [Executed now w])"
      using True abs i64_fit_ok [OF Suc.prems(3)] by (simp add: axis_step_def i64_fit_def)
    moreover have "\<bar>d\<bar> \<le> int (Suc n) * \<bar>v\<bar>"
      using True by (simp add: distrib_right add_increasing2)
    ultimately show ?thesis by (simp add: axis_run_idle moved_def)
  next
    case False
    then have lt: "\<bar>v\<bar> < \<bar>d\<bar>" by simp
    note sg = move_step_signs [OF Suc.prems(1) lt]
    have ok: "i64_ok (p + v)" "i64_ok (d - v)"
      using Suc.prems(1-4) lt by (auto simp: i64_ok_def sgn_if split: if_splits)
    have end_ok: "i64_ok (p + v + (d - v))" using Suc.prems(3) by simp
    have st: "axis_step now (a\<lparr>ax_position_um := p, ax_motion := Some (?m d)\<rparr>) =
        Some (a\<lparr>ax_position_um := p + v, ax_motion := Some (?m (d - v))\<rparr>, [])"
      using False abs i64_fit_ok [OF ok(1)] i64_fit_ok [OF ok(2)] sg(3) by (simp add: axis_step_def)
    obtain a' where a': "axis_run n now (a\<lparr>ax_position_um := p + v, ax_motion := Some (?m (d - v))\<rparr>) = Some a'"
      "ax_position_um a' = p + v + (if n = 0 then 0 else moved v (d - v) n)"
      "ax_motion a' = None \<longleftrightarrow> 1 \<le> n \<and> \<bar>d - v\<bar> \<le> int n * \<bar>v\<bar>"
      using Suc.IH [OF sg(2) ok(1) end_ok ok(2) Suc.prems(5)] by (elim exE conjE) (rule that; assumption)
    have eq: "\<bar>d - v\<bar> \<le> int n * \<bar>v\<bar> \<longleftrightarrow> \<bar>d\<bar> \<le> int (Suc n) * \<bar>v\<bar>"
      using sg(1) by (simp add: distrib_right) linarith
    have one: "\<not> \<bar>d\<bar> \<le> int (Suc n) * \<bar>v\<bar>" if "n = 0" using lt that by simp
    have "p + v + (if n = 0 then 0 else moved v (d - v) n) = p + moved v d (Suc n)"
    proof (cases "n = 0")
      case True
      then show ?thesis using one by (simp add: moved_def)
    next
      case False
      then show ?thesis unfolding moved_def eq by (simp add: distrib_right)
    qed
    moreover have "1 \<le> n \<and> \<bar>d - v\<bar> \<le> int n * \<bar>v\<bar> \<longleftrightarrow> 1 \<le> Suc n \<and> \<bar>d\<bar> \<le> int (Suc n) * \<bar>v\<bar>"
      using one unfolding eq by (cases "n = 0") simp_all
    ultimately show ?thesis using st a' by (intro exI [of _ a']) simp
  qed
qed simp

lemma find_update_first:
  assumes "List.find P xs = Some x" "P (g x)"
  shows "List.find P (update_first P g xs) = Some (g x)"
  using assms by (induction xs) (auto split: if_splits)

section \<open>An axis over a run\<close>

definition moves :: "string \<Rightarrow> Command \<Rightarrow> bool" where
  "moves axis cmd = (case cmd of Home a _ \<Rightarrow> a = axis | Move a _ _ \<Rightarrow> a = axis | _ \<Rightarrow> False)"

definition queued_for :: "string \<Rightarrow> QueuedCommand list \<Rightarrow> QueuedCommand list" where
  "queued_for axis q = filter (\<lambda>x. moves axis (qc_command x)) q"

definition find_axis :: "string \<Rightarrow> 'f SimController \<Rightarrow> AxisState option" where
  "find_axis axis c = List.find (\<lambda>a. ac_name (ax_cfg a) = axis) (sc_axes c)"

definition none_in_flight :: "string \<Rightarrow> SimTransport \<Rightarrow> bool" where
  "none_in_flight axis tr \<longleftrightarrow> list_all (\<lambda>(_, m). \<not> moves axis (ce_command m)) (tp_in_flight tr)"

definition steps_from :: "Tick \<Rightarrow> Tick \<Rightarrow> Tick \<Rightarrow> nat" where
  "steps_from t now now' =
     length (filter (\<lambda>i. unat t \<le> unat now + i * 1000) [1..<Suc ((unat now' - unat now) div 1000)])"

lemma queued_for_simps [simp]:
  "queued_for axis [] = []"
  "queued_for axis (x # q) = (if moves axis (qc_command x) then x # queued_for axis q else queued_for axis q)"
  by (simp_all add: queued_for_def)

lemma queued_for_insert: "\<not> moves axis (qc_command x) \<Longrightarrow> queued_for axis (insert_queued x q) = queued_for axis q"
  by (induction q) auto

lemma queued_for_accept:
  "\<not> moves axis (ce_command m) \<Longrightarrow> queued_for axis (sc_queue (accept m c)) = queued_for axis (sc_queue c)"
  by (auto simp: accept_def reject_def push_event_def Let_def queued_for_insert split: option.split)

lemma queued_for_fold_accept:
  "list_all (\<lambda>m. \<not> moves axis (ce_command m)) ms \<Longrightarrow>
     queued_for axis (sc_queue (fold accept ms c)) = queued_for axis (sc_queue c)"
  by (induction ms arbitrary: c) (simp_all add: queued_for_accept)

lemma deliver_none:
  assumes "deliver_due now tr = (cmds, tr')" "none_in_flight axis tr"
  shows "none_in_flight axis tr'" "list_all (\<lambda>m. \<not> moves axis (ce_command m)) cmds"
  using assms by (fastforce simp: deliver_due_def none_in_flight_def list_all_iff Let_def)+

lemma find_update_other:
  assumes "b \<noteq> axis" "\<And>a. ac_name (ax_cfg (g a)) = ac_name (ax_cfg a)"
  shows "List.find (\<lambda>a. ac_name (ax_cfg a) = axis) (update_first (\<lambda>a. ac_name (ax_cfg a) = b) g xs) =
    List.find (\<lambda>a. ac_name (ax_cfg a) = axis) xs"
  using assms by (induction xs) auto

lemma start_other: "start_command cmd c = Some c' \<Longrightarrow> \<not> moves axis cmd \<Longrightarrow> find_axis axis c' = find_axis axis c"
  by (cases cmd) (auto simp: find_axis_def moves_def push_event_def Let_def find_update_other split: if_splits)

lemma start_loop_other:
  "start_loop q c = Some c' \<Longrightarrow> queued_for axis q = [] \<Longrightarrow>
     find_axis axis c' = find_axis axis c \<and> queued_for axis (sc_queue c') = []"
proof (induction q arbitrary: c)
  case (Cons x q)
  then show ?case using start_other [of "qc_command x" _ _ axis]
    by (fastforce simp: bind_eq_Some_conv find_axis_def split: if_splits)
qed (auto simp: find_axis_def)

text \<open>The motion a command for a move gives its axis.\<close>

definition with_move :: "string \<Rightarrow> int \<Rightarrow> int \<Rightarrow> AxisState \<Rightarrow> AxisState" where
  "with_move axis d r a = a\<lparr>ax_motion := Some
     \<lparr>mo_what = ''move '' @ axis @ '' '' @ dec_int d @ '' um'', mo_per_ms_um = sgn d * (r div 1000),
      mo_remaining_um = d, mo_homing = False\<rparr>\<rparr>"

lemma start_move:
  assumes "start_command (Move axis d r) c = Some c'" "find_axis axis c = Some a" "0 \<le> sint r"
  shows "find_axis axis c' = Some (with_move axis (sint d) (sint r) a)"
proof -
  have ex: "list_ex (\<lambda>a. ac_name (ax_cfg a) = axis) (sc_axes c)"
    using assms(2) by (auto simp: find_axis_def find_Some_iff list_ex_iff)
  have fit: "i64_fit (sgn (sint d) * sint r) = Some (sgn (sint d) * sint r)"
    using assms(3) sint_less [of r] by (auto simp: i64_fit_def sgn_if)
  have sd: "(sgn (sint d) * sint r) sdiv 1000 = sgn (sint d) * (sint r div 1000)"
    using assms(3) by (auto simp: signed_divide_int_def sgn_if)
  have "ac_name (ax_cfg a) = axis" using assms(2) by (auto simp: find_axis_def find_Some_iff)
  moreover have "sc_axes c' = update_first (\<lambda>a. ac_name (ax_cfg a) = axis) (with_move axis (sint d) (sint r)) (sc_axes c)"
    using assms(1) ex fit sd by (auto simp: with_move_def [abs_def])
  ultimately show ?thesis
    using find_update_first [of "\<lambda>a. ac_name (ax_cfg a) = axis" "sc_axes c" a "with_move axis (sint d) (sint r)"]
      assms(2) by (simp add: find_axis_def with_move_def)
qed

lemma start_loop_move:
  assumes "start_loop q c = Some c'" "queued_for axis q = [\<lparr>qc_execute_at = t, qc_command = Move axis d r\<rparr>]"
    and "find_axis axis c = Some a" "0 \<le> sint r" "queue_sorted q"
  shows "if t \<le> sc_now c then find_axis axis c' = Some (with_move axis (sint d) (sint r) a) \<and> queued_for axis (sc_queue c') = []
    else find_axis axis c' = Some a \<and> queued_for axis (sc_queue c') = queued_for axis q"
  using assms(1-3,5)
proof (induction q arbitrary: c)
  case (Cons x q)
  show ?case
  proof (cases "qc_execute_at x \<le> sc_now c")
    case True
    then obtain c1 where c1: "start_command (qc_command x) (c\<lparr>sc_queue := q\<rparr>) = Some c1" "start_loop q c1 = Some c'"
      using Cons.prems(1) by (auto simp: bind_eq_Some_conv)
    have now: "sc_now c1 = sc_now c" using start_command_fields [OF c1(1)] by simp
    have sorted: "queue_sorted q" using Cons.prems(4) by (simp add: queue_sorted_def)
    have a: "find_axis axis (c\<lparr>sc_queue := q\<rparr>) = Some a" using Cons.prems(3) by (simp add: find_axis_def)
    show ?thesis
    proof (cases "moves axis (qc_command x)")
      case m: True
      then have x: "x = \<lparr>qc_execute_at = t, qc_command = Move axis d r\<rparr>" "queued_for axis q = []" using Cons.prems(2) by simp_all
      have "find_axis axis c1 = Some (with_move axis (sint d) (sint r) a)"
        using start_move [OF _ a assms(4), of d c1] c1(1) by (simp add: x)
      then show ?thesis using start_loop_other [OF c1(2) x(2)] True by (simp add: x)
    next
      case False
      then have "queued_for axis q = [\<lparr>qc_execute_at = t, qc_command = Move axis d r\<rparr>]" "find_axis axis c1 = Some a"
        using Cons.prems(2) start_other [OF c1(1) False] a by simp_all
      from Cons.IH [OF c1(2) this sorted] show ?thesis using False by (simp add: now)
    qed
  next
    case False
    have "\<lparr>qc_execute_at = t, qc_command = Move axis d r\<rparr> \<in> set (x # q)"
      proof -
      have "\<lparr>qc_execute_at = t, qc_command = Move axis d r\<rparr> \<in> set (queued_for axis (x # q))" using Cons.prems(2) by simp
      then show ?thesis unfolding queued_for_def by (simp only: set_filter mem_Collect_eq)
    qed
    then have "qc_execute_at x \<le> t" using Cons.prems(4) by (auto simp: queue_sorted_def)
    then have "\<not> t \<le> sc_now c" using False by simp
    then show ?thesis using Cons.prems False by (auto simp: find_axis_def)
  qed
qed simp

lemma axis_step_now: "map_option fst (axis_step now a) = map_option fst (axis_step now' a)"
  by (simp add: axis_step_def Let_def option.map_comp comp_def if_distrib [of fst] cong: if_cong
      split: option.split Option.bind_split)

lemma axis_step_cfg: "axis_step now a = Some (a1, es) \<Longrightarrow> ax_cfg a1 = ax_cfg a"
  by (auto simp: axis_step_def Let_def bind_eq_Some_conv split: option.splits if_splits)

lemma axis_run_Suc: "axis_run (Suc n) now a = Option.bind (map_option fst (axis_step now a)) (axis_run n now)"
  by (cases "axis_step now a") auto

lemma axis_run_now: "axis_run n now a = axis_run n now' a"
proof (induction n arbitrary: a)
  case (Suc n)
  have "axis_run n now = axis_run n now'" using Suc by blast
  then show ?case unfolding axis_run_Suc axis_step_now [of now a now'] by simp
qed simp

lemma axes_step_find:
  "axes_step now as = Some (as', es) \<Longrightarrow> List.find (\<lambda>a. ac_name (ax_cfg a) = axis) as = Some a \<Longrightarrow>
     \<exists>a1 es1. axis_step now a = Some (a1, es1) \<and> List.find (\<lambda>a. ac_name (ax_cfg a) = axis) as' = Some a1"
proof (induction as arbitrary: as' es)
  case (Cons b as)
  then show ?case using axis_step_cfg [of now b] by (fastforce simp: bind_eq_Some_conv split: if_splits)
qed simp

lemma axis_run_one:
  assumes "axis_step now1 a = Some (a1, es)"
  shows "axis_run 1 now a = Some a1"
proof -
  have "axis_run 1 now1 a = Some a1" using assms by simp
  then show ?thesis by (simp only: axis_run_now [of 1 now1 a now])
qed

text \<open>One step and a whole run, for an axis that no command is on the way to.\<close>

lemma run_step_quiet:
  assumes "run_step fo tr c = Some (tr', c')" "queued_for axis (sc_queue c) = []" "none_in_flight axis tr"
    and "find_axis axis c = Some a"
  shows "queued_for axis (sc_queue c') = [] \<and> none_in_flight axis tr' \<and>
    (\<exists>a1. axis_run 1 now a = Some a1 \<and> find_axis axis c' = Some a1)"
  using assms(1)
proof (cases rule: run_stepE)
  case (1 now1 cmds c1 axes events)
  note quiet = deliver_none [OF 1(2) assms(3)]
  have q: "queued_for axis (sc_queue (fold accept cmds (c\<lparr>sc_now := now1\<rparr>))) = []"
    unfolding queued_for_fold_accept [OF quiet(2)] using assms(2) by simp
  note s = start_loop_other [OF 1(3) [unfolded start_due_def] q]
  have "find_axis axis c1 = Some a" using s assms(4) by (simp add: find_axis_def)
  then obtain a1 es1 where "axis_step now1 a = Some (a1, es1)" "find_axis axis c' = Some a1"
    using axes_step_find [OF 1(4), of axis a] by (auto simp: find_axis_def 1(7))
  then show ?thesis using s quiet(1) axis_run_one by (metis 1(6))
qed

lemma run_step_move:
  assumes "run_step fo tr c = Some (tr', c')" "none_in_flight axis tr" "queue_ok c"
    and "queued_for axis (sc_queue c) = [\<lparr>qc_execute_at = t, qc_command = Move axis d r\<rparr>]"
    and "find_axis axis c = Some a" "ax_motion a = None" "0 \<le> sint r"
  shows "none_in_flight axis tr' \<and>
    (if t \<le> sc_now c'
     then queued_for axis (sc_queue c') = [] \<and>
       (\<exists>a1. axis_run 1 now (with_move axis (sint d) (sint r) a) = Some a1 \<and> find_axis axis c' = Some a1)
     else queued_for axis (sc_queue c') = queued_for axis (sc_queue c) \<and> find_axis axis c' = Some a)"
  using assms(1)
proof (cases rule: run_stepE)
  case (1 now1 cmds c1 axes events)
  let ?c0 = "fold accept cmds (c\<lparr>sc_now := now1\<rparr>)"
  note quiet = deliver_none [OF 1(2) assms(2)]
  have q: "queued_for axis (sc_queue ?c0) = [\<lparr>qc_execute_at = t, qc_command = Move axis d r\<rparr>]"
    unfolding queued_for_fold_accept [OF quiet(2)] using assms(4) by simp
  have "queue_ok (c\<lparr>sc_now := now1\<rparr>)" using assms(3) by (simp add: queue_ok_def)
  from queue_ok_fold_accept [OF this, of cmds] have srt: "queue_sorted (sc_queue ?c0)" by (simp add: queue_ok_def)
  have "find_axis axis ?c0 = Some a" using assms(5) by (simp add: find_axis_def)
  note s = start_loop_move [OF 1(3) [unfolded start_due_def] q this assms(7) srt]
  have step: "\<exists>a1 es. axis_step now1 b = Some (a1, es) \<and> find_axis axis c' = Some a1" if "find_axis axis c1 = Some b" for b
    using axes_step_find [OF 1(4), of axis b] that by (auto simp: find_axis_def 1(7))
  show ?thesis
  proof (cases "t \<le> now1")
    case True
    then obtain a1 es where "axis_step now1 (with_move axis (sint d) (sint r) a) = Some (a1, es)" "find_axis axis c' = Some a1"
      using s step by auto
    then show ?thesis using s quiet(1) True axis_run_one by (simp add: 1(5,6) del: axis_run.simps)
  next
    case False
    then have "find_axis axis c1 = Some a" using s by simp
    moreover have "axis_step now1 a = Some (a, [])" using assms(6) by (simp add: axis_step_def)
    ultimately show ?thesis using step [of a] s False quiet(1) q assms(4) by (auto simp: 1(5,6))
  qed
qed

lemma run_unfold:
  assumes "run fo until tr c = Some (tr', c')" "sc_now c < until"
  obtains tr1 c1 where "run_step fo tr c = Some (tr1, c1)" "run fo until tr1 c1 = Some (tr', c')"
  using assms by (auto simp: run.simps [of fo until tr c] split: option.splits)

lemma run_stop: "\<not> sc_now c < until \<Longrightarrow> run fo until tr c = Some (tr', c') \<longleftrightarrow> tr' = tr \<and> c' = c"
  by (auto simp: run.simps [of fo until tr c])

lemma axis_run_add: "axis_run (m + n) now a = Option.bind (axis_run m now a) (axis_run n now)"
  by (induction m arbitrary: a) (simp_all add: split_beta cong: bind_option_cong_simp)

lemma run_steps: "run fo until tr c = Some (tr', c') \<Longrightarrow>
  \<exists>n. unat (sc_now c') = unat (sc_now c) + n * 1000"
proof (induction fo until tr c rule: run.induct)
  case (1 fo until tr c)
  show ?case
  proof (cases "sc_now c < until")
    case True
    obtain tr1 c1 where s: "run_step fo tr c = Some (tr1, c1)" "run fo until tr1 c1 = Some (tr', c')"
      by (rule run_unfold [OF 1(2) True])
    obtain n where "unat (sc_now c') = unat (sc_now c1) + n * 1000" using 1(1) [OF True s(1) refl s(2)] by blast
    then show ?thesis using run_step_now [OF s(1)] by (intro exI [of _ "Suc n"]) simp
  qed (use 1(2) in \<open>auto simp: run_stop\<close>)
qed

lemma steps_from_step:
  assumes "unat now1 = unat now + 1000" "unat now' = unat now1 + n * 1000"
  shows "steps_from t now now' = (if t \<le> now1 then Suc n else steps_from t now1 now')"
proof -
  have n: "(unat now' - unat now) div 1000 = Suc n" "(unat now' - unat now1) div 1000 = n"
    using assms by simp_all
  have shift: "[Suc 1..<Suc (Suc n)] = map Suc [1..<Suc n]" by (simp only: map_Suc_upt)
  have "(1::nat) < Suc (Suc n)" by simp
  from upt_conv_Cons [OF this] have u: "[1..<Suc (Suc n)] = 1 # map Suc [1..<Suc n]" unfolding shift .
  show ?thesis
  proof (cases "t \<le> now1")
    case True
    then have "unat t \<le> unat now + i * 1000" if "1 \<le> i" for i
      using that assms(1) by (simp add: word_le_nat_alt)
    then have "filter (\<lambda>i. unat t \<le> unat now + i * 1000) [1..<Suc (Suc n)] = [1..<Suc (Suc n)]"
      by (intro filter_True ballI) (simp del: upt_Suc)
    then show ?thesis using True by (simp only: steps_from_def n if_True length_upt)
  next
    case False
    then have "\<not> unat t \<le> unat now + 1 * 1000" using assms(1) by (simp add: word_le_nat_alt)
    moreover have "unat t \<le> unat now + Suc i * 1000 \<longleftrightarrow> unat t \<le> unat now1 + i * 1000" for i
      using assms(1) by (simp add: add.assoc)
    ultimately show ?thesis
      using False unfolding steps_from_def n u by (simp only: filter.simps filter_map comp_def length_map if_False)
  qed
qed

lemma steps_from_same: "steps_from t now now = 0" by (simp add: steps_from_def)

lemma run_quiet:
  "run fo until tr c = Some (tr', c') \<Longrightarrow> queued_for axis (sc_queue c) = [] \<Longrightarrow> none_in_flight axis tr \<Longrightarrow>
     find_axis axis c = Some a \<Longrightarrow> unat (sc_now c') = unat (sc_now c) + n * 1000 \<Longrightarrow>
     axis_run n now a = find_axis axis c' \<and> find_axis axis c' \<noteq> None"
proof (induction fo until tr c arbitrary: a n rule: run.induct)
  case (1 fo until tr c)
  show ?case
  proof (cases "sc_now c < until")
    case True
    obtain tr1 c1 where s: "run_step fo tr c = Some (tr1, c1)" "run fo until tr1 c1 = Some (tr', c')"
      by (rule run_unfold [OF 1(2) True])
    obtain a1 where a1: "queued_for axis (sc_queue c1) = []" "none_in_flight axis tr1" "axis_run 1 now a = Some a1"
      "find_axis axis c1 = Some a1"
      using run_step_quiet [OF s(1) 1(3-5)] by blast
    obtain m where m: "unat (sc_now c') = unat (sc_now c1) + m * 1000" using run_steps [OF s(2)] by blast
    then have n: "n = Suc m" using 1(6) run_step_now [OF s(1)] by simp
    have "axis_run (1 + m) now a = axis_run m now a1" unfolding axis_run_add using a1(3) by simp
    then show ?thesis using 1(1) [OF True s(1) refl s(2) a1(1,2,4) m] n by simp
  qed (use 1(2-) in \<open>auto simp: run_stop\<close>)
qed

lemma run_move:
  "run fo until tr c = Some (tr', c') \<Longrightarrow> none_in_flight axis tr \<Longrightarrow> queue_ok c \<Longrightarrow>
     queued_for axis (sc_queue c) = [\<lparr>qc_execute_at = t, qc_command = Move axis d r\<rparr>] \<Longrightarrow>
     find_axis axis c = Some a \<Longrightarrow> ax_motion a = None \<Longrightarrow> 0 \<le> sint r \<Longrightarrow>
     \<exists>a'. find_axis axis c' = Some a' \<and> (case steps_from t (sc_now c) (sc_now c') of
         0 \<Rightarrow> a' = a | Suc n \<Rightarrow> axis_run (Suc n) now (with_move axis (sint d) (sint r) a) = Some a')"
proof (induction fo until tr c rule: run.induct)
  case (1 fo until tr c)
  show ?case
  proof (cases "sc_now c < until")
    case True
    obtain tr1 c1 where s: "run_step fo tr c = Some (tr1, c1)" "run fo until tr1 c1 = Some (tr', c')"
      by (rule run_unfold [OF 1(2) True])
    obtain m where m: "unat (sc_now c') = unat (sc_now c1) + m * 1000" using run_steps [OF s(2)] by blast
    note count = steps_from_step [OF run_step_now [OF s(1)] m, of t]
    note st = run_step_move [OF s(1) 1(3-8)]
    show ?thesis
    proof (cases "t \<le> sc_now c1")
      case t: True
      then obtain a1 where a1: "queued_for axis (sc_queue c1) = []" "none_in_flight axis tr1" "find_axis axis c1 = Some a1"
        "axis_run 1 now (with_move axis (sint d) (sint r) a) = Some a1"
        using st [of now] by auto
      have "axis_run (1 + m) now (with_move axis (sint d) (sint r) a) = axis_run m now a1"
        unfolding axis_run_add using a1(4) by simp
      then show ?thesis using run_quiet [OF s(2) a1(1-3) m, of now] t count by simp
    next
      case False
      have ok: "queue_ok c1"
      proof (cases rule: run_stepE [OF s(1)])
        case (1 now1 cmds c2 axes events)
        have "queue_ok (c\<lparr>sc_now := now1\<rparr>)" using \<open>queue_ok c\<close> by (simp add: queue_ok_def)
        from queue_ok_start [OF queue_ok_fold_accept [OF this] 1(3)] show ?thesis
          using 1(6,10) start_loop_fields [OF 1(3) [unfolded start_due_def]] by (simp add: queue_ok_def)
      qed
      from st [of now] False 1(5) have "queued_for axis (sc_queue c1) = [\<lparr>qc_execute_at = t, qc_command = Move axis d r\<rparr>]"
        "find_axis axis c1 = Some a" "none_in_flight axis tr1" by simp_all
      then show ?thesis using 1(1) [OF True s(1) refl s(2) _ ok _ _ 1(7,8)] False count by auto
    qed
  next
    case False
    then show ?thesis using 1(2,6) by (simp add: run_stop steps_from_same)
  qed
qed

text \<open>
  Claim C25: a move ends exactly where it should, and when.  Take any run of a controller whose queue is in order and
  holds one command for an axis that stands still, a move by \<open>d\<close> micrometres at a rate \<open>r\<close> that is not negative, with
  no other command for the axis in the queue or in flight.  In every millisecond step of the run from the tick of the
  command on, the axis advances \<open>r div 1000\<close> micrometres; it stops, exactly \<open>d\<close> from where it began, in the first
  step by which that adds up to \<open>d\<close>, and stays there.  So at a rate below 1000 micrometres a second a move of any
  length but zero does not advance and never ends.  Positions and lengths are assumed to fit 64 bits.
\<close>

theorem move_exact:
  assumes "run fo until tr c = Some (tr', c')"
    and "queued_for axis (sc_queue c) = [\<lparr>qc_execute_at = t, qc_command = Move axis d r\<rparr>]" "none_in_flight axis tr"
    and "queue_ok c" "find_axis axis c = Some a" "ax_motion a = None"
    and "0 \<le> sint r" "i64_ok (ax_position_um a)" "i64_ok (sint d)" "i64_ok (ax_position_um a + sint d)"
  shows "let n = steps_from t (sc_now c) (sc_now c'); advance = int n * (sint r div 1000) in
     axis_position_um c' axis = Some (ax_position_um a + (if \<bar>sint d\<bar> \<le> advance then sint d else sgn (sint d) * advance)) \<and>
     (\<exists>a'. find_axis axis c' = Some a' \<and> (ax_motion a' = None \<longleftrightarrow> n = 0 \<or> \<bar>sint d\<bar> \<le> advance))"
proof -
  let ?n = "steps_from t (sc_now c) (sc_now c')" and ?v = "sgn (sint d) * (sint r div 1000)"
  obtain a' where f: "find_axis axis c' = Some a'" and run: "case ?n of 0 \<Rightarrow> a' = a
      | Suc n \<Rightarrow> axis_run (Suc n) 0 (with_move axis (sint d) (sint r) a) = Some a'"
    using run_move [OF assms(1,3,4,2,5-7), of 0] by blast
  have p: "axis_position_um c' axis = Some (ax_position_um a')" using f by (simp add: axis_position_um_def find_axis_def)
  have dv: "0 \<le> sint r div 1000" "sint r div 1000 \<le> sint r"
    using assms(7) div_1000_le by (simp_all add: pos_imp_zdiv_nonneg_iff)
  show ?thesis
  proof (cases ?n)
    case 0
    then show ?thesis using run f p assms(6) by (auto simp: Let_def)
  next
    case (Suc n)
    have sg: "?v \<noteq> 0 \<longrightarrow> sgn ?v = sgn (sint d)" using dv(1) by (auto simp: sgn_mult sgn_if)
    have ok: "i64_ok ?v" using dv sint_less [of r] by (auto simp: i64_ok_def sgn_if)
    have same: "with_move axis (sint d) (sint r) a = a\<lparr>ax_position_um := ax_position_um a, ax_motion := Some
      \<lparr>mo_what = ''move '' @ axis @ '' '' @ dec_int (sint d) @ '' um'', mo_per_ms_um = ?v, mo_remaining_um = sint d,
       mo_homing = False\<rparr>\<rparr>" by (simp add: with_move_def)
    have a': "ax_position_um a' = ax_position_um a + moved ?v (sint d) ?n"
      "ax_motion a' = None \<longleftrightarrow> \<bar>sint d\<bar> \<le> int ?n * \<bar>?v\<bar>"
      using axis_run_move [OF sg assms(8,10,9) ok, where n = ?n and now = 0 and a = a
          and w = "''move '' @ axis @ '' '' @ dec_int (sint d) @ '' um''"] run
      unfolding same [symmetric] Suc by (auto simp del: axis_run.simps)
    have av: "sint d \<noteq> 0 \<Longrightarrow> \<bar>?v\<bar> = sint r div 1000" using dv by (simp add: abs_mult sgn_if)
    have nn: "0 \<le> int ?n * (sint r div 1000)" using dv by simp
    show ?thesis
      using f p a' av nn unfolding Let_def by (cases "sint d = 0") (simp_all add: moved_def Suc)
  qed
qed

definition demo_queued :: "int SimController" where
  "demo_queued = accept \<lparr>ce_execute_at = None, ce_command = Move ''x'' 5 2000\<rparr> demo_controller"

theorem move_exact_witness:
  "\<exists>tr c. run int_ops 3000 (transport_new transport_config_default) demo_queued = Some (tr, c) \<and>
     axis_position_um c ''x'' = Some 5 \<and> map_option ax_motion (find_axis ''x'' c) = Some None"
proof -
  have "map_option (sc_now \<circ> snd) (run int_ops 3000 (transport_new transport_config_default) demo_queued) = Some 3000"
    by code_simp
  then obtain tr c where run: "run int_ops 3000 (transport_new transport_config_default) demo_queued = Some (tr, c)"
    and now: "sc_now c = 3000" by auto
  have q: "queued_for ''x'' (sc_queue demo_queued) = [\<lparr>qc_execute_at = 0, qc_command = Move ''x'' 5 2000\<rparr>]"
    "none_in_flight ''x'' (transport_new transport_config_default)" "sc_now demo_queued = 0" by code_simp+
  have "queue_ok demo_controller" by (simp add: queue_ok_def queue_sorted_def demo_controller_def controller_new_def)
  then have ok: "queue_ok demo_queued" unfolding demo_queued_def by (rule queue_ok_accept)
  have a: "find_axis ''x'' demo_queued =
      Some \<lparr>ax_cfg = \<lparr>ac_name = ''x'', ac_start_position_um = 0\<rparr>, ax_position_um = 0, ax_motion = None\<rparr>"
    using demo_axis by (simp add: find_axis_def demo_queued_def)
  have n: "steps_from 0 0 3000 = 3" by code_simp
  have "sint (2000 :: i64) = 2000" "sint (5 :: i64) = 5" by simp_all
  then show ?thesis using move_exact [OF run q(1,2) ok a] run now q(3) n by (auto simp: Let_def i64_ok_def)
qed

end
