(* ===== verification/Spec2Isabelle.thy ===== *)
theory Spec2Isabelle
  imports Pipeline ClockLink Cli Resources Moves
begin

text \<open>
  A verification development of dryer, in \<^verbatim>\<open>src/crates\<close>.  One half of it is the host runtime: it lowers
  G-code, audits a job, queues it, sends it to a controller over a byte stream, keeps the host and the
  controller clocks together and watches the controllers; a deterministic simulator stands in for the
  controllers.  The other half reads the description of a machine and resolves it: it chooses package
  versions, loads what the packages say, assigns connectors and timers, and derives the safe states and the
  firmware plan of every controller.  The resolved machine is locked, the lock gives the artifacts of each
  controller, and these are flashed.

  \<^bold>\<open>The program.\<close>  \<^verbatim>\<open>control-protocol\<close> defines four frame types and their codec.
  \<^verbatim>\<open>clock-sync\<close> estimates offset and drift of a controller clock from four-timestamp samples.
  \<^verbatim>\<open>control-client\<close> runs clock exchanges and sends commands.  \<^verbatim>\<open>controller-daemon\<close> registers
  controllers, records their heartbeats and statuses and audits them.  \<^verbatim>\<open>transport-adapter\<close> cuts a
  byte stream into frames and dispatches them into the daemon.  \<^verbatim>\<open>toolpath-auditor\<close> checks a job
  against limits; \<^verbatim>\<open>workflow-runner\<close> holds the job queue between the auditor, the reported state
  of a controller and a command client.  \<^verbatim>\<open>simulator\<close> has a lossy command transport, a controller
  with queue, heaters, axes and safety rules, trace replay, and a lossy clock link.
  \<^verbatim>\<open>gcode-lowerer\<close> turns G-code into commands.  \<^verbatim>\<open>machine-schema\<close> has the document of a machine,
  identifiers, quantities and diagnostics; \<^verbatim>\<open>package-model\<close> the packages and what their files hold;
  \<^verbatim>\<open>machine-resolver\<close> runs its phases over them, each adding diagnostics, and stops at the first one
  that ends with an error.  \<^verbatim>\<open>machine-parser\<close> reads a machine from text and locates what is wrong in it;
  \<^verbatim>\<open>machine-lock\<close> writes the lock file of a resolved machine and checks one against its sources;
  \<^verbatim>\<open>firmware-build\<close> derives the safety artifact, the image and the build plan of a controller from a lock
  and verifies them; \<^verbatim>\<open>firmware-flash\<close> plans a flash, checks it and runs the tool; \<^verbatim>\<open>dryer-cli\<close> composes them.

  \<^bold>\<open>The theories\<close>, each for one part and named with its file in its own header:
  \<^item> \<^verbatim>\<open>Prelude\<close>: machine integers, results, slices, bytes, UTF-8, decimal text; the collection
    \<^verbatim>\<open>arith_ops\<close>.  \<^verbatim>\<open>BTree\<close>: the standard library's ordered map and its locale \<^verbatim>\<open>ordered_map\<close>.
  \<^item> \<^verbatim>\<open>Checksum\<close>, \<^verbatim>\<open>Wire\<close>, \<^verbatim>\<open>Wire_Contract\<close>, \<^verbatim>\<open>Codec\<close>, \<^verbatim>\<open>Frames\<close>: \<^verbatim>\<open>control-protocol/src/lib.rs\<close>.
    The abstract format is \<^verbatim>\<open>frame_bytes\<close> with one payload layout per frame; the locale
    \<^verbatim>\<open>frame_format\<close> is the contract of one frame type, interpreted on the four of them.
    Properties: what each encoder writes on every branch, that a decoder accepts exactly the layouts,
    round trips, disjointness of the decoders, and rejection of every change within four bytes.
  \<^item> \<^verbatim>\<open>ClockSync\<close>: \<^verbatim>\<open>clock-sync/src/lib.rs\<close>.  Exactness of the rounding divisions and of an
    observation, atomicity of \<^verbatim>\<open>push\<close>, and soundness of the projected window for every clock whose
    rate keeps the slew bound.
  \<^item> \<^verbatim>\<open>Client\<close>: \<^verbatim>\<open>control-client/src/lib.rs\<close>.  Sessions, exchanges, the multi-controller map and the
    command client, each operation on every branch; requests are numbered without repetition.
  \<^item> \<^verbatim>\<open>Daemon\<close>: \<^verbatim>\<open>controller-daemon/src/lib.rs\<close>.  Invariant over all histories, exact audits.
  \<^item> \<^verbatim>\<open>Framing\<close>: \<^verbatim>\<open>transport-adapter/src/lib.rs\<close>.  Reassembly of frames however the stream is cut,
    resynchronisation after damage, termination of the codec loop, the reader on every outcome.  The
    locale \<^verbatim>\<open>byte_stream\<close> says what a transport promises; the memory and channel transports are its
    interpretations.
  \<^item> \<^verbatim>\<open>ClockLink\<close>: \<^verbatim>\<open>simulator/src/clock_transport.rs\<close> and \<^verbatim>\<open>clock_cluster.rs\<close>, and the closed loop of
    a \<^verbatim>\<open>ClockSession\<close> over that link as an inductive relation: the windows it projects hold the reading
    of a clock that keeps the slew bound, whatever is lost, late or duplicated, if answers take a tick.
  \<^item> \<^verbatim>\<open>Simulator\<close>: \<^verbatim>\<open>simulator/src/lib.rs\<close>.  Acceptance of a command on every branch, the order and
    bound of the queue, safety under a silent host and after a reset, replay.
  \<^item> \<^verbatim>\<open>Moves\<close>: where a queued move has brought its axis after a whole run of the simulator.
  \<^item> \<^verbatim>\<open>Auditor\<close>: \<^verbatim>\<open>toolpath-auditor/src/lib.rs\<close>, equal to a specification per command.
  \<^item> \<^verbatim>\<open>Runner\<close>: \<^verbatim>\<open>workflow-runner/src/lib.rs\<close>.  Conservation and order of commands over all histories,
    bounds of a batch, partial failure of a dispatch.
  \<^item> \<^verbatim>\<open>Pipeline\<close>: runner, client, stream, codec, reader and controller composed; together they refine
    handing the batch to the controller directly.
  \<^item> \<^verbatim>\<open>Floats\<close>, \<^verbatim>\<open>Rust_Text\<close>: the operations on \<^verbatim>\<open>f64\<close> and on text the following ones use.
  \<^item> \<^verbatim>\<open>Gcode\<close>: \<^verbatim>\<open>gcode-lowerer/src/lib.rs\<close>.  The positions it keeps are where its
    commands lead as the auditor computes them, and absolute moves arrive.
  \<^item> \<^verbatim>\<open>Schema\<close>, \<^verbatim>\<open>Packages\<close>, \<^verbatim>\<open>Payloads\<close>: \<^verbatim>\<open>machine-schema/src/lib.rs\<close> and \<^verbatim>\<open>package-model/src\<close>: types,
    lookups, and every check of the six kinds of package file.
  \<^item> \<^verbatim>\<open>Selection\<close>, \<^verbatim>\<open>Closure\<close>: \<^verbatim>\<open>packages.rs\<close> of the resolver.  The versions chosen are consistent, complete
    and the highest possible.
  \<^item> \<^verbatim>\<open>Targets\<close>: \<^verbatim>\<open>targets.rs\<close>, \<^verbatim>\<open>expansion.rs\<close> and \<^verbatim>\<open>requirements.rs\<close>.  Templates only add to a machine.
  \<^item> \<^verbatim>\<open>Capability\<close>, \<^verbatim>\<open>Allocation\<close>, \<^verbatim>\<open>Allocated\<close>: \<^verbatim>\<open>capability.rs\<close>, \<^verbatim>\<open>diagnostics.rs\<close> and \<^verbatim>\<open>allocation.rs\<close>.
    An allocation is exclusive, well placed and complete.
  \<^item> \<^verbatim>\<open>Electrical\<close>, \<^verbatim>\<open>Safety\<close>, \<^verbatim>\<open>Workflows\<close>: \<^verbatim>\<open>electrical.rs\<close>, \<^verbatim>\<open>safety.rs\<close>, \<^verbatim>\<open>workflows.rs\<close> and \<^verbatim>\<open>artifacts.rs\<close>.
    What allocation already ensures for the electrical phase, and the exact safe states of a controller.
  \<^item> \<^verbatim>\<open>Resolver\<close>: \<^verbatim>\<open>lib.rs\<close> and \<^verbatim>\<open>model.rs\<close>, the phases composed.  A resolved machine has no error, a safe
    state for every power output, at most one per output, and a build plan that fits for every controller.
  \<^item> \<^verbatim>\<open>Registry\<close>: the directories of \<^verbatim>\<open>package-model/src/lib.rs\<close>.  A directory is an \<^verbatim>\<open>fs_node\<close>, with links
    and with errors where reading fails.  The index of a registry does not depend on the order in which the
    system lists a directory, and a content hash fixes every file, unless the digest collides.
  \<^item> \<^verbatim>\<open>Locking\<close>: \<^verbatim>\<open>machine-lock/src\<close>.  What validation reports on every lock; a lock of a valid machine
    verifies at once.
  \<^item> \<^verbatim>\<open>Firmware\<close>: \<^verbatim>\<open>firmware-build/src/lib.rs\<close>.  What is derived for a controller, and that verification
    accepts exactly what a build from the same lock writes.
  \<^item> \<^verbatim>\<open>Flash\<close>, \<^verbatim>\<open>Executor\<close>: \<^verbatim>\<open>firmware-flash/src/lib.rs\<close> and \<^verbatim>\<open>executor.rs\<close>.  A rule selects the only device
    that matches it, or none; a plan does nothing; a tool runs only after every check, on the planned bytes.
    The locale \<^verbatim>\<open>flash_executor\<close> is the trait of the executors, interpreted on the native one and the one in
    memory.
  \<^item> \<^verbatim>\<open>Spans\<close>, \<^verbatim>\<open>Parser\<close>: \<^verbatim>\<open>machine-parser/src/spans.rs\<close> and \<^verbatim>\<open>lib.rs\<close>.  The walk over the events of a document is
    a stack machine, and a path is located at its nearest ancestor among the nodes.  A text is accepted exactly when its
    document has no fault, and the last theorem leads from the text of a machine to the safe state of
    every hazardous output in the artifact of its controller.
  \<^item> \<^verbatim>\<open>Resources\<close>: \<^verbatim>\<open>resource-model/src/lib.rs\<close>.  An offer answers a requirement by its constraints in order.
  \<^item> \<^verbatim>\<open>Cli\<close>: the commands of \<^verbatim>\<open>dryer-cli/src/main.rs\<close>, and their exit statuses.

  \<^bold>\<open>Conventions.\<close>  Fixed-width unsigned integers are words.  \<^verbatim>\<open>i64\<close> is a word read with \<^verbatim>\<open>sint\<close> where it
  is data and an \<^verbatim>\<open>int\<close> with range checks where it is computed with; \<^verbatim>\<open>i128\<close> is a range-checked \<^verbatim>\<open>int\<close>.
  A function that can panic, or whose unchecked arithmetic can leave its range, returns an option and
  \<^verbatim>\<open>None\<close> is the panic of a checked build.  Errors are the left side of a sum.  \<^verbatim>\<open>&mut self\<close> is state
  passing.  A trait (\<^verbatim>\<open>HostClock\<close>, \<^verbatim>\<open>FrameSink\<close>, \<^verbatim>\<open>StreamTransport\<close>) is a function argument acting on an
  abstract state.  \<^verbatim>\<open>f64\<close> arithmetic of the heater model is a record of operations.  Loops over data are
  structural; the codec loop ends because every round shortens the buffer, the simulator's run because
  it counts milliseconds; the closure of packages makes at most the 64 rounds of the code's own bound,
  and that many are the only fuel of the development.  What the resolver takes from outside is the record
  \<^verbatim>\<open>environment\<close>: text and arithmetic of \<^verbatim>\<open>f64\<close>, version numbers and ranges (\<^verbatim>\<open>semver\<close>), the parsed files of
  packages, strings in YAML values, positions in sources, and the debug format of lists.  Theorems about it
  assume of them what the YAML parser's maps ensure: keys in order, each once.  Locks and artifacts have more
  parameters of this sort: SHA-256 and hex digits, the JSON and YAML forms of a record and their parsers, the
  snapshot of a package.  The parser of machines takes the typed document and the events the YAML library finds
  in a source.  An executor takes the operating system: writing and removing a file, running a program, the
  clock; discovery takes the list of USB devices.  Error texts of the system are those of Linux.

  \<^bold>\<open>Not modelled.\<close>  The serde forms and the display of diagnostics, JSON schemas and plain getters; the
  YAML, JSON, digest and USB libraries; the dispatch of command line arguments, the server of the \<^verbatim>\<open>ui\<close> command
  and the text commands print; and changes another process makes to the files while an operation reads them.
\<close>

end
